(* ===== verification/Prelude.thy ===== *)
theory Prelude
  imports Main "HOL-Library.Word" "HOL-Library.Monad_Syntax"
begin

text \<open>
  Shared material of the development: the machine-integer types of the Rust sources, little-endian
  byte conversion (\<open>to_le_bytes\<close>, \<open>from_le_bytes\<close>), slicing of lists into chunks
  (\<open>chunks_exact\<close>), and the generic facts on words, lists and options that the component
  theories use. Two collections are filled by the components: \<open>unat_simps\<close> holds the
  equations that move an expression from words to natural numbers, \<open>fault_simps\<close> holds the
  equations that show that an access does not fault.
\<close>

unbundle bit_operations_syntax

named_theorems unat_simps
named_theorems fault_simps

type_synonym u8 = "8 word"
type_synonym u16 = "16 word"
type_synonym u32 = "32 word"
type_synonym u64 = "64 word"
type_synonym u128 = "128 word"

section \<open>Words\<close>

lemma unat_lt_u8 [simp]: "unat (w :: u8) < 256"
  using unsigned_less [of w] by simp

lemma unat_lt_u32: "unat (w :: u32) < 2 ^ 32"
  using unsigned_less [of w] by simp

lemma unat_lt_u64: "unat (w :: u64) < 2 ^ 64"
  using unsigned_less [of w] by simp

lemma unat_lt_u128: "unat (w :: u128) < 2 ^ 128"
  using unsigned_less [of w] by simp

lemma unat_add_bounded [unat_simps]:
  "unat a + unat b < 2 ^ LENGTH('a) \<Longrightarrow> unat (a + b) = unat a + unat (b :: 'a::len word)"
  by (simp add: unat_word_ariths)

lemma unat_mult_bounded [unat_simps]:
  "unat a * unat b < 2 ^ LENGTH('a) \<Longrightarrow> unat (a * b) = unat a * unat (b :: 'a::len word)"
  by (simp add: unat_word_ariths)

lemma unat_sub_bounded [unat_simps]:
  "unat b \<le> unat a \<Longrightarrow> unat (a - b) = unat a - unat (b :: 'a::len word)"
  by (simp add: unat_sub word_le_nat_alt)

lemma unat_push_bit_bounded [unat_simps]:
  "unat a * 2 ^ n < 2 ^ LENGTH('a) \<Longrightarrow> unat (push_bit n a) = unat (a :: 'a::len word) * 2 ^ n"
  by (metis push_bit_eq_mult push_bit_nat_def take_bit_nat_eq_self unsigned_push_bit_eq)

lemma unat_and_mask_eq [unat_simps]:
  "unat (w AND mask n) = unat (w :: 'a::len word) mod 2 ^ n"
  by (metis take_bit_eq_mask take_bit_eq_mod unsigned_take_bit_eq)

lemma unat_ucast_widen [unat_simps]:
  "LENGTH('a) \<le> LENGTH('b) \<Longrightarrow> unat (ucast (w :: 'a::len word) :: 'b::len word) = unat w"
  by (simp add: unsigned_ucast_eq take_bit_nat_eq_self order_less_le_trans [OF unsigned_less])

lemma unat_drop_bit [unat_simps]: "unat (drop_bit n w) = unat (w :: 'a::len word) div 2 ^ n"
  by (subst unat_drop_bit_eq) (rule drop_bit_eq_div)

lemma bit_unat_iff: "bit w n \<longleftrightarrow> odd (unat (w :: 'a::len word) div 2 ^ n)"
proof -
  have "bit w n \<longleftrightarrow> bit (unat w) n"
    by (auto simp: bit_unsigned_iff dest: bit_imp_le_length)
  then show ?thesis by (simp add: bit_iff_odd)
qed

lemma div_mod_unique:
  "m < d \<Longrightarrow> (k * d + m) div d = k" "m < d \<Longrightarrow> (k * d + m) mod d = m" for k m d :: nat
  by simp_all

lemma xor_self_cancel [simp]: "(a XOR b) XOR b = (a :: 'a::len word)"
  by (simp add: xor.assoc)

lemma xor_left_cancel [simp]: "a XOR (a XOR b) = (b :: 'a::len word)"
  by (simp add: xor.assoc [symmetric])

lemma xor_right_inject [simp]: "a XOR k = b XOR k \<longleftrightarrow> a = (b :: 'a::len word)"
proof
  assume "a XOR k = b XOR k"
  then have "(a XOR k) XOR k = (b XOR k) XOR k" by (rule arg_cong)
  then show "a = b" by (simp only: xor_self_cancel)
qed simp

section \<open>Little-endian bytes\<close>

definition to_le_bytes :: "nat \<Rightarrow> 'a::len word \<Rightarrow> u8 list" where
  "to_le_bytes n w = map (\<lambda>i. ucast (drop_bit (8 * i) w)) [0..<n]"

primrec from_le_bytes :: "u8 list \<Rightarrow> 'a::len word" where
  "from_le_bytes [] = 0"
| "from_le_bytes (b # bs) = ucast b OR push_bit 8 (from_le_bytes bs)"

lemma length_to_le_bytes [simp]: "length (to_le_bytes n w) = n"
  by (simp add: to_le_bytes_def)

lemma nth_to_le_bytes [simp]:
  "i < n \<Longrightarrow> to_le_bytes n w ! i = ucast (drop_bit (8 * i) w)"
  by (simp add: to_le_bytes_def)

lemma bit_from_le_bytes:
  "bit (from_le_bytes bs :: 'a::len word) i \<longleftrightarrow>
     i < LENGTH('a) \<and> i div 8 < length bs \<and> bit (bs ! (i div 8)) (i mod 8)"
proof (induction bs arbitrary: i)
  case Nil
  then show ?case by simp
next
  case (Cons b bs)
  show ?case
  proof (cases "i < 8")
    case True
    then show ?thesis
      by (auto simp: bit_or_iff bit_push_bit_iff bit_unsigned_iff dest: bit_imp_le_length)
  next
    case False
    then have "\<not> bit b i"
      using bit_imp_le_length [of b i] by auto
    moreover have "i div 8 = Suc ((i - 8) div 8)" "(i - 8) mod 8 = i mod 8"
      using False by (auto simp: le_div_geq le_mod_geq)
    ultimately show ?thesis
      using False Cons.IH [of "i - 8"]
      by (auto simp: bit_or_iff bit_push_bit_iff bit_unsigned_iff)
  qed
qed

lemma from_to_le_bytes:
  assumes "LENGTH('a::len) = 8 * n"
  shows "from_le_bytes (to_le_bytes n w) = (w :: 'a word)"
proof (rule bit_word_eqI)
  fix i assume i: "i < LENGTH('a)"
  then have d: "i div 8 < n" using assms by auto
  show "bit (from_le_bytes (to_le_bytes n w) :: 'a word) i = bit w i"
    using i d
    by (auto simp: bit_from_le_bytes bit_unsigned_iff bit_drop_bit_eq mod_mult_div_eq)
qed

lemma to_from_le_bytes:
  assumes "LENGTH('a::len) = 8 * length bs"
  shows "to_le_bytes (length bs) (from_le_bytes bs :: 'a word) = bs"
proof (rule nth_equalityI)
  show "length (to_le_bytes (length bs) (from_le_bytes bs :: 'a word)) = length bs" by simp
next
  fix i assume "i < length (to_le_bytes (length bs) (from_le_bytes bs :: 'a word))"
  then have i: "i < length bs" by simp
  show "to_le_bytes (length bs) (from_le_bytes bs :: 'a word) ! i = bs ! i"
  proof (rule bit_word_eqI)
    fix k assume k: "k < LENGTH(8)"
    then have "8 * i + k < LENGTH('a)" using i assms by auto
    then show "bit (to_le_bytes (length bs) (from_le_bytes bs :: 'a word) ! i) k = bit (bs ! i) k"
      using i k by (simp add: bit_unsigned_iff bit_drop_bit_eq bit_from_le_bytes)
  qed
qed

section \<open>Chunks of a list\<close>

text \<open>The slices \<open>xs.chunks_exact(n)\<close>: consecutive pieces of exactly \<open>n\<close> elements;
  \<open>chunks_rest\<close> is \<open>remainder()\<close>.\<close>

function chunks_exact :: "nat \<Rightarrow> 'a list \<Rightarrow> 'a list list" where
  "chunks_exact n xs =
     (if 0 < n \<and> n \<le> length xs then take n xs # chunks_exact n (drop n xs) else [])"
  by pat_completeness auto
termination
  by (relation "measure (\<lambda>(n, xs). length xs)") auto

function chunks_rest :: "nat \<Rightarrow> 'a list \<Rightarrow> 'a list" where
  "chunks_rest n xs = (if 0 < n \<and> n \<le> length xs then chunks_rest n (drop n xs) else xs)"
  by pat_completeness auto
termination
  by (relation "measure (\<lambda>(n, xs). length xs)") auto

declare chunks_exact.simps [simp del] chunks_rest.simps [simp del]

lemma concat_chunks_exact: "concat (chunks_exact n xs) @ chunks_rest n xs = xs"
proof (induction n xs rule: chunks_exact.induct)
  case (1 n xs)
  then show ?case
    by (cases "0 < n \<and> n \<le> length xs")
       (auto simp: chunks_exact.simps [of n xs] chunks_rest.simps [of n xs])
qed

lemma length_chunks_exact_elem: "c \<in> set (chunks_exact n xs) \<Longrightarrow> length c = n"
proof (induction n xs rule: chunks_exact.induct)
  case (1 n xs)
  then show ?case
    by (auto simp: chunks_exact.simps [of n xs] split: if_splits)
qed

lemma length_chunks_rest: "0 < n \<Longrightarrow> length (chunks_rest n xs) = length xs mod n"
proof (induction n xs rule: chunks_rest.induct)
  case (1 n xs)
  then show ?case
    by (cases "n \<le> length xs") (auto simp: chunks_rest.simps [of n xs] le_mod_geq)
qed

lemma length_chunks_exact: "0 < n \<Longrightarrow> length (chunks_exact n xs) = length xs div n"
proof (induction n xs rule: chunks_exact.induct)
  case (1 n xs)
  then show ?case
    by (cases "n \<le> length xs") (auto simp: chunks_exact.simps [of n xs] le_div_geq)
qed

section \<open>Loops whose body may fail\<close>

primrec foldl_option :: "('a \<Rightarrow> 's \<Rightarrow> 's option) \<Rightarrow> 'a list \<Rightarrow> 's \<Rightarrow> 's option" where
  "foldl_option f [] s = Some s"
| "foldl_option f (x # xs) s = do { s \<leftarrow> f x s; foldl_option f xs s }"

primrec map_option_list :: "('a \<Rightarrow> 'b option) \<Rightarrow> 'a list \<Rightarrow> 'b list option" where
  "map_option_list f [] = Some []"
| "map_option_list f (x # xs) = do { y \<leftarrow> f x; ys \<leftarrow> map_option_list f xs; Some (y # ys) }"

lemma foldl_option_append:
  "foldl_option f (xs @ ys) s = Option.bind (foldl_option f xs s) (foldl_option f ys)"
  by (induction xs arbitrary: s) (auto simp: bind_assoc Option.bind_assoc split: Option.bind_splits)

text \<open>The loop rule: an invariant indexed by the loop counter.\<close>

lemma foldl_option_upt:
  assumes "a \<le> b" "P a s"
    and step: "\<And>i s. a \<le> i \<Longrightarrow> i < b \<Longrightarrow> P i s \<Longrightarrow> \<exists>s'. f i s = Some s' \<and> P (Suc i) s'"
  shows "\<exists>s'. foldl_option f [a..<b] s = Some s' \<and> P b s'"
  using assms(1) step
proof (induction b rule: dec_induct)
  case base
  then show ?case using assms(2) by simp
next
  case (step b)
  then obtain s1 where s1: "foldl_option f [a..<b] s = Some s1" "P b s1" by (meson less_SucI)
  obtain s2 where s2: "f b s1 = Some s2" "P (Suc b) s2"
    using step.prems [of b s1] step.hyps s1(2) by auto
  have "[a..<Suc b] = [a..<b] @ [b]" using step.hyps by simp
  then show ?case using s1 s2 by (simp only: foldl_option_append) simp
qed

text \<open>A loop that simulates a loop that cannot fail.\<close>

lemma foldl_option_refine:
  assumes "R s t" "\<And>x s t. x \<in> set xs \<Longrightarrow> R s t \<Longrightarrow> \<exists>s'. f x s = Some s' \<and> R s' (h x t)"
  shows "\<exists>s'. foldl_option f xs s = Some s' \<and> R s' (fold h xs t)"
  using assms
proof (induction xs arbitrary: s t)
  case (Cons x xs)
  then obtain s1 where "f x s = Some s1" "R s1 (h x t)" by (meson list.set_intros(1))
  with Cons show ?case by simp
qed simp

text \<open>A loop whose body commutes with a change of the state.\<close>

lemma foldl_option_commute:
  assumes "\<And>x s. f x (h s) = map_option h (f x s)"
  shows "foldl_option f xs (h s) = map_option h (foldl_option f xs s)"
proof (induction xs arbitrary: s)
  case (Cons x xs)
  then show ?case by (cases "f x s") (simp_all add: assms)
qed simp

text \<open>A loop that returns exactly when every element is acceptable.\<close>

lemma foldl_option_exact:
  assumes "\<And>x s. P s \<Longrightarrow> if good x then \<exists>s'. f x s = Some s' \<and> P s' else f x s = None" "P s"
  shows "if \<forall>x \<in> set xs. good x then \<exists>s'. foldl_option f xs s = Some s' \<and> P s' else foldl_option f xs s = None"
  using assms(2)
proof (induction xs arbitrary: s)
  case (Cons x xs)
  show ?case
  proof (cases "good x")
    case True
    then obtain s1 where "f x s = Some s1" "P s1" using assms(1) [of s x] Cons.prems by auto
    then show ?thesis using Cons.IH [of s1] True by simp
  qed (use assms(1) [of s x] Cons.prems in auto)
qed simp

lemma foldl_option_map: "foldl_option f (map h xs) s = foldl_option (f \<circ> h) xs s"
  by (induction xs arbitrary: s) simp_all

lemma length_map_option_list: "map_option_list f xs = Some ys \<Longrightarrow> length ys = length xs"
  by (induction xs arbitrary: ys) (auto simp: bind_eq_Some_conv)

lemma map_option_list_eqI:
  "(\<And>x. x \<in> set xs \<Longrightarrow> f x = Some (h x)) \<Longrightarrow> map_option_list f xs = Some (map h xs)"
  by (induction xs) simp_all

section \<open>Assertions\<close>

text \<open>An assertion panics, which is \<open>None\<close>, when its condition is false.\<close>

definition must :: "bool \<Rightarrow> unit option" where
  "must b = (if b then Some () else None)"

lemma must_eq_Some [simp]: "must b = Some u \<longleftrightarrow> b"
  by (simp add: must_def)

lemma bind_must [simp]: "b \<Longrightarrow> Option.bind (must b) f = f ()"
  by (simp add: must_def)

text \<open>A loop whose body only asserts.\<close>

definition for_each :: "('a \<Rightarrow> unit option) \<Rightarrow> 'a list \<Rightarrow> unit option" where
  "for_each f xs = foldl_option (\<lambda>x _. f x) xs ()"

lemma for_each_Some [simp]: "for_each f xs = Some u \<longleftrightarrow> (\<forall>x \<in> set xs. f x = Some ())"
  unfolding for_each_def by (induction xs) (auto simp: bind_eq_Some_conv)

lemma for_each_passes: "(\<And>x. x \<in> set xs \<Longrightarrow> f x = Some ()) \<Longrightarrow> for_each f xs = Some ()"
  by simp

end
