(* ===== verification/Common.thy ===== *)
theory Common
  imports Prelude
begin

text \<open>
  Model of \<open>randomx-core/src/common.rs\<close>: sign extension of 32-bit immediates, the high
  halves of 64-bit products, and the RandomX reciprocal. The lemmas identify each routine with its
  arithmetic meaning.
\<close>

section \<open>Definitions\<close>

definition P_2EXP63 :: u64 where
  "P_2EXP63 = 0x8000000000000000"

definition INT32_MAX :: u32 where
  "INT32_MAX = 0x7fffffff"

text \<open>An \<open>i32\<close> is its 32-bit pattern, so \<open>imm as u32\<close> is the identity.\<close>

definition u64_from_i32_imm :: "u32 \<Rightarrow> u64" where
  "u64_from_i32_imm imm =
     (let x = imm in if x > INT32_MAX then ucast x OR 0xffffffff00000000 else ucast x)"

definition u64_from_u32_imm :: "u32 \<Rightarrow> u64" where
  "u64_from_u32_imm imm = (if imm > INT32_MAX then ucast imm OR 0xffffffff00000000 else ucast imm)"

definition mulh :: "u64 \<Rightarrow> u64 \<Rightarrow> u64" where
  "mulh a b = ucast (drop_bit 64 ((ucast a :: u128) * ucast b))"

definition smulh :: "u64 \<Rightarrow> u64 \<Rightarrow> u64" where
  "smulh a b =
     (let v_src = scast a :: u128; v_dst = scast b :: u128
      in ucast (signed_drop_bit 64 (v_src * v_dst)))"

text \<open>The two loops of \<open>randomx_reciprocal\<close>: counting the bits of the divisor, and the
  long division that appends one quotient bit per round.\<close>

function bsr_loop :: "u64 \<Rightarrow> nat \<Rightarrow> nat" where
  "bsr_loop b bsr = (if b = 0 then bsr else bsr_loop (drop_bit 1 b) (bsr + 1))"
  by pat_completeness auto
termination
proof (relation "measure (\<lambda>(b, bsr). unat b)", simp)
  fix b :: u64 and bsr :: nat
  assume "b \<noteq> 0"
  then show "((drop_bit 1 b, bsr + 1), b, bsr) \<in> measure (\<lambda>(b, bsr). unat b)"
    by (simp add: drop_bit_eq_div unat_div_distrib unat_gt_0)
qed

primrec reciprocal_loop :: "nat \<Rightarrow> u64 \<Rightarrow> u64 \<Rightarrow> u64 \<Rightarrow> u64" where
  "reciprocal_loop 0 divisor quo rmd = quo"
| "reciprocal_loop (Suc n) divisor quo rmd =
     (if rmd \<ge> divisor - rmd
      then reciprocal_loop n divisor (quo * 2 + 1) (rmd * 2 - divisor)
      else reciprocal_loop n divisor (quo * 2) (rmd * 2))"

text \<open>\<open>None\<close> is the failed \<open>assert_ne!(divisor, 0)\<close>.\<close>

definition randomx_reciprocal :: "u64 \<Rightarrow> u64 option" where
  "randomx_reciprocal divisor =
     (if divisor = 0 then None
      else Some (reciprocal_loop (bsr_loop divisor 0) divisor
                   (P_2EXP63 div divisor) (P_2EXP63 mod divisor)))"

declare bsr_loop.simps [simp del]

section \<open>Sign extension\<close>

lemma bit_31_iff: "bit (imm :: u32) 31 \<longleftrightarrow> imm > INT32_MAX"
proof -
  have "bit imm 31 \<longleftrightarrow> odd (unat imm div 2 ^ 31)"
    by (rule bit_unat_iff)
  also have "\<dots> \<longleftrightarrow> 2 ^ 31 \<le> unat imm"
    using unat_lt_u32 [of imm] by (auto simp: odd_iff_mod_2_eq_one div_eq_dividend_iff)
  also have "\<dots> \<longleftrightarrow> imm > INT32_MAX"
    by (auto simp: INT32_MAX_def word_less_nat_alt)
  finally show ?thesis .
qed

lemma high_half_eq: "(0xffffffff00000000 :: u64) = push_bit 32 (mask 32)"
  by (simp add: mask_eq_exp_minus_1)

lemma u64_from_i32_imm_scast: "u64_from_i32_imm imm = scast imm"
proof (rule bit_word_eqI)
  fix n assume n: "n < LENGTH(64)"
  have "bit imm n \<Longrightarrow> n < 32"
    by (drule bit_imp_le_length) simp
  then show "bit (u64_from_i32_imm imm) n = bit (scast imm :: u64) n"
    using n
    by (cases "n = 31")
       (auto simp: u64_from_i32_imm_def bit_31_iff [symmetric] high_half_eq bit_or_iff
          bit_push_bit_iff bit_mask_iff bit_unsigned_iff bit_signed_iff min_def)
qed

lemma u64_from_u32_imm_scast: "u64_from_u32_imm imm = scast imm"
  using u64_from_i32_imm_scast [of imm]
  by (simp add: u64_from_i32_imm_def u64_from_u32_imm_def Let_def)

section \<open>High multiplication\<close>

lemma mulh_correct: "unat (mulh a b) = unat a * unat b div 2 ^ 64"
proof -
  have "unat a * unat b < 2 ^ 64 * 2 ^ 64"
    by (rule mult_strict_mono) (use unat_lt_u64 [of a] unat_lt_u64 [of b] in auto)
  then have lt: "unat a * unat b < 2 ^ 128"
    by (simp flip: power_add)
  then have prod: "unat ((ucast a :: u128) * ucast b) = unat a * unat b"
    by (simp add: unat_simps)
  have "unat a * unat b div 2 ^ 64 < 2 ^ 64"
    using lt by (simp add: div_less_iff_less_mult flip: power_add)
  then show ?thesis
    by (simp only: mulh_def unsigned_ucast_eq unat_drop_bit prod)
       (simp add: take_bit_nat_eq_self)
qed

lemma smulh_correct: "sint (smulh a b) = sint a * sint b div 2 ^ 64"
proof -
  have lo: "- (2 ^ 63) \<le> sint a" "- (2 ^ 63) \<le> sint b"
    using sint_ge [of a] sint_ge [of b] by simp_all
  have hi: "sint a < 2 ^ 63" "sint b < 2 ^ 63"
    using sint_lt [of a] sint_lt [of b] by simp_all
  have "\<bar>sint a * sint b\<bar> \<le> 2 ^ 63 * 2 ^ 63"
    unfolding abs_mult by (rule mult_mono) (use lo hi in auto)
  then have range: "- (2 ^ 126) \<le> sint a * sint b" "sint a * sint b \<le> 2 ^ 126"
    by simp_all
  have "sint (scast a :: u128) = sint a" "sint (scast b :: u128) = sint b"
    by (simp_all add: sint_up_scast is_up)
  then have prod: "sint ((scast a :: u128) * scast b) = sint a * sint b"
    using range by (simp add: sint_word_ariths signed_take_bit_int_eq_self)
  have "- (2 ^ 63) \<le> sint a * sint b div 2 ^ 64" "sint a * sint b div 2 ^ 64 < 2 ^ 63"
    using range by auto
  moreover have "signed_take_bit 63 (uint w) = signed_take_bit 63 (sint w)" for w :: u128
    by (simp add: sint_uint)
  ultimately show ?thesis
    by (simp add: smulh_def Let_def signed_ucast_eq sint_signed_drop_bit_eq prod
          signed_take_bit_int_eq_self drop_bit_eq_div)
qed

section \<open>The reciprocal\<close>

text \<open>The first loop returns the bit length of the divisor.\<close>

lemma bsr_loop_bounds:
  "b \<noteq> 0 \<Longrightarrow> \<exists>k. bsr_loop b n = n + Suc k \<and> 2 ^ k \<le> unat b \<and> unat b < 2 ^ Suc k"
proof (induction b n rule: bsr_loop.induct)
  case (1 b n)
  show ?case
  proof (cases "drop_bit 1 b = 0")
    case True
    then have "unat b div 2 = 0"
      by (metis drop_bit_eq_div power_one_right unat_0 unat_drop_bit_eq)
    then have "unat b < 2" by (simp add: div_eq_0_iff)
    moreover have "0 < unat b" using "1.prems" by (simp add: unat_gt_0)
    moreover have "bsr_loop b n = n + Suc 0"
      using True "1.prems" by (simp add: bsr_loop.simps [of b n] bsr_loop.simps [of 0])
    ultimately show ?thesis by (intro exI [of _ 0]) auto
  next
    case False
    with "1.IH" "1.prems" obtain k where k: "bsr_loop (drop_bit 1 b) (n + 1) = n + 1 + Suc k"
      "2 ^ k \<le> unat (drop_bit 1 b)" "unat (drop_bit 1 b) < 2 ^ Suc k"
      by auto
    moreover have "unat (drop_bit 1 b) = unat b div 2"
      by (simp only: unat_drop_bit) simp
    moreover have "bsr_loop b n = bsr_loop (drop_bit 1 b) (n + 1)"
      using "1.prems" by (simp add: bsr_loop.simps [of b n])
    ultimately show ?thesis by (intro exI [of _ "Suc k"]) auto
  qed
qed

text \<open>The invariant of the second loop: quotient and remainder of \<open>2 ^ i\<close> by the divisor.\<close>

lemma reciprocal_loop_correct:
  assumes "d \<noteq> 0" "of_nat (2 ^ i div unat d) = q" "unat r = 2 ^ i mod unat d"
  shows "reciprocal_loop n d q r = of_nat (2 ^ (i + n) div unat d)"
  using assms(2,3)
proof (induction n arbitrary: i q r)
  case 0
  then show ?case by simp
next
  case (Suc n)
  let ?d = "unat d" and ?q = "2 ^ i div unat d :: nat" and ?r = "2 ^ i mod unat d :: nat"
  have d: "0 < ?d" using assms(1) by (simp add: unat_gt_0)
  have r: "unat r < ?d" using Suc.prems(2) d by simp
  have "unat (d - r) = ?d - unat r" using r by (simp add: unat_sub_bounded)
  then have guard: "r \<ge> d - r \<longleftrightarrow> ?d \<le> 2 * unat r"
    using r by (auto simp: word_le_nat_alt)
  have split: "2 ^ Suc i = 2 * ?q * ?d + 2 * ?r"
  proof -
    have "2 * 2 ^ i = 2 * (?q * ?d + ?r)"
      by (simp only: div_mult_mod_eq)
    then show ?thesis by (simp only: power_Suc distrib_left mult.assoc)
  qed
  show ?case
  proof (cases "?d \<le> 2 * ?r")
    case True
    have eq: "2 ^ Suc i = (2 * ?q + 1) * ?d + (2 * ?r - ?d)" and lt: "2 * ?r - ?d < ?d"
      using split True Suc.prems(2) r by (auto simp: algebra_simps)
    from div_mod_unique [OF lt, of "2 * ?q + 1"]
    have dm': "2 ^ Suc i div ?d = 2 * ?q + 1" "2 ^ Suc i mod ?d = 2 * ?r - ?d"
      by (simp_all only: eq [symmetric])
    have r': "unat (r * 2 - d) = 2 * ?r - ?d"
    proof -
      have "r * 2 - d = of_nat (2 * ?r - ?d)"
        using True by (simp add: of_nat_diff flip: Suc.prems(2))
      then show ?thesis
        using lt unat_lt_u64 [of d] by (simp add: unat_of_nat)
    qed
    have "reciprocal_loop n d (q * 2 + 1) (r * 2 - d) = of_nat (2 ^ (Suc i + n) div ?d)"
      by (rule Suc.IH) (use dm' r' in \<open>simp_all add: flip: Suc.prems(1)\<close>)
    then show ?thesis using True guard Suc.prems(2) by simp
  next
    case False
    then have lt: "2 * ?r < ?d" by simp
    from div_mod_unique [OF lt, of "2 * ?q"]
    have dm': "2 ^ Suc i div ?d = 2 * ?q" "2 ^ Suc i mod ?d = 2 * ?r"
      by (simp_all only: split [symmetric])
    have r': "unat (r * 2) = 2 * ?r"
      using False unat_lt_u64 [of d] Suc.prems(2)
      by (subst unat_mult_bounded) (auto simp: mult.commute)
    have "reciprocal_loop n d (q * 2) (r * 2) = of_nat (2 ^ (Suc i + n) div ?d)"
      by (rule Suc.IH) (use dm' r' in \<open>simp_all add: flip: Suc.prems(1)\<close>)
    then show ?thesis using False guard Suc.prems(2) by simp
  qed
qed

lemma reciprocal_eq:
  assumes "d \<noteq> 0" "2 ^ k \<le> unat d" "unat d < 2 ^ Suc k"
  shows "randomx_reciprocal d = Some (of_nat (2 ^ (64 + k) div unat d))"
proof -
  obtain j where j: "bsr_loop d 0 = Suc j" "2 ^ j \<le> unat d" "unat d < 2 ^ Suc j"
    using bsr_loop_bounds [OF assms(1), of 0] by auto
  have "(2 :: nat) ^ j < 2 ^ Suc k" "(2 :: nat) ^ k < 2 ^ Suc j"
    using j assms by linarith+
  then have "j < Suc k" "k < Suc j"
    by (simp_all only: power_strict_increasing_iff one_less_numeral_iff semiring_norm)
  then have "j = k" by simp
  have "unat P_2EXP63 = 2 ^ 63" by (simp add: P_2EXP63_def)
  then have "of_nat (2 ^ 63 div unat d) = (of_nat (unat (P_2EXP63 div d)) :: u64)"
    "unat (P_2EXP63 mod d) = 2 ^ 63 mod unat d"
    by (simp_all only: unat_div_distrib unat_mod_distrib)
  then show ?thesis
    using assms(1) j(1) \<open>j = k\<close> reciprocal_loop_correct [of d 63 _ _ "Suc k"]
    by (simp add: randomx_reciprocal_def)
qed

section \<open>Properties\<close>

text \<open>C38: For a divisor that is neither zero nor a power of two, \<open>randomx_reciprocal\<close> returns
  \<open>2 ^ x div divisor\<close> for the greatest \<open>x\<close> for which that quotient fits 64 bits, the
  definition of the RandomX specification.\<close>

theorem randomx_reciprocal_correct:
  assumes "d \<noteq> 0" "\<forall>k. unat d \<noteq> 2 ^ k"
  shows "\<exists>x r. randomx_reciprocal d = Some r \<and> unat r = 2 ^ x div unat d \<and>
               (\<forall>y. 2 ^ y div unat d < 2 ^ 64 \<longleftrightarrow> y \<le> x)"
proof -
  obtain k where k: "2 ^ k \<le> unat d" "unat d < 2 ^ Suc k"
    using bsr_loop_bounds [OF assms(1), of 0] by auto
  then have lt: "2 ^ k < unat d" using assms(2) by (metis le_neq_implies_less)
  have fits: "2 ^ y div unat d < 2 ^ 64 \<longleftrightarrow> y \<le> 64 + k" for y
  proof
    assume "y \<le> 64 + k"
    then have "(2 :: nat) ^ y \<le> 2 ^ (64 + k)" by (intro power_increasing) simp_all
    also have "\<dots> = 2 ^ 64 * 2 ^ k" by (rule power_add)
    also have "\<dots> < 2 ^ 64 * unat d" using lt by simp
    finally show "2 ^ y div unat d < 2 ^ 64"
      using lt by (subst div_less_iff_less_mult) auto
  next
    assume "2 ^ y div unat d < 2 ^ 64"
    then have "2 ^ y < 2 ^ 64 * unat d"
      using lt by (subst (asm) div_less_iff_less_mult) auto
    also have "\<dots> < 2 ^ 64 * 2 ^ Suc k" using k(2) by simp
    finally have "(2 :: nat) ^ y < 2 ^ (65 + k)" by (simp add: power_add)
    then have "y < 65 + k" by (simp only: power_strict_increasing_iff one_less_numeral_iff semiring_norm)
    then show "y \<le> 64 + k" by simp
  qed
  moreover have "unat (of_nat (2 ^ (64 + k) div unat d) :: u64) = 2 ^ (64 + k) div unat d"
    using fits [of "64 + k"] by (simp add: unat_of_nat)
  ultimately show ?thesis
    using reciprocal_eq [OF assms(1) k] by blast
qed

theorem randomx_reciprocal_correct_witness:
  "\<exists>x r. randomx_reciprocal 13 = Some r \<and> unat r = 2 ^ x div 13 \<and>
         (\<forall>y. 2 ^ y div (13 :: nat) < 2 ^ 64 \<longleftrightarrow> y \<le> x)"
proof -
  have "(13 :: nat) \<noteq> 2 ^ k" for k
    by (cases k) (simp, metis even_numeral even_mult_iff odd_numeral power_Suc)
  then show ?thesis using randomx_reciprocal_correct [of 13] by simp
qed

text \<open>\<open>mulh\<close> and \<open>smulh\<close> return the high 64 bits of the full unsigned and signed
  product: the 128-bit intermediate product never wraps.\<close>

theorem mulh_smulh_correct:
  "unat (mulh a b) = unat a * unat b div 2 ^ 64 \<and> sint (smulh a b) = sint a * sint b div 2 ^ 64"
  using mulh_correct smulh_correct by simp

end
