(* ===== verification/Float64.thy ===== *)
theory Float64
  imports Prelude
begin

text \<open>
  IEEE 754 binary64 arithmetic on bit patterns, the semantics of the language's \<open>f64\<close>
  operators. The finite magnitudes and infinity are numbered by their bit pattern without the
  sign, \<open>0 \<le> m \<le> 0x7ff0000000000000\<close>; \<open>mval m\<close> is the value of number \<open>m\<close> in units
  of \<open>2 ^ -1074\<close>, the spacing of the subnormal numbers. An exact result is given by natural
  numbers \<open>p\<close>, \<open>N\<close> and \<open>D\<close>: the non-negative \<open>x\<close> (in the same unit) with
  \<open>x ^ p * D = N\<close>. Rounding finds the last number not above \<open>x\<close> and chooses between it
  and its successor. All of it is computable.
\<close>

section \<open>Numbers and values\<close>

datatype RoundingMode = Nearest | Down | Up | TowardZero

definition mval :: "nat \<Rightarrow> nat" where
  "mval m = (let e = m div 2 ^ 52; f = m mod 2 ^ 52
             in if e = 0 then f else (2 ^ 52 + f) * 2 ^ (e - 1))"

definition inf_index :: nat where
  "inf_index = 0x7ff0000000000000"

definition f64_neg :: "u64 \<Rightarrow> bool" where
  "f64_neg a \<longleftrightarrow> 2 ^ 63 \<le> unat a"

definition f64_idx :: "u64 \<Rightarrow> nat" where
  "f64_idx a = unat a mod 2 ^ 63"

definition mk_f64 :: "bool \<Rightarrow> nat \<Rightarrow> u64" where
  "mk_f64 neg m = of_nat (m + (if neg then 2 ^ 63 else 0))"

abbreviation f64_finite :: "u64 \<Rightarrow> bool" where
  "f64_finite a \<equiv> f64_idx a < inf_index"

abbreviation f64_inf :: "u64 \<Rightarrow> bool" where
  "f64_inf a \<equiv> f64_idx a = inf_index"

abbreviation f64_nan :: "u64 \<Rightarrow> bool" where
  "f64_nan a \<equiv> inf_index < f64_idx a"

text \<open>Rust leaves the payload of a NaN result open; this is the quiet NaN of the hardware
  targets. No theorem below rests on it.\<close>

definition default_nan :: u64 where
  "default_nan = 0x7ff8000000000000"

section \<open>Rounding\<close>

text \<open>Binary search for the last number that satisfies a downward closed predicate.\<close>

primrec search :: "(nat \<Rightarrow> bool) \<Rightarrow> nat \<Rightarrow> nat \<Rightarrow> nat" where
  "search P 0 m = m"
| "search P (Suc k) m = search P k (if P (m + 2 ^ k) then m + 2 ^ k else m)"

definition round_down_index :: "nat \<Rightarrow> nat \<Rightarrow> nat \<Rightarrow> nat" where
  "round_down_index p N D = search (\<lambda>m. m < inf_index \<and> mval m ^ p * D \<le> N) 63 0"

definition round_mag :: "RoundingMode \<Rightarrow> bool \<Rightarrow> nat \<Rightarrow> nat \<Rightarrow> nat \<Rightarrow> nat" where
  "round_mag mode neg p N D =
     (let m = round_down_index p N D; s = mval m + mval (Suc m) in
      if mval m ^ p * D = N then m
      else case mode of
        Nearest \<Rightarrow> if s ^ p * D < 2 ^ p * N then Suc m
                   else if s ^ p * D = 2 ^ p * N then (if even m then m else Suc m)
                   else m
      | Down \<Rightarrow> if neg then Suc m else m
      | Up \<Rightarrow> if neg then m else Suc m
      | TowardZero \<Rightarrow> m)"

section \<open>The operators\<close>

text \<open>The number of units in 1.\<close>

definition f64_one :: nat where
  "f64_one = 2 ^ 1074"

definition f64_sval :: "u64 \<Rightarrow> int" where
  "f64_sval a = (if f64_neg a then - int (mval (f64_idx a)) else int (mval (f64_idx a)))"

definition f64_add :: "RoundingMode \<Rightarrow> u64 \<Rightarrow> u64 \<Rightarrow> u64" where
  "f64_add mode a b =
     (if f64_nan a \<or> f64_nan b \<or> (f64_inf a \<and> f64_inf b \<and> f64_neg a \<noteq> f64_neg b)
      then default_nan
      else if f64_inf a then a
      else if f64_inf b then b
      else let s = f64_sval a + f64_sval b in
        if s = 0 then mk_f64 (if f64_neg a = f64_neg b then f64_neg a else mode = Down) 0
        else mk_f64 (s < 0) (round_mag mode (s < 0) 1 (nat \<bar>s\<bar>) 1))"

definition f64_negate :: "u64 \<Rightarrow> u64" where
  "f64_negate a = mk_f64 (\<not> f64_neg a) (f64_idx a)"

definition f64_sub :: "RoundingMode \<Rightarrow> u64 \<Rightarrow> u64 \<Rightarrow> u64" where
  "f64_sub mode a b = f64_add mode a (f64_negate b)"

definition f64_mul :: "RoundingMode \<Rightarrow> u64 \<Rightarrow> u64 \<Rightarrow> u64" where
  "f64_mul mode a b =
     (let neg = (f64_neg a \<noteq> f64_neg b) in
      if f64_nan a \<or> f64_nan b \<or> (f64_inf a \<and> f64_idx b = 0) \<or> (f64_idx a = 0 \<and> f64_inf b)
      then default_nan
      else if f64_inf a \<or> f64_inf b then mk_f64 neg inf_index
      else mk_f64 neg (round_mag mode neg 1 (mval (f64_idx a) * mval (f64_idx b)) (f64_one)))"

definition f64_div :: "RoundingMode \<Rightarrow> u64 \<Rightarrow> u64 \<Rightarrow> u64" where
  "f64_div mode a b =
     (let neg = (f64_neg a \<noteq> f64_neg b) in
      if f64_nan a \<or> f64_nan b \<or> (f64_inf a \<and> f64_inf b) \<or> (f64_idx a = 0 \<and> f64_idx b = 0)
      then default_nan
      else if f64_inf a \<or> f64_idx b = 0 then mk_f64 neg inf_index
      else if f64_inf b then mk_f64 neg 0
      else mk_f64 neg (round_mag mode neg 1 (mval (f64_idx a) * f64_one) (mval (f64_idx b))))"

definition f64_sqrt :: "RoundingMode \<Rightarrow> u64 \<Rightarrow> u64" where
  "f64_sqrt mode a =
     (if f64_nan a then default_nan
      else if f64_idx a = 0 then a
      else if f64_neg a then default_nan
      else if f64_inf a then a
      else mk_f64 False (round_mag mode False 2 (mval (f64_idx a) * f64_one) 1))"

text \<open>The conversion \<open>i as f64\<close> of a 32-bit integer is exact.\<close>

definition f64_of_i32 :: "u32 \<Rightarrow> u64" where
  "f64_of_i32 i =
     mk_f64 (sint i < 0) (round_mag Nearest (sint i < 0) 1 (nat \<bar>sint i\<bar> * f64_one) 1)"

section \<open>The values increase with the number\<close>

lemma mval_0 [simp]: "mval 0 = 0" and mval_1 [simp]: "mval (Suc 0) = 1"
  by (simp_all add: mval_def)

lemma mval_exp_frac:
  "f < 2 ^ 52 \<Longrightarrow> mval (e * 2 ^ 52 + f) = (if e = 0 then f else (2 ^ 52 + f) * 2 ^ (e - 1))"
  by (simp only: mval_def div_mod_unique Let_def)

lemma index_cases:
  obtains e f where "m = e * 2 ^ 52 + f" "f < (2 ^ 52 :: nat)"
  by (rule that [of "m div 2 ^ 52" "m mod 2 ^ 52"]) (simp_all add: div_mult_mod_eq)

lemma mval_Suc_cases:
  obtains e c where "mval m = c * 2 ^ e" "mval (Suc m) = Suc c * 2 ^ e"
    "c < 2 ^ 53" "0 < e \<Longrightarrow> 2 ^ 52 \<le> c"
proof (rule index_cases [of m])
  fix e f assume m: "m = e * 2 ^ 52 + f" and f: "f < (2 ^ 52 :: nat)"
  define c where "c = (if e = 0 then f else 2 ^ 52 + f)"
  have lo: "mval m = c * 2 ^ (e - 1)"
    unfolding m mval_exp_frac [OF f] by (simp add: c_def)
  have hi: "mval (Suc m) = Suc c * 2 ^ (e - 1)"
  proof (cases "Suc f < 2 ^ 52")
    case True
    have "Suc m = e * 2 ^ 52 + Suc f" by (simp add: m)
    then show ?thesis
      by (simp only: mval_exp_frac [OF True]) (simp add: c_def algebra_simps)
  next
    case False
    then have f': "Suc f = 2 ^ 52" using f by simp
    then have "Suc m = Suc e * 2 ^ 52 + 0" by (simp add: m)
    then have "mval (Suc m) = mval (Suc e * 2 ^ 52 + 0)" by simp
    also have "\<dots> = 2 ^ 52 * 2 ^ e"
      by (subst mval_exp_frac) simp_all
    finally have "mval (Suc m) = 2 ^ 52 * 2 ^ e" .
    moreover have "Suc c = (if e = 0 then 2 ^ 52 else 2 ^ 52 + 2 ^ 52)"
      using f' by (simp add: c_def)
    ultimately show ?thesis
      by (cases e) simp_all
  qed
  show thesis
    by (rule that [OF lo hi]) (use f in \<open>auto simp: c_def\<close>)
qed

lemma mval_less_Suc: "mval m < mval (Suc m)"
  by (rule mval_Suc_cases [of m]) simp

lemma mval_strict_mono: "strict_mono mval"
  by (simp add: strict_mono_Suc_iff mval_less_Suc)

lemma mval_less_iff [simp]: "mval m < mval n \<longleftrightarrow> m < n"
  by (rule strict_mono_less [OF mval_strict_mono])

lemma mval_le_iff [simp]: "mval m \<le> mval n \<longleftrightarrow> m \<le> n"
  by (rule strict_mono_less_eq [OF mval_strict_mono])

lemma mval_eq_iff [simp]: "mval m = mval n \<longleftrightarrow> m = n"
  by (rule strict_mono_eq [OF mval_strict_mono])

lemma mval_pos_iff [simp]: "0 < mval m \<longleftrightarrow> 0 < m"
  using mval_less_iff [of 0 m] by (simp del: mval_less_iff)

lemma mval_eq_0_iff [simp]: "mval m = 0 \<longleftrightarrow> m = 0"
  using mval_pos_iff [of m] by linarith

lemma mval_Suc_le_double: "0 < m \<Longrightarrow> mval (Suc m) \<le> 2 * mval m"
proof (rule mval_Suc_cases [of m])
  fix c e assume m: "0 < m" and ce: "mval m = c * 2 ^ e" "mval (Suc m) = Suc c * 2 ^ e"
  have "mval m \<noteq> 0" using m mval_pos_iff [of m] by simp
  then have "1 \<le> c" using ce(1) by (cases c) auto
  then have "Suc c * 2 ^ e \<le> (2 * c) * 2 ^ e"
    by (intro mult_right_mono) auto
  then show ?thesis by (simp add: ce)
qed

section \<open>Rounding finds the neighbours of the exact value\<close>

lemma search_last:
  assumes "P m" "\<not> P (m + 2 ^ k)" "\<And>i j. P j \<Longrightarrow> i \<le> j \<Longrightarrow> P i"
  shows "P (search P k m) \<and> \<not> P (Suc (search P k m))"
  using assms(1,2)
proof (induction k arbitrary: m)
  case 0
  then show ?case by simp
next
  case (Suc k)
  then show ?case
    by (cases "P (m + 2 ^ k)") (auto simp: mult_2 add.assoc)
qed

lemma round_down_index_bounds:
  assumes "0 < p"
  shows "round_down_index p N D < inf_index"
    and "mval (round_down_index p N D) ^ p * D \<le> N"
    and "Suc (round_down_index p N D) < inf_index \<Longrightarrow>
           N < mval (Suc (round_down_index p N D)) ^ p * D"
proof -
  let ?P = "\<lambda>m. m < inf_index \<and> mval m ^ p * D \<le> N"
  have down: "?P j \<Longrightarrow> i \<le> j \<Longrightarrow> ?P i" for i j
    by (meson le_trans less_le_trans mult_le_mono1 mval_le_iff not_less power_mono zero_le)
  have "?P (search ?P 63 0) \<and> \<not> ?P (Suc (search ?P 63 0))"
    by (rule search_last) (use assms down in \<open>auto simp: inf_index_def zero_power\<close>)
  then show "round_down_index p N D < inf_index"
    and "mval (round_down_index p N D) ^ p * D \<le> N"
    and "Suc (round_down_index p N D) < inf_index \<Longrightarrow>
           N < mval (Suc (round_down_index p N D)) ^ p * D"
    by (auto simp: round_down_index_def)
qed

lemma round_mag_cases:
  "round_mag mode neg p N D = round_down_index p N D \<or>
   round_mag mode neg p N D = Suc (round_down_index p N D)"
  by (auto simp: round_mag_def Let_def split: RoundingMode.splits)

lemma round_mag_le_inf: "0 < p \<Longrightarrow> round_mag mode neg p N D \<le> inf_index"
  using round_mag_cases [of mode neg p N D] round_down_index_bounds(1) [of p N D] by linarith

lemma round_down_index_eqI:
  assumes "0 < p" "0 < D" "k < inf_index" "mval k ^ p * D \<le> N" "N < mval (Suc k) ^ p * D"
  shows "round_down_index p N D = k"
proof -
  let ?m = "round_down_index p N D"
  have "mval ?m ^ p * D < mval (Suc k) ^ p * D"
    using round_down_index_bounds(2) [OF assms(1), of N D] assms(5) by linarith
  then have "mval ?m < mval (Suc k)"
    by (metis mult_le_mono1 not_le power_mono zero_le)
  then have "?m < Suc k" by simp
  moreover have "k \<le> ?m"
  proof (rule ccontr)
    assume "\<not> k \<le> ?m"
    then have "Suc ?m \<le> k" by simp
    then have "mval (Suc ?m) ^ p * D \<le> mval k ^ p * D"
      by (intro mult_right_mono power_mono) simp_all
    moreover have "N < mval (Suc ?m) ^ p * D"
      using \<open>Suc ?m \<le> k\<close> assms(3) by (intro round_down_index_bounds(3) assms(1)) simp
    ultimately show False using assms(4) by linarith
  qed
  ultimately show ?thesis by simp
qed

lemma round_mag_exact:
  assumes "0 < p" "0 < D" "k < inf_index" "mval k ^ p * D = N"
  shows "round_mag mode neg p N D = k"
proof -
  have "mval k ^ p * D < mval (Suc k) ^ p * D"
    using assms(1,2) by (simp add: power_strict_mono mval_less_Suc)
  then have "round_down_index p N D = k"
    using assms by (intro round_down_index_eqI) auto
  then show ?thesis using assms(4) by (simp add: round_mag_def)
qed

lemma round_mag_nearest_nearby:
  assumes "0 < p" "n = round_mag Nearest neg p N D"
  shows "mval n ^ p * D \<le> 2 ^ p * N"
    and "0 < n \<Longrightarrow> n < inf_index \<Longrightarrow> N \<le> 2 ^ p * (mval n ^ p * D)"
proof -
  let ?m = "round_down_index p N D"
  let ?s = "mval ?m + mval (Suc ?m)"
  note b = round_down_index_bounds [OF assms(1), of N D]
  have two: "x \<le> 2 ^ p * x" for x :: nat by simp
  have n: "n = ?m \<and> (mval ?m ^ p * D = N \<or> 2 ^ p * N \<le> ?s ^ p * D) \<or>
           n = Suc ?m \<and> ?s ^ p * D \<le> 2 ^ p * N"
    unfolding assms(2) by (auto simp: round_mag_def Let_def)
  have suc: "mval (Suc ?m) ^ p * D \<le> ?s ^ p * D"
    by (intro mult_right_mono power_mono) simp_all
  show "mval n ^ p * D \<le> 2 ^ p * N"
    using n
  proof
    assume "n = ?m \<and> (mval ?m ^ p * D = N \<or> 2 ^ p * N \<le> ?s ^ p * D)"
    then show ?thesis using order_trans [OF b(2) two] by simp
  next
    assume "n = Suc ?m \<and> ?s ^ p * D \<le> 2 ^ p * N"
    then show ?thesis using order_trans [OF suc] by simp
  qed
  assume "0 < n" "n < inf_index"
  show "N \<le> 2 ^ p * (mval n ^ p * D)"
  proof (cases "n = ?m")
    case True
    show ?thesis
    proof (cases "Suc n < inf_index")
      case True
      then have "N < mval (Suc n) ^ p * D" using b(3) \<open>n = ?m\<close> by simp
      also have "\<dots> \<le> (2 * mval n) ^ p * D"
        using mval_Suc_le_double [of n] \<open>0 < n\<close> by (intro mult_right_mono power_mono) simp_all
      finally show ?thesis by (simp add: power_mult_distrib mult.assoc)
    next
      case False
      have "?s ^ p * D \<le> (2 * (2 * mval n)) ^ p * D"
        using mval_Suc_le_double [of n] \<open>0 < n\<close> \<open>n = ?m\<close>
        by (intro mult_right_mono power_mono) simp_all
      also have "\<dots> = 2 ^ p * (2 ^ p * (mval n ^ p * D))"
        by (simp only: power_mult_distrib mult.assoc)
      finally have s: "?s ^ p * D \<le> 2 ^ p * (2 ^ p * (mval n ^ p * D))" .
      consider "N = mval n ^ p * D" | "2 ^ p * N \<le> ?s ^ p * D"
        using n True by auto
      then show ?thesis
      proof cases
        case 2
        then have "2 ^ p * N \<le> 2 ^ p * (2 ^ p * (mval n ^ p * D))"
          using s by (rule order_trans)
        then show ?thesis by (simp only: mult_le_cancel1) simp
      qed simp
    qed
  next
    case False
    then have "n = Suc ?m" using n by simp
    then have "N < mval n ^ p * D" using b(3) \<open>n < inf_index\<close> by simp
    then show ?thesis using two [of "mval n ^ p * D"] by linarith
  qed
qed

text \<open>The three relations of the exact value to the nearest number decide every directed
  result: it is the nearest number or the one next to it.\<close>

lemma round_mag_adjust:
  assumes "0 < p" "n = round_mag Nearest neg p N D"
  shows "n < inf_index \<Longrightarrow> mval n ^ p * D = N \<Longrightarrow> round_mag mode neg p N D = n"
    and "n < inf_index \<Longrightarrow> mval n ^ p * D < N \<Longrightarrow>
           round_mag mode neg p N D =
             (case mode of Nearest \<Rightarrow> n | Down \<Rightarrow> if neg then Suc n else n
              | Up \<Rightarrow> if neg then n else Suc n | TowardZero \<Rightarrow> n)"
    and "n = inf_index \<or> N < mval n ^ p * D \<Longrightarrow>
           0 < n \<and> round_mag mode neg p N D =
             (case mode of Nearest \<Rightarrow> n | Down \<Rightarrow> if neg then n else n - 1
              | Up \<Rightarrow> if neg then n - 1 else n | TowardZero \<Rightarrow> n - 1)"
proof -
  let ?m = "round_down_index p N D"
  note b = round_down_index_bounds [OF assms(1), of N D]
  have n: "n = ?m \<or> n = Suc ?m \<and> mval ?m ^ p * D \<noteq> N"
    unfolding assms(2) by (auto simp: round_mag_def Let_def)
  {
    assume "n < inf_index" "mval n ^ p * D = N"
    then have "n = ?m" using n b(3) by auto
    then show "round_mag mode neg p N D = n"
      using \<open>mval n ^ p * D = N\<close> by (simp add: round_mag_def)
  next
    assume "n < inf_index" "mval n ^ p * D < N"
    then have m: "n = ?m" using n b(3) by auto
    then have "mval ?m ^ p * D \<noteq> N" using \<open>mval n ^ p * D < N\<close> by simp
    then show "round_mag mode neg p N D =
             (case mode of Nearest \<Rightarrow> n | Down \<Rightarrow> if neg then Suc n else n
              | Up \<Rightarrow> if neg then n else Suc n | TowardZero \<Rightarrow> n)"
      using assms(2) m by (cases mode) (simp_all add: round_mag_def Let_def)
  next
    assume "n = inf_index \<or> N < mval n ^ p * D"
    then have m: "n = Suc ?m" "mval ?m ^ p * D \<noteq> N" using n b(1,2) by auto
    then show "0 < n \<and> round_mag mode neg p N D =
             (case mode of Nearest \<Rightarrow> n | Down \<Rightarrow> if neg then n else n - 1
              | Up \<Rightarrow> if neg then n - 1 else n | TowardZero \<Rightarrow> n - 1)"
      using assms(2) by (cases mode) (simp_all add: round_mag_def Let_def)
  }
qed

text \<open>An exact value closer to a number than half the gap on its side rounds to that number.\<close>

lemma round_nearest_above:
  assumes "k < inf_index" "mval k \<le> N" "2 * N < mval k + mval (Suc k)"
  shows "round_mag Nearest neg 1 N 1 = k"
proof -
  have "round_down_index 1 N 1 = k"
    by (rule round_down_index_eqI) (use assms mval_less_Suc [of k] in simp_all)
  then show ?thesis using assms(3) by (simp add: round_mag_def Let_def)
qed

lemma round_nearest_below:
  assumes "Suc k < inf_index" "N \<le> mval (Suc k)" "mval k + mval (Suc k) < 2 * N"
  shows "round_mag Nearest neg 1 N 1 = Suc k"
proof (cases "N = mval (Suc k)")
  case True
  then show ?thesis using assms(1) by (intro round_mag_exact) simp_all
next
  case False
  then have "round_down_index 1 N 1 = k"
    by (intro round_down_index_eqI) (use assms mval_less_Suc [of k] in simp_all)
  moreover have "mval k \<noteq> N" using assms(3) mval_less_Suc [of k] by linarith
  ultimately show ?thesis using assms(3) unfolding round_mag_def Let_def by simp
qed

lemma round_mag_le_index:
  assumes "k < inf_index" "N \<le> mval k"
  shows "round_mag mode neg 1 N 1 \<le> k"
proof (cases "N = mval k")
  case True
  then have "round_mag mode neg 1 N 1 = k" using assms by (intro round_mag_exact) simp_all
  then show ?thesis by simp
next
  case False
  then have "mval (round_down_index 1 N 1) < mval k"
    using round_down_index_bounds(2) [of 1 N 1] assms(2) by (simp del: mval_less_iff)
  then show ?thesis using round_mag_cases [of mode neg 1 N 1] by auto
qed

lemma round_mag_pos:
  assumes "0 < N"
  shows "0 < round_mag mode neg 1 N 1"
proof -
  have "0 < round_down_index 1 N 1"
    using round_down_index_bounds(3) [of 1 N 1] assms
    by (intro gr0I) (simp add: inf_index_def)
  then show ?thesis using round_mag_cases [of mode neg 1 N 1] by auto
qed

section \<open>Sign and index of a bit pattern\<close>

lemma inf_index_lt: "inf_index < 2 ^ 63"
  by (simp add: inf_index_def)

lemma f64_idx_lt: "f64_idx a < 2 ^ 63"
  by (simp add: f64_idx_def)

lemma unat_f64: "unat a = f64_idx a + (if f64_neg a then 2 ^ 63 else 0)"
proof -
  have "unat a < 2 * 2 ^ 63" using unat_lt_u64 [of a] by simp
  then show ?thesis
    by (auto simp: f64_idx_def f64_neg_def le_mod_geq)
qed

lemma mk_f64_idx_neg [simp]: "mk_f64 (f64_neg a) (f64_idx a) = a"
proof -
  have "mk_f64 (f64_neg a) (f64_idx a) = of_nat (unat a)"
    by (simp only: mk_f64_def unat_f64 [of a])
  then show ?thesis by simp
qed

lemma unat_mk_f64: "m < 2 ^ 63 \<Longrightarrow> unat (mk_f64 neg m) = m + (if neg then 2 ^ 63 else 0)"
  unfolding mk_f64_def unat_of_nat by simp

lemma f64_neg_mk [simp]: "m < 2 ^ 63 \<Longrightarrow> f64_neg (mk_f64 neg m) = neg"
  by (auto simp: f64_neg_def unat_mk_f64)

lemma f64_idx_mk [simp]: "m < 2 ^ 63 \<Longrightarrow> f64_idx (mk_f64 neg m) = m"
  by (auto simp: f64_idx_def unat_mk_f64)

lemma round_mag_lt: "0 < p \<Longrightarrow> round_mag mode neg p N D < 2 ^ 63"
  using round_mag_le_inf inf_index_lt by (rule le_less_trans)

end
