(* ===== verification/Softfp.thy ===== *)
theory Softfp
  imports Float64
begin

text \<open>
  Model of \<open>softfp/src/lib.rs\<close>: directed binary64 arithmetic computed from the
  nearest-even result and an exact comparison, for the guest target, where the module
  \<open>nearest\<close> is the \<open>f64\<close> arithmetic of the language. The theorems state that each
  operation returns the IEEE 754 result of Float64 in every rounding mode, for all operands that
  are not NaN (and a non-zero divisor, a non-negative radicand).
\<close>

section \<open>Definitions\<close>

definition SIGN_MASK :: u64 where
  "SIGN_MASK = push_bit 63 1"

definition ABS_MASK :: u64 where
  "ABS_MASK = SIGN_MASK - 1"

definition EXP_MASK :: u64 where
  "EXP_MASK = 0x7ff0000000000000"

definition FRAC_MASK :: u64 where
  "FRAC_MASK = 0x000fffffffffffff"

definition IMPLICIT_BIT :: u64 where
  "IMPLICIT_BIT = push_bit 52 1"

text \<open>The enumeration \<open>RoundingMode\<close> is declared in Float64, whose operators take it.\<close>

definition from_fprc :: "u32 \<Rightarrow> RoundingMode" where
  "from_fprc value =
     (if value AND 3 = 0 then Nearest
      else if value AND 3 = 1 then Down
      else if value AND 3 = 2 then Up
      else TowardZero)"

text \<open>The transmute of \<open>value as u8\<close>; \<open>None\<close> is the undefined behaviour of a byte that
  is no discriminant.\<close>

definition from_valid_fprc :: "u32 \<Rightarrow> RoundingMode option" where
  "from_valid_fprc value =
     (let v = (ucast value :: u8) in
      if v = 0 then Some Nearest
      else if v = 1 then Some Down
      else if v = 2 then Some Up
      else if v = 3 then Some TowardZero
      else None)"

datatype Ordering = Less | Equal | Greater

definition cmp :: "'a::linorder \<Rightarrow> 'a \<Rightarrow> Ordering" where
  "cmp x y = (if x < y then Less else if x = y then Equal else Greater)"

fun reverse :: "Ordering \<Rightarrow> Ordering" where
  "reverse Less = Greater"
| "reverse Equal = Equal"
| "reverse Greater = Less"

text \<open>The scale is an \<open>i32\<close> that stays within a few thousand of zero.\<close>

record Magnitude =
  coefficient :: u128
  scale :: int

definition magnitude :: "u64 \<Rightarrow> Magnitude" where
  "magnitude bits =
     (let exponent = uint (drop_bit 52 (bits AND EXP_MASK));
          fraction = bits AND FRAC_MASK
      in if exponent = 0
         then \<lparr> coefficient = ucast fraction, scale = - 1074 \<rparr>
         else \<lparr> coefficient = ucast (fraction OR IMPLICIT_BIT), scale = exponent - 1023 - 52 \<rparr>)"

text \<open>\<open>x << shift\<close> on \<open>u128\<close> takes the shift amount modulo 128; the amounts are \<open>i32\<close>
  differences cast to \<open>u32\<close>.\<close>

definition as_u32 :: "int \<Rightarrow> nat" where
  "as_u32 x = nat (x mod 2 ^ 32)"

definition shl128 :: "u128 \<Rightarrow> nat \<Rightarrow> u128" where
  "shl128 x shift = push_bit (shift mod 128) x"

definition compare_nearby_scaled :: "Magnitude \<Rightarrow> Magnitude \<Rightarrow> Ordering" where
  "compare_nearby_scaled a b =
     (if coefficient a = 0 \<or> coefficient b = 0 then cmp (coefficient a) (coefficient b)
      else case cmp (scale a) (scale b) of
        Equal \<Rightarrow> cmp (coefficient a) (coefficient b)
      | Greater \<Rightarrow>
          let shift = as_u32 (scale a - scale b)
          in cmp (shl128 (coefficient a) shift) (coefficient b)
      | Less \<Rightarrow>
          let shift = as_u32 (scale b - scale a)
          in cmp (coefficient a) (shl128 (coefficient b) shift))"

definition multiply_magnitudes :: "Magnitude \<Rightarrow> Magnitude \<Rightarrow> Magnitude" where
  "multiply_magnitudes a b =
     \<lparr> coefficient = coefficient a * coefficient b, scale = scale a + scale b \<rparr>"

definition reverse_if_negative :: "Ordering \<Rightarrow> bool \<Rightarrow> Ordering" where
  "reverse_if_negative ord negative = (if negative then reverse ord else ord)"

definition next_up :: "u64 \<Rightarrow> u64" where
  "next_up bits =
     (if bits AND ABS_MASK = 0 then 1
      else if bits AND SIGN_MASK = 0 then bits + 1 else bits - 1)"

definition next_down :: "u64 \<Rightarrow> u64" where
  "next_down bits =
     (if bits AND ABS_MASK = 0 then SIGN_MASK OR 1
      else if bits AND SIGN_MASK = 0 then bits - 1 else bits + 1)"

definition apply_mode :: "u64 \<Rightarrow> Ordering \<Rightarrow> bool \<Rightarrow> RoundingMode \<Rightarrow> u64" where
  "apply_mode nearest relation exact_negative mode =
     (case mode of
        Nearest \<Rightarrow> nearest
      | Down \<Rightarrow> if relation = Less then next_down nearest else nearest
      | Up \<Rightarrow> if relation = Greater then next_up nearest else nearest
      | TowardZero \<Rightarrow>
          if exact_negative \<and> relation = Greater then next_up nearest
          else if \<not> exact_negative \<and> relation = Less then next_down nearest
          else nearest)"

definition directed_overflow :: "u64 \<Rightarrow> RoundingMode \<Rightarrow> u64 option" where
  "directed_overflow nearest mode =
     (if nearest AND ABS_MASK \<noteq> EXP_MASK then None
      else let negative = (nearest AND SIGN_MASK \<noteq> 0);
               relation = (if negative then Greater else Less)
           in Some (apply_mode nearest relation negative mode))"

definition is_infinite :: "u64 \<Rightarrow> bool" where
  "is_infinite value \<longleftrightarrow> value AND ABS_MASK = EXP_MASK"

subsection \<open>The module \<open>nearest\<close> of the guest target\<close>

definition nearest_add :: "u64 \<Rightarrow> u64 \<Rightarrow> u64" where
  "nearest_add a b = f64_add Nearest a b"

definition nearest_sub :: "u64 \<Rightarrow> u64 \<Rightarrow> u64" where
  "nearest_sub a b = f64_sub Nearest a b"

definition nearest_mul :: "u64 \<Rightarrow> u64 \<Rightarrow> u64" where
  "nearest_mul a b = f64_mul Nearest a b"

definition nearest_div :: "u64 \<Rightarrow> u64 \<Rightarrow> u64" where
  "nearest_div a b = f64_div Nearest a b"

definition nearest_sqrt :: "u64 \<Rightarrow> u64" where
  "nearest_sqrt a = f64_sqrt Nearest a"

subsection \<open>The directed operations\<close>

text \<open>The relation of the exact sum to the nearest one, and the sign of the exact sum: the
  three-way conditional in the middle of \<open>add_inner\<close>.\<close>

definition add_relation :: "u64 \<Rightarrow> u64 \<Rightarrow> u64 \<Rightarrow> Ordering \<times> bool" where
  "add_relation a b nearest =
     (let a_magnitude = magnitude a; b_magnitude = magnitude b;
          a_negative = (a AND SIGN_MASK \<noteq> 0); b_negative = (b AND SIGN_MASK \<noteq> 0)
      in if coefficient a_magnitude = 0 \<or> coefficient b_magnitude = 0
         then (Equal, nearest AND SIGN_MASK \<noteq> 0)
         else if a_negative = b_negative
         then let (big, small) =
                    (if scale a_magnitude \<ge> scale b_magnitude
                     then (a_magnitude, b_magnitude) else (b_magnitude, a_magnitude));
                  distance = as_u32 (scale big - scale small);
                  magnitude_relation =
                    (if distance \<le> 75
                     then let exact = \<lparr> coefficient =
                                          shl128 (coefficient big) distance + coefficient small,
                                        scale = scale small \<rparr>
                          in compare_nearby_scaled exact (magnitude nearest)
                     else Greater)
              in (reverse_if_negative magnitude_relation a_negative, a_negative)
         else case cmp (a AND ABS_MASK) (b AND ABS_MASK) of
           Equal \<Rightarrow> (Equal, False)
         | magnitude_order \<Rightarrow>
             let (big, small, negative) =
                   (if magnitude_order = Greater
                    then (a_magnitude, b_magnitude, a_negative)
                    else (b_magnitude, a_magnitude, b_negative));
                 distance = as_u32 (scale big - scale small);
                 magnitude_relation =
                   (if distance \<le> 75
                    then let exact = \<lparr> coefficient =
                                         shl128 (coefficient big) distance - coefficient small,
                                       scale = scale small \<rparr>
                         in compare_nearby_scaled exact (magnitude nearest)
                    else Less)
             in (reverse_if_negative magnitude_relation negative, negative))"

definition add_inner :: "u64 \<Rightarrow> u64 \<Rightarrow> RoundingMode \<Rightarrow> u64" where
  "add_inner a b mode =
     (let nearest = nearest_add a b in
      if is_infinite a \<or> is_infinite b then nearest
      else case directed_overflow nearest mode of
        Some overflow \<Rightarrow> overflow
      | None \<Rightarrow>
          let (relation, negative) = add_relation a b nearest in
          if nearest AND ABS_MASK = 0 \<and> relation = Equal
             \<and> (a XOR b) AND SIGN_MASK \<noteq> 0 \<and> mode = Down
          then SIGN_MASK
          else apply_mode nearest relation negative mode)"

definition softfp_add :: "u64 \<Rightarrow> u64 \<Rightarrow> RoundingMode \<Rightarrow> u64" where
  "softfp_add a b mode = (if mode = Nearest then nearest_add a b else add_inner a b mode)"

definition softfp_sub :: "u64 \<Rightarrow> u64 \<Rightarrow> RoundingMode \<Rightarrow> u64" where
  "softfp_sub a b mode =
     (if mode = Nearest then nearest_sub a b else add_inner a (b XOR SIGN_MASK) mode)"

definition mul_inner :: "u64 \<Rightarrow> u64 \<Rightarrow> RoundingMode \<Rightarrow> u64" where
  "mul_inner a b mode =
     (let nearest = nearest_mul a b in
      if is_infinite a \<or> is_infinite b then nearest
      else case directed_overflow nearest mode of
        Some overflow \<Rightarrow> overflow
      | None \<Rightarrow>
          let negative = ((a XOR b) AND SIGN_MASK \<noteq> 0);
              exact = multiply_magnitudes (magnitude a) (magnitude b);
              relation =
                reverse_if_negative (compare_nearby_scaled exact (magnitude nearest)) negative
          in apply_mode nearest relation negative mode)"

definition softfp_mul :: "u64 \<Rightarrow> u64 \<Rightarrow> RoundingMode \<Rightarrow> u64" where
  "softfp_mul a b mode = (if mode = Nearest then nearest_mul a b else mul_inner a b mode)"

definition div_inner :: "u64 \<Rightarrow> u64 \<Rightarrow> RoundingMode \<Rightarrow> u64" where
  "div_inner a b mode =
     (let nearest = nearest_div a b in
      if is_infinite a \<or> is_infinite b then nearest
      else case directed_overflow nearest mode of
        Some overflow \<Rightarrow> overflow
      | None \<Rightarrow>
          let negative = ((a XOR b) AND SIGN_MASK \<noteq> 0);
              rhs = multiply_magnitudes (magnitude nearest) (magnitude b);
              relation =
                reverse_if_negative (compare_nearby_scaled (magnitude a) rhs) negative
          in apply_mode nearest relation negative mode)"

definition softfp_div :: "u64 \<Rightarrow> u64 \<Rightarrow> RoundingMode \<Rightarrow> u64" where
  "softfp_div a b mode = (if mode = Nearest then nearest_div a b else div_inner a b mode)"

definition sqrt_inner :: "u64 \<Rightarrow> RoundingMode \<Rightarrow> u64" where
  "sqrt_inner a mode =
     (let nearest = nearest_sqrt a in
      if is_infinite a then nearest
      else let squared = multiply_magnitudes (magnitude nearest) (magnitude nearest);
               relation = compare_nearby_scaled (magnitude a) squared
           in apply_mode nearest relation False mode)"

definition softfp_sqrt :: "u64 \<Rightarrow> RoundingMode \<Rightarrow> u64" where
  "softfp_sqrt a mode = (if mode = Nearest then nearest_sqrt a else sqrt_inner a mode)"

subsection \<open>Two lanes\<close>

text \<open>The arrays \<open>[u64; 2]\<close> are pairs.\<close>

definition add2 :: "u64 \<times> u64 \<Rightarrow> u64 \<times> u64 \<Rightarrow> RoundingMode \<Rightarrow> u64 \<times> u64" where
  "add2 a b mode =
     (if mode = Nearest then (nearest_add (fst a) (fst b), nearest_add (snd a) (snd b))
      else (add_inner (fst a) (fst b) mode, add_inner (snd a) (snd b) mode))"

definition sub2 :: "u64 \<times> u64 \<Rightarrow> u64 \<times> u64 \<Rightarrow> RoundingMode \<Rightarrow> u64 \<times> u64" where
  "sub2 a b mode =
     (if mode = Nearest then (nearest_sub (fst a) (fst b), nearest_sub (snd a) (snd b))
      else (add_inner (fst a) (fst b XOR SIGN_MASK) mode,
            add_inner (snd a) (snd b XOR SIGN_MASK) mode))"

definition mul2 :: "u64 \<times> u64 \<Rightarrow> u64 \<times> u64 \<Rightarrow> RoundingMode \<Rightarrow> u64 \<times> u64" where
  "mul2 a b mode =
     (if mode = Nearest then (nearest_mul (fst a) (fst b), nearest_mul (snd a) (snd b))
      else (mul_inner (fst a) (fst b) mode, mul_inner (snd a) (snd b) mode))"

definition div2 :: "u64 \<times> u64 \<Rightarrow> u64 \<times> u64 \<Rightarrow> RoundingMode \<Rightarrow> u64 \<times> u64" where
  "div2 a b mode =
     (if mode = Nearest then (nearest_div (fst a) (fst b), nearest_div (snd a) (snd b))
      else (div_inner (fst a) (fst b) mode, div_inner (snd a) (snd b) mode))"

definition sqrt2 :: "u64 \<times> u64 \<Rightarrow> RoundingMode \<Rightarrow> u64 \<times> u64" where
  "sqrt2 a mode =
     (if mode = Nearest then (nearest_sqrt (fst a), nearest_sqrt (snd a))
      else (sqrt_inner (fst a) mode, sqrt_inner (snd a) mode))"

section \<open>Masks, signs and indices\<close>

lemma ABS_MASK_mask: "ABS_MASK = mask 63"
  by (simp add: ABS_MASK_def SIGN_MASK_def mask_eq_exp_minus_1)

lemma unat_and_ABS_MASK [unat_simps]: "unat (a AND ABS_MASK) = f64_idx a"
  by (simp only: ABS_MASK_mask unat_and_mask_eq f64_idx_def)

lemma f64_neg_bit: "f64_neg a \<longleftrightarrow> bit a 63"
  using unat_lt_u64 [of a]
  by (auto simp: f64_neg_def bit_unat_iff odd_iff_mod_2_eq_one div_eq_dividend_iff)

lemma SIGN_MASK_exp: "SIGN_MASK = 2 ^ 63"
  by (simp add: SIGN_MASK_def)

lemma and_SIGN_MASK_eq_0 [simp]: "a AND SIGN_MASK = 0 \<longleftrightarrow> \<not> f64_neg a"
  by (simp only: SIGN_MASK_exp and_exp_eq_0_iff_not_bit f64_neg_bit)

lemma and_ABS_MASK_eq_0 [simp]: "a AND ABS_MASK = 0 \<longleftrightarrow> f64_idx a = 0"
  by (metis unat_and_ABS_MASK unat_eq_zero)

lemma and_ABS_MASK_eq_EXP [simp]: "a AND ABS_MASK = EXP_MASK \<longleftrightarrow> f64_inf a"
proof -
  have "unat EXP_MASK = inf_index" by (simp add: EXP_MASK_def inf_index_def)
  then show ?thesis by (metis unat_and_ABS_MASK word_unat_eq_iff)
qed

lemma is_infinite_iff [simp]: "is_infinite a \<longleftrightarrow> f64_inf a"
  by (simp add: is_infinite_def)

lemma xor_neg [simp]: "f64_neg (a XOR b) \<longleftrightarrow> f64_neg a \<noteq> f64_neg b"
  by (auto simp: f64_neg_bit bit_xor_iff)

lemma bit_SIGN_MASK: "bit SIGN_MASK n \<longleftrightarrow> n = 63"
  by (auto simp only: SIGN_MASK_exp bit_exp_iff) (simp add: possible_bit_word)

lemma xor_SIGN_MASK [simp]: "b XOR SIGN_MASK = f64_negate b"
proof -
  have neg: "f64_neg (b XOR SIGN_MASK) \<longleftrightarrow> \<not> f64_neg b"
    by (simp add: f64_neg_bit bit_xor_iff bit_SIGN_MASK)
  have "(b XOR SIGN_MASK) AND ABS_MASK = b AND ABS_MASK"
    by (rule bit_word_eqI)
       (auto simp: ABS_MASK_mask bit_SIGN_MASK bit_xor_iff bit_and_iff bit_mask_iff)
  then have idx: "f64_idx (b XOR SIGN_MASK) = f64_idx b" by (simp flip: unat_and_ABS_MASK)
  have "b XOR SIGN_MASK = mk_f64 (f64_neg (b XOR SIGN_MASK)) (f64_idx (b XOR SIGN_MASK))"
    by (rule mk_f64_idx_neg [symmetric])
  also have "\<dots> = f64_negate b" by (simp only: neg idx f64_negate_def)
  finally show ?thesis .
qed

section \<open>Magnitudes\<close>

lemma unat_exponent: "unat (drop_bit 52 (a AND EXP_MASK)) = f64_idx a div 2 ^ 52"
proof -
  have "drop_bit 52 (a AND EXP_MASK) = drop_bit 52 a AND mask 11"
    by (simp add: EXP_MASK_def mask_eq_exp_minus_1)
  then have "unat (drop_bit 52 (a AND EXP_MASK)) = unat a div 2 ^ 52 mod 2 ^ 11"
    by (simp only: unat_and_mask_eq unat_drop_bit)
  also have "\<dots> = unat a mod (2 ^ 52 * 2 ^ 11) div 2 ^ 52"
    by (simp only: mod_mult2_eq) simp
  finally show ?thesis by (simp add: f64_idx_def)
qed

lemma unat_fraction: "unat (a AND FRAC_MASK) = f64_idx a mod 2 ^ 52"
proof -
  have "FRAC_MASK = mask 52" by (simp add: FRAC_MASK_def mask_eq_exp_minus_1)
  then have "unat (a AND FRAC_MASK) = unat (a AND mask 52)" by (rule arg_cong)
  also have "\<dots> = unat a mod 2 ^ 52" by (rule unat_and_mask_eq)
  finally have "unat (a AND FRAC_MASK) = unat a mod 2 ^ 52" .
  then show ?thesis by (simp add: f64_idx_def mod_mod_cancel)
qed

lemma unat_fraction_implicit:
  "unat ((a AND FRAC_MASK) OR IMPLICIT_BIT) = 2 ^ 52 + f64_idx a mod 2 ^ 52"
proof -
  have "(a AND FRAC_MASK) AND IMPLICIT_BIT = 0"
    by (simp add: FRAC_MASK_def IMPLICIT_BIT_def and.assoc)
  then have "(a AND FRAC_MASK) OR IMPLICIT_BIT = (a AND FRAC_MASK) + IMPLICIT_BIT"
    by (rule disjunctive_add_eq_or [symmetric])
  moreover have "unat IMPLICIT_BIT = 2 ^ 52" by (simp add: IMPLICIT_BIT_def)
  moreover have "f64_idx a mod 2 ^ 52 < 2 ^ 52" by simp
  ultimately show ?thesis
    by (simp add: unat_add_bounded unat_fraction)
qed

text \<open>\<open>mag_at K x\<close> is the value of a magnitude in units of \<open>2 ^ -K\<close>.\<close>

abbreviation mag_at :: "int \<Rightarrow> Magnitude \<Rightarrow> nat" where
  "mag_at K x \<equiv> unat (coefficient x) * 2 ^ nat (scale x + K)"

lemma magnitude_bounds:
  "unat (coefficient (magnitude a)) < 2 ^ 53" "- 1074 \<le> scale (magnitude a)"
proof -
  have "uint (drop_bit 52 (a AND EXP_MASK)) = int (f64_idx a div 2 ^ 52)"
    by (simp only: unat_exponent [symmetric] uint_nat) 
  moreover have "f64_idx a mod 2 ^ 52 < 2 ^ 52" by simp
  ultimately show "unat (coefficient (magnitude a)) < 2 ^ 53" "- 1074 \<le> scale (magnitude a)"
    by (auto simp: magnitude_def Let_def unat_ucast_widen unat_fraction unat_fraction_implicit)
qed

lemma mval_magnitude: "mval (f64_idx a) = mag_at 1074 (magnitude a)"
proof -
  have e: "uint (drop_bit 52 (a AND EXP_MASK)) = int (f64_idx a div 2 ^ 52)"
    by (simp only: unat_exponent [symmetric] uint_nat)
  show ?thesis
    unfolding magnitude_def Let_def e mval_def
    by (simp add: unat_ucast_widen unat_fraction unat_fraction_implicit nat_diff_distrib nat_int_add)
qed

lemma coefficient_eq_0 [simp]: "coefficient (magnitude a) = 0 \<longleftrightarrow> f64_idx a = 0"
proof -
  have "f64_idx a = 0 \<longleftrightarrow> mval (f64_idx a) = 0"
    using mval_eq_iff [of "f64_idx a" 0] by (simp del: mval_eq_iff)
  then show ?thesis by (simp add: mval_magnitude unat_eq_zero)
qed

text \<open>The comparison is exact as soon as the shifted coefficient fits 128 bits.\<close>

lemma cmp_mult_right: "0 < k \<Longrightarrow> cmp (x * k) (y * k) = cmp x (y :: nat)"
  by (simp add: cmp_def)

lemma cmp_unat: "cmp x y = cmp (unat x) (unat (y :: 'a::len word))"
  by (simp add: cmp_def word_less_nat_alt word_unat_eq_iff)

lemma unat_shl128:
  assumes "unat x \<noteq> 0" "unat x * 2 ^ k < 2 ^ 128"
  shows "unat (shl128 x k) = unat x * 2 ^ k"
proof -
  have "(2 :: nat) ^ k \<le> unat x * 2 ^ k" using assms(1) by simp
  then have "(2 :: nat) ^ k < 2 ^ 128" using assms(2) by linarith
  then have "k < 128" by (simp only: power_strict_increasing_iff one_less_numeral_iff semiring_norm)
  then show ?thesis using assms(2) by (simp add: shl128_def unat_push_bit_bounded)
qed

lemma as_u32_eq: "0 \<le> x \<Longrightarrow> x < 2 ^ 32 \<Longrightarrow> as_u32 x = nat x"
  by (simp add: as_u32_def)

lemma compare_nearby_scaled_correct:
  assumes "- K \<le> scale a" "- K \<le> scale b" "scale a - scale b < 2 ^ 32" "scale b - scale a < 2 ^ 32"
    and "scale b < scale a \<Longrightarrow> mag_at K a < 2 ^ (128 + nat (scale b + K))"
    and "scale a < scale b \<Longrightarrow> mag_at K b < 2 ^ (128 + nat (scale a + K))"
  shows "compare_nearby_scaled a b = cmp (mag_at K a) (mag_at K b)"
proof (cases "coefficient a = 0 \<or> coefficient b = 0")
  case True
  then show ?thesis by (auto simp: compare_nearby_scaled_def cmp_unat cmp_def)
next
  case False
  then have nz: "unat (coefficient a) \<noteq> 0" "unat (coefficient b) \<noteq> 0"
    by (simp_all add: unat_eq_zero)
  have shifted: "mag_at K x = unat (coefficient x) * 2 ^ nat (scale x - scale y) * 2 ^ nat (scale y + K)"
    if "scale y \<le> scale x" "- K \<le> scale y" for x y :: Magnitude
  proof -
    have "nat (scale x + K) = nat (scale x - scale y) + nat (scale y + K)" using that by simp
    then show ?thesis by (simp add: power_add)
  qed
  have lt: "unat (coefficient x) * 2 ^ nat (scale x - scale y) < 2 ^ 128"
    if "scale y \<le> scale x" "- K \<le> scale y" "mag_at K x < 2 ^ (128 + nat (scale y + K))"
    for x y :: Magnitude
    using that shifted [OF that(1,2)] by (simp add: power_add)
  have "cmp (mag_at K a) (mag_at K b) =
          cmp (unat (coefficient a)) (unat (coefficient b) * 2 ^ nat (scale b - scale a))"
    if "scale a \<le> scale b"
    by (simp only: shifted [of a b] that assms(1) cmp_mult_right zero_less_power zero_less_numeral)
  moreover have "cmp (mag_at K a) (mag_at K b) =
          cmp (unat (coefficient a) * 2 ^ nat (scale a - scale b)) (unat (coefficient b))"
    if "scale b \<le> scale a"
    by (simp only: shifted [of b a] that assms(2) cmp_mult_right zero_less_power zero_less_numeral)
  moreover have "unat (shl128 (coefficient b) (nat (scale b - scale a))) =
                   unat (coefficient b) * 2 ^ nat (scale b - scale a)" if "scale a < scale b"
    using assms nz lt [of a b] that by (intro unat_shl128) auto
  moreover have "unat (shl128 (coefficient a) (nat (scale a - scale b))) =
                   unat (coefficient a) * 2 ^ nat (scale a - scale b)" if "scale b < scale a"
    using assms nz lt [of b a] that by (intro unat_shl128) auto
  ultimately show ?thesis
    using False assms(3,4)
    by (cases "scale a" "scale b" rule: linorder_cases)
       (simp_all add: compare_nearby_scaled_def cmp_def [of "scale a"] cmp_def [of "scale b"]
          as_u32_eq
          cmp_unat [of "coefficient a"] cmp_unat [of _ "coefficient b"])
qed

section \<open>From the nearest number to the directed one\<close>

lemma cmp_simps [simp]:
  "cmp x y = Less \<longleftrightarrow> x < y" "cmp x y = Equal \<longleftrightarrow> x = y" "cmp x y = Greater \<longleftrightarrow> y < x"
  by (auto simp: cmp_def)

lemma reverse_if_negative_simps [simp]:
  "reverse_if_negative r neg = Less \<longleftrightarrow> r = (if neg then Greater else Less)"
  "reverse_if_negative r neg = Equal \<longleftrightarrow> r = Equal"
  "reverse_if_negative r neg = Greater \<longleftrightarrow> r = (if neg then Less else Greater)"
  by (cases r; simp add: reverse_if_negative_def)+

lemma mk_f64_Suc: "mk_f64 neg (Suc m) = mk_f64 neg m + 1"
  by (simp add: mk_f64_def)

lemma mk_f64_1: "mk_f64 False (Suc 0) = 1" "mk_f64 True (Suc 0) = SIGN_MASK OR 1"
  by (simp_all add: mk_f64_def SIGN_MASK_def)

lemma next_mk_f64:
  assumes "Suc m < 2 ^ 63"
  shows "next_up (mk_f64 False m) = mk_f64 False (Suc m)"
    and "next_down (mk_f64 True m) = mk_f64 True (Suc m)"
    and "next_down (mk_f64 False (Suc m)) = mk_f64 False m"
    and "next_up (mk_f64 True (Suc m)) = mk_f64 True m"
proof -
  have m: "m < 2 ^ 63" using assms by simp
  show "next_up (mk_f64 False m) = mk_f64 False (Suc m)"
    "next_down (mk_f64 True m) = mk_f64 True (Suc m)"
    unfolding next_up_def next_down_def and_ABS_MASK_eq_0 and_SIGN_MASK_eq_0
      f64_idx_mk [OF m] f64_neg_mk [OF m]
    by (cases "m = 0"; simp add: mk_f64_1; simp add: mk_f64_Suc)+
  show "next_down (mk_f64 False (Suc m)) = mk_f64 False m"
    "next_up (mk_f64 True (Suc m)) = mk_f64 True m"
    unfolding next_up_def next_down_def and_ABS_MASK_eq_0 and_SIGN_MASK_eq_0
      f64_idx_mk [OF assms] f64_neg_mk [OF assms]
    by (simp_all add: mk_f64_Suc)
qed

lemma apply_mode_correct:
  assumes "0 < p" "n = round_mag Nearest neg p N D" "n < inf_index"
    and "r = cmp N (mval n ^ p * D)"
  shows "apply_mode (mk_f64 neg n) (reverse_if_negative r neg) neg mode =
           mk_f64 neg (round_mag mode neg p N D)"
proof -
  have n: "Suc n < 2 ^ 63" using assms(3) by (simp add: inf_index_def)
  show ?thesis
  proof (cases r)
    case Less
    then have "N < mval n ^ p * D" using assms(4) by (metis cmp_simps(1))
    then obtain k where "n = Suc k"
      using round_mag_adjust(3) [OF assms(1,2)] by (metis gr0_implies_Suc)
    then show ?thesis
      using round_mag_adjust(3) [OF assms(1,2), of mode] \<open>N < mval n ^ p * D\<close> n Less
        next_mk_f64(3,4) [of k]
      by (cases mode; cases neg) (simp_all add: apply_mode_def)
  next
    case Equal
    then have "mval n ^ p * D = N" using assms(4) by (metis cmp_simps(2))
    then show ?thesis
      using round_mag_adjust(1) [OF assms(1,2,3), of mode] Equal
      by (cases mode) (simp_all add: apply_mode_def)
  next
    case Greater
    then have "mval n ^ p * D < N" using assms(4) by (metis cmp_simps(3))
    then show ?thesis
      using round_mag_adjust(2) [OF assms(1,2,3), of mode] Greater next_mk_f64(1,2) [OF n]
      by (cases mode; cases neg) (simp_all add: apply_mode_def)
  qed
qed

lemma directed_overflow_correct:
  assumes "0 < p" "n = round_mag Nearest neg p N D" "near = mk_f64 neg n"
  shows "directed_overflow near mode =
           (if n = inf_index then Some (mk_f64 neg (round_mag mode neg p N D)) else None)"
proof -
  have lt: "n < 2 ^ 63" using assms(1,2) round_mag_lt by simp
  show ?thesis
  proof (cases "n = inf_index")
    case True
    then have k: "n = Suc (n - 1)" by (simp add: inf_index_def)
    then show ?thesis
      using round_mag_adjust(3) [OF assms(1,2), of mode] True lt next_mk_f64(3,4) [of "n - 1"]
      by (cases mode; cases neg)
         (simp_all add: directed_overflow_def assms(3) apply_mode_def k [symmetric])
  next
    case False
    then show ?thesis using lt by (simp add: directed_overflow_def assms(3))
  qed
qed

text \<open>What the four directed operations have in common: the nearest result is corrected by the
  exact comparison.\<close>

lemma adjusted_correct:
  assumes "0 < p" "n = round_mag Nearest neg p N D" "near = mk_f64 neg n"
    and "n < inf_index \<Longrightarrow> r = cmp N (mval n ^ p * D)"
  shows "(case directed_overflow near mode of
            Some overflow \<Rightarrow> overflow
          | None \<Rightarrow> apply_mode near (reverse_if_negative r neg) neg mode) =
         mk_f64 neg (round_mag mode neg p N D)"
proof (cases "n = inf_index")
  case True
  then show ?thesis by (simp add: directed_overflow_correct [OF assms(1-3)])
next
  case False
  then have "n < inf_index"
    using round_mag_le_inf [OF assms(1), of Nearest neg N D] assms(2) by simp
  then show ?thesis
    using apply_mode_correct [OF assms(1,2), of r mode] assms(4) False
    unfolding directed_overflow_correct [OF assms(1-3)] by (simp add: assms(3))
qed

section \<open>Multiplication, division and square root\<close>

lemma magnitude_scale_le: "scale (magnitude a) \<le> 972"
proof -
  have "f64_idx a div 2 ^ 52 < 2 ^ 11" using f64_idx_lt [of a] by (simp add: div_less_iff_less_mult)
  then show ?thesis
    unfolding magnitude_def Let_def uint_nat unat_exponent by simp
qed

lemma multiply_magnitudes_mval:
  "mag_at 2148 (multiply_magnitudes (magnitude a) (magnitude b)) =
     mval (f64_idx a) * mval (f64_idx b)"
  "unat (coefficient (multiply_magnitudes (magnitude a) (magnitude b))) < 2 ^ 106"
proof -
  let ?a = "magnitude a" and ?b = "magnitude b"
  have "unat (coefficient ?a) * unat (coefficient ?b) < 2 ^ 53 * 2 ^ 53"
    using magnitude_bounds(1) by (intro mult_strict_mono) simp_all
  then have lt: "unat (coefficient ?a) * unat (coefficient ?b) < 2 ^ 106"
    by (simp flip: power_add)
  then have u: "unat (coefficient (multiply_magnitudes ?a ?b)) =
                  unat (coefficient ?a) * unat (coefficient ?b)"
    by (simp add: multiply_magnitudes_def unat_mult_bounded)
  then show "unat (coefficient (multiply_magnitudes ?a ?b)) < 2 ^ 106" using lt by simp
  have "nat (scale ?a + scale ?b + 2148) = nat (scale ?a + 1074) + nat (scale ?b + 1074)"
    using magnitude_bounds(2) [of a] magnitude_bounds(2) [of b] by simp
  then show "mag_at 2148 (multiply_magnitudes ?a ?b) = mval (f64_idx a) * mval (f64_idx b)"
    unfolding u mval_magnitude by (simp add: multiply_magnitudes_def power_add)
qed

lemma mval_magnitude_2148: "mag_at 2148 (magnitude a) = mval (f64_idx a) * f64_one"
proof -
  have "nat (scale (magnitude a) + 2148) = nat (scale (magnitude a) + 1074) + 1074"
    using magnitude_bounds(2) [of a] by simp
  then show ?thesis by (simp only: mval_magnitude f64_one_def power_add mult.assoc)
qed

text \<open>Values within a factor of four of each other, with coefficients of at most 126 bits, are
  compared exactly.\<close>

lemma compare_nearby_scaled_nearby:
  assumes "- K \<le> scale a" "- K \<le> scale b" "\<bar>scale a\<bar> < 2 ^ 30" "\<bar>scale b\<bar> < 2 ^ 30"
    and "unat (coefficient a) < 2 ^ 126" "unat (coefficient b) < 2 ^ 126"
    and "mag_at K a \<le> 4 * mag_at K b" "mag_at K b \<le> 4 * mag_at K a"
  shows "compare_nearby_scaled a b = cmp (mag_at K a) (mag_at K b)"
proof (rule compare_nearby_scaled_correct)
  have pow: "x * 2 ^ k < 2 ^ (126 + k)" if "x < 2 ^ 126" for x k :: nat
    using that by (simp add: power_add)
  have "4 * x < 2 ^ (128 + k)" if "x < 2 ^ (126 + k)" for x k :: nat
    using that by (simp add: power_add)
  note four = this
  show "mag_at K a < 2 ^ (128 + nat (scale b + K))"
    using four [OF pow [OF assms(6), of "nat (scale b + K)"]] assms(7) by linarith
  show "mag_at K b < 2 ^ (128 + nat (scale a + K))"
    using four [OF pow [OF assms(5), of "nat (scale a + K)"]] assms(8) by linarith
qed (use assms in auto)

lemma magnitude_scale_abs: "\<bar>scale (magnitude a)\<bar> < 2 ^ 20"
  using magnitude_scale_le [of a] magnitude_bounds(2) [of a] by simp

lemma product_scale:
  "\<bar>scale (multiply_magnitudes (magnitude a) (magnitude b))\<bar> < 2 ^ 30"
  "- 2148 \<le> scale (multiply_magnitudes (magnitude a) (magnitude b))"
  using magnitude_scale_abs [of a] magnitude_scale_abs [of b]
    magnitude_bounds(2) [of a] magnitude_bounds(2) [of b]
  by (simp_all add: multiply_magnitudes_def)

lemma compare_with_product:
  assumes "mval (f64_idx a) * mval (f64_idx b) \<le> 4 * (mval (f64_idx c) * f64_one)"
    and "mval (f64_idx c) * f64_one \<le> 4 * (mval (f64_idx a) * mval (f64_idx b))"
  shows "compare_nearby_scaled (multiply_magnitudes (magnitude a) (magnitude b)) (magnitude c) =
           cmp (mval (f64_idx a) * mval (f64_idx b)) (mval (f64_idx c) * f64_one)"
    and "compare_nearby_scaled (magnitude c) (multiply_magnitudes (magnitude a) (magnitude b)) =
           cmp (mval (f64_idx c) * f64_one) (mval (f64_idx a) * mval (f64_idx b))"
proof -
  have c: "unat (coefficient (magnitude c)) < 2 ^ 126" "- 2148 \<le> scale (magnitude c)"
    "\<bar>scale (magnitude c)\<bar> < 2 ^ 30"
    using magnitude_bounds [of c] magnitude_scale_abs [of c] by simp_all
  have ab: "unat (coefficient (multiply_magnitudes (magnitude a) (magnitude b))) < 2 ^ 126"
    using multiply_magnitudes_mval(2) [of a b] by simp
  show "compare_nearby_scaled (multiply_magnitudes (magnitude a) (magnitude b)) (magnitude c) =
           cmp (mval (f64_idx a) * mval (f64_idx b)) (mval (f64_idx c) * f64_one)"
    unfolding multiply_magnitudes_mval(1) [symmetric] mval_magnitude_2148 [symmetric]
    by (rule compare_nearby_scaled_nearby)
       (use c ab product_scale assms in
         \<open>simp_all only: multiply_magnitudes_mval(1) mval_magnitude_2148\<close>)
  show "compare_nearby_scaled (magnitude c) (multiply_magnitudes (magnitude a) (magnitude b)) =
           cmp (mval (f64_idx c) * f64_one) (mval (f64_idx a) * mval (f64_idx b))"
    unfolding multiply_magnitudes_mval(1) [symmetric] mval_magnitude_2148 [symmetric]
    by (rule compare_nearby_scaled_nearby)
       (use c ab product_scale assms in
         \<open>simp_all only: multiply_magnitudes_mval(1) mval_magnitude_2148\<close>)
qed

text \<open>A nearest result of zero needs no bound: the comparison with a zero coefficient is exact.\<close>

lemma compare_with_zero:
  "coefficient a = 0 \<or> coefficient b = 0 \<Longrightarrow>
     compare_nearby_scaled a b = cmp (mag_at K a) (mag_at K b)"
  by (auto simp: compare_nearby_scaled_def cmp_def unat_eq_zero word_less_nat_alt)

lemma product_coefficient_0:
  "f64_idx a = 0 \<or> f64_idx b = 0 \<Longrightarrow>
     coefficient (multiply_magnitudes (magnitude a) (magnitude b)) = 0"
  by (simp add: multiply_magnitudes_def) (metis coefficient_eq_0 mult_zero_left mult_zero_right)

lemma mul_inner_correct:
  assumes "\<not> f64_nan a" "\<not> f64_nan b"
  shows "mul_inner a b mode = f64_mul mode a b"
proof (cases "f64_inf a \<or> f64_inf b")
  case True
  then show ?thesis by (auto simp: mul_inner_def nearest_mul_def f64_mul_def Let_def)
next
  case False
  let ?neg = "f64_neg a \<noteq> f64_neg b" and ?N = "mval (f64_idx a) * mval (f64_idx b)"
  define n where "n = round_mag Nearest ?neg 1 ?N (f64_one)"
  have near: "nearest_mul a b = mk_f64 ?neg n"
    using False assms by (simp add: nearest_mul_def f64_mul_def n_def Let_def)
  have idx: "f64_idx (nearest_mul a b) = n"
    unfolding near n_def by (intro f64_idx_mk round_mag_lt) simp
  let ?e = "multiply_magnitudes (magnitude a) (magnitude b)"
  have cmp: "compare_nearby_scaled ?e (magnitude (nearest_mul a b)) = cmp ?N (mval n ^ 1 * f64_one)"
    if "n < inf_index"
  proof (cases "n = 0")
    case True
    then have "coefficient (magnitude (nearest_mul a b)) = 0" by (simp add: idx)
    then show ?thesis
      by (simp add: compare_with_zero [of _ _ 2148] mval_magnitude_2148 multiply_magnitudes_mval(1)
            idx del: mult_eq_0_iff)
  next
    case False
    then show ?thesis
      using round_mag_nearest_nearby [of 1 n ?neg ?N "f64_one"] that n_def
      by (subst compare_with_product(1)) (simp_all add: idx)
  qed
  have "mul_inner a b mode = mk_f64 ?neg (round_mag mode ?neg 1 ?N (f64_one))"
    using adjusted_correct [OF _ n_def near cmp, of mode] False
    unfolding mul_inner_def Let_def and_SIGN_MASK_eq_0 xor_neg not_not by simp
  then show ?thesis using False assms by (simp add: f64_mul_def Let_def)
qed

lemma div_inner_correct:
  assumes "\<not> f64_nan a" "\<not> f64_nan b" "f64_idx b \<noteq> 0"
  shows "div_inner a b mode = f64_div mode a b"
proof (cases "f64_inf a \<or> f64_inf b")
  case True
  then show ?thesis using assms(3) by (auto simp: div_inner_def nearest_div_def f64_div_def Let_def)
next
  case False
  let ?neg = "f64_neg a \<noteq> f64_neg b" and ?N = "mval (f64_idx a) * f64_one"
  define n where "n = round_mag Nearest ?neg 1 ?N (mval (f64_idx b))"
  have near: "nearest_div a b = mk_f64 ?neg n"
    using False assms by (simp add: nearest_div_def f64_div_def n_def Let_def)
  have idx: "f64_idx (nearest_div a b) = n"
    unfolding near n_def by (intro f64_idx_mk round_mag_lt) simp
  let ?rhs = "multiply_magnitudes (magnitude (nearest_div a b)) (magnitude b)"
  have cmp: "compare_nearby_scaled (magnitude a) ?rhs = cmp ?N (mval n ^ 1 * mval (f64_idx b))"
    if "n < inf_index"
  proof (cases "n = 0")
    case True
    then have "coefficient ?rhs = 0" by (intro product_coefficient_0) (simp add: idx)
    then show ?thesis
      using True by (simp add: compare_with_zero [of _ _ 2148] mval_magnitude_2148 multiply_magnitudes_mval(1)
            idx del: mult_eq_0_iff)
  next
    case False
    then show ?thesis
      using round_mag_nearest_nearby [of 1 n ?neg ?N "mval (f64_idx b)"] that n_def
      by (subst compare_with_product(2)) (simp_all add: idx)
  qed
  have "div_inner a b mode = mk_f64 ?neg (round_mag mode ?neg 1 ?N (mval (f64_idx b)))"
    using adjusted_correct [OF _ n_def near cmp, of mode] False
    unfolding div_inner_def Let_def and_SIGN_MASK_eq_0 xor_neg not_not by simp
  then show ?thesis using False assms by (simp add: f64_div_def Let_def)
qed

text \<open>The square root of a finite value is finite, so no overflow is possible.\<close>

lemma sqrt_finite:
  assumes "k < inf_index"
  shows "round_mag Nearest neg 2 (mval k * f64_one) 1 < inf_index"
proof -
  let ?n = "round_mag Nearest neg 2 (mval k * f64_one) 1"
  have "mval ?n ^ 2 * 1 \<le> 2 ^ 2 * (mval k * f64_one)"
    by (rule round_mag_nearest_nearby) simp_all
  also have "\<dots> \<le> 2 ^ 2 * (mval inf_index * f64_one)"
    using assms by (intro mult_left_mono mult_right_mono) simp_all
  also have "\<dots> < mval inf_index ^ 2 * 1"
  proof -
    have "mval inf_index = 2 ^ 1024 * f64_one" by (simp add: mval_def inf_index_def f64_one_def)
    then show ?thesis by (simp add: power2_eq_square f64_one_def)
  qed
  finally have "mval ?n ^ 2 < mval inf_index ^ 2" by simp
  then have "mval ?n < mval inf_index" by (rule power_less_imp_less_base) simp
  then show ?thesis by simp
qed

lemma sqrt_inner_correct:
  assumes "\<not> f64_nan a" "\<not> f64_neg a \<or> f64_idx a = 0"
  shows "sqrt_inner a mode = f64_sqrt mode a"
proof -
  consider "f64_inf a" | "f64_idx a = 0" | "f64_idx a \<noteq> 0" "f64_idx a < inf_index" "\<not> f64_neg a"
    using assms by linarith
  then show ?thesis
  proof cases
    case 1
    then show ?thesis using assms by (simp add: sqrt_inner_def nearest_sqrt_def f64_sqrt_def)
  next
    case 2
    then have "nearest_sqrt a = a" "f64_sqrt mode a = a"
      by (simp_all add: nearest_sqrt_def f64_sqrt_def inf_index_def)
    moreover have "coefficient (multiply_magnitudes (magnitude a) (magnitude a)) = 0"
      "coefficient (magnitude a) = 0"
      using 2 by (simp_all add: product_coefficient_0)
    ultimately show ?thesis
      using 2 by (cases mode) (simp_all add: sqrt_inner_def Let_def apply_mode_def inf_index_def
         compare_nearby_scaled_def cmp_def)
  next
    case 3
    let ?N = "mval (f64_idx a) * f64_one"
    define n where "n = round_mag Nearest False 2 ?N 1"
    have near: "nearest_sqrt a = mk_f64 False n"
      using 3 by (simp add: nearest_sqrt_def f64_sqrt_def n_def)
    have idx: "f64_idx (nearest_sqrt a) = n"
      unfolding near n_def by (intro f64_idx_mk round_mag_lt) simp
    have n: "n < inf_index" using sqrt_finite [OF 3(2)] by (simp add: n_def)
    let ?sq = "multiply_magnitudes (magnitude (nearest_sqrt a)) (magnitude (nearest_sqrt a))"
    have cmp: "compare_nearby_scaled (magnitude a) ?sq = cmp ?N (mval n ^ 2 * 1)"
    proof (cases "n = 0")
      case True
      then have "coefficient ?sq = 0" by (intro product_coefficient_0) (simp add: idx)
      then show ?thesis
        using True by (simp add: compare_with_zero [of _ _ 2148] mval_magnitude_2148
              multiply_magnitudes_mval(1) idx power2_eq_square del: mult_eq_0_iff)
    next
      case False
      then show ?thesis
        using round_mag_nearest_nearby [of 2 n False ?N 1] n n_def
        by (subst compare_with_product(2)) (simp_all add: idx power2_eq_square)
    qed
    have "sqrt_inner a mode = mk_f64 False (round_mag mode False 2 ?N 1)"
      using apply_mode_correct [OF _ n_def n cmp, of mode] 3 near
      by (simp add: sqrt_inner_def Let_def reverse_if_negative_def)
    then show ?thesis using 3 by (simp add: f64_sqrt_def)
  qed
qed

section \<open>Addition\<close>

text \<open>The exponent of the unit in the last place of a number.\<close>

abbreviation ulp_exp :: "u64 \<Rightarrow> nat" where
  "ulp_exp a \<equiv> nat (scale (magnitude a) + 1074)"

lemma ulp_exp_eq: "ulp_exp a = f64_idx a div 2 ^ 52 - 1"
  unfolding magnitude_def Let_def uint_nat unat_exponent
  by (cases "f64_idx a div 2 ^ 52") simp_all

lemma mval_Suc: "mval (Suc m) = mval m + 2 ^ (m div 2 ^ 52 - 1)"
proof (rule index_cases [of m])
  fix e f assume m: "m = e * 2 ^ 52 + f" and f: "f < (2 ^ 52 :: nat)"
  have e: "m div 2 ^ 52 = e" using f by (simp add: m)
  show ?thesis
  proof (cases "Suc f < 2 ^ 52")
    case True
    have "Suc m = e * 2 ^ 52 + Suc f" by (simp add: m)
    then show ?thesis
      using e mval_exp_frac [OF True, of e] mval_exp_frac [OF f, of e]
      by (simp add: m [symmetric] algebra_simps split: if_splits)
  next
    case False
    then have f': "Suc f = 2 ^ 52" using f by simp
    then have "Suc m = Suc e * 2 ^ 52 + 0" by (simp add: m)
    then have "mval (Suc m) = 2 ^ 52 * 2 ^ e"
      using mval_exp_frac [of 0 "Suc e"] by simp
    moreover have "mval m = (if e = 0 then f else (2 ^ 52 + f) * 2 ^ (e - 1))"
      using mval_exp_frac [OF f, of e] by (simp add: m)
    ultimately show ?thesis unfolding e using f' by (cases e) (simp_all add: algebra_simps)
  qed
qed

lemma mval_Suc_ulp: "mval (Suc (f64_idx a)) = mval (f64_idx a) + 2 ^ ulp_exp a"
  by (simp only: mval_Suc ulp_exp_eq)

lemma mval_pred_ulp:
  assumes "0 < ulp_exp a"
  obtains k where "f64_idx a = Suc k" "mval k + 2 ^ (ulp_exp a - 1) \<le> mval (f64_idx a)"
proof -
  have "f64_idx a \<noteq> 0" using assms by (auto simp: ulp_exp_eq)
  then obtain k where k: "f64_idx a = Suc k" by (cases "f64_idx a") auto
  have "ulp_exp a - 1 \<le> k div 2 ^ 52 - 1"
    unfolding ulp_exp_eq k by (auto simp add: div_Suc)
  then have "(2 :: nat) ^ (ulp_exp a - 1) \<le> 2 ^ (k div 2 ^ 52 - 1)" by simp
  then show ?thesis using that [OF k] by (simp add: k mval_Suc)
qed

lemma mval_ulp: "mval (f64_idx a) = unat (coefficient (magnitude a)) * 2 ^ ulp_exp a"
  by (rule mval_magnitude)

lemma mval_lt_ulp: "mval (f64_idx a) < 2 ^ (53 + ulp_exp a)"
  using magnitude_bounds(1) [of a] by (simp add: mval_ulp power_add)

text \<open>Two operands whose exponents are far apart: the nearest sum is the bigger one.\<close>

lemma far_operand:
  assumes "ulp_exp y + k \<le> ulp_exp x"
  shows "2 * mval (f64_idx y) * 2 ^ k < 2 ^ (ulp_exp x + 54)"
proof -
  have "2 * mval (f64_idx y) * 2 ^ k < 2 * 2 ^ (53 + ulp_exp y) * 2 ^ k"
    using mval_lt_ulp [of y] by simp
  also have "\<dots> = 2 ^ (54 + (ulp_exp y + k))" by (simp add: power_add)
  also have "\<dots> \<le> 2 ^ (54 + ulp_exp x)" using assms by (intro power_increasing) simp_all
  finally show ?thesis by (simp add: add.commute)
qed

lemma nearest_same_sign_far:
  assumes "f64_finite x" "ulp_exp y + 55 \<le> ulp_exp x"
  shows "round_mag Nearest neg 1 (mval (f64_idx x) + mval (f64_idx y)) 1 = f64_idx x"
proof (rule round_nearest_above)
  have "2 * mval (f64_idx y) < 2 ^ ulp_exp x"
    using far_operand [OF assms(2)] by (simp add: power_add)
  then show "2 * (mval (f64_idx x) + mval (f64_idx y)) < mval (f64_idx x) + mval (Suc (f64_idx x))"
    by (simp add: mval_Suc_ulp)
qed (use assms in simp_all)

lemma nearest_opposite_far:
  assumes "f64_finite x" "ulp_exp y + 75 < ulp_exp x"
  shows "round_mag Nearest neg 1 (mval (f64_idx x) - mval (f64_idx y)) 1 = f64_idx x"
proof -
  have pos: "0 < ulp_exp x" using assms(2) by simp
  obtain k where k: "f64_idx x = Suc k" "mval k + 2 ^ (ulp_exp x - 1) \<le> mval (f64_idx x)"
    using mval_pred_ulp [OF pos] by blast
  have "2 * mval (f64_idx y) * 2 ^ 55 < 2 ^ (ulp_exp x + 54)"
    using assms(2) by (intro far_operand) simp
  also have "ulp_exp x + 54 = ulp_exp x - 1 + 55" using pos by simp
  finally have "2 * mval (f64_idx y) < 2 ^ (ulp_exp x - 1)" by (simp add: power_add)
  then show ?thesis
    using round_nearest_below [of k] k assms(1) by (simp del: mval_less_iff)
qed

lemma distance_eq:
  "scale (magnitude y) \<le> scale (magnitude x) \<Longrightarrow>
     as_u32 (scale (magnitude x) - scale (magnitude y)) = ulp_exp x - ulp_exp y"
  using magnitude_scale_abs [of x] magnitude_scale_abs [of y] magnitude_bounds(2) [of y]
  by (simp add: as_u32_eq)

lemma ulp_exp_mono: "scale (magnitude y) \<le> scale (magnitude x) \<Longrightarrow> ulp_exp y \<le> ulp_exp x"
  by simp

lemma unat_shl_magnitude:
  assumes "d \<le> 75"
  shows "unat (shl128 (coefficient (magnitude x)) d) = unat (coefficient (magnitude x)) * 2 ^ d"
    and "unat (coefficient (magnitude x)) * 2 ^ d + 2 ^ 53 \<le> 2 ^ 128"
proof -
  let ?c = "unat (coefficient (magnitude x))"
  have "?c * 2 ^ d \<le> (2 ^ 53 - 1) * 2 ^ 75"
    using magnitude_bounds(1) [of x] assms by (intro mult_mono power_increasing) simp_all
  then show *: "?c * 2 ^ d + 2 ^ 53 \<le> 2 ^ 128" by simp
  show "unat (shl128 (coefficient (magnitude x)) d) = ?c * 2 ^ d"
    using assms * unfolding shl128_def by (subst unat_push_bit_bounded) simp_all
qed

lemma exact_sum:
  assumes "ulp_exp y \<le> ulp_exp x" "d = ulp_exp x - ulp_exp y" "d \<le> 75"
  shows "mag_at 1074 \<lparr> coefficient = shl128 (coefficient (magnitude x)) d + coefficient (magnitude y),
                       scale = scale (magnitude y) \<rparr> = mval (f64_idx x) + mval (f64_idx y)"
    and "f64_idx y \<le> f64_idx x \<Longrightarrow>
         mag_at 1074 \<lparr> coefficient = shl128 (coefficient (magnitude x)) d - coefficient (magnitude y),
                       scale = scale (magnitude y) \<rparr> = mval (f64_idx x) - mval (f64_idx y)"
proof -
  let ?cx = "unat (coefficient (magnitude x))" and ?cy = "unat (coefficient (magnitude y))"
  note shl = unat_shl_magnitude [OF assms(3), of x]
  have x: "mval (f64_idx x) = ?cx * 2 ^ d * 2 ^ ulp_exp y"
    using assms(1,2) by (simp add: mval_ulp flip: power_add)
  have "unat (shl128 (coefficient (magnitude x)) d + coefficient (magnitude y)) = ?cx * 2 ^ d + ?cy"
    using shl magnitude_bounds(1) [of y] by (simp add: unat_add_bounded)
  then show "mag_at 1074 \<lparr> coefficient = shl128 (coefficient (magnitude x)) d + coefficient (magnitude y),
                       scale = scale (magnitude y) \<rparr> = mval (f64_idx x) + mval (f64_idx y)"
    unfolding x mval_ulp [of y] by (simp add: distrib_right)
  assume "f64_idx y \<le> f64_idx x"
  then have "mval (f64_idx y) \<le> mval (f64_idx x)" by simp
  then have "?cy * 2 ^ ulp_exp y \<le> (?cx * 2 ^ d) * 2 ^ ulp_exp y"
    unfolding x mval_ulp [of y] .
  then have "?cy \<le> ?cx * 2 ^ d" by simp
  then have "unat (shl128 (coefficient (magnitude x)) d - coefficient (magnitude y)) = ?cx * 2 ^ d - ?cy"
    using shl by (simp add: unat_sub_bounded)
  then show "mag_at 1074 \<lparr> coefficient = shl128 (coefficient (magnitude x)) d - coefficient (magnitude y),
                       scale = scale (magnitude y) \<rparr> = mval (f64_idx x) - mval (f64_idx y)"
    unfolding x mval_ulp [of y] by (simp add: diff_mult_distrib)
qed

lemma compare_exact_nearest:
  assumes "mag_at 1074 e = N" "scale e = scale (magnitude y)" "0 < N"
    and "n = round_mag Nearest neg 1 N 1" "n < inf_index" "f64_idx near = n"
    and "mval n < 2 ^ (128 + ulp_exp y)"
  shows "compare_nearby_scaled e (magnitude near) = cmp N (mval n)"
proof -
  have near: "mag_at 1074 (magnitude near) = mval n"
    using mval_magnitude [of near] assms(6) by simp
  have "0 < n" using round_mag_pos [OF assms(3)] assms(4) by simp
  then have "N \<le> 2 * mval n"
    using round_mag_nearest_nearby(2) [of 1 n neg N 1] assms(4,5) by simp
  also have "\<dots> < 2 * 2 ^ (53 + ulp_exp near)" using mval_lt_ulp [of near] assms(6) by simp
  also have "\<dots> \<le> 2 ^ (128 + ulp_exp near)" by (simp add: power_add)
  finally have N: "N < 2 ^ (128 + ulp_exp near)" .
  have "compare_nearby_scaled e (magnitude near) =
          cmp (mag_at 1074 e) (mag_at 1074 (magnitude near))"
  proof (rule compare_nearby_scaled_correct)
    show "mag_at 1074 e < 2 ^ (128 + ulp_exp near)" using N assms(1) by simp
    show "mag_at 1074 (magnitude near) < 2 ^ (128 + nat (scale e + 1074))"
      unfolding near assms(2) using assms(7) .
  qed (use magnitude_scale_abs [of y] magnitude_scale_abs [of near] magnitude_bounds(2) [of y]
         magnitude_bounds(2) [of near] assms(2) in simp_all)
  then show ?thesis by (simp only: assms(1) near)
qed

lemma nearest_fits:
  assumes "n = round_mag Nearest neg 1 N 1" "ulp_exp x - ulp_exp y \<le> 75" "ulp_exp y \<le> ulp_exp x"
    and "N < 2 ^ (54 + ulp_exp x)" "54 < ulp_exp x - ulp_exp y \<Longrightarrow> n \<le> f64_idx x"
  shows "mval n < 2 ^ (128 + ulp_exp y)"
proof (cases "54 < ulp_exp x - ulp_exp y")
  case True
  then have "mval n \<le> mval (f64_idx x)" using assms(5) by simp
  also have "\<dots> < 2 ^ (53 + ulp_exp x)" by (rule mval_lt_ulp)
  also have "\<dots> \<le> 2 ^ (128 + ulp_exp y)" using assms(2) by (intro power_increasing) simp_all
  finally show ?thesis .
next
  case False
  have "mval n \<le> 2 * N" using round_mag_nearest_nearby(1) [of 1 n neg N 1] assms(1) by simp
  also have "\<dots> < 2 * 2 ^ (54 + ulp_exp x)" using assms(4) by simp
  also have "\<dots> = 2 ^ (55 + ulp_exp x)" by (simp add: power_add)
  also have "\<dots> \<le> 2 ^ (128 + ulp_exp y)" using False assms(3) by (intro power_increasing) simp_all
  finally show ?thesis .
qed

text \<open>The relation computed for two operands of the same sign, the first with the larger
  exponent, and for two operands of opposite sign, the first with the larger magnitude.\<close>

lemma same_sign_relation:
  assumes "f64_finite x" "f64_idx y \<noteq> 0" "scale (magnitude y) \<le> scale (magnitude x)"
    and "N = mval (f64_idx x) + mval (f64_idx y)" "n = round_mag Nearest neg 1 N 1"
    and "n < inf_index" "f64_idx near = n" "d = as_u32 (scale (magnitude x) - scale (magnitude y))"
  shows "(if d \<le> 75
          then compare_nearby_scaled
                 \<lparr> coefficient = shl128 (coefficient (magnitude x)) d + coefficient (magnitude y),
                   scale = scale (magnitude y) \<rparr> (magnitude near)
          else Greater) = cmp N (mval n)"
proof -
  note u = ulp_exp_mono [OF assms(3)]
  have d: "d = ulp_exp x - ulp_exp y" using distance_eq [OF assms(3)] assms(8) by simp
  have pos: "0 < mval (f64_idx y)" using assms(2) by simp
  have far: "n = f64_idx x" if "54 < ulp_exp x - ulp_exp y"
    using nearest_same_sign_far [OF assms(1), of y neg] that assms(4,5) by simp
  show ?thesis
  proof (cases "d \<le> 75")
    case True
    have "mval (f64_idx y) < 2 ^ (53 + ulp_exp x)"
      using u by (intro less_le_trans [OF mval_lt_ulp power_increasing]) simp_all
    then have "N < 2 ^ (54 + ulp_exp x)"
      using mval_lt_ulp [of x] assms(4) by (simp add: power_add)
    then have "mval n < 2 ^ (128 + ulp_exp y)"
      using True d u far by (intro nearest_fits [OF assms(5)]) auto
    then show ?thesis
      using True pos assms(4) exact_sum(1) [OF u d True]
      by (simp add: compare_exact_nearest [OF _ _ _ assms(5-7)])
  next
    case False
    then have "n = f64_idx x" using far d by simp
    then have "mval n < N" using pos assms(4) by simp
    then show ?thesis using False by (simp add: cmp_def)
  qed
qed

lemma opposite_sign_relation:
  assumes "f64_finite x" "f64_idx y \<noteq> 0" "f64_idx y < f64_idx x"
    and "N = mval (f64_idx x) - mval (f64_idx y)" "n = round_mag Nearest neg 1 N 1"
    and "n < inf_index" "f64_idx near = n" "d = as_u32 (scale (magnitude x) - scale (magnitude y))"
  shows "(if d \<le> 75
          then compare_nearby_scaled
                 \<lparr> coefficient = shl128 (coefficient (magnitude x)) d - coefficient (magnitude y),
                   scale = scale (magnitude y) \<rparr> (magnitude near)
          else Less) = cmp N (mval n)"
proof -
  have u: "ulp_exp y \<le> ulp_exp x"
    unfolding ulp_exp_eq using assms(3) by (intro diff_le_mono div_le_mono) simp
  then have "scale (magnitude y) \<le> scale (magnitude x)"
    using magnitude_bounds(2) [of x] magnitude_bounds(2) [of y] by simp
  then have d: "d = ulp_exp x - ulp_exp y" using distance_eq assms(8) by simp
  have lt: "mval (f64_idx y) < mval (f64_idx x)" using assms(3) by simp
  have pos: "0 < mval (f64_idx y)" using assms(2) by simp
  have le: "n \<le> f64_idx x"
    unfolding assms(5) using assms(1,4) by (intro round_mag_le_index) simp_all
  show ?thesis
  proof (cases "d \<le> 75")
    case True
    have "N < 2 ^ (54 + ulp_exp x)"
      using mval_lt_ulp [of x] assms(4) by (simp add: power_add)
    then have "mval n < 2 ^ (128 + ulp_exp y)"
      using True d u le by (intro nearest_fits [OF assms(5)]) auto
    then show ?thesis
      using True lt assms(3,4) exact_sum(2) [OF u d True]
      by (simp add: compare_exact_nearest [OF _ _ _ assms(5-7)] del: mval_less_iff)
  next
    case False
    then have "n = f64_idx x"
      using nearest_opposite_far [OF assms(1), of y neg] d assms(4,5) by simp
    then have "N < mval n" using pos lt assms(4) by (simp del: mval_less_iff mval_pos_iff)
    then show ?thesis using False by (simp add: cmp_def)
  qed
qed

lemma add_relation_correct:
  assumes "f64_finite a" "f64_finite b" "f64_idx a \<noteq> 0" "f64_idx b \<noteq> 0"
    and "s = f64_sval a + f64_sval b" "s \<noteq> 0"
    and "n = round_mag Nearest (s < 0) 1 (nat \<bar>s\<bar>) 1" "n < inf_index" "f64_idx near = n"
  shows "add_relation a b near =
           (reverse_if_negative (cmp (nat \<bar>s\<bar>) (mval n)) (s < 0), s < 0)"
proof -
  have pos: "0 < mval (f64_idx a)" "0 < mval (f64_idx b)" using assms(3,4) by simp_all
  consider (same) "f64_neg a = f64_neg b"
    | (a_big) "f64_neg a \<noteq> f64_neg b" "f64_idx b < f64_idx a"
    | (b_big) "f64_neg a \<noteq> f64_neg b" "f64_idx a < f64_idx b"
    using assms(5,6) by (cases "f64_idx a" "f64_idx b" rule: linorder_cases)
      (auto simp: f64_sval_def split: if_splits)
  then show ?thesis
  proof cases
    case same
    have N: "nat \<bar>s\<bar> = mval (f64_idx a) + mval (f64_idx b)" and neg: "s < 0 \<longleftrightarrow> f64_neg a"
      using same pos assms(5) by (auto simp: f64_sval_def nat_add_distrib simp del: mval_pos_iff)
    show ?thesis
    proof (cases "scale (magnitude b) \<le> scale (magnitude a)")
      case True
      then show ?thesis
        using same assms(3,4) neg same_sign_relation [OF assms(1,4) True N assms(7-9) refl]
        unfolding add_relation_def Let_def by (simp split del: if_split)
    next
      case False
      then have le: "scale (magnitude a) \<le> scale (magnitude b)" by simp
      have N': "nat \<bar>s\<bar> = mval (f64_idx b) + mval (f64_idx a)" using N by simp
      show ?thesis
        using same assms(3,4) neg False same_sign_relation [OF assms(2,3) le N' assms(7-9) refl]
        unfolding add_relation_def Let_def by (simp split del: if_split)
    qed
  next
    case a_big
    then have lt: "mval (f64_idx b) < mval (f64_idx a)" by simp
    have N: "nat \<bar>s\<bar> = mval (f64_idx a) - mval (f64_idx b)" and neg: "s < 0 \<longleftrightarrow> f64_neg a"
      using a_big(1) lt pos assms(5) by (auto simp: f64_sval_def nat_diff_distrib simp del: mval_less_iff)
    have ord: "cmp (a AND ABS_MASK) (b AND ABS_MASK) = Greater"
      using a_big(2) by (simp add: word_less_nat_alt unat_and_ABS_MASK)
    show ?thesis
      using a_big(1) assms(3,4) neg opposite_sign_relation [OF assms(1,4) a_big(2) N assms(7-9) refl]
      unfolding add_relation_def Let_def ord by (simp split del: if_split)
  next
    case b_big
    then have lt: "mval (f64_idx a) < mval (f64_idx b)" by simp
    have N: "nat \<bar>s\<bar> = mval (f64_idx b) - mval (f64_idx a)" and neg: "s < 0 \<longleftrightarrow> f64_neg b"
      using b_big(1) lt pos assms(5) by (auto simp: f64_sval_def nat_diff_distrib simp del: mval_less_iff)
    have ord: "cmp (a AND ABS_MASK) (b AND ABS_MASK) = Less"
      using b_big(2) by (simp add: word_less_nat_alt unat_and_ABS_MASK)
    show ?thesis
      using b_big(1) assms(3,4) neg opposite_sign_relation [OF assms(2,3) b_big(2) N assms(7-9) refl]
      unfolding add_relation_def Let_def ord by (simp split del: if_split)
  qed
qed

text \<open>Addition by zero is exact.\<close>

lemma add_inner_zero:
  assumes "f64_finite a" "f64_finite b" "f64_idx a = 0 \<or> f64_idx b = 0"
  shows "add_inner a b mode = f64_add mode a b"
proof -
  let ?s = "f64_sval a + f64_sval b"
  have exact: "round_mag m neg 1 (mval k) 1 = k" if "k < inf_index" for m neg k
    using that by (intro round_mag_exact) simp_all
  have rel: "add_relation a b near = (Equal, f64_neg near)" for near
    using assms(3) by (auto simp: add_relation_def Let_def)
  have eq: "apply_mode x Equal neg m = x" for x neg m by (cases m) (simp_all add: apply_mode_def)
  have "\<not> f64_nan a" "\<not> f64_nan b" "\<not> f64_inf a" "\<not> f64_inf b" using assms by simp_all
  note fin = this
  show ?thesis
  proof (cases "f64_idx a = 0 \<and> f64_idx b = 0")
    case True
    then have add: "f64_add m a b = mk_f64 (if f64_neg a = f64_neg b then f64_neg a else m = Down) 0"
      for m using fin by (simp add: f64_add_def f64_sval_def)
    have "SIGN_MASK = mk_f64 True 0" by (simp add: SIGN_MASK_def mk_f64_def)
    then show ?thesis
      using fin add
      by (cases "f64_neg a = f64_neg b"; cases mode)
         (simp_all add: add_inner_def nearest_add_def directed_overflow_def rel eq inf_index_def)
  next
    case False
    define neg where "neg = (?s < 0)"
    define k where "k = f64_idx a + f64_idx b"
    have k: "k < inf_index" "0 < k" "nat \<bar>?s\<bar> = mval k" "?s \<noteq> 0"
      using False assms by (auto simp: k_def f64_sval_def)
    then have add: "f64_add m a b = mk_f64 neg k" for m
      using fin by (simp add: f64_add_def Let_def neg_def exact [unfolded One_nat_def])
    moreover have "k < 2 ^ 63" using k(1) inf_index_lt by linarith
    ultimately show ?thesis
      using fin k by (simp add: add_inner_def nearest_add_def directed_overflow_def rel eq)
  qed
qed

lemma add_inner_correct:
  assumes "\<not> f64_nan a" "\<not> f64_nan b"
  shows "add_inner a b mode = f64_add mode a b"
proof -
  let ?s = "f64_sval a + f64_sval b"
  consider (inf) "f64_inf a \<or> f64_inf b"
    | (zero) "f64_finite a" "f64_finite b" "f64_idx a = 0 \<or> f64_idx b = 0"
    | (cancel) "f64_finite a" "f64_finite b" "f64_idx a \<noteq> 0" "f64_idx b \<noteq> 0" "?s = 0"
    | (round) "f64_finite a" "f64_finite b" "f64_idx a \<noteq> 0" "f64_idx b \<noteq> 0" "?s \<noteq> 0"
    using assms by linarith
  then show ?thesis
  proof cases
    case inf
    then show ?thesis using assms by (auto simp: add_inner_def nearest_add_def f64_add_def)
  next
    case zero
    then show ?thesis by (rule add_inner_zero)
  next
    case cancel
    then have eq: "f64_idx a = f64_idx b" "f64_neg a \<noteq> f64_neg b"
      by (auto simp: f64_sval_def simp flip: of_nat_add split: if_splits)
    then have add: "f64_add m a b = mk_f64 (m = Down) 0" for m
      using cancel by (simp add: f64_add_def)
    have "a AND ABS_MASK = b AND ABS_MASK"
      using eq(1) by (simp add: word_unat_eq_iff unat_and_ABS_MASK)
    then have ord: "cmp (a AND ABS_MASK) (b AND ABS_MASK) = Equal" by simp
    have rel: "add_relation a b near = (Equal, False)" for near
      using eq(2) cancel unfolding add_relation_def Let_def ord by simp
    have "SIGN_MASK = mk_f64 True 0" by (simp add: SIGN_MASK_def mk_f64_def)
    then show ?thesis
      using cancel eq(2) add
      by (cases mode) (simp_all add: add_inner_def nearest_add_def directed_overflow_def rel
            apply_mode_def inf_index_def)
  next
    case round
    define n where "n = round_mag Nearest (?s < 0) 1 (nat \<bar>?s\<bar>) 1"
    have near: "nearest_add a b = mk_f64 (?s < 0) n"
      using round by (simp add: nearest_add_def f64_add_def Let_def n_def)
    have idx: "f64_idx (nearest_add a b) = n"
      unfolding near n_def by (intro f64_idx_mk round_mag_lt) simp
    have "0 < n" unfolding n_def using round(5) by (intro round_mag_pos) simp
    have rel: "add_relation a b (nearest_add a b) =
            (reverse_if_negative (cmp (nat \<bar>?s\<bar>) (mval n ^ 1 * 1)) (?s < 0), ?s < 0)"
      if "n < inf_index"
      using add_relation_correct [OF round(1-4) refl round(5) n_def that idx] by simp
    have "n < inf_index" if "directed_overflow (nearest_add a b) mode = None"
      using that directed_overflow_correct [OF _ n_def near, of mode]
        round_mag_le_inf [of 1 Nearest "?s < 0" "nat \<bar>?s\<bar>" 1]
      by (auto simp: n_def split: if_splits)
    then have "add_inner a b mode =
        (case directed_overflow (nearest_add a b) mode of
           Some overflow \<Rightarrow> overflow
         | None \<Rightarrow> apply_mode (nearest_add a b)
                    (reverse_if_negative (cmp (nat \<bar>?s\<bar>) (mval n ^ 1 * 1)) (?s < 0)) (?s < 0) mode)"
      using round \<open>0 < n\<close> idx rel
      by (simp add: add_inner_def Let_def del: reverse_if_negative_simps split: option.split)
    also have "\<dots> = mk_f64 (?s < 0) (round_mag mode (?s < 0) 1 (nat \<bar>?s\<bar>) 1)"
      by (rule adjusted_correct [OF _ n_def near]) simp_all
    also have "\<dots> = f64_add mode a b" using round by (simp add: f64_add_def Let_def)
    finally show ?thesis .
  qed
qed

section \<open>The operations in every mode\<close>

text \<open>The contract of a two-operand operation and of its two-lane form: the IEEE result on a
  domain of operands. It is stated once and holds for addition, subtraction, multiplication and
  division.\<close>

locale directed_op =
  fixes op :: "u64 \<Rightarrow> u64 \<Rightarrow> RoundingMode \<Rightarrow> u64"
    and op2 :: "u64 \<times> u64 \<Rightarrow> u64 \<times> u64 \<Rightarrow> RoundingMode \<Rightarrow> u64 \<times> u64"
    and ieee :: "RoundingMode \<Rightarrow> u64 \<Rightarrow> u64 \<Rightarrow> u64"
    and dom :: "u64 \<Rightarrow> u64 \<Rightarrow> bool"
  assumes op_ieee: "dom a b \<Longrightarrow> op a b mode = ieee mode a b"
    and op2_lanes: "op2 x y mode = (op (fst x) (fst y) mode, op (snd x) (snd y) mode)"
begin

lemma op2_ieee:
  assumes "dom (fst x) (fst y)" "dom (snd x) (snd y)"
  shows "op2 x y mode = (ieee mode (fst x) (fst y), ieee mode (snd x) (snd y))"
  using assms by (simp add: op2_lanes op_ieee)

end

definition no_nan :: "u64 \<Rightarrow> u64 \<Rightarrow> bool" where
  "no_nan a b \<longleftrightarrow> \<not> f64_nan a \<and> \<not> f64_nan b"

definition div_domain :: "u64 \<Rightarrow> u64 \<Rightarrow> bool" where
  "div_domain a b \<longleftrightarrow> \<not> f64_nan a \<and> \<not> f64_nan b \<and> f64_idx b \<noteq> 0"

lemma f64_idx_negate [simp]: "f64_idx (f64_negate b) = f64_idx b"
  by (simp only: f64_negate_def f64_idx_mk f64_idx_lt)

interpretation add: directed_op softfp_add add2 f64_add no_nan
  by unfold_locales
     (simp_all add: softfp_add_def add2_def no_nan_def nearest_add_def add_inner_correct)

interpretation sub: directed_op softfp_sub sub2 f64_sub no_nan
  by unfold_locales
     (simp_all add: softfp_sub_def sub2_def no_nan_def nearest_sub_def f64_sub_def add_inner_correct)

interpretation mul: directed_op softfp_mul mul2 f64_mul no_nan
  by unfold_locales
     (simp_all add: softfp_mul_def mul2_def no_nan_def nearest_mul_def mul_inner_correct)

interpretation div: directed_op softfp_div div2 f64_div div_domain
  by unfold_locales
     (simp_all add: softfp_div_def div2_def div_domain_def nearest_div_def div_inner_correct)

lemma softfp_sqrt_ieee:
  "\<not> f64_nan a \<Longrightarrow> \<not> f64_neg a \<or> f64_idx a = 0 \<Longrightarrow> softfp_sqrt a mode = f64_sqrt mode a"
  by (simp add: softfp_sqrt_def nearest_sqrt_def sqrt_inner_correct)

lemma sqrt2_ieee:
  "\<not> f64_nan (fst a) \<Longrightarrow> \<not> f64_neg (fst a) \<or> f64_idx (fst a) = 0 \<Longrightarrow>
   \<not> f64_nan (snd a) \<Longrightarrow> \<not> f64_neg (snd a) \<or> f64_idx (snd a) = 0 \<Longrightarrow>
     sqrt2 a mode = (f64_sqrt mode (fst a), f64_sqrt mode (snd a))"
  by (simp add: sqrt2_def nearest_sqrt_def sqrt_inner_correct)

text \<open>The two conversions of the \<open>fprc\<close> register agree on the values it can hold.\<close>

lemma from_valid_fprc_agrees:
  assumes "unat v < 4"
  shows "from_valid_fprc v = Some (from_fprc v)"
proof -
  have "unat v = 0 \<or> unat v = 1 \<or> unat v = 2 \<or> unat v = 3" using assms by linarith
  then have "v = 0 \<or> v = 1 \<or> v = 2 \<or> v = 3" by (simp add: word_unat_eq_iff)
  then show ?thesis by (auto simp: from_valid_fprc_def from_fprc_def)
qed

section \<open>Properties\<close>

text \<open>C7: For all operands that are not NaN and in every rounding mode, \<open>add\<close> and \<open>sub\<close>
  return the IEEE 754 sum and difference of that mode: the value rounded once from the exact
  result, overflow, exact zeros and their signs, and infinite operands included. The 128-bit
  comparison in \<open>add_inner\<close> never loses bits.\<close>

theorem softfp_add_sub_correct:
  assumes "\<not> f64_nan a" "\<not> f64_nan b"
  shows "softfp_add a b mode = f64_add mode a b \<and> softfp_sub a b mode = f64_sub mode a b"
  using assms add.op_ieee sub.op_ieee by (simp add: no_nan_def)

text \<open>\<open>1 + 2 ^ -60\<close> rounded up is the successor of 1.\<close>

theorem softfp_add_sub_correct_witness:
  "softfp_add 0x3ff0000000000000 0x3c30000000000000 Up = 0x3ff0000000000001 \<and>
   softfp_sub 0x3ff0000000000000 0xbc30000000000000 Up = 0x3ff0000000000001"
proof -
  let ?a = "0x3ff0000000000000 :: u64" and ?b = "0x3c30000000000000 :: u64"
    and ?c = "0xbc30000000000000 :: u64"
  have "round_down_index 1 (mval 0x3ff0000000000000 + mval 0x3c30000000000000) 1 = 0x3ff0000000000000"
    by (rule round_down_index_eqI) (simp_all add: mval_def inf_index_def)
  then have "round_mag Up False 1 (mval 0x3ff0000000000000 + mval 0x3c30000000000000) 1 =
               0x3ff0000000000001"
    by (simp add: round_mag_def)
  moreover have "int (mval 0x3ff0000000000000) + int (mval 0x3c30000000000000) \<noteq> 0"
    by (simp add: mval_def)
  ultimately have "f64_add Up ?a ?b = 0x3ff0000000000001"
    by (simp add: f64_add_def f64_sval_def f64_neg_def f64_idx_def inf_index_def mk_f64_def Let_def
          nat_add_distrib)
  moreover have "f64_negate ?c = ?b"
    by (simp add: f64_negate_def mk_f64_def f64_neg_def f64_idx_def)
  moreover have "\<not> f64_nan ?a" "\<not> f64_nan ?b" "\<not> f64_nan ?c"
    by (simp_all add: f64_idx_def inf_index_def)
  ultimately show ?thesis
    using softfp_add_sub_correct [of ?a ?b Up] softfp_add_sub_correct [of ?a ?c Up]
    by (simp add: f64_sub_def)
qed

text \<open>C2: Multiplication returns the IEEE 754 product of the given mode, for all operands that are
  not NaN, subnormal numbers and infinities included.\<close>

theorem softfp_mul_correct:
  assumes "\<not> f64_nan a" "\<not> f64_nan b"
  shows "softfp_mul a b mode = f64_mul mode a b"
  using assms mul.op_ieee by (simp add: no_nan_def)

theorem softfp_mul_correct_witness:
  "softfp_mul 0x40fdfdabb6173d07 0x41c4561212ae2d50 Up = 0x42d30f35ff7a696a"
proof -
  let ?a = "0x40fdfdabb6173d07 :: u64" and ?b = "0x41c4561212ae2d50 :: u64"
  have "round_down_index 1 (mval 0x40fdfdabb6173d07 * mval 0x41c4561212ae2d50) f64_one =
          0x42d30f35ff7a6969"
    by (rule round_down_index_eqI) (simp_all add: mval_def inf_index_def f64_one_def)
  moreover have "mval 0x42d30f35ff7a6969 * f64_one \<noteq> mval 0x40fdfdabb6173d07 * mval 0x41c4561212ae2d50"
    by (simp add: mval_def f64_one_def)
  ultimately have "f64_mul Up ?a ?b = 0x42d30f35ff7a696a"
    by (simp add: f64_mul_def round_mag_def f64_neg_def f64_idx_def inf_index_def mk_f64_def Let_def)
  moreover have "\<not> f64_nan ?a" "\<not> f64_nan ?b"
    by (simp_all add: f64_idx_def inf_index_def)
  ultimately show ?thesis
    using softfp_mul_correct [of ?a ?b Up] by simp
qed

text \<open>C8: Division by a non-zero divisor returns the IEEE 754 quotient of the given mode, for all
  operands that are not NaN.\<close>

theorem softfp_div_correct:
  assumes "\<not> f64_nan a" "\<not> f64_nan b" "f64_idx b \<noteq> 0"
  shows "softfp_div a b mode = f64_div mode a b"
  using assms div.op_ieee by (simp add: div_domain_def)

theorem softfp_div_correct_witness:
  "softfp_div 0x411b414296ce93b6 0x3ac657af2505d11a Down = 0x464384946369b2e6"
proof -
  let ?a = "0x411b414296ce93b6 :: u64" and ?b = "0x3ac657af2505d11a :: u64"
  have "round_down_index 1 (mval 0x411b414296ce93b6 * f64_one) (mval 0x3ac657af2505d11a) =
          0x464384946369b2e6"
    by (rule round_down_index_eqI) (simp_all add: mval_def inf_index_def f64_one_def)
  then have "f64_div Down ?a ?b = 0x464384946369b2e6"
    by (simp add: f64_div_def round_mag_def f64_neg_def f64_idx_def inf_index_def mk_f64_def Let_def)
  moreover have "\<not> f64_nan ?a" "\<not> f64_nan ?b" "f64_idx ?b \<noteq> 0"
    by (simp_all add: f64_idx_def inf_index_def)
  ultimately show ?thesis
    using softfp_div_correct [of ?a ?b Down] by simp
qed

text \<open>C9: The square root of a non-negative operand (or of a zero of either sign) is the IEEE 754
  square root of the given mode.\<close>

theorem softfp_sqrt_correct:
  assumes "\<not> f64_nan a" "\<not> f64_neg a \<or> f64_idx a = 0"
  shows "softfp_sqrt a mode = f64_sqrt mode a"
  using assms by (rule softfp_sqrt_ieee)

theorem softfp_sqrt_correct_witness:
  "softfp_sqrt 0x41b6b21c11affea7 TowardZero = 0x40d30e573fa3ba8c"
proof -
  let ?a = "0x41b6b21c11affea7 :: u64"
  have "round_down_index 2 (mval 0x41b6b21c11affea7 * f64_one) 1 = 0x40d30e573fa3ba8c"
    by (rule round_down_index_eqI) (simp_all add: mval_def inf_index_def f64_one_def)
  then have "f64_sqrt TowardZero ?a = 0x40d30e573fa3ba8c"
    by (simp add: f64_sqrt_def round_mag_def f64_neg_def f64_idx_def inf_index_def mk_f64_def Let_def)
  moreover have "\<not> f64_nan ?a" "\<not> f64_neg ?a"
    by (simp_all add: f64_idx_def f64_neg_def inf_index_def)
  ultimately show ?thesis
    using softfp_sqrt_correct [of ?a TowardZero] by simp
qed

end
