(* ===== verification/M128.thy ===== *)
theory M128
  imports Float64
begin

text \<open>
  Model of \<open>randomx-core/src/m128.rs\<close>: the AES tables and the software round functions, the
  128-bit integer vector \<open>m128i\<close> and the vector of two doubles \<open>m128d\<close>, both kept as their
  128-bit patterns. The hardware branches of \<open>aesenc\<close> and \<open>aesdec\<close>, compiled only
  for x86-64 and AArch64, are in \<open>AesHardware\<close>. The lemmas identify the table lookups with the AES round of FIPS 197 and show
  that each round permutes the 128-bit states.
\<close>

section \<open>Definitions\<close>

type_synonym m128i = u128
type_synonym m128d = u128

definition SBOX :: "u8 list" where
  "SBOX = [
     0x63, 0x7c, 0x77, 0x7b, 0xf2, 0x6b, 0x6f, 0xc5, 0x30, 0x01, 0x67, 0x2b, 0xfe, 0xd7, 0xab, 0x76,
     0xca, 0x82, 0xc9, 0x7d, 0xfa, 0x59, 0x47, 0xf0, 0xad, 0xd4, 0xa2, 0xaf, 0x9c, 0xa4, 0x72, 0xc0,
     0xb7, 0xfd, 0x93, 0x26, 0x36, 0x3f, 0xf7, 0xcc, 0x34, 0xa5, 0xe5, 0xf1, 0x71, 0xd8, 0x31, 0x15,
     0x04, 0xc7, 0x23, 0xc3, 0x18, 0x96, 0x05, 0x9a, 0x07, 0x12, 0x80, 0xe2, 0xeb, 0x27, 0xb2, 0x75,
     0x09, 0x83, 0x2c, 0x1a, 0x1b, 0x6e, 0x5a, 0xa0, 0x52, 0x3b, 0xd6, 0xb3, 0x29, 0xe3, 0x2f, 0x84,
     0x53, 0xd1, 0x00, 0xed, 0x20, 0xfc, 0xb1, 0x5b, 0x6a, 0xcb, 0xbe, 0x39, 0x4a, 0x4c, 0x58, 0xcf,
     0xd0, 0xef, 0xaa, 0xfb, 0x43, 0x4d, 0x33, 0x85, 0x45, 0xf9, 0x02, 0x7f, 0x50, 0x3c, 0x9f, 0xa8,
     0x51, 0xa3, 0x40, 0x8f, 0x92, 0x9d, 0x38, 0xf5, 0xbc, 0xb6, 0xda, 0x21, 0x10, 0xff, 0xf3, 0xd2,
     0xcd, 0x0c, 0x13, 0xec, 0x5f, 0x97, 0x44, 0x17, 0xc4, 0xa7, 0x7e, 0x3d, 0x64, 0x5d, 0x19, 0x73,
     0x60, 0x81, 0x4f, 0xdc, 0x22, 0x2a, 0x90, 0x88, 0x46, 0xee, 0xb8, 0x14, 0xde, 0x5e, 0x0b, 0xdb,
     0xe0, 0x32, 0x3a, 0x0a, 0x49, 0x06, 0x24, 0x5c, 0xc2, 0xd3, 0xac, 0x62, 0x91, 0x95, 0xe4, 0x79,
     0xe7, 0xc8, 0x37, 0x6d, 0x8d, 0xd5, 0x4e, 0xa9, 0x6c, 0x56, 0xf4, 0xea, 0x65, 0x7a, 0xae, 0x08,
     0xba, 0x78, 0x25, 0x2e, 0x1c, 0xa6, 0xb4, 0xc6, 0xe8, 0xdd, 0x74, 0x1f, 0x4b, 0xbd, 0x8b, 0x8a,
     0x70, 0x3e, 0xb5, 0x66, 0x48, 0x03, 0xf6, 0x0e, 0x61, 0x35, 0x57, 0xb9, 0x86, 0xc1, 0x1d, 0x9e,
     0xe1, 0xf8, 0x98, 0x11, 0x69, 0xd9, 0x8e, 0x94, 0x9b, 0x1e, 0x87, 0xe9, 0xce, 0x55, 0x28, 0xdf,
     0x8c, 0xa1, 0x89, 0x0d, 0xbf, 0xe6, 0x42, 0x68, 0x41, 0x99, 0x2d, 0x0f, 0xb0, 0x54, 0xbb, 0x16]"

definition INV_SBOX :: "u8 list" where
  "INV_SBOX = [
     0x52, 0x09, 0x6a, 0xd5, 0x30, 0x36, 0xa5, 0x38, 0xbf, 0x40, 0xa3, 0x9e, 0x81, 0xf3, 0xd7, 0xfb,
     0x7c, 0xe3, 0x39, 0x82, 0x9b, 0x2f, 0xff, 0x87, 0x34, 0x8e, 0x43, 0x44, 0xc4, 0xde, 0xe9, 0xcb,
     0x54, 0x7b, 0x94, 0x32, 0xa6, 0xc2, 0x23, 0x3d, 0xee, 0x4c, 0x95, 0x0b, 0x42, 0xfa, 0xc3, 0x4e,
     0x08, 0x2e, 0xa1, 0x66, 0x28, 0xd9, 0x24, 0xb2, 0x76, 0x5b, 0xa2, 0x49, 0x6d, 0x8b, 0xd1, 0x25,
     0x72, 0xf8, 0xf6, 0x64, 0x86, 0x68, 0x98, 0x16, 0xd4, 0xa4, 0x5c, 0xcc, 0x5d, 0x65, 0xb6, 0x92,
     0x6c, 0x70, 0x48, 0x50, 0xfd, 0xed, 0xb9, 0xda, 0x5e, 0x15, 0x46, 0x57, 0xa7, 0x8d, 0x9d, 0x84,
     0x90, 0xd8, 0xab, 0x00, 0x8c, 0xbc, 0xd3, 0x0a, 0xf7, 0xe4, 0x58, 0x05, 0xb8, 0xb3, 0x45, 0x06,
     0xd0, 0x2c, 0x1e, 0x8f, 0xca, 0x3f, 0x0f, 0x02, 0xc1, 0xaf, 0xbd, 0x03, 0x01, 0x13, 0x8a, 0x6b,
     0x3a, 0x91, 0x11, 0x41, 0x4f, 0x67, 0xdc, 0xea, 0x97, 0xf2, 0xcf, 0xce, 0xf0, 0xb4, 0xe6, 0x73,
     0x96, 0xac, 0x74, 0x22, 0xe7, 0xad, 0x35, 0x85, 0xe2, 0xf9, 0x37, 0xe8, 0x1c, 0x75, 0xdf, 0x6e,
     0x47, 0xf1, 0x1a, 0x71, 0x1d, 0x29, 0xc5, 0x89, 0x6f, 0xb7, 0x62, 0x0e, 0xaa, 0x18, 0xbe, 0x1b,
     0xfc, 0x56, 0x3e, 0x4b, 0xc6, 0xd2, 0x79, 0x20, 0x9a, 0xdb, 0xc0, 0xfe, 0x78, 0xcd, 0x5a, 0xf4,
     0x1f, 0xdd, 0xa8, 0x33, 0x88, 0x07, 0xc7, 0x31, 0xb1, 0x12, 0x10, 0x59, 0x27, 0x80, 0xec, 0x5f,
     0x60, 0x51, 0x7f, 0xa9, 0x19, 0xb5, 0x4a, 0x0d, 0x2d, 0xe5, 0x7a, 0x9f, 0x93, 0xc9, 0x9c, 0xef,
     0xa0, 0xe0, 0x3b, 0x4d, 0xae, 0x2a, 0xf5, 0xb0, 0xc8, 0xeb, 0xbb, 0x3c, 0x83, 0x53, 0x99, 0x61,
     0x17, 0x2b, 0x04, 0x7e, 0xba, 0x77, 0xd6, 0x26, 0xe1, 0x69, 0x14, 0x63, 0x55, 0x21, 0x0c, 0x7d]"

definition xtime :: "u8 \<Rightarrow> u8" where
  "xtime a = (if a AND 0x80 \<noteq> 0 then push_bit 1 a XOR 0x1b else push_bit 1 a)"

definition make_enc_tables :: "u32 list \<times> u32 list \<times> u32 list \<times> u32 list" where
  "make_enc_tables =
     (let row = (\<lambda>f. map (\<lambda>i. let s = SBOX ! i; x2 = xtime s; x3 = x2 XOR s in f s x2 x3) [0..<256])
      in (row (\<lambda>s x2 x3. ucast x2 OR push_bit 8 (ucast s) OR push_bit 16 (ucast s)
                            OR push_bit 24 (ucast x3)),
          row (\<lambda>s x2 x3. ucast x3 OR push_bit 8 (ucast x2) OR push_bit 16 (ucast s)
                            OR push_bit 24 (ucast s)),
          row (\<lambda>s x2 x3. ucast s OR push_bit 8 (ucast x3) OR push_bit 16 (ucast x2)
                            OR push_bit 24 (ucast s)),
          row (\<lambda>s x2 x3. ucast s OR push_bit 8 (ucast s) OR push_bit 16 (ucast x3)
                            OR push_bit 24 (ucast x2))))"

definition make_dec_tables :: "u32 list \<times> u32 list \<times> u32 list \<times> u32 list" where
  "make_dec_tables =
     (let row = (\<lambda>f. map (\<lambda>i. let s = INV_SBOX ! i; x2 = xtime s; x4 = xtime x2; x8 = xtime x4;
                                   x9 = x8 XOR s; xb = x8 XOR x2 XOR s; xd = x8 XOR x4 XOR s;
                                   xe = x8 XOR x4 XOR x2
                               in f x9 xb xd xe) [0..<256])
      in (row (\<lambda>x9 xb xd xe. ucast xe OR push_bit 8 (ucast x9) OR push_bit 16 (ucast xd)
                                OR push_bit 24 (ucast xb)),
          row (\<lambda>x9 xb xd xe. ucast xb OR push_bit 8 (ucast xe) OR push_bit 16 (ucast x9)
                                OR push_bit 24 (ucast xd)),
          row (\<lambda>x9 xb xd xe. ucast xd OR push_bit 8 (ucast xb) OR push_bit 16 (ucast xe)
                                OR push_bit 24 (ucast x9)),
          row (\<lambda>x9 xb xd xe. ucast x9 OR push_bit 8 (ucast xd) OR push_bit 16 (ucast xb)
                                OR push_bit 24 (ucast xe))))"

definition ENC_TABLE :: "u32 list \<times> u32 list \<times> u32 list \<times> u32 list" where
  "ENC_TABLE = make_enc_tables"

definition DEC_TABLE :: "u32 list \<times> u32 list \<times> u32 list \<times> u32 list" where
  "DEC_TABLE = make_dec_tables"

definition aesenc :: "u128 \<Rightarrow> u128 \<Rightarrow> u128" where
  "aesenc state key =
     (let b = to_le_bytes 16 state;
          (t0, t1, t2, t3) = ENC_TABLE;
          out = map (\<lambda>c. let b0 = unat (b ! (c mod 4 * 4));
                              b1 = unat (b ! ((c + 1) mod 4 * 4 + 1));
                              b2 = unat (b ! ((c + 2) mod 4 * 4 + 2));
                              b3 = unat (b ! ((c + 3) mod 4 * 4 + 3))
                          in t0 ! b0 XOR t1 ! b1 XOR t2 ! b2 XOR t3 ! b3) [0..<4];
          result = concat (map (to_le_bytes 4) out)
      in from_le_bytes result XOR key)"

definition aesdec :: "u128 \<Rightarrow> u128 \<Rightarrow> u128" where
  "aesdec state key =
     (let b = to_le_bytes 16 state;
          (t0, t1, t2, t3) = DEC_TABLE;
          out = map (\<lambda>c. let b0 = unat (b ! (c mod 4 * 4));
                              b1 = unat (b ! ((c + 3) mod 4 * 4 + 1));
                              b2 = unat (b ! ((c + 2) mod 4 * 4 + 2));
                              b3 = unat (b ! ((c + 1) mod 4 * 4 + 3))
                          in t0 ! b0 XOR t1 ! b1 XOR t2 ! b2 XOR t3 ! b3) [0..<4];
          result = concat (map (to_le_bytes 4) out)
      in from_le_bytes result XOR key)"

subsection \<open>Integer vectors\<close>

definition m128i_zero :: m128i where
  "m128i_zero = 0"

text \<open>\<open>None\<close> is the panic of the conversion of a slice that has not 16 bytes.\<close>

definition from_u8 :: "u8 list \<Rightarrow> m128i option" where
  "from_u8 bytes = (if length bytes = 16 then Some (from_le_bytes bytes) else None)"

text \<open>\<open>i3 as u128\<close> sign-extends; the shift by 96 drops the extension.\<close>

definition from_i32 :: "u32 \<Rightarrow> u32 \<Rightarrow> u32 \<Rightarrow> u32 \<Rightarrow> m128i" where
  "from_i32 i3 i2 i1 i0 =
     push_bit 96 (scast i3) OR push_bit 64 (ucast i2) OR push_bit 32 (ucast i1) OR ucast i0"

definition from_u64 :: "u64 \<Rightarrow> u64 \<Rightarrow> m128i" where
  "from_u64 u1 u0 = push_bit 64 (ucast u1) OR ucast u0"

definition as_i64 :: "m128i \<Rightarrow> u64 \<times> u64" where
  "as_i64 v = (let lo = ucast v; hi = ucast (drop_bit 64 v) in (hi, lo))"

subsection \<open>Vectors of doubles\<close>

text \<open>A double is its bit pattern, so \<open>from_bits\<close> and \<open>to_bits\<close> are the identity.\<close>

definition from_f64 :: "u64 \<Rightarrow> u64 \<Rightarrow> m128d" where
  "from_f64 h l = (let lo = ucast l; hi = push_bit 64 (ucast h) in hi OR lo)"

definition m128d_from_u64 :: "u64 \<Rightarrow> u64 \<Rightarrow> m128d" where
  "m128d_from_u64 h l = from_f64 h l"

definition m128d_zero :: m128d where
  "m128d_zero = from_f64 0 0"

definition as_f64 :: "m128d \<Rightarrow> u64 \<times> u64" where
  "as_f64 v = (let lo = ucast v; hi = ucast (drop_bit 64 v) in (hi, lo))"

definition as_u64 :: "m128d \<Rightarrow> u64 \<times> u64" where
  "as_u64 v = (let (h, l) = as_f64 v in (h, l))"

definition lower_to_m128d :: "m128i \<Rightarrow> m128d" where
  "lower_to_m128d v =
     (let i0 = f64_of_i32 (ucast v); i1 = f64_of_i32 (ucast (drop_bit 32 v)) in from_f64 i1 i0)"

definition as_m128d :: "m128i \<Rightarrow> m128d" where
  "as_m128d v = (let lo = ucast v; hi = ucast (drop_bit 64 v) in m128d_from_u64 hi lo)"

definition shuffle_1 :: "m128d \<Rightarrow> m128d \<Rightarrow> m128d" where
  "shuffle_1 v other =
     (let (self_hi, _) = as_f64 v; (_, other_lo) = as_f64 other in from_f64 other_lo self_hi)"

text \<open>The arithmetic of \<open>f64\<close> rounds in the mode of the floating-point environment.\<close>

definition m128d_sqrt :: "RoundingMode \<Rightarrow> m128d \<Rightarrow> m128d" where
  "m128d_sqrt env v = (let (h, l) = as_f64 v in from_f64 (f64_sqrt env h) (f64_sqrt env l))"

definition m128d_add :: "RoundingMode \<Rightarrow> m128d \<Rightarrow> m128d \<Rightarrow> m128d" where
  "m128d_add env v other =
     (let (h1, l1) = as_f64 v; (h2, l2) = as_f64 other
      in from_f64 (f64_add env h1 h2) (f64_add env l1 l2))"

definition m128d_sub :: "RoundingMode \<Rightarrow> m128d \<Rightarrow> m128d \<Rightarrow> m128d" where
  "m128d_sub env v other =
     (let (h1, l1) = as_f64 v; (h2, l2) = as_f64 other
      in from_f64 (f64_sub env h1 h2) (f64_sub env l1 l2))"

definition m128d_mul :: "RoundingMode \<Rightarrow> m128d \<Rightarrow> m128d \<Rightarrow> m128d" where
  "m128d_mul env v other =
     (let (h1, l1) = as_f64 v; (h2, l2) = as_f64 other
      in from_f64 (f64_mul env h1 h2) (f64_mul env l1 l2))"

definition m128d_div :: "RoundingMode \<Rightarrow> m128d \<Rightarrow> m128d \<Rightarrow> m128d" where
  "m128d_div env v other =
     (let (h1, l1) = as_f64 v; (h2, l2) = as_f64 other
      in from_f64 (f64_div env h1 h2) (f64_div env l1 l2))"

section \<open>Lanes\<close>

lemma ucast_halves [simp]:
  "ucast (push_bit 64 (ucast (h :: u64)) OR ucast l :: u128) = (l :: u64)"
  "ucast (drop_bit 64 (push_bit 64 (ucast (h :: u64)) OR ucast (l :: u64) :: u128)) = h"
proof -
  have b: "bit (x :: u64) n \<Longrightarrow> n < 64" for x n by (drule bit_imp_le_length) simp
  show "ucast (push_bit 64 (ucast (h :: u64)) OR ucast l :: u128) = (l :: u64)"
    by (rule bit_word_eqI) (auto simp: bit_unsigned_iff bit_or_iff bit_push_bit_iff)
  show "ucast (drop_bit 64 (push_bit 64 (ucast (h :: u64)) OR ucast (l :: u64) :: u128)) = h"
    by (rule bit_word_eqI)
       (auto simp: bit_unsigned_iff bit_or_iff bit_push_bit_iff bit_drop_bit_eq dest: b)
qed

lemma halves_eq: "push_bit 64 (ucast (ucast (drop_bit 64 v) :: u64)) OR ucast (ucast v :: u64) = (v :: u128)"
  by (rule bit_word_eqI) (auto simp: bit_unsigned_iff bit_or_iff bit_push_bit_iff bit_drop_bit_eq)

lemma as_f64_from_f64 [simp]: "as_f64 (from_f64 h l) = (h, l)"
  unfolding as_f64_def from_f64_def Let_def ucast_halves by simp

lemma from_f64_as_f64: "from_f64 (fst (as_f64 v)) (snd (as_f64 v)) = v"
  by (simp add: as_f64_def from_f64_def Let_def halves_eq)

lemma from_f64_inj [simp]: "from_f64 h l = from_f64 h' l' \<longleftrightarrow> h = h' \<and> l = l'"
  by (metis as_f64_from_f64 prod.inject)

lemma as_i64_from_u64 [simp]: "as_i64 (from_u64 u1 u0) = (u1, u0)"
  unfolding as_i64_def from_u64_def Let_def ucast_halves by simp

lemma from_u64_as_i64: "from_u64 (fst (as_i64 v)) (snd (as_i64 v)) = v"
  by (simp add: as_i64_def from_u64_def Let_def halves_eq)

lemma as_u64_eq: "as_u64 v = as_f64 v"
  by (simp add: as_u64_def)

section \<open>The AES round of FIPS 197\<close>

text \<open>The round on the 16 bytes of a state, column by column: byte \<open>4 * c + r\<close> is row \<open>r\<close>
  of column \<open>c\<close>. \<open>gf_mul\<close> multiplies in \<open>GF(2 ^ 8)\<close>.\<close>

definition gf_mul :: "u8 \<Rightarrow> u8 \<Rightarrow> u8" where
  "gf_mul c a = foldr (XOR) (map (\<lambda>i. if bit c i then (xtime ^^ i) a else 0) [0..<8]) 0"

definition sub_bytes :: "u8 list \<Rightarrow> u8 list" where
  "sub_bytes bs = map (\<lambda>x. SBOX ! unat x) bs"

definition inv_sub_bytes :: "u8 list \<Rightarrow> u8 list" where
  "inv_sub_bytes bs = map (\<lambda>x. INV_SBOX ! unat x) bs"

definition shift_rows :: "u8 list \<Rightarrow> u8 list" where
  "shift_rows bs = map (\<lambda>i. bs ! ((i + 4 * (i mod 4)) mod 16)) [0..<16]"

definition inv_shift_rows :: "u8 list \<Rightarrow> u8 list" where
  "inv_shift_rows bs = map (\<lambda>i. bs ! ((i + 12 * (i mod 4)) mod 16)) [0..<16]"

definition mix_with :: "u8 \<Rightarrow> u8 \<Rightarrow> u8 \<Rightarrow> u8 \<Rightarrow> u8 list \<Rightarrow> u8 list" where
  "mix_with k0 k1 k2 k3 bs =
     map (\<lambda>i. let c = 4 * (i div 4); r = i mod 4
               in gf_mul k0 (bs ! (c + r)) XOR gf_mul k1 (bs ! (c + (r + 1) mod 4))
                  XOR gf_mul k2 (bs ! (c + (r + 2) mod 4)) XOR gf_mul k3 (bs ! (c + (r + 3) mod 4)))
       [0..<16]"

definition mix_columns :: "u8 list \<Rightarrow> u8 list" where
  "mix_columns = mix_with 2 3 1 1"

definition inv_mix_columns :: "u8 list \<Rightarrow> u8 list" where
  "inv_mix_columns = mix_with 14 11 13 9"

subsection \<open>Arithmetic in the field\<close>

lemma xtime_xor: "xtime (a XOR b) = xtime a XOR xtime b"
proof -
  have "x AND 0x80 \<noteq> 0 \<longleftrightarrow> bit x 7" for x :: u8
    using and_exp_eq_0_iff_not_bit [of x 7] by simp
  then show ?thesis
    by (auto simp: xtime_def bit_xor_iff push_bit_xor ac_simps xor_left_cancel)
qed

lemma gf_mul_simps:
  "gf_mul 1 a = a" "gf_mul 2 a = xtime a" "gf_mul 3 a = a XOR xtime a"
  "gf_mul 9 a = a XOR xtime (xtime (xtime a))"
  "gf_mul 11 a = a XOR xtime a XOR xtime (xtime (xtime a))"
  "gf_mul 13 a = a XOR xtime (xtime a) XOR xtime (xtime (xtime a))"
  "gf_mul 14 a = xtime a XOR xtime (xtime a) XOR xtime (xtime (xtime a))"
  by (simp_all add: gf_mul_def upt_rec numeral_eq_Suc)

lemmas xor_normal = xor.assoc xor.commute xor.left_commute

subsection \<open>Lists of 16 bytes\<close>

lemma upt_16: "[0..<16] = [0, 1, 2, 3, 4, 5, 6, 7, 8, 9, 10, 11, 12, 13, 14, 15]"
  by (simp add: upt_rec)

lemma upt_4: "[0..<4] = [0, 1, 2, 3 :: nat]"
  by (simp add: upt_rec)

lemma nth_numerals: "xs ! Suc (Suc 0) = xs ! 2" "xs ! Suc (Suc (Suc 0)) = xs ! 3"
  by (simp_all add: eval_nat_numeral)

lemma nth_16_list:
  assumes "length bs = 16"
  shows "bs = map (\<lambda>i. bs ! i) [0..<16]"
  using assms map_nth [of bs] by simp

lemma length_rounds [simp]:
  "length (sub_bytes bs) = length bs" "length (inv_sub_bytes bs) = length bs"
  "length (shift_rows bs) = 16" "length (inv_shift_rows bs) = 16"
  "length (mix_columns bs) = 16" "length (inv_mix_columns bs) = 16"
  by (simp_all add: sub_bytes_def inv_sub_bytes_def shift_rows_def inv_shift_rows_def
        mix_columns_def inv_mix_columns_def mix_with_def)

lemma shift_rows_inverse:
  assumes "length bs = 16"
  shows "inv_shift_rows (shift_rows bs) = bs" "shift_rows (inv_shift_rows bs) = bs"
proof -
  have "inv_shift_rows (shift_rows bs) = map (\<lambda>i. bs ! i) [0..<16]"
    "shift_rows (inv_shift_rows bs) = map (\<lambda>i. bs ! i) [0..<16]"
    by (simp_all add: shift_rows_def inv_shift_rows_def upt_16)
  then show "inv_shift_rows (shift_rows bs) = bs" "shift_rows (inv_shift_rows bs) = bs"
    using nth_16_list [OF assms] by simp_all
qed

lemma mix_columns_inverse:
  assumes "length bs = 16"
  shows "inv_mix_columns (mix_columns bs) = bs" "mix_columns (inv_mix_columns bs) = bs"
proof -
  have "inv_mix_columns (mix_columns bs) = map (\<lambda>i. bs ! i) [0..<16]"
    by (simp add: mix_columns_def inv_mix_columns_def mix_with_def upt_16 Let_def gf_mul_simps
          xtime_xor xor_normal nth_numerals)
  then show "inv_mix_columns (mix_columns bs) = bs" using nth_16_list [OF assms] by simp
  have "mix_columns (inv_mix_columns bs) = map (\<lambda>i. bs ! i) [0..<16]"
    by (simp add: mix_columns_def inv_mix_columns_def mix_with_def upt_16 Let_def gf_mul_simps
          xtime_xor xor_normal nth_numerals)
  then show "mix_columns (inv_mix_columns bs) = bs" using nth_16_list [OF assms] by simp
qed

subsection \<open>The S-boxes\<close>

lemma length_SBOX [simp]: "length SBOX = 256" "length INV_SBOX = 256"
  by (simp_all add: SBOX_def INV_SBOX_def)

lemma sbox_table:
  "map (\<lambda>x. INV_SBOX ! unat x) SBOX = map of_nat [0..<256]"
  "map (\<lambda>x. SBOX ! unat x) INV_SBOX = map of_nat [0..<256]"
  by code_simp+

lemma sbox_inverse: "INV_SBOX ! unat (SBOX ! unat x) = x" "SBOX ! unat (INV_SBOX ! unat x) = x"
proof -
  have "map (\<lambda>x. INV_SBOX ! unat x) SBOX ! unat x = x" "map (\<lambda>x. SBOX ! unat x) INV_SBOX ! unat x = x"
    by (simp_all only: sbox_table) simp_all
  then show "INV_SBOX ! unat (SBOX ! unat x) = x" "SBOX ! unat (INV_SBOX ! unat x) = x" by simp_all
qed

lemma sub_bytes_inverse: "inv_sub_bytes (sub_bytes bs) = bs" "sub_bytes (inv_sub_bytes bs) = bs"
  by (simp_all add: sub_bytes_def inv_sub_bytes_def sbox_inverse comp_def)

subsection \<open>The table lookups compute the round\<close>

lemma to_le_bytes_xor:
  "to_le_bytes n (a XOR b :: 'a::len word) = map2 (XOR) (to_le_bytes n a) (to_le_bytes n b)"
  by (rule nth_equalityI)
     (auto intro!: bit_word_eqI simp: bit_unsigned_iff bit_drop_bit_eq bit_xor_iff)

lemma to_le_bytes_4:
  "to_le_bytes 4 (ucast a OR push_bit 8 (ucast b) OR push_bit 16 (ucast c) OR push_bit 24 (ucast d) :: u32)
     = [a, b, c, d]"
proof -
  have "(ucast a OR push_bit 8 (ucast b) OR push_bit 16 (ucast c) OR push_bit 24 (ucast d) :: u32)
          = from_le_bytes [a, b, c, d]"
    by (simp add: or.assoc)
  then show ?thesis using to_from_le_bytes [of "[a, b, c, d]", where 'a = 32] by (simp add: eval_nat_numeral)
qed

lemma enc_table_nth:
  fixes b0 b1 b2 b3 :: u8
  shows "(case ENC_TABLE of (t0, t1, t2, t3) \<Rightarrow>
            to_le_bytes 4 (t0 ! unat b0 XOR t1 ! unat b1 XOR t2 ! unat b2 XOR t3 ! unat b3)) =
         (let a0 = SBOX ! unat b0; a1 = SBOX ! unat b1; a2 = SBOX ! unat b2; a3 = SBOX ! unat b3
          in [gf_mul 2 a0 XOR gf_mul 3 a1 XOR a2 XOR a3, gf_mul 2 a1 XOR gf_mul 3 a2 XOR a3 XOR a0,
              gf_mul 2 a2 XOR gf_mul 3 a3 XOR a0 XOR a1, gf_mul 2 a3 XOR gf_mul 3 a0 XOR a1 XOR a2])"
  by (simp add: ENC_TABLE_def make_enc_tables_def Let_def to_le_bytes_xor to_le_bytes_4 gf_mul_simps
        xor_normal)

lemma dec_table_nth:
  fixes b0 b1 b2 b3 :: u8
  shows "(case DEC_TABLE of (t0, t1, t2, t3) \<Rightarrow>
            to_le_bytes 4 (t0 ! unat b0 XOR t1 ! unat b1 XOR t2 ! unat b2 XOR t3 ! unat b3)) =
         (let a0 = INV_SBOX ! unat b0; a1 = INV_SBOX ! unat b1; a2 = INV_SBOX ! unat b2;
              a3 = INV_SBOX ! unat b3; m = (\<lambda>w x y z. gf_mul 14 w XOR gf_mul 11 x XOR gf_mul 13 y XOR gf_mul 9 z)
          in [m a0 a1 a2 a3, m a1 a2 a3 a0, m a2 a3 a0 a1, m a3 a0 a1 a2])"
  by (simp add: DEC_TABLE_def make_dec_tables_def Let_def to_le_bytes_xor to_le_bytes_4 gf_mul_simps
        xor_normal)

definition aes_round :: "u128 \<Rightarrow> u128" where
  "aes_round s = from_le_bytes (mix_columns (shift_rows (sub_bytes (to_le_bytes 16 s))))"

definition aes_inv_round :: "u128 \<Rightarrow> u128" where
  "aes_inv_round s = from_le_bytes (inv_mix_columns (inv_shift_rows (inv_sub_bytes (to_le_bytes 16 s))))"

lemma aesenc_round: "aesenc state key = aes_round state XOR key"
proof -
  obtain t0 t1 t2 t3 where t: "ENC_TABLE = (t0, t1, t2, t3)" by (cases ENC_TABLE) auto
  have "concat (map (to_le_bytes 4) (map (\<lambda>c. let b0 = unat (b ! (c mod 4 * 4));
                              b1 = unat (b ! ((c + 1) mod 4 * 4 + 1));
                              b2 = unat (b ! ((c + 2) mod 4 * 4 + 2));
                              b3 = unat (b ! ((c + 3) mod 4 * 4 + 3))
                          in t0 ! b0 XOR t1 ! b1 XOR t2 ! b2 XOR t3 ! b3) [0..<4])) =
        mix_columns (shift_rows (sub_bytes b))" if "length b = 16" for b
    using enc_table_nth that
    by (simp add: t upt_4 upt_16 mix_columns_def mix_with_def shift_rows_def sub_bytes_def Let_def
          gf_mul_simps(1) nth_numerals)
  then show ?thesis by (simp add: aesenc_def t aes_round_def Let_def del: nth_to_le_bytes)
qed

lemma aesdec_round: "aesdec state key = aes_inv_round state XOR key"
proof -
  obtain t0 t1 t2 t3 where t: "DEC_TABLE = (t0, t1, t2, t3)" by (cases DEC_TABLE) auto
  have "concat (map (to_le_bytes 4) (map (\<lambda>c. let b0 = unat (b ! (c mod 4 * 4));
                              b1 = unat (b ! ((c + 3) mod 4 * 4 + 1));
                              b2 = unat (b ! ((c + 2) mod 4 * 4 + 2));
                              b3 = unat (b ! ((c + 1) mod 4 * 4 + 3))
                          in t0 ! b0 XOR t1 ! b1 XOR t2 ! b2 XOR t3 ! b3) [0..<4])) =
        inv_mix_columns (inv_shift_rows (inv_sub_bytes b))" if "length b = 16" for b
    using dec_table_nth that
    by (simp add: t upt_4 upt_16 inv_mix_columns_def mix_with_def inv_shift_rows_def
          inv_sub_bytes_def Let_def nth_numerals)
  then show ?thesis by (simp add: aesdec_def t aes_inv_round_def Let_def del: nth_to_le_bytes)
qed

lemma bytes_16: "length bs = 16 \<Longrightarrow> to_le_bytes 16 (from_le_bytes bs :: u128) = bs"
  using to_from_le_bytes [of bs, where 'a = 128] by simp

lemma word_16: "from_le_bytes (to_le_bytes 16 s) = (s :: u128)"
  by (rule from_to_le_bytes) simp

lemma aes_round_undo:
  "from_le_bytes (inv_sub_bytes (inv_shift_rows (inv_mix_columns (to_le_bytes 16 (aes_round s))))) = s"
  "from_le_bytes (sub_bytes (shift_rows (mix_columns (to_le_bytes 16 (aes_inv_round s))))) = s"
  by (simp_all add: aes_round_def aes_inv_round_def bytes_16 word_16 mix_columns_inverse
        shift_rows_inverse sub_bytes_inverse)

lemma aes_rounds_inj: "inj aes_round" "inj aes_inv_round"
  by (rule inj_on_inverseI, rule aes_round_undo)+

section \<open>Properties\<close>


text \<open>For every round key, \<open>aesenc\<close> and \<open>aesdec\<close> permute the 128-bit states, so the AES
  generators never merge two states.\<close>

theorem aes_rounds_bij: "bij (\<lambda>state. aesenc state key) \<and> bij (\<lambda>state. aesdec state key)"
proof -
  have "inj (\<lambda>state. aesenc state key)" "inj (\<lambda>state. aesdec state key)"
    by (intro injI; simp add: aesenc_round aesdec_round inj_eq [OF aes_rounds_inj(1)]
          inj_eq [OF aes_rounds_inj(2)])+
  then show ?thesis unfolding bij_def by (intro conjI finite_UNIV_inj_surj finite)
qed

end
