(* ===== verification/AesHash.thy ===== *)
theory AesHash
  imports M128
begin

text \<open>
  Model of \<open>randomx-core/src/hash.rs\<close>: the AES fingerprint of the scratchpad, the two fillers
  of the 1R generator and the program generator. An array \<open>[m128i; 4]\<close> is a quadruple, a
  mutable slice is passed by its length and returned as the list that was written. \<open>None\<close> is a
  failed assertion. The lemmas show that the two fillers write the same stream, that the stream
  can be cut at any block, and how many words each generator returns.
\<close>

section \<open>Definitions\<close>

type_synonym seed = "m128i \<times> m128i \<times> m128i \<times> m128i"

definition keys_1rx4 :: seed where
  "keys_1rx4 =
     (from_i32 0xb4f44917 0xdbb5552b 0x62716609 0x6daca553,
      from_i32 0x0da1dc4e 0x1725d378 0x846a710d 0x6d7caf07,
      from_i32 0x3e20e345 0xf4c0794f 0x9f947ec6 0x3f1262f1,
      from_i32 0x49169154 0x16314c88 0xb1ba317c 0x6aef8135)"

text \<open>One round of the loop over the 64-byte blocks of the input, and the two final rounds.\<close>

definition hash_aes_block :: "seed \<Rightarrow> u64 list \<Rightarrow> seed" where
  "hash_aes_block st chunk =
     (let (state0, state1, state2, state3) = st;
          in0 = from_u64 (chunk ! 1) (chunk ! 0);
          in1 = from_u64 (chunk ! 3) (chunk ! 2);
          in2 = from_u64 (chunk ! 5) (chunk ! 4);
          in3 = from_u64 (chunk ! 7) (chunk ! 6)
      in (aesenc state0 in0, aesdec state1 in1, aesenc state2 in2, aesdec state3 in3))"

definition hash_aes_key :: "m128i \<Rightarrow> seed \<Rightarrow> seed" where
  "hash_aes_key key st =
     (let (state0, state1, state2, state3) = st
      in (aesenc state0 key, aesdec state1 key, aesenc state2 key, aesdec state3 key))"

definition hash_aes_1rx4 :: "u64 list \<Rightarrow> seed option" where
  "hash_aes_1rx4 input =
     (if length input mod 8 \<noteq> 0 then None
      else let st = (from_i32 0xd7983aad 0xcc82db47 0x9fa856de 0x92b52c0d,
                     from_i32 0xace78057 0xf59e125a 0x15c7b798 0x338d996e,
                     from_i32 0xe8a07ce4 0x5079506b 0xae62c7d0 0x6a770017,
                     from_i32 0x7e994948 0x79a10005 0x07ad828d 0x630a240c);
               st = foldl hash_aes_block st (chunks_exact 8 input);
               x_key_0 = from_i32 0x06890201 0x90dc56bf 0x8b24949f 0xf6fa8389;
               x_key_1 = from_i32 0xed18f99b 0xee1043c6 0x51f4e03c 0x61b263d1
           in Some (hash_aes_key x_key_1 (hash_aes_key x_key_0 st)))"

text \<open>The state update at the head of both fill loops.\<close>

definition fill_step :: "seed \<Rightarrow> seed" where
  "fill_step st =
     (let (key0, key1, key2, key3) = keys_1rx4; (state0, state1, state2, state3) = st
      in (aesdec state0 key0, aesenc state1 key1, aesdec state2 key2, aesenc state3 key3))"

definition seed_words :: "seed \<Rightarrow> u64 list" where
  "seed_words st =
     (let (state0, state1, state2, state3) = st;
          (s0_1, s0_0) = as_i64 state0; (s1_1, s1_0) = as_i64 state1;
          (s2_1, s2_0) = as_i64 state2; (s3_1, s3_0) = as_i64 state3
      in [s0_0, s0_1, s1_0, s1_1, s2_0, s2_1, s3_0, s3_1])"

definition seed_list :: "seed \<Rightarrow> m128i list" where
  "seed_list st = (let (state0, state1, state2, state3) = st in [state0, state1, state2, state3])"

text \<open>The fill loops, by the number of chunks left to write.\<close>

primrec fill_u64_loop :: "nat \<Rightarrow> seed \<Rightarrow> u64 list \<times> seed" where
  "fill_u64_loop 0 st = ([], st)"
| "fill_u64_loop (Suc n) st =
     (let st = fill_step st; (rest, final) = fill_u64_loop n st in (seed_words st @ rest, final))"

definition fill_aes_1rx4_u64 :: "seed \<Rightarrow> nat \<Rightarrow> (u64 list \<times> seed) option" where
  "fill_aes_1rx4_u64 input len =
     (if len mod 8 \<noteq> 0 then None else Some (fill_u64_loop (len div 8) input))"

primrec fill_m128i_loop :: "nat \<Rightarrow> seed \<Rightarrow> m128i list \<times> seed" where
  "fill_m128i_loop 0 st = ([], st)"
| "fill_m128i_loop (Suc n) st =
     (let st = fill_step st; (rest, final) = fill_m128i_loop n st in (seed_list st @ rest, final))"

definition fill_aes_1rx4_m128i :: "seed \<Rightarrow> nat \<Rightarrow> (m128i list \<times> seed) option" where
  "fill_aes_1rx4_m128i input len =
     (if len mod 4 \<noteq> 0 then None else Some (fill_m128i_loop (len div 4) input))"

definition gen_program_aes_1rx4 :: "seed \<Rightarrow> nat \<Rightarrow> (m128i list \<times> seed) option" where
  "gen_program_aes_1rx4 input output_size = fill_aes_1rx4_m128i input output_size"

definition gen4_step :: "seed \<Rightarrow> seed" where
  "gen4_step st =
     (let key0 = from_i32 0x99e5d23f 0x2f546d2b 0xd1833ddb 0x6421aadd;
          key1 = from_i32 0xa5dfcde5 0x06f79d53 0xb6913f55 0xb20e3450;
          key2 = from_i32 0x171c02bf 0x0aa4679f 0x515e7baf 0x5c3ed904;
          key3 = from_i32 0xd8ded291 0xcd673785 0xe78f5d08 0x85623763;
          key4 = from_i32 0x229effb4 0x3d518b6d 0xe3d6a7a6 0xb5826f73;
          key5 = from_i32 0xb272b7d2 0xe9024d4e 0x9c10b3d9 0xc7566bf3;
          key6 = from_i32 0xf63befa7 0x2ba9660a 0xf765a38b 0xf273c9e7;
          key7 = from_i32 0xc0b0762d 0x0c06d1fd 0x915839de 0x7a7cd609;
          (state0, state1, state2, state3) = st;
          (state0, state1, state2, state3) =
            (aesdec state0 key0, aesenc state1 key0, aesdec state2 key4, aesenc state3 key4);
          (state0, state1, state2, state3) =
            (aesdec state0 key1, aesenc state1 key1, aesdec state2 key5, aesenc state3 key5);
          (state0, state1, state2, state3) =
            (aesdec state0 key2, aesenc state1 key2, aesdec state2 key6, aesenc state3 key6)
      in (aesdec state0 key3, aesenc state1 key3, aesdec state2 key7, aesenc state3 key7))"

text \<open>The loop \<open>while out_ix < output_size\<close>, with \<open>out_ix\<close> the length of the result.\<close>

function gen4_loop :: "nat \<Rightarrow> nat \<Rightarrow> seed \<Rightarrow> m128i list" where
  "gen4_loop output_size out_ix st =
     (if out_ix < output_size
      then let st = gen4_step st in seed_list st @ gen4_loop output_size (out_ix + 4) st
      else [])"
  by pat_completeness auto
termination
  by (relation "measure (\<lambda>(output_size, out_ix, st). output_size - out_ix)") auto

declare gen4_loop.simps [simp del]

definition gen_program_aes_4rx4 :: "seed \<Rightarrow> nat \<Rightarrow> m128i list" where
  "gen_program_aes_4rx4 input output_size = gen4_loop output_size 0 input"

section \<open>The fill stream\<close>

lemma length_seed_words [simp]: "length (seed_words st) = 8" "length (seed_list st) = 4"
  by (auto simp: seed_words_def seed_list_def split: prod.splits)

lemma length_fill_loops [simp]:
  "length (fst (fill_u64_loop n st)) = 8 * n" "length (fst (fill_m128i_loop n st)) = 4 * n"
  by (induction n arbitrary: st) (simp_all add: Let_def case_prod_beta)

lemma fill_u64_loop_add:
  "fill_u64_loop (m + n) st =
     (let (xs, st') = fill_u64_loop m st; (ys, st'') = fill_u64_loop n st' in (xs @ ys, st''))"
  by (induction m arbitrary: st) (auto simp: Let_def split: prod.splits)

definition m128i_words :: "m128i list \<Rightarrow> u64 list" where
  "m128i_words vs = concat (map (\<lambda>v. [snd (as_i64 v), fst (as_i64 v)]) vs)"

lemma seed_words_list: "m128i_words (seed_list st) = seed_words st"
  by (auto simp: m128i_words_def seed_list_def seed_words_def split: prod.splits)

lemma fill_loops_agree:
  "fill_u64_loop n st = (let (vs, st') = fill_m128i_loop n st in (m128i_words vs, st'))"
proof (induction n arbitrary: st)
  case 0
  then show ?case by (simp add: m128i_words_def)
next
  case (Suc n)
  have "m128i_words (xs @ ys) = m128i_words xs @ m128i_words ys" for xs ys
    by (simp add: m128i_words_def)
  then show ?case by (simp add: Suc.IH Let_def seed_words_list split: prod.splits)
qed

lemma fill_step_inj: "fill_step st = fill_step st' \<longleftrightarrow> st = st'"
  by (cases st; cases st')
     (simp add: fill_step_def keys_1rx4_def aesenc_round aesdec_round inj_eq [OF aes_rounds_inj(1)]
        inj_eq [OF aes_rounds_inj(2)])

lemma seed_words_inj: "seed_words st = seed_words st' \<longleftrightarrow> st = st'"
proof -
  have "as_i64 v = w \<Longrightarrow> as_i64 v' = w \<Longrightarrow> v = v'" for v v' w by (metis from_u64_as_i64)
  then show ?thesis
    by (cases st; cases st') (auto simp: seed_words_def split: prod.splits)
qed

section \<open>The program generator\<close>

lemma length_gen4_loop:
  "length (gen4_loop n i st) = (if i < n then 4 * ((n - i + 3) div 4) else 0)"
proof (induction n i st rule: gen4_loop.induct)
  case (1 n i st)
  show ?case
  proof (cases "i < n")
    case True
    have "length (gen4_loop n i st) = 4 + length (gen4_loop n (i + 4) (gen4_step st))"
      using True by (simp add: gen4_loop.simps [of n i st] Let_def)
    also have "\<dots> = 4 + (if i + 4 < n then 4 * ((n - (i + 4) + 3) div 4) else 0)"
      using "1.IH" [OF True refl] by simp
    also have "\<dots> = 4 * ((n - i + 3) div 4)"
    proof (cases "i + 4 < n")
      case True
      then have "n - i + 3 = (n - (i + 4) + 3) + 4" by simp
      then have "(n - i + 3) div 4 = (n - (i + 4) + 3) div 4 + 1" by (simp only: div_add_self2)
      then show ?thesis using True by simp
    next
      case False
      then have "(n - i + 3) div 4 = 1" using \<open>i < n\<close> by (intro div_nat_eqI) auto
      then show ?thesis using False by simp
    qed
    finally show ?thesis using True by simp
  next
    case False
    then show ?thesis by (simp add: gen4_loop.simps [of n i st])
  qed
qed

lemma length_gen_program_aes_4rx4: "length (gen_program_aes_4rx4 seed 136) = 136"
  by (simp add: gen_program_aes_4rx4_def length_gen4_loop)

section \<open>Properties\<close>

text \<open>The fillers of 64-bit words and of 128-bit vectors write the same stream and leave the
  same generator state; filling a buffer in two parts at a block boundary gives the stream of the
  whole; the buffer is filled completely.\<close>

theorem fill_stream_correct:
  assumes "m mod 8 = 0" "n mod 8 = 0"
  shows "\<exists>xs ys vs st st'. fill_aes_1rx4_u64 input m = Some (xs, st) \<and>
           fill_aes_1rx4_u64 st n = Some (ys, st') \<and>
           fill_aes_1rx4_u64 input (m + n) = Some (xs @ ys, st') \<and>
           gen_program_aes_1rx4 input ((m + n) div 2) = Some (vs, st') \<and>
           m128i_words vs = xs @ ys \<and> length xs = m \<and> length ys = n"
proof -
  obtain a b where m: "m = 8 * a" and n: "n = 8 * b"
    using assms by (metis mod_eq_0_iff_dvd dvdE)
  obtain xs st where x: "fill_u64_loop a input = (xs, st)" by (rule prod.exhaust)
  obtain ys st' where y: "fill_u64_loop b st = (ys, st')" by (rule prod.exhaust)
  obtain vs st'' where v: "fill_m128i_loop (a + b) input = (vs, st'')" by (rule prod.exhaust)
  have xy: "fill_u64_loop (a + b) input = (xs @ ys, st')"
    by (simp add: fill_u64_loop_add x y)
  then have "m128i_words vs = xs @ ys" "st'' = st'"
    using fill_loops_agree [of "a + b" input] v by simp_all
  moreover have "length xs = m" "length ys = n"
    using length_fill_loops(1) [of a input] length_fill_loops(1) [of b st] x y m n by simp_all
  moreover have "fill_aes_1rx4_u64 input m = Some (xs, st)" "fill_aes_1rx4_u64 st n = Some (ys, st')"
    by (simp_all add: fill_aes_1rx4_u64_def m n x y)
  moreover have "m + n = 8 * (a + b)" "(m + n) div 2 = 4 * (a + b)" using m n by simp_all
  then have "fill_aes_1rx4_u64 input (m + n) = Some (xs @ ys, st')"
    "gen_program_aes_1rx4 input ((m + n) div 2) = Some (vs, st'')"
    by (simp_all only: fill_aes_1rx4_u64_def gen_program_aes_1rx4_def fill_aes_1rx4_m128i_def)
       (simp_all add: xy v)
  ultimately show ?thesis by blast
qed

theorem fill_stream_correct_witness:
  "\<exists>xs ys vs st st'. fill_aes_1rx4_u64 (1, 2, 3, 4) 8 = Some (xs, st) \<and>
     fill_aes_1rx4_u64 st 16 = Some (ys, st') \<and>
     fill_aes_1rx4_u64 (1, 2, 3, 4) (8 + 16) = Some (xs @ ys, st') \<and>
     gen_program_aes_1rx4 (1, 2, 3, 4) ((8 + 16) div 2) = Some (vs, st') \<and>
     m128i_words vs = xs @ ys \<and> length xs = 8 \<and> length ys = 16"
  by (rule fill_stream_correct) simp_all

text \<open>The first block the filler writes determines the seed: different seeds give different
  scratchpads.\<close>

theorem fill_injective:
  assumes "0 < n" "n mod 8 = 0" "fill_aes_1rx4_u64 s n = Some (xs, t)"
    "fill_aes_1rx4_u64 s' n = Some (xs, t')"
  shows "s = s'"
proof -
  obtain k where k: "n div 8 = Suc k" using assms(1,2) by (cases "n div 8") auto
  have "take 8 xs = seed_words (fill_step s)" "take 8 xs = seed_words (fill_step s')"
    using assms(2-4) k by (auto simp: fill_aes_1rx4_u64_def Let_def split: prod.splits)
  then show ?thesis by (simp add: seed_words_inj fill_step_inj)
qed

theorem fill_injective_witness:
  "\<exists>xs t. fill_aes_1rx4_u64 (1, 2, 3, 4) 8 = Some (xs, t) \<and>
     (\<forall>s' t'. fill_aes_1rx4_u64 s' 8 = Some (xs, t') \<longrightarrow> (1, 2, 3, 4) = s')"
proof -
  obtain xs t where x: "fill_aes_1rx4_u64 (1, 2, 3, 4) 8 = Some (xs, t)"
    by (cases "fill_u64_loop 1 (1, 2, 3, 4)") (simp add: fill_aes_1rx4_u64_def)
  then have "fill_aes_1rx4_u64 s' 8 = Some (xs, t') \<Longrightarrow> (1, 2, 3, 4) = s'" for s' t'
    by (intro fill_injective [of 8 "(1, 2, 3, 4)" xs t s' t']) simp_all
  then show ?thesis using x by blast
qed

end
