(* ===== verification/Superscalar.thy ===== *)
theory Superscalar
  imports Common
begin

text \<open>
  Model of the program generator of \<open>randomx-core/src/superscalar.rs\<close>: instruction tables,
  the Blake2b byte stream, the choice of operands, the port scheduler and \<open>generate\<close>, with the
  features \<open>precompute-reciprocal\<close> and \<open>compact-superscalar\<close> (the statistics that only
  other configurations keep are absent). The hash function of the package \<open>blake2b_simd\<close> is the
  parameter \<open>hash64\<close>. The two rejection loops of \<open>create\<close> may run forever for some streams:
  they are partial functions and \<open>None\<close> stands for not returning or for a panic. The theorems
  show that every other loop ends and that a generated program only names existing registers.
\<close>

section \<open>Data\<close>

definition RANDOMX_SUPERSCALAR_LATENCY :: nat where
  "RANDOMX_SUPERSCALAR_LATENCY = 170"

definition CYCLE_MAP_SIZE :: nat where
  "CYCLE_MAP_SIZE = RANDOMX_SUPERSCALAR_LATENCY + 4"

definition SUPERSCALAR_MAX_SIZE :: nat where
  "SUPERSCALAR_MAX_SIZE = 3 * RANDOMX_SUPERSCALAR_LATENCY + 2"

definition LOOK_FORWARD_CYCLES :: nat where
  "LOOK_FORWARD_CYCLES = 4"

definition MAX_THROWAWAY_COUNT :: nat where
  "MAX_THROWAWAY_COUNT = 256"

definition REG_NEEDS_DISPLACEMENT_IX :: nat where
  "REG_NEEDS_DISPLACEMENT_IX = 5"

datatype ScOpcode =
    Sc_INVALID | Sc_ISUB_R | Sc_IXOR_R | Sc_IADD_RS | Sc_IMUL_R | Sc_IROR_C
  | Sc_IADD_C7 | Sc_IXOR_C7 | Sc_IADD_C8 | Sc_IXOR_C8 | Sc_IADD_C9 | Sc_IXOR_C9
  | Sc_IMULH_R | Sc_ISMULH_R | Sc_IMUL_RCP | Sc_COUNT

definition is_multiplication :: "ScOpcode \<Rightarrow> bool" where
  "is_multiplication op \<longleftrightarrow>
     op = Sc_IMUL_R \<or> op = Sc_IMULH_R \<or> op = Sc_ISMULH_R \<or> op = Sc_IMUL_RCP"

record RegisterInfo =
  last_op_group :: ScOpcode
  ri_latency :: nat
  last_op_par :: int

definition RegisterInfo_new :: RegisterInfo where
  "RegisterInfo_new = \<lparr> last_op_group = Sc_INVALID, ri_latency = 0, last_op_par = - 1 \<rparr>"

datatype ExecutionPort = NULL | P0 | P1 | P5 | P01 | P05 | P015

fun port_u8 :: "ExecutionPort \<Rightarrow> u8" where
  "port_u8 NULL = 0"
| "port_u8 P0 = 1"
| "port_u8 P1 = 2"
| "port_u8 P5 = 4"
| "port_u8 P01 = 1 OR 2"
| "port_u8 P05 = 1 OR 4"
| "port_u8 P015 = 1 OR 2 OR 4"

definition port_is :: "ExecutionPort \<Rightarrow> ExecutionPort \<Rightarrow> bool" where
  "port_is p check \<longleftrightarrow> port_u8 p AND port_u8 check \<noteq> 0"

record ScMacroOp =
  mop_latency :: nat
  uop1 :: ExecutionPort
  uop2 :: ExecutionPort
  dependent :: bool

definition mop_new :: "nat \<Rightarrow> ExecutionPort \<Rightarrow> ExecutionPort \<Rightarrow> ScMacroOp" where
  "mop_new latency u1 u2 =
     \<lparr> mop_latency = latency, uop1 = u1, uop2 = u2, dependent = False \<rparr>"

definition mop_new_dep :: "nat \<Rightarrow> ExecutionPort \<Rightarrow> ExecutionPort \<Rightarrow> ScMacroOp" where
  "mop_new_dep latency u1 u2 =
     \<lparr> mop_latency = latency, uop1 = u1, uop2 = u2, dependent = True \<rparr>"

definition is_eliminated :: "ScMacroOp \<Rightarrow> bool" where
  "is_eliminated mop \<longleftrightarrow> uop1 mop = NULL"

definition is_simple :: "ScMacroOp \<Rightarrow> bool" where
  "is_simple mop \<longleftrightarrow> uop2 mop = NULL"

definition MOP_SUB_RR :: ScMacroOp where "MOP_SUB_RR = mop_new 1 P015 NULL"
definition MOP_XOR_RR :: ScMacroOp where "MOP_XOR_RR = mop_new 1 P015 NULL"
definition MOP_IMUL_R :: ScMacroOp where "MOP_IMUL_R = mop_new 4 P1 P5"
definition MOP_MUL_R :: ScMacroOp where "MOP_MUL_R = mop_new 4 P1 P5"
definition MOP_MOV_RR :: ScMacroOp where "MOP_MOV_RR = mop_new 1 NULL NULL"
definition MOP_LEA_SIB :: ScMacroOp where "MOP_LEA_SIB = mop_new 1 P01 NULL"
definition MOP_IMUL_RR_DEP :: ScMacroOp where "MOP_IMUL_RR_DEP = mop_new_dep 3 P1 NULL"
definition MOP_ROR_RI :: ScMacroOp where "MOP_ROR_RI = mop_new 1 P05 NULL"
definition MOP_ADD_RI :: ScMacroOp where "MOP_ADD_RI = mop_new 1 P015 NULL"
definition MOP_XOR_RI :: ScMacroOp where "MOP_XOR_RI = mop_new 1 P015 NULL"
definition MOP_MOV_RI64 :: ScMacroOp where "MOP_MOV_RI64 = mop_new 1 P015 NULL"
definition MOP_IMUL_RR :: ScMacroOp where "MOP_IMUL_RR = mop_new 3 P1 NULL"

record ScInstrInfo =
  info_op :: ScOpcode
  macro_ops :: "ScMacroOp list"
  result_op :: nat
  src_op :: int
  dst_op :: int

definition info_new :: "ScOpcode \<Rightarrow> ScMacroOp list \<Rightarrow> nat \<Rightarrow> int \<Rightarrow> int \<Rightarrow> ScInstrInfo" where
  "info_new op mops res dst src =
     \<lparr> info_op = op, macro_ops = mops, result_op = res, src_op = src, dst_op = dst \<rparr>"

definition info_size :: "ScInstrInfo \<Rightarrow> nat" where
  "info_size info = length (macro_ops info)"

definition NOP_info :: ScInstrInfo where "NOP_info = info_new Sc_INVALID [] 0 0 0"
definition ISUB_R_info :: ScInstrInfo where "ISUB_R_info = info_new Sc_ISUB_R [MOP_SUB_RR] 0 0 0"
definition IXOR_R_info :: ScInstrInfo where "IXOR_R_info = info_new Sc_IXOR_R [MOP_XOR_RR] 0 0 0"
definition IADD_RS_info :: ScInstrInfo where "IADD_RS_info = info_new Sc_IADD_RS [MOP_LEA_SIB] 0 0 0"
definition IMUL_R_info :: ScInstrInfo where "IMUL_R_info = info_new Sc_IMUL_R [MOP_IMUL_RR] 0 0 0"
definition IROR_C_info :: ScInstrInfo where "IROR_C_info = info_new Sc_IROR_C [MOP_ROR_RI] 0 0 (- 1)"
definition IADD_C7_info :: ScInstrInfo where "IADD_C7_info = info_new Sc_IADD_C7 [MOP_ADD_RI] 0 0 (- 1)"
definition IXOR_C7_info :: ScInstrInfo where "IXOR_C7_info = info_new Sc_IXOR_C7 [MOP_XOR_RI] 0 0 (- 1)"
definition IADD_C8_info :: ScInstrInfo where "IADD_C8_info = info_new Sc_IADD_C8 [MOP_ADD_RI] 0 0 (- 1)"
definition IXOR_C8_info :: ScInstrInfo where "IXOR_C8_info = info_new Sc_IXOR_C8 [MOP_XOR_RI] 0 0 (- 1)"
definition IADD_C9_info :: ScInstrInfo where "IADD_C9_info = info_new Sc_IADD_C9 [MOP_ADD_RI] 0 0 (- 1)"
definition IXOR_C9_info :: ScInstrInfo where "IXOR_C9_info = info_new Sc_IXOR_C9 [MOP_XOR_RI] 0 0 (- 1)"
definition IMULH_R_info :: ScInstrInfo where
  "IMULH_R_info = info_new Sc_IMULH_R [MOP_MOV_RR, MOP_MUL_R, MOP_MOV_RR] 1 0 1"
definition ISMULH_R_info :: ScInstrInfo where
  "ISMULH_R_info = info_new Sc_ISMULH_R [MOP_MOV_RR, MOP_IMUL_R, MOP_MOV_RR] 1 0 1"
definition IMUL_RCP_info :: ScInstrInfo where
  "IMUL_RCP_info = info_new Sc_IMUL_RCP [MOP_MOV_RI64, MOP_IMUL_RR_DEP] 1 1 (- 1)"

record ScInstr =
  info :: ScInstrInfo
  sc_dst :: int
  sc_src :: int
  mod_v :: u8
  imm32 :: u32
  sc_reciprocal :: u64
  op_group :: ScOpcode
  op_group_par :: int
  can_reuse :: bool
  group_par_is_source :: bool

definition ScInstr_null :: ScInstr where
  "ScInstr_null =
     \<lparr> info = NOP_info, sc_dst = - 1, sc_src = - 1, mod_v = 0, imm32 = 0, sc_reciprocal = 0,
       op_group = Sc_INVALID, op_group_par = - 1, can_reuse = False,
       group_par_is_source = False \<rparr>"

definition mod_shift :: "ScInstr \<Rightarrow> u64" where
  "mod_shift instr = ucast (drop_bit 2 (mod_v instr) mod 4)"

section \<open>The byte stream\<close>

record Blake2Generator =
  gen_index :: nat
  gen_data :: "u8 list"

definition Blake2Generator_new :: "u8 list \<Rightarrow> u32 \<Rightarrow> Blake2Generator" where
  "Blake2Generator_new seed nonce =
     (let copied = min (length seed) (64 - 4);
          key = take copied seed @ replicate (60 - copied) 0
      in \<lparr> gen_index = 64, gen_data = key @ to_le_bytes 4 nonce \<rparr>)"

definition check_data :: "(u8 list \<Rightarrow> u8 list) \<Rightarrow> nat \<Rightarrow> Blake2Generator \<Rightarrow> Blake2Generator" where
  "check_data hash64 needed g =
     (if gen_index g + needed > 64 then g\<lparr> gen_data := hash64 (gen_data g), gen_index := 0 \<rparr> else g)"

definition get_byte :: "(u8 list \<Rightarrow> u8 list) \<Rightarrow> Blake2Generator \<Rightarrow> u8 \<times> Blake2Generator" where
  "get_byte hash64 g =
     (let g = check_data hash64 1 g; v = gen_data g ! gen_index g
      in (v, g\<lparr> gen_index := gen_index g + 1 \<rparr>))"

definition get_u32 :: "(u8 list \<Rightarrow> u8 list) \<Rightarrow> Blake2Generator \<Rightarrow> u32 \<times> Blake2Generator" where
  "get_u32 hash64 g =
     (let g = check_data hash64 4 g; v = from_le_bytes (take 4 (drop (gen_index g) (gen_data g)))
      in (v, g\<lparr> gen_index := gen_index g + 4 \<rparr>))"

section \<open>Choice of the operands\<close>

definition select_register ::
  "(u8 list \<Rightarrow> u8 list) \<Rightarrow> ScInstr \<Rightarrow> nat list \<Rightarrow> Blake2Generator \<Rightarrow> bool
     \<Rightarrow> bool \<times> ScInstr \<times> Blake2Generator" where
  "select_register hash64 instr available_registers g reg_src =
     (if available_registers = [] then (False, instr, g)
      else let (index, g) =
                 (if length available_registers > 1
                  then let (v, g) = get_u32 hash64 g in (unat v mod length available_registers, g)
                  else (0, g));
               r = int (available_registers ! index)
           in (True, if reg_src then instr\<lparr> sc_src := r \<rparr> else instr\<lparr> sc_dst := r \<rparr>, g))"

definition select_destination ::
  "(u8 list \<Rightarrow> u8 list) \<Rightarrow> ScInstr \<Rightarrow> nat \<Rightarrow> bool \<Rightarrow> RegisterInfo list \<Rightarrow> Blake2Generator
     \<Rightarrow> bool \<times> ScInstr \<times> Blake2Generator" where
  "select_destination hash64 instr cycle allow_chain_mul registers g =
     (let available_registers =
            filter (\<lambda>i. let v = registers ! i in
                ri_latency v \<le> cycle
                \<and> (can_reuse instr \<or> int i \<noteq> sc_src instr)
                \<and> (allow_chain_mul \<or> op_group instr \<noteq> Sc_IMUL_R \<or> last_op_group v \<noteq> Sc_IMUL_R)
                \<and> (last_op_group v \<noteq> op_group instr \<or> last_op_par v \<noteq> op_group_par instr)
                \<and> (info_op (info instr) \<noteq> Sc_IADD_RS \<or> i \<noteq> REG_NEEDS_DISPLACEMENT_IX))
              [0..<length registers]
      in select_register hash64 instr available_registers g False)"

definition select_source ::
  "(u8 list \<Rightarrow> u8 list) \<Rightarrow> ScInstr \<Rightarrow> nat \<Rightarrow> RegisterInfo list \<Rightarrow> Blake2Generator
     \<Rightarrow> bool \<times> ScInstr \<times> Blake2Generator" where
  "select_source hash64 instr cycle registers g =
     (let available_registers =
            filter (\<lambda>i. ri_latency (registers ! i) \<le> cycle) [0..<length registers]
      in if length available_registers = 2 \<and> info_op (info instr) = Sc_IADD_RS
            \<and> (available_registers ! 0 = REG_NEEDS_DISPLACEMENT_IX
               \<or> available_registers ! 1 = REG_NEEDS_DISPLACEMENT_IX)
         then (True, instr\<lparr> op_group_par := int REG_NEEDS_DISPLACEMENT_IX,
                            sc_src := int REG_NEEDS_DISPLACEMENT_IX \<rparr>, g)
         else let (found, instr, g) = select_register hash64 instr available_registers g True
              in if found
                 then (True, if group_par_is_source instr
                             then instr\<lparr> op_group_par := sc_src instr \<rparr> else instr, g)
                 else (False, instr, g))"

section \<open>Creation of instructions\<close>

definition SLOT_3L :: "ScInstrInfo list" where
  "SLOT_3L = [ISUB_R_info, IXOR_R_info, IMULH_R_info, ISMULH_R_info]"

definition SLOT_4 :: "ScInstrInfo list" where "SLOT_4 = [IROR_C_info, IADD_RS_info]"
definition SLOT_7 :: "ScInstrInfo list" where "SLOT_7 = [IXOR_C7_info, IADD_C7_info]"
definition SLOT_8 :: "ScInstrInfo list" where "SLOT_8 = [IXOR_C8_info, IADD_C8_info]"
definition SLOT_9 :: "ScInstrInfo list" where "SLOT_9 = [IXOR_C9_info, IADD_C9_info]"
definition SLOT_10 :: ScInstrInfo where "SLOT_10 = IMUL_RCP_info"

definition is_zero_or_power_of_2_u32 :: "u32 \<Rightarrow> bool" where
  "is_zero_or_power_of_2_u32 v \<longleftrightarrow> v AND (v - 1) = 0"

text \<open>The two rejection loops.\<close>

partial_function (option) ror_loop ::
  "(u8 list \<Rightarrow> u8 list) \<Rightarrow> Blake2Generator \<Rightarrow> (u8 \<times> Blake2Generator) option" where
  "ror_loop hash64 g =
     (let (b, g) = get_byte hash64 g; imm32 = b AND 63
      in if imm32 = 0 then ror_loop hash64 g else Some (imm32, g))"

partial_function (option) rcp_loop ::
  "(u8 list \<Rightarrow> u8 list) \<Rightarrow> Blake2Generator \<Rightarrow> (u32 \<times> Blake2Generator) option" where
  "rcp_loop hash64 g =
     (let (imm32, g) = get_u32 hash64 g
      in if is_zero_or_power_of_2_u32 imm32 then rcp_loop hash64 g else Some (imm32, g))"

text \<open>The instruction before its operands are chosen.\<close>

definition new_sc :: "ScInstrInfo \<Rightarrow> ScOpcode \<Rightarrow> bool \<Rightarrow> bool \<Rightarrow> int \<Rightarrow> ScInstr" where
  "new_sc i_info grp reuse par_is_source par =
     \<lparr> info = i_info, sc_dst = - 1, sc_src = - 1, mod_v = 0, imm32 = 0, sc_reciprocal = 0,
       op_group = grp, op_group_par = par, can_reuse = reuse,
       group_par_is_source = par_is_source \<rparr>"

definition sc_create ::
  "(u8 list \<Rightarrow> u8 list) \<Rightarrow> ScInstrInfo \<Rightarrow> Blake2Generator \<Rightarrow> (ScInstr \<times> Blake2Generator) option" where
  "sc_create hash64 i_info g =
     (case info_op i_info of
        Sc_ISUB_R \<Rightarrow> Some (new_sc i_info Sc_IADD_RS False True 0, g)
      | Sc_IXOR_R \<Rightarrow> Some (new_sc i_info Sc_IXOR_R False True 0, g)
      | Sc_IADD_RS \<Rightarrow>
          let (b, g) = get_byte hash64 g
          in Some ((new_sc i_info Sc_IADD_RS False True 0)\<lparr> mod_v := b \<rparr>, g)
      | Sc_IMUL_R \<Rightarrow> Some (new_sc i_info Sc_IMUL_R False True 0, g)
      | Sc_IROR_C \<Rightarrow>
          do { (b, g) \<leftarrow> ror_loop hash64 g;
               Some ((new_sc i_info Sc_IROR_C False True 0)\<lparr> imm32 := ucast b \<rparr>, g) }
      | Sc_IADD_C7 \<Rightarrow>
          let (v, g) = get_u32 hash64 g
          in Some ((new_sc i_info Sc_IADD_C7 False False (- 1))\<lparr> imm32 := v \<rparr>, g)
      | Sc_IADD_C8 \<Rightarrow>
          let (v, g) = get_u32 hash64 g
          in Some ((new_sc i_info Sc_IADD_C7 False False (- 1))\<lparr> imm32 := v \<rparr>, g)
      | Sc_IADD_C9 \<Rightarrow>
          let (v, g) = get_u32 hash64 g
          in Some ((new_sc i_info Sc_IADD_C7 False False (- 1))\<lparr> imm32 := v \<rparr>, g)
      | Sc_IXOR_C7 \<Rightarrow>
          let (v, g) = get_u32 hash64 g
          in Some ((new_sc i_info Sc_IXOR_C7 False False (- 1))\<lparr> imm32 := v \<rparr>, g)
      | Sc_IXOR_C8 \<Rightarrow>
          let (v, g) = get_u32 hash64 g
          in Some ((new_sc i_info Sc_IXOR_C7 False False (- 1))\<lparr> imm32 := v \<rparr>, g)
      | Sc_IXOR_C9 \<Rightarrow>
          let (v, g) = get_u32 hash64 g
          in Some ((new_sc i_info Sc_IXOR_C7 False False (- 1))\<lparr> imm32 := v \<rparr>, g)
      | Sc_IMULH_R \<Rightarrow>
          let (v, g) = get_u32 hash64 g
          in Some (new_sc i_info Sc_IMULH_R True False (sint v), g)
      | Sc_ISMULH_R \<Rightarrow>
          let (v, g) = get_u32 hash64 g
          in Some (new_sc i_info Sc_ISMULH_R True False (sint v), g)
      | Sc_IMUL_RCP \<Rightarrow>
          do { (v, g) \<leftarrow> rcp_loop hash64 g;
               rcp \<leftarrow> randomx_reciprocal (ucast v);
               Some ((new_sc i_info Sc_IMUL_RCP False True (- 1))\<lparr> imm32 := v, sc_reciprocal := rcp \<rparr>, g) }
      | Sc_INVALID \<Rightarrow> None
      | Sc_COUNT \<Rightarrow> None)"

definition create_for_slot ::
  "(u8 list \<Rightarrow> u8 list) \<Rightarrow> Blake2Generator \<Rightarrow> nat \<Rightarrow> nat \<Rightarrow> bool \<Rightarrow> (ScInstr \<times> Blake2Generator) option"
where
  "create_for_slot hash64 g slot_size fetch_type is_last =
     (if slot_size = 3 then
        if is_last
        then let (b, g) = get_byte hash64 g in sc_create hash64 (SLOT_3L ! unat (b AND 3)) g
        else let (b, g) = get_byte hash64 g in sc_create hash64 (SLOT_3L ! unat (b AND 1)) g
      else if slot_size = 4 then
        if fetch_type = 4 \<and> \<not> is_last
        then sc_create hash64 IMUL_R_info g
        else let (b, g) = get_byte hash64 g in sc_create hash64 (SLOT_4 ! unat (b AND 1)) g
      else if slot_size = 7 then
        let (b, g) = get_byte hash64 g in sc_create hash64 (SLOT_7 ! unat (b AND 1)) g
      else if slot_size = 8 then
        let (b, g) = get_byte hash64 g in sc_create hash64 (SLOT_8 ! unat (b AND 1)) g
      else if slot_size = 9 then
        let (b, g) = get_byte hash64 g in sc_create hash64 (SLOT_9 ! unat (b AND 1)) g
      else if slot_size = 10 then sc_create hash64 SLOT_10 g
      else None)"

record DecoderBuffer =
  buf_index :: nat
  buf_counts :: "nat list"

definition BUFFER_484 :: DecoderBuffer where
  "BUFFER_484 = \<lparr> buf_index = 0, buf_counts = [4, 8, 4] \<rparr>"
definition BUFFER_7333 :: DecoderBuffer where
  "BUFFER_7333 = \<lparr> buf_index = 1, buf_counts = [7, 3, 3, 3] \<rparr>"
definition BUFFER_3733 :: DecoderBuffer where
  "BUFFER_3733 = \<lparr> buf_index = 2, buf_counts = [3, 7, 3, 3] \<rparr>"
definition BUFFER_493 :: DecoderBuffer where
  "BUFFER_493 = \<lparr> buf_index = 3, buf_counts = [4, 9, 3] \<rparr>"
definition BUFFER_4444 :: DecoderBuffer where
  "BUFFER_4444 = \<lparr> buf_index = 4, buf_counts = [4, 4, 4, 4] \<rparr>"
definition BUFFFER_3310 :: DecoderBuffer where
  "BUFFFER_3310 = \<lparr> buf_index = 5, buf_counts = [3, 3, 10] \<rparr>"

definition DECODE_BUFFERS :: "DecoderBuffer list" where
  "DECODE_BUFFERS = [BUFFER_484, BUFFER_7333, BUFFER_3733, BUFFER_493]"

definition DecoderBuffer_initial :: DecoderBuffer where
  "DecoderBuffer_initial = \<lparr> buf_index = 0, buf_counts = [] \<rparr>"

definition buf_size :: "DecoderBuffer \<Rightarrow> nat" where
  "buf_size buf = length (buf_counts buf)"

definition fetch_next ::
  "(u8 list \<Rightarrow> u8 list) \<Rightarrow> ScInstr \<Rightarrow> nat \<Rightarrow> nat \<Rightarrow> Blake2Generator \<Rightarrow> DecoderBuffer \<times> Blake2Generator" where
  "fetch_next hash64 instr decode_cycle mul_count g =
     (if info_op (info instr) = Sc_IMULH_R \<or> info_op (info instr) = Sc_ISMULH_R
      then (BUFFFER_3310, g)
      else if mul_count < decode_cycle + 1 then (BUFFER_4444, g)
      else if info_op (info instr) = Sc_IMUL_RCP
      then let (b, g) = get_byte hash64 g
           in (if b AND 1 = 1 then BUFFER_484 else BUFFER_493, g)
      else let (ix, g) = get_byte hash64 g in (DECODE_BUFFERS ! unat (ix AND 3), g))"

section \<open>The port scheduler\<close>

type_synonym port_map = "ExecutionPort list list"

definition port_set :: "port_map \<Rightarrow> nat \<Rightarrow> nat \<Rightarrow> ExecutionPort \<Rightarrow> port_map" where
  "port_set busy cycle port u = busy[cycle := (busy ! cycle)[port := u]]"

function schedule_uop ::
  "bool \<Rightarrow> ExecutionPort \<Rightarrow> port_map \<Rightarrow> nat \<Rightarrow> nat option \<times> port_map" where
  "schedule_uop commit uop port_busy cycle =
     (if cycle < CYCLE_MAP_SIZE
      then if port_is uop P5 \<and> port_busy ! cycle ! 2 = NULL
           then (Some cycle, if commit then port_set port_busy cycle 2 uop else port_busy)
           else if port_is uop P0 \<and> port_busy ! cycle ! 0 = NULL
           then (Some cycle, if commit then port_set port_busy cycle 0 uop else port_busy)
           else if port_is uop P1 \<and> port_busy ! cycle ! 1 = NULL
           then (Some cycle, if commit then port_set port_busy cycle 1 uop else port_busy)
           else schedule_uop commit uop port_busy (cycle + 1)
      else (None, port_busy))"
  by pat_completeness auto
termination
  by (relation "measure (\<lambda>(commit, uop, busy, cycle). CYCLE_MAP_SIZE - cycle)") auto

text \<open>The loop for a macro-op of two micro-ops.\<close>

function schedule_pair ::
  "bool \<Rightarrow> ScMacroOp \<Rightarrow> port_map \<Rightarrow> nat \<Rightarrow> nat option \<times> port_map" where
  "schedule_pair commit mop port_busy cycle =
     (if cycle < CYCLE_MAP_SIZE
      then let (cycle_1, port_busy) = schedule_uop False (uop1 mop) port_busy cycle;
               (cycle_2, port_busy) = schedule_uop False (uop2 mop) port_busy cycle
           in if cycle_1 \<noteq> None \<and> cycle_1 = cycle_2
              then (cycle_1,
                    if commit
                    then let port_busy = snd (schedule_uop True (uop1 mop) port_busy (the cycle_1))
                         in snd (schedule_uop True (uop2 mop) port_busy (the cycle_2))
                    else port_busy)
              else schedule_pair commit mop port_busy (cycle + 1)
      else (None, port_busy))"
  by pat_completeness auto
termination
  by (relation "measure (\<lambda>(commit, mop, busy, cycle). CYCLE_MAP_SIZE - cycle)") auto

declare schedule_uop.simps [simp del] schedule_pair.simps [simp del]

definition schedule_mop ::
  "bool \<Rightarrow> ScMacroOp \<Rightarrow> port_map \<Rightarrow> nat \<Rightarrow> nat \<Rightarrow> nat option \<times> port_map" where
  "schedule_mop commit mop port_busy cycle_in dep_cycle =
     (let cycle = (if dependent mop then max cycle_in dep_cycle else cycle_in)
      in if is_eliminated mop then (Some cycle, port_busy)
         else if is_simple mop then schedule_uop commit (uop1 mop) port_busy cycle
         else schedule_pair commit mop port_busy cycle)"

section \<open>Program generation\<close>

text \<open>The mutable variables of \<open>generate\<close>, except the loop variables \<open>decode_cycle\<close> and
  \<open>buffer_index\<close>.\<close>

record ScGen =
  g_prog :: "ScInstr list"
  g_busy :: port_map
  g_registers :: "RegisterInfo list"
  g_macro_op_index :: nat
  g_cycle :: nat
  g_dep_cycle :: nat
  g_ports_saturated :: bool
  g_program_size :: nat
  g_mul_count :: nat
  g_throw_away_count :: nat
  g_current :: ScInstr
  g_gen :: Blake2Generator

definition ScGen_init :: "Blake2Generator \<Rightarrow> ScGen" where
  "ScGen_init g =
     \<lparr> g_prog = [], g_busy = replicate CYCLE_MAP_SIZE (replicate 3 NULL),
       g_registers = replicate 8 RegisterInfo_new, g_macro_op_index = 0, g_cycle = 0,
       g_dep_cycle = 0, g_ports_saturated = False, g_program_size = 0, g_mul_count = 0,
       g_throw_away_count = 0, g_current = ScInstr_null, g_gen = g \<rparr>"

text \<open>The two look-forward loops, by the number of tries left; they return whether a register was
  found, the schedule cycle and the advanced cycle.\<close>

primrec select_source_loop ::
  "(u8 list \<Rightarrow> u8 list) \<Rightarrow> RegisterInfo list \<Rightarrow> nat \<Rightarrow> nat \<Rightarrow> nat \<Rightarrow> ScInstr \<Rightarrow> Blake2Generator
     \<Rightarrow> bool \<times> nat \<times> nat \<times> ScInstr \<times> Blake2Generator" where
  "select_source_loop hash64 regs 0 schedule_cycle cycle instr g =
     (False, schedule_cycle, cycle, instr, g)"
| "select_source_loop hash64 regs (Suc n) schedule_cycle cycle instr g =
     (let (found, instr, g) = select_source hash64 instr schedule_cycle regs g
      in if found then (True, schedule_cycle, cycle, instr, g)
         else select_source_loop hash64 regs n (schedule_cycle + 1) (cycle + 1) instr g)"

primrec select_destination_loop ::
  "(u8 list \<Rightarrow> u8 list) \<Rightarrow> RegisterInfo list \<Rightarrow> bool \<Rightarrow> nat \<Rightarrow> nat \<Rightarrow> nat \<Rightarrow> ScInstr \<Rightarrow> Blake2Generator
     \<Rightarrow> bool \<times> nat \<times> nat \<times> ScInstr \<times> Blake2Generator" where
  "select_destination_loop hash64 regs chain 0 schedule_cycle cycle instr g =
     (False, schedule_cycle, cycle, instr, g)"
| "select_destination_loop hash64 regs chain (Suc n) schedule_cycle cycle instr g =
     (let (found, instr, g) = select_destination hash64 instr schedule_cycle chain regs g
      in if found then (True, schedule_cycle, cycle, instr, g)
         else select_destination_loop hash64 regs chain n (schedule_cycle + 1) (cycle + 1) instr g)"

text \<open>How an iteration of the inner loop ends: with the next value of \<open>buffer_index\<close> or with
  \<open>break\<close>.\<close>

datatype flow = Continue nat | Break

definition operand_failed :: "nat \<Rightarrow> ScGen \<Rightarrow> flow \<times> ScGen" where
  "operand_failed buffer_index st =
     (if g_throw_away_count st < MAX_THROWAWAY_COUNT
      then (Continue buffer_index,
            st\<lparr> g_throw_away_count := g_throw_away_count st + 1,
                g_macro_op_index := info_size (info (g_current st)) \<rparr>)
      else (Break, st\<lparr> g_current := ScInstr_null \<rparr>))"

text \<open>The choice of the source and of the destination for the current macro-op; \<open>None\<close> when
  the look-forward failed.\<close>

definition choose_source :: "(u8 list \<Rightarrow> u8 list) \<Rightarrow> nat \<Rightarrow> ScGen \<Rightarrow> nat option \<times> ScGen" where
  "choose_source hash64 schedule_cycle st =
     (if int (g_macro_op_index st) = src_op (info (g_current st))
      then let (found, schedule_cycle, cycle, instr, g) =
                 select_source_loop hash64 (g_registers st) LOOK_FORWARD_CYCLES schedule_cycle
                   (g_cycle st) (g_current st) (g_gen st);
               st = st\<lparr> g_cycle := cycle, g_current := instr, g_gen := g \<rparr>
           in (if found then Some schedule_cycle else None, st)
      else (Some schedule_cycle, st))"

definition choose_destination :: "(u8 list \<Rightarrow> u8 list) \<Rightarrow> nat \<Rightarrow> ScGen \<Rightarrow> nat option \<times> ScGen" where
  "choose_destination hash64 schedule_cycle st =
     (if int (g_macro_op_index st) = dst_op (info (g_current st))
      then let (found, schedule_cycle, cycle, instr, g) =
                 select_destination_loop hash64 (g_registers st) (g_throw_away_count st > 0)
                   LOOK_FORWARD_CYCLES schedule_cycle (g_cycle st) (g_current st) (g_gen st);
               st = st\<lparr> g_cycle := cycle, g_current := instr, g_gen := g \<rparr>
           in (if found then Some schedule_cycle else None, st)
      else (Some schedule_cycle, st))"

text \<open>The rest of the iteration: the macro-op is committed, the result register updated, and a
  finished instruction is appended. \<open>None\<close> is the panic of an index outside the register
  file.\<close>

definition commit_mop ::
  "ScMacroOp \<Rightarrow> nat \<Rightarrow> nat \<Rightarrow> nat \<Rightarrow> ScGen \<Rightarrow> (flow \<times> ScGen) option" where
  "commit_mop mop schedule_cycle top_cycle buffer_index st =
     (let st = st\<lparr> g_throw_away_count := 0 \<rparr>;
          (schedule_cycle_mop, busy) = schedule_mop True mop (g_busy st) schedule_cycle schedule_cycle;
          st = st\<lparr> g_busy := busy \<rparr>
      in case schedule_cycle_mop of
           None \<Rightarrow> Some (Break, st\<lparr> g_ports_saturated := True \<rparr>)
         | Some schedule_cycle \<Rightarrow>
             let cur = g_current st;
                 st = st\<lparr> g_dep_cycle := schedule_cycle + mop_latency mop \<rparr>
             in if g_macro_op_index st = result_op (info cur) \<and> \<not> (0 \<le> sc_dst cur \<and> sc_dst cur < 8)
                then None
                else let st = (if g_macro_op_index st = result_op (info cur)
                               then st\<lparr> g_registers := (g_registers st)
                                       [nat (sc_dst cur) := \<lparr> last_op_group = op_group cur,
                                          ri_latency = g_dep_cycle st, last_op_par = op_group_par cur \<rparr>] \<rparr>
                               else st);
                         st = st\<lparr> g_macro_op_index := g_macro_op_index st + 1,
                                  g_ports_saturated := g_ports_saturated st
                                    \<or> schedule_cycle \<ge> RANDOMX_SUPERSCALAR_LATENCY,
                                  g_cycle := top_cycle \<rparr>;
                         st = (if g_macro_op_index st \<ge> info_size (info cur)
                               then st\<lparr> g_mul_count := g_mul_count st
                                         + (if is_multiplication (info_op (info cur)) then 1 else 0),
                                       g_prog := g_prog st @ [cur],
                                       g_program_size := g_program_size st + 1 \<rparr>
                               else st)
                     in Some (Continue (buffer_index + 1), st))"

text \<open>The creation of a new instruction when the current one is finished.\<close>

definition refill ::
  "(u8 list \<Rightarrow> u8 list) \<Rightarrow> DecoderBuffer \<Rightarrow> nat \<Rightarrow> ScGen \<Rightarrow> ScGen option" where
  "refill hash64 buf buffer_index st =
     (if g_macro_op_index st \<ge> info_size (info (g_current st))
      then do { (instr, g) \<leftarrow> create_for_slot hash64 (g_gen st) (buf_counts buf ! buffer_index)
                  (buf_index buf) (buf_size buf = buffer_index + 1);
                Some (st\<lparr> g_current := instr, g_gen := g, g_macro_op_index := 0 \<rparr>) }
      else Some st)"

text \<open>The scheduling of the current macro-op.\<close>

definition schedule_current ::
  "(u8 list \<Rightarrow> u8 list) \<Rightarrow> nat \<Rightarrow> nat \<Rightarrow> ScGen \<Rightarrow> (flow \<times> ScGen) option" where
  "schedule_current hash64 top_cycle buffer_index st =
     (let mop = macro_ops (info (g_current st)) ! g_macro_op_index st in
      case fst (schedule_mop False mop (g_busy st) (g_cycle st) (g_dep_cycle st)) of
        None \<Rightarrow> Some (Break, st\<lparr> g_ports_saturated := True \<rparr>)
      | Some schedule_cycle \<Rightarrow>
          (case choose_source hash64 schedule_cycle st of
             (None, st) \<Rightarrow> Some (operand_failed buffer_index st)
           | (Some schedule_cycle, st) \<Rightarrow>
               (case choose_destination hash64 schedule_cycle st of
                  (None, st) \<Rightarrow> Some (operand_failed buffer_index st)
                | (Some schedule_cycle, st) \<Rightarrow>
                    commit_mop mop schedule_cycle top_cycle buffer_index st)))"

definition generate_step ::
  "(u8 list \<Rightarrow> u8 list) \<Rightarrow> DecoderBuffer \<Rightarrow> nat \<Rightarrow> ScGen \<Rightarrow> (flow \<times> ScGen) option" where
  "generate_step hash64 buf buffer_index st =
     (let top_cycle = g_cycle st in
      if g_macro_op_index st \<ge> info_size (info (g_current st))
         \<and> (g_ports_saturated st \<or> g_program_size st \<ge> SUPERSCALAR_MAX_SIZE)
      then Some (Break, st)
      else do { st \<leftarrow> refill hash64 buf buffer_index st;
                schedule_current hash64 top_cycle buffer_index st })"

text \<open>An iteration that does not leave the inner loop either consumes a slot or counts a discarded
  instruction, at most 256 times in a row: the loop ends.\<close>

lemma choose_keeps_count:
  "choose_source hash64 c st = (r, st') \<Longrightarrow> g_throw_away_count st' = g_throw_away_count st"
  "choose_destination hash64 c st = (r, st') \<Longrightarrow> g_throw_away_count st' = g_throw_away_count st"
  by (auto simp: choose_source_def choose_destination_def Let_def split: if_splits prod.splits)

lemma commit_mop_continue:
  "commit_mop mop c tc bi st = Some (Continue bi', st') \<Longrightarrow> bi' = Suc bi"
  by (auto simp: commit_mop_def Let_def split: if_splits prod.splits option.splits)

lemma operand_failed_continue:
  "operand_failed bi st = (Continue bi', st') \<Longrightarrow>
     bi' = bi \<and> g_throw_away_count st' = Suc (g_throw_away_count st) \<and>
     g_throw_away_count st < MAX_THROWAWAY_COUNT"
  by (auto simp: operand_failed_def split: if_splits)

lemma schedule_current_continue:
  assumes "schedule_current hash64 tc bi st = Some (Continue bi', st')"
  shows "bi' = Suc bi \<or> (bi' = bi \<and> g_throw_away_count st' = Suc (g_throw_away_count st) \<and>
                         g_throw_away_count st < MAX_THROWAWAY_COUNT)"
  using assms
  by (auto simp: schedule_current_def Let_def split: option.splits prod.splits
       dest!: choose_keeps_count commit_mop_continue operand_failed_continue)

lemma refill_keeps_count:
  "refill hash64 buf bi st = Some st' \<Longrightarrow> g_throw_away_count st' = g_throw_away_count st"
  by (auto simp: refill_def bind_eq_Some_conv split: if_splits)

lemma generate_step_progress:
  assumes "generate_step hash64 buf bi st = Some (Continue bi', st')"
  shows "bi' = Suc bi \<or> (bi' = bi \<and> g_throw_away_count st' = Suc (g_throw_away_count st) \<and>
                         g_throw_away_count st < MAX_THROWAWAY_COUNT)"
  using assms
  by (auto simp: generate_step_def Let_def bind_eq_Some_conv split: if_splits
       dest!: refill_keeps_count schedule_current_continue)

function generate_inner ::
  "(u8 list \<Rightarrow> u8 list) \<Rightarrow> DecoderBuffer \<Rightarrow> nat \<Rightarrow> ScGen \<Rightarrow> ScGen option" where
  "generate_inner hash64 buf buffer_index st =
     (if buffer_index < buf_size buf
      then case generate_step hash64 buf buffer_index st of
             None \<Rightarrow> None
           | Some (Break, st) \<Rightarrow> Some st
           | Some (Continue buffer_index, st) \<Rightarrow> generate_inner hash64 buf buffer_index st
      else Some st)"
  by pat_completeness auto
termination
  by (relation "measures [\<lambda>(hash64, buf, bi, st). buf_size buf - bi,
                          \<lambda>(hash64, buf, bi, st). MAX_THROWAWAY_COUNT - g_throw_away_count st]")
     (auto dest: generate_step_progress)

function generate_outer ::
  "(u8 list \<Rightarrow> u8 list) \<Rightarrow> nat \<Rightarrow> ScGen \<Rightarrow> ScGen option" where
  "generate_outer hash64 decode_cycle st =
     (if decode_cycle < RANDOMX_SUPERSCALAR_LATENCY \<and> \<not> g_ports_saturated st
         \<and> g_program_size st < SUPERSCALAR_MAX_SIZE
      then let (buf, g) = fetch_next hash64 (g_current st) decode_cycle (g_mul_count st) (g_gen st)
           in case generate_inner hash64 buf 0 (st\<lparr> g_gen := g \<rparr>) of
                None \<Rightarrow> None
              | Some st \<Rightarrow>
                  generate_outer hash64 (decode_cycle + 1) (st\<lparr> g_cycle := g_cycle st + 1 \<rparr>)
      else Some st)"
  by pat_completeness auto
termination
  by (relation "measure (\<lambda>(hash64, dc, st). RANDOMX_SUPERSCALAR_LATENCY - dc)") auto

declare generate_inner.simps [simp del] generate_outer.simps [simp del]

text \<open>The dependency depths of the registers and the choice of the address register.\<close>

definition asic_step :: "ScInstr \<Rightarrow> nat list \<Rightarrow> nat list option" where
  "asic_step instr lat =
     (if 0 \<le> sc_dst instr \<and> sc_dst instr < 8 \<and> sc_src instr < 8
      then let lat_dst = lat ! nat (sc_dst instr) + 1;
               lat_src = (if sc_src instr < 0 \<or> sc_src instr = sc_dst instr then 0
                          else lat ! nat (sc_src instr) + 1)
           in Some (lat[nat (sc_dst instr) := max lat_dst lat_src])
      else None)"

primrec asic_latencies :: "ScInstr list \<Rightarrow> nat list \<Rightarrow> nat list option" where
  "asic_latencies [] lat = Some lat"
| "asic_latencies (i # is) lat = do { lat \<leftarrow> asic_step i lat; asic_latencies is lat }"

definition select_address_reg :: "nat list \<Rightarrow> nat" where
  "select_address_reg lat =
     snd (foldl (\<lambda>(best, reg) i. if lat ! i > best then (lat ! i, i) else (best, reg))
            (0, 0) [0..<8])"

text \<open>\<open>generate\<close> up to the decoding of the executable form: the instructions, the address
  register and the advanced byte stream.\<close>

definition generate_prog ::
  "(u8 list \<Rightarrow> u8 list) \<Rightarrow> Blake2Generator \<Rightarrow> (ScInstr list \<times> nat \<times> Blake2Generator) option" where
  "generate_prog hash64 g =
     do { st \<leftarrow> generate_outer hash64 0 (ScGen_init g);
          lat \<leftarrow> asic_latencies (take (g_program_size st) (g_prog st)) (replicate 8 0);
          Some (g_prog st, select_address_reg lat, g_gen st) }"

section \<open>Generated programs name existing registers\<close>

definition reads_src :: "ScOpcode \<Rightarrow> bool" where
  "reads_src op \<longleftrightarrow> op \<in> {Sc_ISUB_R, Sc_IXOR_R, Sc_IADD_RS, Sc_IMUL_R, Sc_IMULH_R, Sc_ISMULH_R}"

definition info_ok :: "ScInstrInfo \<Rightarrow> bool" where
  "info_ok i \<longleftrightarrow> info_op i \<noteq> Sc_INVALID \<and> info_op i \<noteq> Sc_COUNT \<and>
     0 \<le> dst_op i \<and> dst_op i \<le> int (result_op i) \<and> result_op i < info_size i \<and>
     src_op i < int (info_size i) \<and> (0 \<le> src_op i \<longleftrightarrow> reads_src (info_op i))"

definition is_reg :: "int \<Rightarrow> bool" where
  "is_reg r \<longleftrightarrow> 0 \<le> r \<and> r < 8"

definition sc_ok :: "ScInstr \<Rightarrow> bool" where
  "sc_ok i \<longleftrightarrow> info_ok (info i) \<and> is_reg (sc_dst i) \<and>
     (if reads_src (info_op (info i)) then is_reg (sc_src i) else sc_src i = - 1)"

text \<open>The current instruction: finished, or with the operands chosen that the macro-ops before the
  current one select.\<close>

definition current_ok :: "nat \<Rightarrow> ScInstr \<Rightarrow> bool" where
  "current_ok moi i \<longleftrightarrow> info_ok (info i) \<and>
     (dst_op (info i) < int moi \<longrightarrow> is_reg (sc_dst i)) \<and>
     (if reads_src (info_op (info i)) then src_op (info i) < int moi \<longrightarrow> is_reg (sc_src i)
      else sc_src i = - 1)"

definition gen_inv :: "ScGen \<Rightarrow> bool" where
  "gen_inv st \<longleftrightarrow> length (g_registers st) = 8 \<and> list_all sc_ok (g_prog st) \<and>
     g_program_size st = length (g_prog st) \<and> g_program_size st \<le> SUPERSCALAR_MAX_SIZE \<and>
     (g_macro_op_index st < info_size (info (g_current st)) \<longrightarrow>
        current_ok (g_macro_op_index st) (g_current st) \<and> g_program_size st < SUPERSCALAR_MAX_SIZE)"

lemmas info_defs =
  NOP_info_def ISUB_R_info_def IXOR_R_info_def IADD_RS_info_def IMUL_R_info_def IROR_C_info_def
  IADD_C7_info_def IXOR_C7_info_def IADD_C8_info_def IXOR_C8_info_def IADD_C9_info_def
  IXOR_C9_info_def IMULH_R_info_def ISMULH_R_info_def IMUL_RCP_info_def info_new_def

lemma info_ok_slots:
  "n < 4 \<Longrightarrow> info_ok (SLOT_3L ! n)" "n < 2 \<Longrightarrow> info_ok (SLOT_4 ! n)"
  "n < 2 \<Longrightarrow> info_ok (SLOT_7 ! n)" "n < 2 \<Longrightarrow> info_ok (SLOT_8 ! n)"
  "n < 2 \<Longrightarrow> info_ok (SLOT_9 ! n)" "info_ok SLOT_10" "info_ok IMUL_R_info"
  by (auto simp: SLOT_3L_def SLOT_4_def SLOT_7_def SLOT_8_def SLOT_9_def SLOT_10_def info_ok_def
        info_size_def reads_src_def info_defs less_Suc_eq numeral_eq_Suc)

lemma sc_create_current:
  assumes "sc_create hash64 i g = Some (instr, g')" "info_ok i"
  shows "current_ok 0 instr"
proof -
  have new: "info instr = i \<and> sc_src instr = - 1"
    using assms(1)
    by (auto simp: sc_create_def new_sc_def bind_eq_Some_conv split: ScOpcode.splits prod.splits)
  then show ?thesis using assms(2) by (auto simp: current_ok_def info_ok_def)
qed

lemma unat_and_1: "unat (b AND 1 :: u8) < 2" and unat_and_3: "unat (b AND 3 :: u8) < 4"
  using unat_and_mask_eq [of b 1] unat_and_mask_eq [of b 2] by (simp_all add: mask_eq_exp_minus_1)

lemma create_for_slot_current:
  assumes "create_for_slot hash64 g slot fetch lst = Some (instr, g')"
  shows "current_ok 0 instr"
proof -
  have b: "unat (b AND 1 :: u8) < 4" for b :: u8 using unat_and_1 [of b] by simp
  show ?thesis
    using assms
    by (auto simp: create_for_slot_def split: if_splits prod.splits
          elim!: sc_create_current intro!: info_ok_slots unat_and_1 unat_and_3 b)
qed

lemma select_register_chooses:
  assumes "select_register hash64 instr avail g rs = (True, instr', g')"
  shows "\<exists>r \<in> set avail. instr' = (if rs then instr\<lparr> sc_src := int r \<rparr> else instr\<lparr> sc_dst := int r \<rparr>)"
  using assms
  by (auto simp: select_register_def Let_def split: if_splits prod.splits intro!: bexI nth_mem)

lemma select_source_ok:
  assumes "select_source hash64 instr c regs g = (found, instr', g')" "length regs = 8"
  shows "info instr' = info instr \<and> sc_dst instr' = sc_dst instr \<and>
         (found \<longrightarrow> is_reg (sc_src instr')) \<and> (\<not> found \<longrightarrow> instr' = instr)"
  using assms
  by (auto simp: select_source_def Let_def REG_NEEDS_DISPLACEMENT_IX_def is_reg_def
        split: if_splits prod.splits dest!: select_register_chooses)
     (auto simp: select_register_def split: if_splits prod.splits)

lemma select_destination_ok:
  assumes "select_destination hash64 instr c chain regs g = (found, instr', g')" "length regs = 8"
  shows "info instr' = info instr \<and> sc_src instr' = sc_src instr \<and>
         (found \<longrightarrow> is_reg (sc_dst instr')) \<and> (\<not> found \<longrightarrow> instr' = instr)"
proof (cases found)
  case True
  then show ?thesis
    using assms by (auto simp: select_destination_def is_reg_def dest!: select_register_chooses)
next
  case False
  then show ?thesis
    using assms
    by (auto simp: select_destination_def select_register_def Let_def split: if_splits prod.splits)
qed

lemma select_source_loop_ok:
  assumes "select_source_loop hash64 regs n c cy instr g = (found, c', cy', instr', g')"
    "length regs = 8"
  shows "info instr' = info instr \<and> sc_dst instr' = sc_dst instr \<and> (found \<longrightarrow> is_reg (sc_src instr')) \<and>
         (\<not> found \<longrightarrow> sc_src instr' = sc_src instr)"
  using assms(1)
proof (induction n arbitrary: c cy instr g)
  case 0
  then show ?case by simp
next
  case (Suc n)
  then show ?case
    using select_source_ok [OF _ assms(2)]
    by (auto simp: Let_def split: prod.splits if_splits) metis+
qed

lemma select_destination_loop_ok:
  assumes "select_destination_loop hash64 regs ch n c cy instr g = (found, c', cy', instr', g')"
    "length regs = 8"
  shows "info instr' = info instr \<and> sc_src instr' = sc_src instr \<and> (found \<longrightarrow> is_reg (sc_dst instr')) \<and>
         (\<not> found \<longrightarrow> sc_dst instr' = sc_dst instr)"
  using assms(1)
proof (induction n arbitrary: c cy instr g)
  case 0
  then show ?case by simp
next
  case (Suc n)
  then show ?case
    using select_destination_ok [OF _ assms(2)]
    by (auto simp: Let_def split: prod.splits if_splits) metis+
qed

lemma choose_source_inv:
  assumes "gen_inv st" "g_macro_op_index st < info_size (info (g_current st))"
    and "choose_source hash64 c st = (r, st')"
  shows "gen_inv st' \<and> g_macro_op_index st' = g_macro_op_index st \<and>
         info (g_current st') = info (g_current st) \<and>
         (r \<noteq> None \<longrightarrow> reads_src (info_op (info (g_current st))) \<longrightarrow>
          src_op (info (g_current st)) \<le> int (g_macro_op_index st) \<longrightarrow> is_reg (sc_src (g_current st')))"
proof (cases "int (g_macro_op_index st) = src_op (info (g_current st))")
  case True
  then have "reads_src (info_op (info (g_current st)))"
    using assms(1,2) by (auto simp: gen_inv_def current_ok_def info_ok_def)
  then show ?thesis
    using assms True
    by (auto simp: choose_source_def gen_inv_def current_ok_def Let_def split: prod.splits if_splits
         dest!: select_source_loop_ok)
next
  case False
  then show ?thesis using assms by (auto simp: choose_source_def gen_inv_def current_ok_def)
qed

lemma choose_destination_inv:
  assumes "gen_inv st" "g_macro_op_index st < info_size (info (g_current st))"
    and "choose_destination hash64 c st = (r, st')"
  shows "gen_inv st' \<and> g_macro_op_index st' = g_macro_op_index st \<and>
         info (g_current st') = info (g_current st) \<and> sc_src (g_current st') = sc_src (g_current st) \<and>
         (r \<noteq> None \<longrightarrow> dst_op (info (g_current st)) \<le> int (g_macro_op_index st) \<longrightarrow>
          is_reg (sc_dst (g_current st')))"
proof (cases "int (g_macro_op_index st) = dst_op (info (g_current st))")
  case True
  then show ?thesis
    using assms
    by (auto simp: choose_destination_def gen_inv_def current_ok_def Let_def split: prod.splits if_splits
         dest!: select_destination_loop_ok)
next
  case False
  then show ?thesis using assms by (auto simp: choose_destination_def gen_inv_def current_ok_def)
qed

lemma operand_failed_inv: "gen_inv st \<Longrightarrow> gen_inv (snd (operand_failed bi st))"
  by (auto simp: operand_failed_def gen_inv_def ScInstr_null_def info_size_def NOP_info_def info_new_def)

lemma commit_mop_inv:
  assumes "gen_inv st" "g_macro_op_index st < info_size (info (g_current st))"
    and "reads_src (info_op (info (g_current st))) \<Longrightarrow>
         src_op (info (g_current st)) \<le> int (g_macro_op_index st) \<Longrightarrow> is_reg (sc_src (g_current st))"
    and "dst_op (info (g_current st)) \<le> int (g_macro_op_index st) \<Longrightarrow> is_reg (sc_dst (g_current st))"
  shows "\<exists>fl st'. commit_mop mop c tc bi st = Some (fl, st') \<and> gen_inv st'"
proof -
  let ?cur = "g_current st" and ?moi = "g_macro_op_index st"
  have cur: "current_ok ?moi ?cur" "g_program_size st < SUPERSCALAR_MAX_SIZE"
    using assms(1,2) by (simp_all add: gen_inv_def)
  then have ok: "info_ok (info ?cur)" by (simp add: current_ok_def)
  obtain r busy where r: "schedule_mop True mop (g_busy st) c c = (r, busy)" by (rule prod.exhaust)
  show ?thesis
  proof (cases r)
    case None
    then show ?thesis using assms(1) r by (auto simp: commit_mop_def Let_def gen_inv_def)
  next
    case (Some sc)
    have dst: "?moi = result_op (info ?cur) \<Longrightarrow> 0 \<le> sc_dst ?cur \<and> sc_dst ?cur < 8"
      using assms(4) ok by (auto simp: info_ok_def is_reg_def)
    have "current_ok (Suc ?moi) ?cur"
      using cur(1) assms(3,4) by (auto simp: current_ok_def)
    moreover have "sc_ok ?cur" if "info_size (info ?cur) \<le> Suc ?moi"
      using that ok cur(1) assms(3,4) by (auto simp: sc_ok_def info_ok_def current_ok_def)
    ultimately show ?thesis
      using assms(1) cur(2) r Some dst by (auto simp: commit_mop_def Let_def gen_inv_def)
  qed
qed

lemma refill_inv:
  assumes "gen_inv st" "refill hash64 buf bi st = Some st'"
    and "g_macro_op_index st \<ge> info_size (info (g_current st)) \<Longrightarrow> g_program_size st < SUPERSCALAR_MAX_SIZE"
  shows "gen_inv st' \<and> g_macro_op_index st' < info_size (info (g_current st'))"
proof (cases "g_macro_op_index st \<ge> info_size (info (g_current st))")
  case True
  then obtain instr g where c: "create_for_slot hash64 (g_gen st) (buf_counts buf ! bi) (buf_index buf)
      (buf_size buf = bi + 1) = Some (instr, g)"
    and st': "st' = st\<lparr> g_current := instr, g_gen := g, g_macro_op_index := 0 \<rparr>"
    using assms(2) by (auto simp: refill_def bind_eq_Some_conv)
  have "current_ok 0 instr" using create_for_slot_current [OF c] .
  then show ?thesis using assms(1,3) True by (auto simp: gen_inv_def st' current_ok_def info_ok_def)
next
  case False
  then show ?thesis using assms by (simp add: refill_def)
qed

lemma schedule_current_inv:
  assumes "gen_inv st" "g_macro_op_index st < info_size (info (g_current st))"
  shows "\<exists>fl st'. schedule_current hash64 tc bi st = Some (fl, st') \<and> gen_inv st'"
proof -
  let ?mop = "macro_ops (info (g_current st)) ! g_macro_op_index st"
  show ?thesis
  proof (cases "fst (schedule_mop False ?mop (g_busy st) (g_cycle st) (g_dep_cycle st))")
    case None
    then show ?thesis using assms(1) by (auto simp: schedule_current_def Let_def gen_inv_def)
  next
    case (Some c)
    obtain r1 st1 where 1: "choose_source hash64 c st = (r1, st1)" by (rule prod.exhaust)
    note s1 = choose_source_inv [OF assms 1]
    show ?thesis
    proof (cases r1)
      case None
      then show ?thesis
        using s1 Some 1 operand_failed_inv [of st1 bi]
        by (cases "operand_failed bi st1") (simp add: schedule_current_def Let_def)
    next
      case (Some c1)
      obtain r2 st2 where 2: "choose_destination hash64 c1 st1 = (r2, st2)" by (rule prod.exhaust)
      have "g_macro_op_index st1 < info_size (info (g_current st1))" using s1 assms(2) by simp
      note s2 = choose_destination_inv [OF conjunct1 [OF s1] this 2]
      show ?thesis
      proof (cases r2)
        case None
        then show ?thesis
          using s2 \<open>r1 = Some c1\<close> \<open>fst _ = Some c\<close> 1 2 operand_failed_inv [of st2 bi]
          by (cases "operand_failed bi st2") (simp add: schedule_current_def Let_def)
      next
        case (Some c2)
        then have "\<exists>fl st'. commit_mop ?mop c2 tc bi st2 = Some (fl, st') \<and> gen_inv st'"
          using s1 s2 assms(2) \<open>r1 = Some c1\<close> by (intro commit_mop_inv) auto
        then show ?thesis
          using \<open>r1 = Some c1\<close> \<open>fst _ = Some c\<close> Some 1 2 by (simp add: schedule_current_def Let_def)
      qed
    qed
  qed
qed

text \<open>The hypothesis on the byte stream under which \<open>generate\<close> returns: both rejection loops
  end from every state of the stream.\<close>

definition rejection_ends :: "(u8 list \<Rightarrow> u8 list) \<Rightarrow> bool" where
  "rejection_ends hash64 \<longleftrightarrow> (\<forall>g. ror_loop hash64 g \<noteq> None \<and> rcp_loop hash64 g \<noteq> None)"

lemma rcp_loop_result:
  assumes "rcp_loop hash64 g = Some r"
  shows "\<not> is_zero_or_power_of_2_u32 (fst r)"
proof (rule rcp_loop.raw_induct [of "\<lambda>h g r. \<not> is_zero_or_power_of_2_u32 (fst r)", OF _ assms])
  fix f h g r
  assume IH: "\<And>g b y. f g b = Some y \<Longrightarrow> \<not> is_zero_or_power_of_2_u32 (fst y)"
    and step: "(let (imm32, g) = get_u32 h g
                in if is_zero_or_power_of_2_u32 imm32 then f h g else Some (imm32, g)) = Some r"
  show "\<not> is_zero_or_power_of_2_u32 (fst r)"
    using step IH [of h "snd (get_u32 h g)" r]
    by (cases "is_zero_or_power_of_2_u32 (fst (get_u32 h g))") (auto simp: case_prod_beta)
qed

lemma sc_create_total:
  assumes "rejection_ends hash64" "info_ok i"
  shows "sc_create hash64 i g \<noteq> None"
proof -
  obtain r1 r2 where 1: "ror_loop hash64 g = Some r1" and 2: "rcp_loop hash64 g = Some r2"
    using assms(1) unfolding rejection_ends_def by blast
  have "fst r2 \<noteq> 0"
    using rcp_loop_result [OF 2] by (auto simp: is_zero_or_power_of_2_u32_def)
  then have "(ucast (fst r2) :: u64) \<noteq> 0"
    using unat_ucast_widen [where 'b = 64, of "fst r2"] by (auto simp: unat_eq_zero)
  then have "randomx_reciprocal (ucast (fst r2)) \<noteq> None" by (simp add: randomx_reciprocal_def)
  then show ?thesis
    using assms(2) 1 2
    by (auto simp: sc_create_def info_ok_def case_prod_beta Let_def split: ScOpcode.splits)
qed

lemma create_for_slot_total:
  assumes "rejection_ends hash64" "slot \<in> {3, 4, 7, 8, 9, 10}"
  shows "create_for_slot hash64 g slot fetch lst \<noteq> None"
proof -
  have b: "unat (b AND 1 :: u8) < 4" for b :: u8 using unat_and_1 [of b] by simp
  show ?thesis
    using assms(2) sc_create_total [OF assms(1)] info_ok_slots unat_and_1 unat_and_3 b
    by (auto simp: create_for_slot_def case_prod_beta Let_def simp del: not_None_eq)
qed

definition buf_ok :: "DecoderBuffer \<Rightarrow> bool" where
  "buf_ok buf \<longleftrightarrow> set (buf_counts buf) \<subseteq> {3, 4, 7, 8, 9, 10}"

lemma fetch_next_ok: "buf_ok (fst (fetch_next hash64 instr dc mc g))"
proof -
  have "list_all buf_ok DECODE_BUFFERS"
    by (simp add: DECODE_BUFFERS_def buf_ok_def BUFFER_484_def BUFFER_7333_def BUFFER_3733_def BUFFER_493_def)
  moreover have "length DECODE_BUFFERS = 4" by (simp add: DECODE_BUFFERS_def)
  ultimately have "buf_ok (DECODE_BUFFERS ! unat (b AND 3))" for b :: u8
    using unat_and_3 [of b] by (simp add: list_all_length)
  then show ?thesis
    by (auto simp: fetch_next_def case_prod_beta Let_def buf_ok_def BUFFFER_3310_def BUFFER_4444_def
          BUFFER_484_def BUFFER_493_def)
qed

lemma generate_step_inv:
  assumes "gen_inv st" "generate_step hash64 buf bi st = Some (fl, st')"
  shows "gen_inv st'"
proof (cases "g_macro_op_index st \<ge> info_size (info (g_current st))
              \<and> (g_ports_saturated st \<or> g_program_size st \<ge> SUPERSCALAR_MAX_SIZE)")
  case True
  then show ?thesis using assms by (simp add: generate_step_def)
next
  case False
  then have "refill hash64 buf bi st \<bind> schedule_current hash64 (g_cycle st) bi = Some (fl, st')"
    using assms(2) unfolding generate_step_def Let_def by (simp only: if_False)
  then obtain st1 where st1: "refill hash64 buf bi st = Some st1"
    "schedule_current hash64 (g_cycle st) bi st1 = Some (fl, st')"
    by (auto simp: bind_eq_Some_conv)
  show ?thesis
    using schedule_current_inv [of st1 hash64 "g_cycle st" bi] refill_inv [OF assms(1) st1(1)] st1(2)
      False by auto
qed

lemma generate_step_total:
  assumes "gen_inv st" "bi < buf_size buf" "rejection_ends hash64" "buf_ok buf"
  shows "generate_step hash64 buf bi st \<noteq> None"
proof -
  have "buf_counts buf ! bi \<in> {3, 4, 7, 8, 9, 10}"
    using assms(2,4) nth_mem [of bi "buf_counts buf"] unfolding buf_ok_def buf_size_def by blast
  then have "create_for_slot hash64 (g_gen st) (buf_counts buf ! bi) (buf_index buf)
               (buf_size buf = bi + 1) \<noteq> None"
    using assms(3) by (rule create_for_slot_total [rotated])
  then have "refill hash64 buf bi st \<noteq> None"
    unfolding refill_def by (auto simp: case_prod_beta)
  then obtain st1 where st1: "refill hash64 buf bi st = Some st1" by blast
  show ?thesis
  proof (cases "g_macro_op_index st \<ge> info_size (info (g_current st))
                \<and> (g_ports_saturated st \<or> g_program_size st \<ge> SUPERSCALAR_MAX_SIZE)")
    case True
    then show ?thesis by (simp add: generate_step_def)
  next
    case False
    then obtain r where "schedule_current hash64 (g_cycle st) bi st1 = Some r"
      using schedule_current_inv [of st1 hash64 "g_cycle st" bi] refill_inv [OF assms(1) st1] by auto
    then show ?thesis unfolding generate_step_def Let_def st1 by simp
  qed
qed

lemma generate_inner_inv:
  "gen_inv st \<Longrightarrow> generate_inner hash64 buf bi st = Some st' \<Longrightarrow> gen_inv st'"
proof (induction hash64 buf bi st rule: generate_inner.induct)
  case (1 hash64 buf bi st)
  show ?case
  proof (cases "bi < buf_size buf")
    case True
    then obtain fl st1 where s: "generate_step hash64 buf bi st = Some (fl, st1)"
      using "1.prems"(2) by (cases "generate_step hash64 buf bi st") (auto simp: generate_inner.simps)
    note inv = generate_step_inv [OF "1.prems"(1) s]
    show ?thesis
    proof (cases fl)
      case (Continue bi')
      then show ?thesis
        using "1.IH" [OF True s refl] inv "1.prems"(2) True s
        by (simp add: generate_inner.simps [of hash64 buf bi])
    next
      case Break
      then show ?thesis
        using inv "1.prems"(2) True s by (simp add: generate_inner.simps [of hash64 buf bi])
    qed
  next
    case False
    then show ?thesis using "1.prems" by (simp add: generate_inner.simps [of hash64 buf bi])
  qed
qed

lemma generate_inner_total:
  "gen_inv st \<Longrightarrow> rejection_ends hash64 \<Longrightarrow> buf_ok buf \<Longrightarrow> generate_inner hash64 buf bi st \<noteq> None"
proof (induction hash64 buf bi st rule: generate_inner.induct)
  case (1 hash64 buf bi st)
  show ?case
  proof (cases "bi < buf_size buf")
    case True
    then obtain fl st1 where s: "generate_step hash64 buf bi st = Some (fl, st1)"
      using generate_step_total [OF "1.prems"(1) True "1.prems"(2,3)] by auto
    note inv = generate_step_inv [OF "1.prems"(1) s]
    show ?thesis
    proof (cases fl)
      case (Continue bi')
      then show ?thesis
        using "1.IH" [OF True s refl _ inv "1.prems"(2,3)] True s
        by (simp add: generate_inner.simps [of hash64 buf bi])
    next
      case Break
      then show ?thesis using True s by (simp add: generate_inner.simps [of hash64 buf bi])
    qed
  next
    case False
    then show ?thesis by (simp add: generate_inner.simps [of hash64 buf bi])
  qed
qed

lemma generate_outer_inv:
  "gen_inv st \<Longrightarrow> generate_outer hash64 dc st = Some st' \<Longrightarrow> gen_inv st'"
proof (induction hash64 dc st rule: generate_outer.induct)
  case (1 hash64 dc st)
  let ?f = "fetch_next hash64 (g_current st) dc (g_mul_count st) (g_gen st)"
  show ?case
  proof (cases "dc < RANDOMX_SUPERSCALAR_LATENCY \<and> \<not> g_ports_saturated st
                \<and> g_program_size st < SUPERSCALAR_MAX_SIZE")
    case True
    obtain buf g where f: "?f = (buf, g)" by (rule prod.exhaust)
    have inv: "gen_inv (st\<lparr> g_gen := g \<rparr>)" using "1.prems"(1) by (auto simp: gen_inv_def)
    obtain st1 where st1: "generate_inner hash64 buf 0 (st\<lparr> g_gen := g \<rparr>) = Some st1"
      using "1.prems"(2) True f
      by (cases "generate_inner hash64 buf 0 (st\<lparr> g_gen := g \<rparr>)")
         (auto simp: generate_outer.simps [of hash64 dc])
    have "gen_inv (st1\<lparr> g_cycle := g_cycle st1 + 1 \<rparr>)"
      using generate_inner_inv [OF inv st1] by (auto simp: gen_inv_def)
    then show ?thesis
      using "1.IH" [OF True refl f [symmetric] st1] "1.prems"(2) True f st1
      by (simp add: generate_outer.simps [of hash64 dc])
  next
    case False
    then show ?thesis using "1.prems" by (auto simp: generate_outer.simps [of hash64 dc])
  qed
qed

lemma generate_outer_total:
  "gen_inv st \<Longrightarrow> rejection_ends hash64 \<Longrightarrow> generate_outer hash64 dc st \<noteq> None"
proof (induction hash64 dc st rule: generate_outer.induct)
  case (1 hash64 dc st)
  let ?f = "fetch_next hash64 (g_current st) dc (g_mul_count st) (g_gen st)"
  show ?case
  proof (cases "dc < RANDOMX_SUPERSCALAR_LATENCY \<and> \<not> g_ports_saturated st
                \<and> g_program_size st < SUPERSCALAR_MAX_SIZE")
    case True
    obtain buf g where f: "?f = (buf, g)" by (rule prod.exhaust)
    have inv: "gen_inv (st\<lparr> g_gen := g \<rparr>)" using "1.prems"(1) by (auto simp: gen_inv_def)
    have "buf_ok buf" using fetch_next_ok f by (metis fst_conv)
    then obtain st1 where st1: "generate_inner hash64 buf 0 (st\<lparr> g_gen := g \<rparr>) = Some st1"
      using generate_inner_total [OF inv "1.prems"(2)] by blast
    have "gen_inv (st1\<lparr> g_cycle := g_cycle st1 + 1 \<rparr>)"
      using generate_inner_inv [OF inv st1] by (auto simp: gen_inv_def)
    then show ?thesis
      using "1.IH" [OF True refl f [symmetric] st1] "1.prems"(2) True f st1
      by (simp add: generate_outer.simps [of hash64 dc])
  next
    case False
    then show ?thesis by (auto simp: generate_outer.simps [of hash64 dc])
  qed
qed

lemma ScGen_init_inv: "gen_inv (ScGen_init g)"
  by (simp add: gen_inv_def ScGen_init_def ScInstr_null_def info_size_def info_defs)

lemma asic_latencies_total:
  "list_all sc_ok is \<Longrightarrow> length lat = 8 \<Longrightarrow> asic_latencies is lat \<noteq> None"
proof (induction "is" arbitrary: lat)
  case (Cons i "is")
  have "sc_src i < 8" using Cons.prems(1) by (auto simp: sc_ok_def is_reg_def split: if_splits)
  then obtain lat' where "asic_step i lat = Some lat'" "length lat' = 8"
    using Cons.prems by (auto simp: asic_step_def sc_ok_def is_reg_def Let_def)
  then show ?case using Cons by simp
qed simp

lemma select_address_reg_lt: "select_address_reg lat < 8"
proof -
  have "snd (foldl (\<lambda>(best, reg) i. if lat ! i > best then (lat ! i, i) else (best, reg)) (b, r) is) < 8"
    if "r < 8" "\<forall>i \<in> set is. i < 8" for b r "is"
    using that by (induction "is" arbitrary: b r) auto
  then show ?thesis by (simp add: select_address_reg_def)
qed

lemma generate_prog_ok:
  assumes "generate_prog hash64 g = Some (prog, a, g')"
  shows "list_all sc_ok prog" "a < 8" "length prog \<le> SUPERSCALAR_MAX_SIZE"
proof -
  obtain st lat where st: "generate_outer hash64 0 (ScGen_init g) = Some st"
    and p: "prog = g_prog st" "a = select_address_reg lat"
    using assms by (auto simp: generate_prog_def bind_eq_Some_conv)
  show "list_all sc_ok prog" "a < 8" "length prog \<le> SUPERSCALAR_MAX_SIZE"
    using generate_outer_inv [OF ScGen_init_inv st] select_address_reg_lt
    by (auto simp: gen_inv_def p)
qed

lemma generate_prog_total:
  assumes "rejection_ends hash64"
  shows "generate_prog hash64 g \<noteq> None"
proof -
  obtain st where st: "generate_outer hash64 0 (ScGen_init g) = Some st"
    using generate_outer_total [OF ScGen_init_inv assms] by blast
  have "list_all sc_ok (take n (g_prog st))" for n
    using generate_outer_inv [OF ScGen_init_inv st] by (auto simp: gen_inv_def list_all_iff dest: in_set_takeD)
  then obtain lat where "asic_latencies (take (g_program_size st) (g_prog st)) (replicate 8 0) = Some lat"
    using asic_latencies_total [of _ "replicate 8 0"] by fastforce
  then show ?thesis by (simp add: generate_prog_def st)
qed

end
