(* ===== verification/Registers.thy ===== *)
theory Registers
  imports Prelude
begin

text \<open>
  The interface of a register file that is addressed by byte offsets through unchecked pointer
  arithmetic, as the compact interpreters do it (\<open>exec_read_register\<close>, \<open>exec_write_register\<close>
  in \<open>superscalar.rs\<close>; \<open>r\<close>, \<open>set_r\<close>, \<open>f\<close>, \<open>set_f\<close>, \<open>e\<close>, \<open>set_e\<close> in
  \<open>randomx-sp1/src/lib.rs\<close>). An access that is not aligned or leaves the array is undefined
  behaviour, the value \<open>None\<close>. The laws say that the offset \<open>stride * i\<close> is element
  \<open>i\<close>; the lemmas are the read-after-write laws and the read-modify-write step.
\<close>

text \<open>The element at a byte offset of an array whose elements have \<open>stride\<close> bytes.\<close>

definition offset_index :: "nat \<Rightarrow> 'v list \<Rightarrow> u8 \<Rightarrow> nat option" where
  "offset_index stride xs byte_offset =
     (if unat byte_offset mod stride = 0 \<and> unat byte_offset div stride < length xs
      then Some (unat byte_offset div stride) else None)"

text \<open>The byte offset of element \<open>i\<close>.\<close>

definition reg_offset :: "nat \<Rightarrow> nat \<Rightarrow> u8" where
  "reg_offset stride i = of_nat (stride * i)"

lemma offset_index_reg_offset:
  assumes "0 < stride" "i < length xs" "stride * length xs \<le> 256"
  shows "offset_index stride xs (reg_offset stride i) = Some i"
proof -
  have "stride * i < stride * length xs" using assms by simp
  then have "stride * i < 256" using assms(3) by linarith
  then have "unat (reg_offset stride i) = stride * i"
    unfolding reg_offset_def by (subst unat_of_nat) simp
  then show ?thesis using assms by (simp add: offset_index_def)
qed

locale offset_registers =
  fixes rd :: "'s \<Rightarrow> u8 \<Rightarrow> 'v option"
    and wr :: "'s \<Rightarrow> u8 \<Rightarrow> 'v \<Rightarrow> 's option"
    and regs :: "'s \<Rightarrow> 'v list"
    and upd :: "'s \<Rightarrow> 'v list \<Rightarrow> 's"
    and stride :: nat
  assumes read_at: "i < length (regs s) \<Longrightarrow> stride * length (regs s) \<le> 256 \<Longrightarrow>
      rd s (reg_offset stride i) = Some (regs s ! i)"
    and write_at: "i < length (regs s) \<Longrightarrow> stride * length (regs s) \<le> 256 \<Longrightarrow>
      wr s (reg_offset stride i) v = Some (upd s ((regs s)[i := v]))"
    and regs_upd: "regs (upd s xs) = xs"
begin

lemma read_write_same:
  assumes "i < length (regs s)" "stride * length (regs s) \<le> 256"
  shows "Option.bind (wr s (reg_offset stride i) v) (\<lambda>s'. rd s' (reg_offset stride i)) = Some v"
  using assms by (simp add: write_at read_at regs_upd)

lemma read_write_other:
  assumes "i < length (regs s)" "j < length (regs s)" "i \<noteq> j" "stride * length (regs s) \<le> 256"
  shows "Option.bind (wr s (reg_offset stride i) v) (\<lambda>s'. rd s' (reg_offset stride j)) =
           rd s (reg_offset stride j)"
  using assms by (simp add: write_at read_at regs_upd)

lemma read_modify_write:
  assumes "i < length (regs s)" "stride * length (regs s) \<le> 256"
  shows "Option.bind (rd s (reg_offset stride i)) (\<lambda>x. wr s (reg_offset stride i) (f x)) =
           Some (upd s ((regs s)[i := f (regs s ! i)]))"
  using assms by (simp add: write_at read_at)

end

end
