(* ===== verification/SuperscalarExec.thy ===== *)
theory SuperscalarExec
  imports Superscalar Registers
begin

text \<open>
  Model of the execution of superscalar programs in \<open>randomx-core/src/superscalar.rs\<close>: the
  decoded form \<open>ScExecInstr\<close>, the reference, the checked compact and the unchecked paired
  interpreters, and the end of \<open>generate\<close>. \<open>None\<close> is a panic, or undefined behaviour of an
  unchecked access. A handler of the table \<open>PAIR_HANDLERS\<close> is the pair of its two constant
  arguments. The theorems show that the three interpreters agree on well-formed programs and that
  the unchecked one never leaves the register file.
\<close>

section \<open>Definitions\<close>

datatype ScExecOpcode =
  IsubR | IxorR | IaddRs | ImulR | IrorC | IaddC | IxorC | ImulhR | IsmulhR | ImulRcp

fun opcode_index :: "ScExecOpcode \<Rightarrow> nat" where
  "opcode_index IsubR = 0"
| "opcode_index IxorR = 1"
| "opcode_index IaddRs = 2"
| "opcode_index ImulR = 3"
| "opcode_index IrorC = 4"
| "opcode_index IaddC = 5"
| "opcode_index IxorC = 6"
| "opcode_index ImulhR = 7"
| "opcode_index IsmulhR = 8"
| "opcode_index ImulRcp = 9"

record ScExecInstr =
  immediate :: u64
  pair_handler_offset :: u16
  dst_offset :: u8
  src_offset :: u8
  opcode :: ScExecOpcode

definition exec_opcode :: "ScInstr \<Rightarrow> (ScExecOpcode \<times> u64) option" where
  "exec_opcode instr =
     (case info_op (info instr) of
        Sc_ISUB_R \<Rightarrow> Some (IsubR, 0)
      | Sc_IXOR_R \<Rightarrow> Some (IxorR, 0)
      | Sc_IADD_RS \<Rightarrow> Some (IaddRs, mod_shift instr)
      | Sc_IMUL_R \<Rightarrow> Some (ImulR, 0)
      | Sc_IROR_C \<Rightarrow> Some (IrorC, ucast (imm32 instr))
      | Sc_IADD_C7 \<Rightarrow> Some (IaddC, u64_from_u32_imm (imm32 instr))
      | Sc_IADD_C8 \<Rightarrow> Some (IaddC, u64_from_u32_imm (imm32 instr))
      | Sc_IADD_C9 \<Rightarrow> Some (IaddC, u64_from_u32_imm (imm32 instr))
      | Sc_IXOR_C7 \<Rightarrow> Some (IxorC, u64_from_u32_imm (imm32 instr))
      | Sc_IXOR_C8 \<Rightarrow> Some (IxorC, u64_from_u32_imm (imm32 instr))
      | Sc_IXOR_C9 \<Rightarrow> Some (IxorC, u64_from_u32_imm (imm32 instr))
      | Sc_IMULH_R \<Rightarrow> Some (ImulhR, 0)
      | Sc_ISMULH_R \<Rightarrow> Some (IsmulhR, 0)
      | Sc_IMUL_RCP \<Rightarrow> Some (ImulRcp, sc_reciprocal instr)
      | Sc_COUNT \<Rightarrow> None
      | Sc_INVALID \<Rightarrow> None)"

definition sc_decode :: "ScInstr \<Rightarrow> ScExecInstr option" where
  "sc_decode instr =
     do { (op, imm) \<leftarrow> exec_opcode instr;
          if 0 \<le> sc_dst instr \<and> sc_dst instr < 8
             \<and> (sc_src instr = - 1 \<or> (0 \<le> sc_src instr \<and> sc_src instr < 8))
          then Some \<lparr> immediate = imm, pair_handler_offset = 0,
                      dst_offset = of_int (sc_dst instr) * 8,
                      src_offset = (if sc_src instr < 0 then 0 else of_int (sc_src instr) * 8),
                      opcode = op \<rparr>
          else None }"

text \<open>The loop over \<open>exec.chunks_exact_mut(2)\<close>; a function pointer has 8 bytes.\<close>

fun set_pair_offsets :: "ScExecInstr list \<Rightarrow> ScExecInstr list" where
  "set_pair_offsets (i # j # rest) =
     i\<lparr> pair_handler_offset := of_nat ((opcode_index (opcode i) * 10 + opcode_index (opcode j)) * 8) \<rparr>
     # j # set_pair_offsets rest"
| "set_pair_offsets rest = rest"

record ScProgram =
  sp_prog :: "ScInstr list"
  sp_exec :: "ScExecInstr list"
  sp_address_reg :: nat

definition generate ::
  "(u8 list \<Rightarrow> u8 list) \<Rightarrow> Blake2Generator \<Rightarrow> (ScProgram \<times> Blake2Generator) option" where
  "generate hash64 g =
     do { (prog, address_reg, g) \<leftarrow> generate_prog hash64 g;
          exec \<leftarrow> map_option_list sc_decode prog;
          Some (\<lparr> sp_prog = prog, sp_exec = set_pair_offsets exec, sp_address_reg = address_reg \<rparr>, g) }"

definition address_register :: "ScProgram \<Rightarrow> u64 list \<Rightarrow> u64 option" where
  "address_register p registers =
     (if sp_address_reg p < length registers then Some (registers ! sp_address_reg p) else None)"

subsection \<open>The reference interpreter\<close>

text \<open>\<open>ds[i as usize]\<close> with an \<open>i32\<close> index; a negative index becomes a huge one.\<close>

definition ds_get :: "u64 list \<Rightarrow> int \<Rightarrow> u64 option" where
  "ds_get ds i = (if 0 \<le> i \<and> i < int (length ds) then Some (ds ! nat i) else None)"

definition ds_set :: "u64 list \<Rightarrow> int \<Rightarrow> u64 \<Rightarrow> u64 list option" where
  "ds_set ds i v = (if 0 \<le> i \<and> i < int (length ds) then Some (ds[nat i := v]) else None)"

text \<open>\<open>x << s\<close> on \<open>u64\<close> takes the amount modulo 64.\<close>

definition shl64 :: "u64 \<Rightarrow> u64 \<Rightarrow> u64" where
  "shl64 x s = push_bit (unat s mod 64) x"

definition ror64 :: "u64 \<Rightarrow> u32 \<Rightarrow> u64" where
  "ror64 x s = word_rotr (unat s) x"

definition execute_reference_instr :: "ScInstr \<Rightarrow> u64 list \<Rightarrow> u64 list option" where
  "execute_reference_instr instr ds =
     (let dst = sc_dst instr; src = sc_src instr in
      case info_op (info instr) of
        Sc_ISUB_R \<Rightarrow> do { a \<leftarrow> ds_get ds dst; b \<leftarrow> ds_get ds src; ds_set ds dst (a - b) }
      | Sc_IXOR_R \<Rightarrow> do { a \<leftarrow> ds_get ds dst; b \<leftarrow> ds_get ds src; ds_set ds dst (a XOR b) }
      | Sc_IADD_RS \<Rightarrow>
          do { a \<leftarrow> ds_get ds dst; b \<leftarrow> ds_get ds src; ds_set ds dst (a + shl64 b (mod_shift instr)) }
      | Sc_IMUL_R \<Rightarrow> do { a \<leftarrow> ds_get ds dst; b \<leftarrow> ds_get ds src; ds_set ds dst (a * b) }
      | Sc_IROR_C \<Rightarrow> do { a \<leftarrow> ds_get ds dst; ds_set ds dst (ror64 a (imm32 instr)) }
      | Sc_IADD_C7 \<Rightarrow> do { a \<leftarrow> ds_get ds dst; ds_set ds dst (a + u64_from_u32_imm (imm32 instr)) }
      | Sc_IADD_C8 \<Rightarrow> do { a \<leftarrow> ds_get ds dst; ds_set ds dst (a + u64_from_u32_imm (imm32 instr)) }
      | Sc_IADD_C9 \<Rightarrow> do { a \<leftarrow> ds_get ds dst; ds_set ds dst (a + u64_from_u32_imm (imm32 instr)) }
      | Sc_IXOR_C7 \<Rightarrow> do { a \<leftarrow> ds_get ds dst; ds_set ds dst (a XOR u64_from_u32_imm (imm32 instr)) }
      | Sc_IXOR_C8 \<Rightarrow> do { a \<leftarrow> ds_get ds dst; ds_set ds dst (a XOR u64_from_u32_imm (imm32 instr)) }
      | Sc_IXOR_C9 \<Rightarrow> do { a \<leftarrow> ds_get ds dst; ds_set ds dst (a XOR u64_from_u32_imm (imm32 instr)) }
      | Sc_IMULH_R \<Rightarrow> do { a \<leftarrow> ds_get ds dst; b \<leftarrow> ds_get ds src; ds_set ds dst (mulh a b) }
      | Sc_ISMULH_R \<Rightarrow> do { a \<leftarrow> ds_get ds dst; b \<leftarrow> ds_get ds src; ds_set ds dst (smulh a b) }
      | Sc_IMUL_RCP \<Rightarrow> do { a \<leftarrow> ds_get ds dst; ds_set ds dst (a * sc_reciprocal instr) }
      | Sc_COUNT \<Rightarrow> None
      | Sc_INVALID \<Rightarrow> None)"

definition execute_reference :: "ScProgram \<Rightarrow> u64 list \<Rightarrow> u64 list option" where
  "execute_reference p ds = foldl_option execute_reference_instr (sp_prog p) ds"

subsection \<open>The checked compact interpreter\<close>

definition execute_compact_instr :: "ScExecInstr \<Rightarrow> u64 list \<Rightarrow> u64 list option" where
  "execute_compact_instr instr ds =
     (let dst = int (unat (dst_offset instr) div 8); src = int (unat (src_offset instr) div 8) in
      case opcode instr of
        IsubR \<Rightarrow> do { a \<leftarrow> ds_get ds dst; b \<leftarrow> ds_get ds src; ds_set ds dst (a - b) }
      | IxorR \<Rightarrow> do { a \<leftarrow> ds_get ds dst; b \<leftarrow> ds_get ds src; ds_set ds dst (a XOR b) }
      | IaddRs \<Rightarrow>
          do { a \<leftarrow> ds_get ds dst; b \<leftarrow> ds_get ds src; ds_set ds dst (a + shl64 b (immediate instr)) }
      | ImulR \<Rightarrow> do { a \<leftarrow> ds_get ds dst; b \<leftarrow> ds_get ds src; ds_set ds dst (a * b) }
      | IrorC \<Rightarrow> do { a \<leftarrow> ds_get ds dst; ds_set ds dst (ror64 a (ucast (immediate instr))) }
      | IaddC \<Rightarrow> do { a \<leftarrow> ds_get ds dst; ds_set ds dst (a + immediate instr) }
      | IxorC \<Rightarrow> do { a \<leftarrow> ds_get ds dst; ds_set ds dst (a XOR immediate instr) }
      | ImulhR \<Rightarrow> do { a \<leftarrow> ds_get ds dst; b \<leftarrow> ds_get ds src; ds_set ds dst (mulh a b) }
      | IsmulhR \<Rightarrow> do { a \<leftarrow> ds_get ds dst; b \<leftarrow> ds_get ds src; ds_set ds dst (smulh a b) }
      | ImulRcp \<Rightarrow> do { a \<leftarrow> ds_get ds dst; ds_set ds dst (a * immediate instr) })"

definition execute_compact :: "ScProgram \<Rightarrow> u64 list \<Rightarrow> u64 list option" where
  "execute_compact p ds = foldl_option execute_compact_instr (sp_exec p) ds"

subsection \<open>The unchecked paired interpreter\<close>

definition exec_read_register :: "u64 list \<Rightarrow> u8 \<Rightarrow> u64 option" where
  "exec_read_register registers byte_offset =
     map_option ((!) registers) (offset_index 8 registers byte_offset)"

definition exec_write_register :: "u64 list \<Rightarrow> u8 \<Rightarrow> u64 \<Rightarrow> u64 list option" where
  "exec_write_register registers byte_offset val =
     map_option (\<lambda>i. registers[i := val]) (offset_index 8 registers byte_offset)"

text \<open>The result by the constant argument \<open>OPCODE\<close>; the last arm is unreachable and traps.\<close>

definition execute_compact_instruction_known :: "nat \<Rightarrow> u64 list \<Rightarrow> ScExecInstr \<Rightarrow> u64 list option" where
  "execute_compact_instruction_known OPCODE ds instr =
     do { dst_value \<leftarrow> exec_read_register ds (dst_offset instr);
          result \<leftarrow>
            (if OPCODE = 0 then map_option (\<lambda>b. dst_value - b) (exec_read_register ds (src_offset instr))
             else if OPCODE = 1 then map_option (\<lambda>b. dst_value XOR b) (exec_read_register ds (src_offset instr))
             else if OPCODE = 2 then
               map_option (\<lambda>b. dst_value + shl64 b (immediate instr)) (exec_read_register ds (src_offset instr))
             else if OPCODE = 3 then map_option (\<lambda>b. dst_value * b) (exec_read_register ds (src_offset instr))
             else if OPCODE = 4 then Some (ror64 dst_value (ucast (immediate instr)))
             else if OPCODE = 5 then Some (dst_value + immediate instr)
             else if OPCODE = 6 then Some (dst_value XOR immediate instr)
             else if OPCODE = 7 then map_option (mulh dst_value) (exec_read_register ds (src_offset instr))
             else if OPCODE = 8 then map_option (smulh dst_value) (exec_read_register ds (src_offset instr))
             else if OPCODE = 9 then Some (dst_value * immediate instr)
             else None);
          exec_write_register ds (dst_offset instr) result }"

definition execute_compact_instruction_unchecked :: "u64 list \<Rightarrow> ScExecInstr \<Rightarrow> u64 list option" where
  "execute_compact_instruction_unchecked ds instr =
     do { dst_value \<leftarrow> exec_read_register ds (dst_offset instr);
          result \<leftarrow>
            (case opcode instr of
               IsubR \<Rightarrow> map_option (\<lambda>b. dst_value - b) (exec_read_register ds (src_offset instr))
             | IxorR \<Rightarrow> map_option (\<lambda>b. dst_value XOR b) (exec_read_register ds (src_offset instr))
             | IaddRs \<Rightarrow>
                 map_option (\<lambda>b. dst_value + shl64 b (immediate instr)) (exec_read_register ds (src_offset instr))
             | ImulR \<Rightarrow> map_option (\<lambda>b. dst_value * b) (exec_read_register ds (src_offset instr))
             | IrorC \<Rightarrow> Some (ror64 dst_value (ucast (immediate instr)))
             | IaddC \<Rightarrow> Some (dst_value + immediate instr)
             | IxorC \<Rightarrow> Some (dst_value XOR immediate instr)
             | ImulhR \<Rightarrow> map_option (mulh dst_value) (exec_read_register ds (src_offset instr))
             | IsmulhR \<Rightarrow> map_option (smulh dst_value) (exec_read_register ds (src_offset instr))
             | ImulRcp \<Rightarrow> Some (dst_value * immediate instr));
          exec_write_register ds (dst_offset instr) result }"

definition execute_compact_pair_known ::
  "nat \<times> nat \<Rightarrow> u64 list \<Rightarrow> ScExecInstr \<Rightarrow> ScExecInstr \<Rightarrow> u64 list option" where
  "execute_compact_pair_known h ds i j =
     do { ds \<leftarrow> execute_compact_instruction_known (fst h) ds i;
          execute_compact_instruction_known (snd h) ds j }"

definition PAIR_HANDLERS :: "(nat \<times> nat) list" where
  "PAIR_HANDLERS = [
     (0, 0), (0, 1), (0, 2), (0, 3), (0, 4), (0, 5), (0, 6), (0, 7), (0, 8), (0, 9),
     (1, 0), (1, 1), (1, 2), (1, 3), (1, 4), (1, 5), (1, 6), (1, 7), (1, 8), (1, 9),
     (2, 0), (2, 1), (2, 2), (2, 3), (2, 4), (2, 5), (2, 6), (2, 7), (2, 8), (2, 9),
     (3, 0), (3, 1), (3, 2), (3, 3), (3, 4), (3, 5), (3, 6), (3, 7), (3, 8), (3, 9),
     (4, 0), (4, 1), (4, 2), (4, 3), (4, 4), (4, 5), (4, 6), (4, 7), (4, 8), (4, 9),
     (5, 0), (5, 1), (5, 2), (5, 3), (5, 4), (5, 5), (5, 6), (5, 7), (5, 8), (5, 9),
     (6, 0), (6, 1), (6, 2), (6, 3), (6, 4), (6, 5), (6, 6), (6, 7), (6, 8), (6, 9),
     (7, 0), (7, 1), (7, 2), (7, 3), (7, 4), (7, 5), (7, 6), (7, 7), (7, 8), (7, 9),
     (8, 0), (8, 1), (8, 2), (8, 3), (8, 4), (8, 5), (8, 6), (8, 7), (8, 8), (8, 9),
     (9, 0), (9, 1), (9, 2), (9, 3), (9, 4), (9, 5), (9, 6), (9, 7), (9, 8), (9, 9)]"

definition execute_compact_pair_unchecked ::
  "u64 list \<Rightarrow> ScExecInstr \<Rightarrow> ScExecInstr \<Rightarrow> u64 list option" where
  "execute_compact_pair_unchecked ds i j =
     (let off = unat (pair_handler_offset i)
      in if off mod 8 = 0 \<and> off div 8 < length PAIR_HANDLERS
         then execute_compact_pair_known (PAIR_HANDLERS ! (off div 8)) ds i j
         else None)"

text \<open>The sixteen calls of the unrolled body are a loop over the pairs of the chunk.\<close>

fun execute_pairs :: "ScExecInstr list \<Rightarrow> u64 list \<Rightarrow> u64 list option" where
  "execute_pairs (i # j # rest) ds =
     do { ds \<leftarrow> execute_compact_pair_unchecked ds i j; execute_pairs rest ds }"
| "execute_pairs rest ds = Some ds"

definition execute_compact_unchecked :: "ScProgram \<Rightarrow> u64 list \<Rightarrow> u64 list option" where
  "execute_compact_unchecked p ds =
     do { ds \<leftarrow> foldl_option execute_pairs (chunks_exact 32 (sp_exec p)) ds;
          let remainder = chunks_rest 32 (sp_exec p);
          ds \<leftarrow> foldl_option execute_pairs (chunks_exact 2 remainder) ds;
          (case chunks_rest 2 remainder of
             [] \<Rightarrow> Some ds
           | instruction # _ \<Rightarrow> execute_compact_instruction_unchecked ds instruction) }"

definition execute :: "ScProgram \<Rightarrow> u64 list \<Rightarrow> u64 list option" where
  "execute p ds = execute_compact_unchecked p ds"

section \<open>Registers by byte offset\<close>

interpretation exec_regs:
  offset_registers exec_read_register exec_write_register "\<lambda>ds. ds" "\<lambda>_ ds. ds" 8
  by unfold_locales
     (simp_all add: exec_read_register_def exec_write_register_def offset_index_reg_offset)

lemma reg_offset_int: "0 \<le> i \<Longrightarrow> of_int i * 8 = reg_offset 8 (nat i)"
  by (simp add: reg_offset_def of_nat_nat mult.commute)

lemma unat_reg_offset_8: "i < 8 \<Longrightarrow> unat (reg_offset 8 i) = 8 * i"
  unfolding reg_offset_def by (subst unat_of_nat) simp

section \<open>The interpreters agree\<close>

lemma opcode_index_lt: "opcode_index op < 10"
  by (cases op) simp_all

lemma known_unchecked:
  "execute_compact_instruction_known (opcode_index (opcode i)) ds i =
     execute_compact_instruction_unchecked ds i"
  by (cases "opcode i")
     (simp_all add: execute_compact_instruction_known_def execute_compact_instruction_unchecked_def)

lemma PAIR_HANDLERS_nth:
  assumes "a < 10" "b < 10"
  shows "PAIR_HANDLERS ! (a * 10 + b) = (a, b)" "length PAIR_HANDLERS = 100"
proof -
  have "length PAIR_HANDLERS = 100" by (simp add: PAIR_HANDLERS_def)
  moreover have "list_all (\<lambda>a. list_all (\<lambda>b. PAIR_HANDLERS ! (a * 10 + b) = (a, b)) [0..<10]) [0..<10]"
    by (simp add: PAIR_HANDLERS_def upt_rec)
  ultimately show "PAIR_HANDLERS ! (a * 10 + b) = (a, b)" "length PAIR_HANDLERS = 100"
    using assms by (auto simp: list_all_iff)
qed

text \<open>An instruction whose offsets name registers.\<close>

definition exec_ok :: "ScExecInstr \<Rightarrow> bool" where
  "exec_ok i \<longleftrightarrow> (\<exists>d s. d < 8 \<and> s < 8 \<and> dst_offset i = reg_offset 8 d \<and> src_offset i = reg_offset 8 s)"

lemma unchecked_compact:
  assumes "exec_ok i" "length ds = 8"
  shows "execute_compact_instruction_unchecked ds i = execute_compact_instr i ds"
    and "\<exists>ds'. execute_compact_instr i ds = Some ds' \<and> length ds' = 8"
proof -
  obtain d s where ds: "d < 8" "s < 8" "dst_offset i = reg_offset 8 d" "src_offset i = reg_offset 8 s"
    using assms(1) by (auto simp: exec_ok_def)
  have "exec_read_register ds (reg_offset 8 d) = Some (ds ! d)"
    "exec_read_register ds (reg_offset 8 s) = Some (ds ! s)"
    "exec_write_register ds (reg_offset 8 d) v = Some (ds[d := v])" for v
    using ds assms(2) exec_regs.read_at exec_regs.write_at by simp_all
  moreover have "ds_get ds (int d) = Some (ds ! d)" "ds_get ds (int s) = Some (ds ! s)"
    "ds_set ds (int d) v = Some (ds[d := v])" for v
    using ds assms(2) by (simp_all add: ds_get_def ds_set_def)
  ultimately show "execute_compact_instruction_unchecked ds i = execute_compact_instr i ds"
    and "\<exists>ds'. execute_compact_instr i ds = Some ds' \<and> length ds' = 8"
    using ds assms(2)
    by (cases "opcode i";
        simp add: execute_compact_instruction_unchecked_def execute_compact_instr_def Let_def
          unat_reg_offset_8)+
qed

lemma compact_run:
  assumes "list_all exec_ok is" "length ds = 8"
  shows "\<exists>ds'. foldl_option execute_compact_instr is ds = Some ds' \<and> length ds' = 8"
  using assms
proof (induction "is" arbitrary: ds)
  case (Cons i "is")
  then obtain ds1 where "execute_compact_instr i ds = Some ds1" "length ds1 = 8"
    using unchecked_compact(2) [of i ds] by auto
  then show ?case using Cons by simp
qed simp

text \<open>A list in which every even position carries the handler of its pair.\<close>

fun paired :: "ScExecInstr list \<Rightarrow> bool" where
  "paired (i # j # rest) \<longleftrightarrow>
     pair_handler_offset i = of_nat ((opcode_index (opcode i) * 10 + opcode_index (opcode j)) * 8)
     \<and> paired rest"
| "paired rest \<longleftrightarrow> True"

lemma paired_set_pair_offsets: "paired (set_pair_offsets is)"
  by (induction "is" rule: set_pair_offsets.induct) simp_all

lemma paired_take_drop: "paired xs \<Longrightarrow> paired (take (2 * n) xs) \<and> paired (drop (2 * n) xs)"
proof (induction xs arbitrary: n rule: paired.induct)
  case (1 i j rest)
  then show ?case by (cases n) auto
qed (auto simp: take_Cons' drop_Cons')

lemma pair_step:
  assumes "paired (i # j # rest)" "exec_ok i" "exec_ok j" "length ds = 8"
  shows "execute_compact_pair_unchecked ds i j =
           Option.bind (execute_compact_instr i ds) (execute_compact_instr j)"
proof -
  let ?a = "opcode_index (opcode i)" and ?b = "opcode_index (opcode j)"
  have lt: "?a < 10" "?b < 10" by (simp_all add: opcode_index_lt)
  then have "unat (of_nat ((?a * 10 + ?b) * 8) :: u16) = (?a * 10 + ?b) * 8"
    by (subst unat_of_nat) simp
  then have off: "unat (pair_handler_offset i) = (?a * 10 + ?b) * 8" using assms(1) by simp
  obtain ds1 where ds1: "execute_compact_instr i ds = Some ds1" "length ds1 = 8"
    using unchecked_compact(2) [OF assms(2,4)] by auto
  show ?thesis
    using lt ds1 assms(2-4) PAIR_HANDLERS_nth [OF lt]
    by (simp add: execute_compact_pair_unchecked_def off execute_compact_pair_known_def
          known_unchecked unchecked_compact(1) mult.commute)
qed

lemma pairs_run:
  assumes "paired is" "list_all exec_ok is" "length ds = 8" "even (length is)"
  shows "execute_pairs is ds = foldl_option execute_compact_instr is ds"
  using assms
proof (induction "is" ds rule: execute_pairs.induct)
  case (1 i j rest ds)
  obtain ds1 where ds1: "execute_compact_instr i ds = Some ds1" "length ds1 = 8"
    using unchecked_compact(2) [of i ds] "1.prems" by auto
  obtain ds2 where ds2: "execute_compact_instr j ds1 = Some ds2" "length ds2 = 8"
    using unchecked_compact(2) [of j ds1] "1.prems" ds1 by auto
  have "execute_compact_pair_unchecked ds i j = Some ds2"
    using pair_step [OF "1.prems"(1)] "1.prems" ds1 ds2 by simp
  then show ?case using "1.IH" [of ds2] "1.prems" ds1 ds2 by simp
qed simp_all

lemma chunks_run:
  assumes "paired is" "list_all exec_ok is" "length ds = 8" "n = 2 * k"
  shows "foldl_option execute_pairs (chunks_exact n is) ds =
           foldl_option execute_compact_instr (concat (chunks_exact n is)) ds \<and>
         paired (chunks_rest n is) \<and> list_all exec_ok (chunks_rest n is)"
  using assms
proof (induction n "is" arbitrary: ds rule: chunks_exact.induct)
  case (1 n "is")
  show ?case
  proof (cases "0 < n \<and> n \<le> length is")
    case True
    have ok: "list_all exec_ok (take n is)" "list_all exec_ok (drop n is)"
      using "1.prems"(2) by (auto simp: list_all_iff dest: in_set_takeD in_set_dropD)
    have p: "paired (take n is)" "paired (drop n is)"
      using paired_take_drop [OF "1.prems"(1), of k] "1.prems"(4) by simp_all
    have run: "execute_pairs (take n is) ds = foldl_option execute_compact_instr (take n is) ds"
      using p ok "1.prems"(3,4) True by (intro pairs_run) auto
    obtain ds1 where ds1: "foldl_option execute_compact_instr (take n is) ds = Some ds1" "length ds1 = 8"
      using compact_run [OF ok(1) "1.prems"(3)] by auto
    show ?thesis
      using "1.IH" [OF True p(2) ok(2) ds1(2) "1.prems"(4)] True run ds1
      by (simp add: chunks_exact.simps [of n "is"] chunks_rest.simps [of n "is"] foldl_option_append)
  next
    case False
    then have "chunks_exact n is = []" "chunks_rest n is = is"
      by (auto simp: chunks_exact.simps [of n "is"] chunks_rest.simps [of n "is"])
    then show ?thesis using "1.prems" by simp
  qed
qed

lemma unchecked_run:
  assumes "paired (sp_exec p)" "list_all exec_ok (sp_exec p)" "length ds = 8"
  shows "execute_compact_unchecked p ds = execute_compact p ds"
proof -
  let ?is = "sp_exec p" and ?r = "chunks_rest 32 (sp_exec p)"
  note c32 = chunks_run [OF assms, of 32 16, simplified]
  have split32: "?is = concat (chunks_exact 32 ?is) @ ?r" by (rule concat_chunks_exact [symmetric])
  then have ok: "list_all exec_ok (concat (chunks_exact 32 ?is))"
    using assms(2) by (metis list_all_append)
  obtain ds1 where ds1: "foldl_option execute_compact_instr (concat (chunks_exact 32 ?is)) ds = Some ds1"
    "length ds1 = 8"
    using compact_run [OF ok assms(3)] by auto
  have r: "paired ?r" "list_all exec_ok ?r" using c32 by simp_all
  note c2 = chunks_run [OF r ds1(2), of 2 1, simplified]
  have split2: "?r = concat (chunks_exact 2 ?r) @ chunks_rest 2 ?r"
    by (rule concat_chunks_exact [symmetric])
  then have ok2: "list_all exec_ok (concat (chunks_exact 2 ?r))" using r(2) by (metis list_all_append)
  obtain ds2 where ds2: "foldl_option execute_compact_instr (concat (chunks_exact 2 ?r)) ds1 = Some ds2"
    "length ds2 = 8"
    using compact_run [OF ok2 ds1(2)] by auto
  have "length (chunks_rest 2 ?r) < 2" by (simp add: length_chunks_rest)
  then have last: "(case chunks_rest 2 ?r of [] \<Rightarrow> Some ds2
      | i # _ \<Rightarrow> execute_compact_instruction_unchecked ds2 i) =
      foldl_option execute_compact_instr (chunks_rest 2 ?r) ds2"
    using c2 ds2(2) unchecked_compact [of _ ds2] by (fastforce split: list.split)
  have "foldl_option execute_compact_instr ?r ds1 = foldl_option execute_compact_instr (chunks_rest 2 ?r) ds2"
    using arg_cong [OF split2, of "\<lambda>xs. foldl_option execute_compact_instr xs ds1"] ds2(1)
    by (simp add: foldl_option_append)
  moreover have "foldl_option execute_compact_instr ?is ds = foldl_option execute_compact_instr ?r ds1"
    using arg_cong [OF split32, of "\<lambda>xs. foldl_option execute_compact_instr xs ds"] ds1(1)
    by (simp add: foldl_option_append)
  ultimately have "foldl_option execute_compact_instr ?is ds =
      foldl_option execute_compact_instr (chunks_rest 2 ?r) ds2" by simp
  then show ?thesis
    using c32 c2 ds1 ds2 last by (simp add: execute_compact_unchecked_def execute_compact_def Let_def)
qed

text \<open>Decoding keeps the meaning of a well-formed instruction.\<close>

lemma sc_decode_ok:
  assumes "sc_ok i"
  shows "\<exists>e. sc_decode i = Some e \<and> exec_ok e \<and>
             (\<forall>ds. length ds = 8 \<longrightarrow> execute_compact_instr e ds = execute_reference_instr i ds)"
proof -
  have d: "0 \<le> sc_dst i" "sc_dst i < 8" and src: "sc_src i = - 1 \<or> (0 \<le> sc_src i \<and> sc_src i < 8)"
    and op: "info_op (info i) \<noteq> Sc_INVALID" "info_op (info i) \<noteq> Sc_COUNT"
    using assms by (auto simp: sc_ok_def is_reg_def info_ok_def split: if_splits)
  have rd: "reads_src (info_op (info i)) \<Longrightarrow> 0 \<le> sc_src i \<and> sc_src i < 8"
    using assms by (auto simp: sc_ok_def is_reg_def)
  have "exec_opcode i \<noteq> None" using op by (auto simp: exec_opcode_def split: ScOpcode.splits)
  then obtain o1 imm where o: "exec_opcode i = Some (o1, imm)" by auto
  define e where "e = \<lparr> immediate = imm, pair_handler_offset = 0, dst_offset = reg_offset 8 (nat (sc_dst i)),
      src_offset = reg_offset 8 (if sc_src i < 0 then 0 else nat (sc_src i)), opcode = o1 \<rparr>"
  have z: "reg_offset 8 0 = 0" by (simp add: reg_offset_def)
  have "sc_decode i = Some e"
    using d src o by (auto simp: sc_decode_def e_def reg_offset_int z)
  moreover have "exec_ok e"
    using d src unfolding exec_ok_def e_def
    by (intro exI [of _ "nat (sc_dst i)"] exI [of _ "if sc_src i < 0 then 0 else nat (sc_src i)"]) auto
  moreover have "execute_compact_instr e ds = execute_reference_instr i ds" if "length ds = 8" for ds
  proof -
    have "unat (dst_offset e) div 8 = nat (sc_dst i)" using d by (simp add: e_def unat_reg_offset_8)
    moreover have "reads_src (info_op (info i)) \<Longrightarrow> unat (src_offset e) div 8 = nat (sc_src i)"
    proof -
      assume "reads_src (info_op (info i))"
      then have "nat (sc_src i) < 8" "0 \<le> sc_src i" using rd by auto
      then show "unat (src_offset e) div 8 = nat (sc_src i)" by (simp add: e_def unat_reg_offset_8)
    qed
    moreover have "(ucast (ucast w :: u64) :: u32) = w" for w :: u32
      by (rule bit_word_eqI) (simp add: bit_unsigned_iff)
    ultimately show ?thesis
      using o d rd
      by (auto simp: exec_opcode_def execute_compact_instr_def execute_reference_instr_def e_def
            Let_def reads_src_def split: ScOpcode.splits)
  qed
  ultimately show ?thesis by blast
qed

lemma sc_decode_program:
  assumes "list_all sc_ok prog"
  shows "\<exists>es. map_option_list sc_decode prog = Some es \<and> list_all exec_ok es \<and>
             (\<forall>ds. length ds = 8 \<longrightarrow>
                foldl_option execute_compact_instr es ds = foldl_option execute_reference_instr prog ds)"
  using assms
proof (induction prog)
  case (Cons i prog)
  then obtain es where es: "map_option_list sc_decode prog = Some es" "list_all exec_ok es"
    "\<And>ds. length ds = 8 \<Longrightarrow>
       foldl_option execute_compact_instr es ds = foldl_option execute_reference_instr prog ds"
    by auto
  obtain e where e: "sc_decode i = Some e" "exec_ok e"
    "\<And>ds. length ds = 8 \<Longrightarrow> execute_compact_instr e ds = execute_reference_instr i ds"
    using sc_decode_ok Cons.prems by auto
  have "foldl_option execute_compact_instr (e # es) ds = foldl_option execute_reference_instr (i # prog) ds"
    if "length ds = 8" for ds
    using es(3) e(3) [OF that] unchecked_compact(2) [OF e(2) that] by auto
  then show ?case using es(1,2) e(1,2) by auto
qed simp

lemma set_pair_offsets_same:
  "list_all exec_ok es \<Longrightarrow> list_all exec_ok (set_pair_offsets es)"
  "foldl_option execute_compact_instr (set_pair_offsets es) ds = foldl_option execute_compact_instr es ds"
proof (induction es arbitrary: ds rule: set_pair_offsets.induct)
  case (1 i j rest)
  {
    case 1
    then show ?case using "1.IH"(1) by (simp add: exec_ok_def)
  next
    case 2
    have "execute_compact_instr (i\<lparr> pair_handler_offset := x \<rparr>) = execute_compact_instr i" for x
      by (rule ext) (simp add: execute_compact_instr_def Let_def split: ScExecOpcode.split)
    then show ?case using "1.IH"(2) by simp
  }
qed simp_all

lemma generate_runs:
  assumes "generate hash64 g = Some (p, g')" "length ds = 8"
  shows "\<exists>ds'. execute p ds = Some ds' \<and> execute_compact p ds = Some ds' \<and>
               execute_reference p ds = Some ds' \<and> length ds' = 8 \<and> address_register p ds' \<noteq> None"
proof -
  obtain prog a es where g: "generate_prog hash64 g = Some (prog, a, g')"
    and es: "map_option_list sc_decode prog = Some es"
    and p: "p = \<lparr> sp_prog = prog, sp_exec = set_pair_offsets es, sp_address_reg = a \<rparr>"
    using assms(1) by (auto simp: generate_def bind_eq_Some_conv)
  note ok = generate_prog_ok [OF g]
  have dec: "list_all exec_ok es"
    "foldl_option execute_compact_instr es ds = foldl_option execute_reference_instr prog ds"
    using sc_decode_program [OF ok(1)] es assms(2) by auto
  have exec: "list_all exec_ok (sp_exec p)" "paired (sp_exec p)"
    using set_pair_offsets_same(1) [OF dec(1)] paired_set_pair_offsets by (simp_all add: p)
  obtain ds' where ds': "execute_compact p ds = Some ds'" "length ds' = 8"
    using compact_run [OF exec(1) assms(2)] by (auto simp: execute_compact_def)
  have "execute_reference p ds = execute_compact p ds"
    using dec(2) by (simp add: execute_reference_def execute_compact_def p set_pair_offsets_same(2))
  moreover have "execute p ds = execute_compact p ds"
    using unchecked_run [OF exec(2,1) assms(2)] by (simp add: execute_def)
  moreover have "address_register p ds' \<noteq> None"
    using ok(2) ds'(2) by (simp add: address_register_def p)
  ultimately show ?thesis using ds' by simp
qed

lemma generate_returns:
  assumes "rejection_ends hash64"
  shows "\<exists>p g'. generate hash64 g = Some (p, g') \<and> length (sp_exec p) \<le> SUPERSCALAR_MAX_SIZE"
proof -
  obtain prog a g' where g: "generate_prog hash64 g = Some (prog, a, g')"
    using generate_prog_total [OF assms, of g] by auto
  obtain es where es: "map_option_list sc_decode prog = Some es"
    using sc_decode_program [OF generate_prog_ok(1) [OF g]] by auto
  have "length es = length prog" using es by (induction prog arbitrary: es) (auto simp: bind_eq_Some_conv)
  moreover have "length (set_pair_offsets es) = length es" for es
    by (induction es rule: set_pair_offsets.induct) simp_all
  ultimately show ?thesis
    using generate_prog_ok(3) [OF g] by (simp add: generate_def g es)
qed

text \<open>A hash function with constant output satisfies the hypothesis on the stream.\<close>

definition const_hash :: "u8 list \<Rightarrow> u8 list" where
  "const_hash xs = replicate 64 7"

lemma const_hash_ror: "ror_loop const_hash g \<noteq> None"
proof (induction "65 - gen_index g" arbitrary: g rule: less_induct)
  case less
  show ?case
  proof (cases "gen_index g + 1 > 64")
    case True
    then have "get_byte const_hash g = (7, g\<lparr> gen_data := replicate 64 7, gen_index := 1 \<rparr>)"
      by (simp add: get_byte_def check_data_def const_hash_def Let_def)
    then show ?thesis by (subst ror_loop.simps) simp
  next
    case False
    then have "get_byte const_hash g = (gen_data g ! gen_index g, g\<lparr> gen_index := gen_index g + 1 \<rparr>)"
      by (simp add: get_byte_def check_data_def Let_def)
    moreover have "ror_loop const_hash (g\<lparr> gen_index := gen_index g + 1 \<rparr>) \<noteq> None"
      using False by (intro less) simp
    ultimately show ?thesis by (subst ror_loop.simps) (simp add: Let_def)
  qed
qed

lemma const_hash_rcp: "rcp_loop const_hash g \<noteq> None"
proof (induction "65 - gen_index g" arbitrary: g rule: less_induct)
  case less
  show ?case
  proof (cases "gen_index g + 4 > 64")
    case True
    have "take 4 (replicate 64 (7 :: u8)) = [7, 7, 7, 7]" by (simp add: eval_nat_numeral)
    with True have "get_u32 const_hash g = (0x07070707, g\<lparr> gen_data := replicate 64 7, gen_index := 4 \<rparr>)"
      by (simp add: get_u32_def check_data_def const_hash_def Let_def del: take_replicate)
    then show ?thesis by (subst rcp_loop.simps) (simp add: is_zero_or_power_of_2_u32_def)
  next
    case False
    then have "snd (get_u32 const_hash g) = g\<lparr> gen_index := gen_index g + 4 \<rparr>"
      by (simp add: get_u32_def check_data_def Let_def)
    moreover have "rcp_loop const_hash (g\<lparr> gen_index := gen_index g + 4 \<rparr>) \<noteq> None"
      using False by (intro less) simp
    ultimately show ?thesis by (subst rcp_loop.simps) (simp add: Let_def case_prod_beta)
  qed
qed

lemma const_hash_ends: "rejection_ends const_hash"
  using const_hash_ror const_hash_rcp by (simp add: rejection_ends_def)

section \<open>Properties\<close>

text \<open>C10: For every generated superscalar program and every register file of eight words, the
  unchecked paired interpreter, the checked compact interpreter and the reference interpreter all
  run to completion with the same registers: no unchecked access leaves the register file or the
  handler table, and the address register exists.\<close>

theorem superscalar_execution_agrees:
  assumes "generate hash64 g = Some (p, g')" "length ds = 8"
  shows "\<exists>ds'. execute p ds = Some ds' \<and> execute_compact p ds = Some ds' \<and>
               execute_reference p ds = Some ds' \<and> length ds' = 8 \<and> address_register p ds' \<noteq> None"
  using assms by (rule generate_runs)

theorem superscalar_execution_agrees_witness:
  "\<exists>p g' ds'. generate const_hash (Blake2Generator_new [] 0) = Some (p, g') \<and>
     execute p [0, 1, 2, 3, 4, 5, 6, 7] = Some ds' \<and>
     execute_reference p [0, 1, 2, 3, 4, 5, 6, 7] = Some ds'"
proof -
  obtain p g' where "generate const_hash (Blake2Generator_new [] 0) = Some (p, g')"
    using generate_returns [OF const_hash_ends] by blast
  then show ?thesis
    using superscalar_execution_agrees [of const_hash _ p g' "[0, 1, 2, 3, 4, 5, 6, 7]"] by fastforce
qed



end
