(* ===== verification/Argon2.thy ===== *)
theory Argon2
  imports Prelude
begin

text \<open>
  Model of the crate \<open>argon2\<close>, the fixed Argon2d instance that builds the RandomX cache:
  \<open>block.rs\<close>, \<open>common.rs\<close> and \<open>core.rs\<close>. Memory that is not yet written
  (\<open>MaybeUninit\<close>, the freshly allocated lane) holds \<open>None\<close> words; reading such a word, or
  forming a reference to a block that contains one, is undefined behaviour and makes the operation
  \<open>None\<close>, as does a panic. Blake2b is a parameter: a function of the output length and the
  concatenated input. The theorems show that the fused compression is the compression function of
  Argon2, that the index arithmetic does not wrap and stays in range, and that the whole fill reads
  no uninitialised word and computes the Argon2d recurrence.
\<close>

section \<open>Constants and blocks\<close>

definition SYNC_POINTS :: u32 where "SYNC_POINTS = 4"
definition BLOCK_SIZE :: nat where "BLOCK_SIZE = 1024"
definition QWORDS_IN_BLOCK :: nat where "QWORDS_IN_BLOCK = BLOCK_SIZE div 8"
definition PREHASH_DIGEST_LENGTH :: nat where "PREHASH_DIGEST_LENGTH = 64"
definition PREHASH_SEED_LENGTH :: nat where "PREHASH_SEED_LENGTH = 72"
definition BLAKE2B_OUT_LENGTH :: nat where "BLAKE2B_OUT_LENGTH = 64"

definition RANDOMX_LANE_LENGTH :: u32 where "RANDOMX_LANE_LENGTH = 262144"
definition RANDOMX_SALT :: "u8 list" where "RANDOMX_SALT = [82, 97, 110, 100, 111, 109, 88, 3]"
definition RANDOMX_LANES :: u32 where "RANDOMX_LANES = 1"
definition RANDOMX_HASH_LENGTH :: u32 where "RANDOMX_HASH_LENGTH = 0"
definition RANDOMX_ITERATIONS :: u32 where "RANDOMX_ITERATIONS = 3"
definition ARGON2_VERSION_13 :: u32 where "ARGON2_VERSION_13 = 0x13"
definition ARGON2D :: u32 where "ARGON2D = 0"
definition SEGMENT_LENGTH :: u32 where "SEGMENT_LENGTH = 65536"
definition LANE_MASK :: u32 where "LANE_MASK = RANDOMX_LANE_LENGTH - 1"

type_synonym Block = "u64 list"
type_synonym raw_block = "u64 option list"

definition Block_zero :: Block where
  "Block_zero = replicate QWORDS_IN_BLOCK 0"

definition as_u8 :: "Block \<Rightarrow> u8 list" where
  "as_u8 blk = concat (map (to_le_bytes 8) blk)"

text \<open>The block after its bytes were overwritten through \<open>as_u8_mut\<close>.\<close>

definition block_of_u8 :: "u8 list \<Rightarrow> Block" where
  "block_of_u8 bytes = map from_le_bytes (chunks_exact 8 bytes)"

section \<open>Hashing\<close>

text \<open>\<open>Params::hash_length\<close> panics unless the length is between 1 and 64, \<open>copy_from_slice\<close>
  unless the digest has the length of the destination.\<close>

definition blake2b :: "(nat \<Rightarrow> u8 list \<Rightarrow> u8 list) \<Rightarrow> nat \<Rightarrow> u8 list list \<Rightarrow> u8 list option" where
  "blake2b hash out_len input =
     (if 1 \<le> out_len \<and> out_len \<le> BLAKE2B_OUT_LENGTH
      then let digest = hash out_len (concat input)
           in if length digest = out_len then Some digest else None
      else None)"

definition initial_hash :: "(nat \<Rightarrow> u8 list \<Rightarrow> u8 list) \<Rightarrow> u8 list \<Rightarrow> u8 list option" where
  "initial_hash hash key =
     do { digest \<leftarrow> blake2b hash PREHASH_DIGEST_LENGTH
            (map (to_le_bytes 4)
               [RANDOMX_LANES, RANDOMX_HASH_LENGTH, RANDOMX_LANE_LENGTH, RANDOMX_ITERATIONS,
                ARGON2_VERSION_13, ARGON2D]
             @ [to_le_bytes 4 (of_nat (length key) :: u32), key,
                to_le_bytes 4 (of_nat (length RANDOMX_SALT) :: u32), RANDOMX_SALT,
                to_le_bytes 4 (0 :: u32), to_le_bytes 4 (0 :: u32)]);
          Some (digest @ replicate (PREHASH_SEED_LENGTH - PREHASH_DIGEST_LENGTH) 0) }"

text \<open>The loop of \<open>hprime\<close>, returning the bytes it appends to \<open>out\<close>.\<close>

function hprime_loop :: "(nat \<Rightarrow> u8 list \<Rightarrow> u8 list) \<Rightarrow> u8 list \<Rightarrow> nat \<Rightarrow> u8 list option" where
  "hprime_loop hash out_buffer to_produce =
     (if to_produce > BLAKE2B_OUT_LENGTH
      then do { out_buffer \<leftarrow> blake2b hash BLAKE2B_OUT_LENGTH [out_buffer];
                rest \<leftarrow> hprime_loop hash out_buffer (to_produce - 32);
                Some (take 32 out_buffer @ rest) }
      else blake2b hash to_produce [out_buffer])"
  by pat_completeness auto
termination
  by (relation "measure (\<lambda>(hash, out_buffer, to_produce). to_produce)")
     (auto simp: BLAKE2B_OUT_LENGTH_def)

declare hprime_loop.simps [simp del]

definition hprime :: "(nat \<Rightarrow> u8 list \<Rightarrow> u8 list) \<Rightarrow> nat \<Rightarrow> u8 list \<Rightarrow> u8 list option" where
  "hprime hash out_len input =
     (let prefix = to_le_bytes 4 (of_nat out_len :: u32) in
      if out_len \<le> BLAKE2B_OUT_LENGTH then blake2b hash out_len [prefix, input]
      else do { out_buffer \<leftarrow> blake2b hash BLAKE2B_OUT_LENGTH [prefix, input];
                rest \<leftarrow> hprime_loop hash out_buffer (out_len - 32);
                Some (take 32 out_buffer @ rest) })"

section \<open>The permutation\<close>

definition f_bla_mka :: "u64 \<Rightarrow> u64 \<Rightarrow> u64" where
  "f_bla_mka x y =
     (let m = 0xFFFFFFFF; xy = (x AND m) * (y AND m) in x + (y + (xy + xy)))"

definition rotr64 :: "u64 \<Rightarrow> nat \<Rightarrow> u64" where
  "rotr64 w c = word_rotr c w"

definition argon_g :: "u64 \<times> u64 \<times> u64 \<times> u64 \<Rightarrow> u64 \<times> u64 \<times> u64 \<times> u64" where
  "argon_g = (\<lambda>(a, b, c, d).
     let a = f_bla_mka a b;
         d = rotr64 (d XOR a) 32;
         c = f_bla_mka c d;
         b = rotr64 (b XOR c) 24;
         a = f_bla_mka a b;
         d = rotr64 (d XOR a) 16;
         c = f_bla_mka c d;
         b = rotr64 (b XOR c) 63
     in (a, b, c, d))"

text \<open>The call \<open>g(v_i, v_j, v_k, v_l)\<close> on four of the sixteen variables of \<open>p\<close>.\<close>

definition g_on :: "nat \<Rightarrow> nat \<Rightarrow> nat \<Rightarrow> nat \<Rightarrow> u64 list \<Rightarrow> u64 list" where
  "g_on i j k l v =
     (let (a, b, c, d) = argon_g (v ! i, v ! j, v ! k, v ! l) in v[i := a, j := b, k := c, l := d])"

definition argon_p :: "u64 list \<Rightarrow> u64 list" where
  "argon_p v =
     (let v = g_on 0 4 8 12 v;
          v = g_on 1 5 9 13 v;
          v = g_on 2 6 10 14 v;
          v = g_on 3 7 11 15 v;
          v = g_on 0 5 10 15 v;
          v = g_on 1 6 11 12 v;
          v = g_on 2 7 8 13 v
      in g_on 3 4 9 14 v)"

section \<open>The fused compression\<close>

text \<open>Sequences of stores through a raw pointer: \<open>write\<close>, and \<open>^=\<close>, which also reads.\<close>

definition poke :: "nat \<times> u64 \<Rightarrow> raw_block \<Rightarrow> raw_block option" where
  "poke = (\<lambda>(i, v) ws. if i < length ws then Some (ws[i := Some v]) else None)"

definition poke_xor :: "nat \<times> u64 \<Rightarrow> raw_block \<Rightarrow> raw_block option" where
  "poke_xor = (\<lambda>(i, v) ws.
     if i < length ws
     then case ws ! i of None \<Rightarrow> None | Some old \<Rightarrow> Some (ws[i := Some (old XOR v)])
     else None)"

definition column_words :: "nat \<Rightarrow> nat list" where
  "column_words i = map (\<lambda>k. 16 * i + k) [0..<16]"

definition row_words :: "nat \<Rightarrow> nat list" where
  "row_words i =
     [2 * i, 2 * i + 1, 2 * i + 16, 2 * i + 17, 2 * i + 32, 2 * i + 33, 2 * i + 48, 2 * i + 49,
      2 * i + 64, 2 * i + 65, 2 * i + 80, 2 * i + 81, 2 * i + 96, 2 * i + 97, 2 * i + 112,
      2 * i + 113]"

definition fill_column ::
  "bool \<Rightarrow> Block \<Rightarrow> Block \<Rightarrow> nat \<Rightarrow> raw_block \<times> raw_block \<Rightarrow> (raw_block \<times> raw_block) option" where
  "fill_column with_xor prev_block ref_block i = (\<lambda>(next_words, block_r_words).
     let v = map (\<lambda>j. ref_block ! j XOR prev_block ! j) (column_words i)
     in do { next_words \<leftarrow> foldl_option (if with_xor then poke_xor else poke)
               (zip (column_words i) v) next_words;
             block_r_words \<leftarrow> foldl_option poke (zip (column_words i) (argon_p v)) block_r_words;
             Some (next_words, block_r_words) })"

definition assume_init :: "raw_block \<Rightarrow> nat \<Rightarrow> u64 option" where
  "assume_init ws j = (if j < length ws then ws ! j else None)"

definition fill_row :: "raw_block \<Rightarrow> nat \<Rightarrow> raw_block \<Rightarrow> raw_block option" where
  "fill_row block_r_words i next_words =
     do { v \<leftarrow> map_option_list (assume_init block_r_words) (row_words i);
          foldl_option poke_xor (zip (row_words i) (argon_p v)) next_words }"

definition fill_block_raw :: "bool \<Rightarrow> Block \<Rightarrow> Block \<Rightarrow> raw_block \<Rightarrow> raw_block option" where
  "fill_block_raw with_xor prev_block ref_block next_words =
     do { (next_words, block_r_words) \<leftarrow>
            foldl_option (fill_column with_xor prev_block ref_block) [0..<8]
              (next_words, replicate QWORDS_IN_BLOCK None);
          foldl_option (fill_row block_r_words) [0..<8] next_words }"

section \<open>Filling the lane\<close>

definition block_ref :: "raw_block list \<Rightarrow> nat \<Rightarrow> Block option" where
  "block_ref blocks i =
     (if i < length blocks then map_option_list (\<lambda>w. w) (blocks ! i) else None)"

definition reference_area_size :: "bool \<Rightarrow> u32 \<Rightarrow> u32 \<Rightarrow> u64" where
  "reference_area_size first_pass curr_offset index_in_segment =
     ucast (if first_pass then curr_offset - 1
            else RANDOMX_LANE_LENGTH - SEGMENT_LENGTH + index_in_segment - 1)"

definition reference_offset :: "bool \<Rightarrow> u32 \<Rightarrow> u32 \<Rightarrow> u64 \<Rightarrow> u64" where
  "reference_offset first_pass SLICE curr_offset pseudo_rand =
     (let index_in_segment = curr_offset - SLICE * SEGMENT_LENGTH;
          area = reference_area_size first_pass curr_offset index_in_segment;
          relative_position = pseudo_rand AND 0xFFFFFFFF;
          relative_position = drop_bit 32 (relative_position * relative_position);
          relative_position = area - 1 - drop_bit 32 (area * relative_position);
          start_position = (if first_pass \<or> SLICE = SYNC_POINTS - 1 then 0
                            else ucast ((SLICE + 1) * SEGMENT_LENGTH));
          absolute_position = start_position + relative_position
      in if first_pass \<or> SLICE = SYNC_POINTS - 1 then absolute_position
         else absolute_position AND ucast LANE_MASK)"

definition segment_step ::
  "bool \<Rightarrow> bool \<Rightarrow> u32 \<Rightarrow> u32 \<Rightarrow> u32 \<times> raw_block list \<Rightarrow> (u32 \<times> raw_block list) option" where
  "segment_step first_pass with_xor SLICE curr_offset = (\<lambda>(prev_offset, blocks).
     do { prev_block \<leftarrow> block_ref blocks (unat prev_offset);
          let ref_offset = unat (reference_offset first_pass SLICE curr_offset (prev_block ! 0));
          ref_block \<leftarrow> block_ref blocks ref_offset;
          next \<leftarrow> (if unat curr_offset < length blocks
                  then fill_block_raw with_xor prev_block ref_block (blocks ! unat curr_offset)
                  else None);
          Some (curr_offset, blocks[unat curr_offset := next]) })"

definition fill_memory_blocks_randomx_segment ::
  "bool \<Rightarrow> bool \<Rightarrow> u32 \<Rightarrow> raw_block list \<Rightarrow> raw_block list option" where
  "fill_memory_blocks_randomx_segment first_pass with_xor SLICE blocks =
     (let starting_index = (if first_pass \<and> SLICE = 0 then 2 else 0);
          segment_start = SLICE * SEGMENT_LENGTH;
          segment_end = segment_start + SEGMENT_LENGTH;
          first_offset = segment_start + starting_index;
          prev_offset = (first_offset - 1) AND LANE_MASK
      in map_option snd
           (foldl_option (segment_step first_pass with_xor SLICE)
              (map of_nat [unat first_offset..<unat segment_end]) (prev_offset, blocks)))"

definition fill_memory_blocks_randomx_pass ::
  "bool \<Rightarrow> bool \<Rightarrow> raw_block list \<Rightarrow> raw_block list option" where
  "fill_memory_blocks_randomx_pass first_pass with_xor blocks =
     do { blocks \<leftarrow> fill_memory_blocks_randomx_segment first_pass with_xor 0 blocks;
          blocks \<leftarrow> fill_memory_blocks_randomx_segment first_pass with_xor 1 blocks;
          blocks \<leftarrow> fill_memory_blocks_randomx_segment first_pass with_xor 2 blocks;
          fill_memory_blocks_randomx_segment first_pass with_xor 3 blocks }"

text \<open>One iteration of the loop that writes the first two blocks.\<close>

definition initial_block ::
  "(nat \<Rightarrow> u8 list \<Rightarrow> u8 list) \<Rightarrow> u8 list \<Rightarrow> nat \<Rightarrow> Block option" where
  "initial_block hash seed block_index =
     do { let seed = take PREHASH_DIGEST_LENGTH seed
            @ to_le_bytes 4 (of_nat block_index :: u32) @ to_le_bytes 4 (0 :: u32);
          bytes \<leftarrow> hprime hash BLOCK_SIZE seed;
          Some (block_of_u8 bytes) }"

definition initialize_randomx ::
  "(nat \<Rightarrow> u8 list \<Rightarrow> u8 list) \<Rightarrow> u8 list \<Rightarrow> Block list option" where
  "initialize_randomx hash key =
     do { let blocks = replicate (unat RANDOMX_LANE_LENGTH) (replicate QWORDS_IN_BLOCK None);
          seed \<leftarrow> initial_hash hash key;
          block0 \<leftarrow> initial_block hash seed 0;
          let blocks = blocks[0 := map Some block0];
          block1 \<leftarrow> initial_block hash seed 1;
          let blocks = blocks[1 := map Some block1];
          blocks \<leftarrow> fill_memory_blocks_randomx_pass True False blocks;
          initialized \<leftarrow> map_option_list (map_option_list (\<lambda>w. w)) blocks;
          let blocks = map (map Some) initialized;
          blocks \<leftarrow> fill_memory_blocks_randomx_pass False True blocks;
          blocks \<leftarrow> fill_memory_blocks_randomx_pass False True blocks;
          map_option_list (map_option_list (\<lambda>w. w)) blocks }"

section \<open>The compression function of Argon2\<close>

text \<open>The specification, RFC 9106 section 3.5: a block is an eight by eight matrix of 16-byte
  registers, two words each; the permutation is applied to each row of registers (the words
  \<open>16 i .. 16 i + 15\<close>), then to each column of registers, and the input is added.\<close>

definition P_columns :: "Block \<Rightarrow> Block" where
  "P_columns R = map (\<lambda>j. argon_p (map ((!) R) (column_words (j div 16))) ! (j mod 16)) [0..<128]"

definition P_rows :: "Block \<Rightarrow> Block" where
  "P_rows Q =
     map (\<lambda>j. argon_p (map ((!) Q) (row_words (j mod 16 div 2))) ! (2 * (j div 16) + j mod 2)) [0..<128]"

definition xor_block :: "Block \<Rightarrow> Block \<Rightarrow> Block" where
  "xor_block X Y = map2 (XOR) X Y"

definition compress :: "Block \<Rightarrow> Block \<Rightarrow> Block" where
  "compress X Y = (let R = xor_block X Y in xor_block (P_rows (P_columns R)) R)"

lemma length_P [simp]: "length (P_columns R) = 128" "length (P_rows Q) = 128"
  by (simp_all add: P_columns_def P_rows_def)

lemma length_xor_block [simp]: "length (xor_block X Y) = min (length X) (length Y)"
  by (simp add: xor_block_def)

lemma nth_xor_block: "j < length X \<Longrightarrow> j < length Y \<Longrightarrow> xor_block X Y ! j = X ! j XOR Y ! j"
  by (simp add: xor_block_def)

lemma length_compress [simp]:
  "length X = 128 \<Longrightarrow> length Y = 128 \<Longrightarrow> length (compress X Y) = 128"
  by (simp add: compress_def Let_def)

subsection \<open>Index maps\<close>

lemma nth_column_words: "k < 16 \<Longrightarrow> column_words i ! k = 16 * i + k"
  by (simp add: column_words_def)

lemma column_words_facts:
  "length (column_words i) = 16" "distinct (column_words i)"
  "j \<in> set (column_words i) \<longleftrightarrow> j div 16 = i"
proof -
  show "j \<in> set (column_words i) \<longleftrightarrow> j div 16 = i"
  proof
    assume "j div 16 = i"
    then have "j = 16 * i + j mod 16" "j mod 16 < 16" using mult_div_mod_eq [of 16 j] by simp_all
    then show "j \<in> set (column_words i)" unfolding column_words_def by auto
  qed (auto simp: column_words_def)
qed (simp_all add: column_words_def distinct_map inj_on_def)

lemma row_words_eq: "row_words i = map (\<lambda>k. 2 * i + 16 * (k div 2) + k mod 2) [0..<16]"
  by (simp add: row_words_def upt_rec)

lemma nth_row_words: "k < 16 \<Longrightarrow> row_words i ! k = 2 * i + 16 * (k div 2) + k mod 2"
  by (simp add: row_words_eq)

lemma row_words_length [simp]: "length (row_words i) = 16"
  by (simp add: row_words_eq)

lemma row_words_distinct: "distinct (row_words i)"
  by (simp add: row_words_def)

text \<open>A word index by its register row, register column and half.\<close>

lemma word_index_split:
  "16 * (j div 16) + 2 * (j mod 16 div 2) + j mod 2 = j" for j :: nat
proof -
  have "j mod 16 mod 2 = j mod 2" by (rule mod_mod_cancel) simp
  then have "2 * (j mod 16 div 2) + j mod 2 = j mod 16"
    using mult_div_mod_eq [of 2 "j mod 16"] by simp
  then show ?thesis using mult_div_mod_eq [of 16 j] by linarith
qed

lemma word_index_parts:
  assumes "i < 8" "c < 2"
  shows "(2 * i + 16 * a + c) mod 16 div 2 = (i :: nat)"
proof -
  have "2 * i + c < 16" using assms by linarith
  moreover have "2 * i + 16 * a + c = a * 16 + (2 * i + c)" by simp
  ultimately have "(2 * i + 16 * a + c) mod 16 = i * 2 + c"
    by (metis div_mod_unique(2) mult.commute)
  then show ?thesis using div_mod_unique(1) [OF assms(2)] by simp
qed

lemma word_index_position:
  assumes "j < (128 :: nat)"
  shows "2 * (j div 16) + j mod 2 < 16"
proof -
  have "j div 16 < 8" "j mod 2 < 2" using assms by (simp_all add: div_less_iff_less_mult)
  then show ?thesis by linarith
qed

lemma row_words_at:
  assumes "j < 128"
  shows "row_words (j mod 16 div 2) ! (2 * (j div 16) + j mod 2) = j"
proof -
  have "(2 * (j div 16) + j mod 2) div 2 = j div 16" "(2 * (j div 16) + j mod 2) mod 2 = j mod 2"
    by simp_all
  then show ?thesis
    using word_index_split [of j] by (simp add: nth_row_words [OF word_index_position [OF assms]])
qed

lemma row_words_position:
  assumes "j < 128" "i < 8"
  shows "j \<in> set (row_words i) \<longleftrightarrow> j mod 16 div 2 = i"
proof
  assume "j mod 16 div 2 = i"
  then show "j \<in> set (row_words i)"
    using row_words_at [OF assms(1)] word_index_position [OF assms(1)] nth_mem row_words_length
    by metis
next
  assume "j \<in> set (row_words i)"
  then obtain k where "j = 2 * i + 16 * (k div 2) + k mod 2"
    by (auto simp: row_words_eq)
  then show "j mod 16 div 2 = i" using word_index_parts [OF assms(2), of "k mod 2"] by simp
qed

lemma row_words_bounds: "i < 8 \<Longrightarrow> j \<in> set (row_words i) \<Longrightarrow> j < 128"
  by (auto simp: row_words_def)

subsection \<open>Sequences of stores\<close>

lemma store_all:
  assumes f: "\<And>i v ws w. i < length ws \<Longrightarrow> h (ws ! i) v = Some w \<Longrightarrow> f (i, v) ws = Some (ws[i := Some w])"
    and "distinct ixs" "length vs = length ixs" "\<forall>j \<in> set ixs. j < length ws"
    and "\<forall>k < length ixs. h (ws ! (ixs ! k)) (vs ! k) = Some (r k)"
  shows "\<exists>ws'. foldl_option f (zip ixs vs) ws = Some ws' \<and> length ws' = length ws \<and>
    (\<forall>k < length ixs. ws' ! (ixs ! k) = Some (r k)) \<and> (\<forall>j. j \<notin> set ixs \<longrightarrow> ws' ! j = ws ! j)"
  using assms(2-)
proof (induction ixs arbitrary: vs ws r)
  case (Cons i ixs)
  then obtain v vs' where vs: "vs = v # vs'" by (cases vs) auto
  have f1: "f (i, v) ws = Some (ws[i := Some (r 0)])"
    using Cons.prems vs by (intro f) force+
  have "ws[i := Some (r 0)] ! (ixs ! k) = ws ! (ixs ! k)" if "k < length ixs" for k
    using Cons.prems(1) that nth_mem [of k ixs] by (intro nth_list_update_neq) auto
  then obtain ws' where ws': "foldl_option f (zip ixs vs') (ws[i := Some (r 0)]) = Some ws'"
      "length ws' = length ws" "\<forall>k < length ixs. ws' ! (ixs ! k) = Some (r (Suc k))"
      "\<forall>j. j \<notin> set ixs \<longrightarrow> ws' ! j = ws[i := Some (r 0)] ! j"
    using Cons.IH [of vs' "ws[i := Some (r 0)]" "\<lambda>k. r (Suc k)"] Cons.prems vs by force
  have "ws' ! i = Some (r 0)" using ws'(4) Cons.prems(1,3) by simp
  then have "\<forall>k < length (i # ixs). ws' ! ((i # ixs) ! k) = Some (r k)"
    using ws'(3) by (auto simp: nth_Cons split: nat.splits)
  then show ?case using f1 vs ws' by auto
qed auto

lemma poke_all:
  assumes "distinct ixs" "length vs = length ixs" "\<forall>j \<in> set ixs. j < length ws"
  shows "\<exists>ws'. foldl_option poke (zip ixs vs) ws = Some ws' \<and> length ws' = length ws \<and>
    (\<forall>k < length ixs. ws' ! (ixs ! k) = Some (vs ! k)) \<and> (\<forall>j. j \<notin> set ixs \<longrightarrow> ws' ! j = ws ! j)"
  by (rule store_all [where h = "\<lambda>old v. Some v"]) (use assms in \<open>auto simp: poke_def\<close>)

lemma poke_xor_all:
  assumes "distinct ixs" "length vs = length ixs" "\<forall>j \<in> set ixs. j < length ws \<and> ws ! j = Some (q j)"
  shows "\<exists>ws'. foldl_option poke_xor (zip ixs vs) ws = Some ws' \<and> length ws' = length ws \<and>
    (\<forall>k < length ixs. ws' ! (ixs ! k) = Some (q (ixs ! k) XOR vs ! k)) \<and>
    (\<forall>j. j \<notin> set ixs \<longrightarrow> ws' ! j = ws ! j)"
  by (rule store_all [where h = "\<lambda>old v. map_option (\<lambda>x. x XOR v) old"])
     (use assms in \<open>auto simp: poke_xor_def\<close>)

subsection \<open>The fused loops\<close>

lemma length_argon_p [simp]: "length (argon_p v) = length v"
  by (simp add: argon_p_def g_on_def Let_def case_prod_beta)

lemma fill_column_step:
  assumes "n < 8" "length prev = 128" "length ref = 128"
    and nx: "length nx = 128" "\<And>j. j < 128 \<Longrightarrow> wx \<Longrightarrow> nx ! j = Some (q j)"
    and sc: "length sc = 128"
  shows "\<exists>nx' sc'. fill_column wx prev ref n (nx, sc) = Some (nx', sc') \<and>
    length nx' = 128 \<and> length sc' = 128 \<and>
    (\<forall>j < 128. j div 16 = n \<longrightarrow>
       nx' ! j = Some ((if wx then q j else 0) XOR xor_block ref prev ! j) \<and>
       sc' ! j = Some (P_columns (xor_block ref prev) ! j)) \<and>
    (\<forall>j < 128. j div 16 \<noteq> n \<longrightarrow> nx' ! j = nx ! j \<and> sc' ! j = sc ! j)"
proof -
  let ?R = "xor_block ref prev" and ?cw = "column_words n"
  define v where "v = map (\<lambda>j. ref ! j XOR prev ! j) ?cw"
  have bound: "j < 128" if "j \<in> set ?cw" for j
    using that assms(1) by (simp add: column_words_facts(3))
  have v: "v = map ((!) ?R) ?cw"
    unfolding v_def by (rule map_cong) (use assms bound in \<open>simp_all add: nth_xor_block\<close>)
  have len: "length v = 16" by (simp add: v_def column_words_facts)
  have at: "j mod 16 < 16" "?cw ! (j mod 16) = j" if "j div 16 = n" for j
    using that mult_div_mod_eq [of 16 j] by (simp_all add: nth_column_words)
  obtain nx' where nx': "foldl_option (if wx then poke_xor else poke) (zip ?cw v) nx = Some nx'"
      "length nx' = 128" "\<forall>j. j \<notin> set ?cw \<longrightarrow> nx' ! j = nx ! j"
      "\<forall>k < 16. nx' ! (?cw ! k) = Some ((if wx then q (?cw ! k) else 0) XOR v ! k)"
  proof (cases wx)
    case True
    then show ?thesis
      using that poke_xor_all [of ?cw v nx q] nx bound len by (auto simp: column_words_facts)
  next
    case False
    then show ?thesis
      using that poke_all [of ?cw v nx] nx bound len by (auto simp: column_words_facts)
  qed
  obtain sc' where sc': "foldl_option poke (zip ?cw (argon_p v)) sc = Some sc'"
      "length sc' = 128" "\<forall>j. j \<notin> set ?cw \<longrightarrow> sc' ! j = sc ! j"
      "\<forall>k < 16. sc' ! (?cw ! k) = Some (argon_p v ! k)"
    using poke_all [of ?cw "argon_p v" sc] sc bound len by (auto simp: column_words_facts)
  have "nx' ! j = Some ((if wx then q j else 0) XOR ?R ! j) \<and> sc' ! j = Some (P_columns ?R ! j)"
    if "j < 128" "j div 16 = n" for j
  proof -
    have "v ! (j mod 16) = ?R ! j" using at that(2) by (simp add: v column_words_facts)
    moreover have "P_columns ?R ! j = argon_p v ! (j mod 16)"
      using that by (simp add: P_columns_def v)
    ultimately show ?thesis
      using nx'(4) [rule_format, of "j mod 16"] sc'(4) [rule_format, of "j mod 16"] at [OF that(2)]
      by simp
  qed
  then show ?thesis
    using nx' sc' by (auto simp: fill_column_def v_def [symmetric] column_words_facts Let_def)
qed

lemma fill_columns:
  assumes "length prev = 128" "length ref = 128" "length nx = 128"
    and init: "\<And>j. j < 128 \<Longrightarrow> wx \<Longrightarrow> nx ! j = Some (q j)"
  shows "\<exists>nx' sc'. foldl_option (fill_column wx prev ref) [0..<8] (nx, replicate QWORDS_IN_BLOCK None) =
      Some (nx', sc') \<and> length nx' = 128 \<and> length sc' = 128 \<and>
    (\<forall>j < 128. nx' ! j = Some ((if wx then q j else 0) XOR xor_block ref prev ! j) \<and>
                sc' ! j = Some (P_columns (xor_block ref prev) ! j))"
proof -
  let ?P = "\<lambda>n (nx', sc'). length nx' = 128 \<and> length sc' = 128 \<and>
    (\<forall>j < 128. j div 16 < n \<longrightarrow> nx' ! j = Some ((if wx then q j else 0) XOR xor_block ref prev ! j) \<and>
                sc' ! j = Some (P_columns (xor_block ref prev) ! j)) \<and>
    (\<forall>j < 128. \<not> j div 16 < n \<longrightarrow> nx' ! j = nx ! j)"
  have "\<exists>s'. foldl_option (fill_column wx prev ref) [0..<8] (nx, replicate QWORDS_IN_BLOCK None) = Some s'
             \<and> ?P 8 s'"
  proof (rule foldl_option_upt)
    show "?P 0 (nx, replicate QWORDS_IN_BLOCK None)"
      using assms by (simp add: QWORDS_IN_BLOCK_def BLOCK_SIZE_def)
  next
    fix n and s :: "raw_block \<times> raw_block"
    assume n: "n < 8" and P: "?P n s"
    obtain nx1 sc1 where s: "s = (nx1, sc1)" by (rule prod.exhaust)
    define q' where "q' = (\<lambda>j. the (nx1 ! j))"
    have q': "nx1 ! j = Some (q' j)" if "j < 128" wx for j
      using P that init [of j] by (cases "j div 16 < n") (auto simp: s q'_def)
    obtain nx2 sc2 where step: "fill_column wx prev ref n (nx1, sc1) = Some (nx2, sc2)"
      "length nx2 = 128" "length sc2 = 128"
      "\<And>j. j < 128 \<Longrightarrow> j div 16 = n \<Longrightarrow>
         nx2 ! j = Some ((if wx then q' j else 0) XOR xor_block ref prev ! j) \<and>
         sc2 ! j = Some (P_columns (xor_block ref prev) ! j)"
      "\<And>j. j < 128 \<Longrightarrow> j div 16 \<noteq> n \<Longrightarrow> nx2 ! j = nx1 ! j \<and> sc2 ! j = sc1 ! j"
      using fill_column_step [where wx = wx and nx = nx1 and sc = sc1 and q = q', OF n assms(1,2) _ q'] P s
      by auto
    have "(if wx then q' j else 0) = (if wx then q j else 0)" if "j < 128" "j div 16 = n" for j
      using P that init [of j] by (simp add: s q'_def)
    then have "?P (Suc n) (nx2, sc2)"
      using P step(2-) by (auto simp: s less_Suc_eq)
    then show "\<exists>s'. fill_column wx prev ref n s = Some s' \<and> ?P (Suc n) s'"
      using step(1) s by blast
  qed simp
  then obtain nx' sc' where run: "foldl_option (fill_column wx prev ref) [0..<8]
      (nx, replicate QWORDS_IN_BLOCK None) = Some (nx', sc')" and P: "?P 8 (nx', sc')" by auto
  have "j div 16 < 8" if "j < 128" for j :: nat using that by (simp add: div_less_iff_less_mult)
  with run P show ?thesis by auto
qed

lemma fill_row_step:
  assumes "n < 8" "length sc = 128" "\<And>j. j < 128 \<Longrightarrow> sc ! j = Some (Q ! j)"
    and "length nx = 128" "\<And>j. j < 128 \<Longrightarrow> nx ! j = Some (q j)"
  shows "\<exists>nx'. fill_row sc n nx = Some nx' \<and> length nx' = 128 \<and>
    (\<forall>j < 128. nx' ! j = Some (if j mod 16 div 2 = n then q j XOR P_rows Q ! j else q j))"
proof -
  let ?rw = "row_words n"
  define v where "v = map ((!) Q) ?rw"
  have bound: "j < 128" if "j \<in> set ?rw" for j using row_words_bounds assms(1) that by blast
  have read: "map_option_list (assume_init sc) ?rw = Some v"
    unfolding v_def by (rule map_option_list_eqI) (use assms bound in \<open>simp add: assume_init_def\<close>)
  obtain nx' where nx': "foldl_option poke_xor (zip ?rw (argon_p v)) nx = Some nx'"
      "length nx' = 128" "\<forall>k < 16. nx' ! (?rw ! k) = Some (q (?rw ! k) XOR argon_p v ! k)"
      "\<forall>j. j \<notin> set ?rw \<longrightarrow> nx' ! j = nx ! j"
    using poke_xor_all [of ?rw "argon_p v" nx q] bound assms(4,5) row_words_distinct
    by (auto simp: v_def)
  have "nx' ! j = Some (if j mod 16 div 2 = n then q j XOR P_rows Q ! j else q j)" if j: "j < 128" for j
  proof (cases "j mod 16 div 2 = n")
    case True
    then have "P_rows Q ! j = argon_p v ! (2 * (j div 16) + j mod 2)"
      using j by (simp add: P_rows_def v_def)
    then show ?thesis
      using nx'(3) [rule_format, OF word_index_position [OF j]] row_words_at [OF j] True by simp
  next
    case False
    then show ?thesis using nx'(4) row_words_position [OF j assms(1)] assms(5) j by simp
  qed
  then show ?thesis using read nx' by (simp add: fill_row_def)
qed

lemma fill_rows:
  assumes "length sc = 128" "\<And>j. j < 128 \<Longrightarrow> sc ! j = Some (Q ! j)"
    and "length nx = 128" "\<And>j. j < 128 \<Longrightarrow> nx ! j = Some (q j)"
  shows "\<exists>nx'. foldl_option (fill_row sc) [0..<8] nx = Some nx' \<and> length nx' = 128 \<and>
    (\<forall>j < 128. nx' ! j = Some (q j XOR P_rows Q ! j))"
proof -
  let ?P = "\<lambda>n nx'. length nx' = 128 \<and>
    (\<forall>j < 128. nx' ! j = Some (if j mod 16 div 2 < n then q j XOR P_rows Q ! j else q j))"
  have "\<exists>s'. foldl_option (fill_row sc) [0..<8] nx = Some s' \<and> ?P 8 s'"
  proof (rule foldl_option_upt)
    fix n and s :: raw_block
    assume n: "n < 8" and P: "?P n s"
    show "\<exists>s'. fill_row sc n s = Some s' \<and> ?P (Suc n) s'"
      using fill_row_step [OF n assms(1,2), of s "\<lambda>j. if j mod 16 div 2 < n then q j XOR P_rows Q ! j else q j"] P
      by (auto simp: less_Suc_eq)
  qed (use assms in simp_all)
  moreover have "j mod 16 div 2 < 8" for j :: nat by (simp add: div_less_iff_less_mult)
  ultimately show ?thesis by auto
qed

lemma fill_block_raw_eq:
  assumes "length prev = 128" "length ref = 128" "length nx = 128"
    and init: "\<And>j. j < 128 \<Longrightarrow> wx \<Longrightarrow> nx ! j = Some (old ! j)"
  shows "fill_block_raw wx prev ref nx =
    Some (map (\<lambda>j. Some ((if wx then old ! j else 0) XOR compress ref prev ! j)) [0..<128])"
proof -
  let ?R = "xor_block ref prev"
  obtain nx1 sc1 where 1: "foldl_option (fill_column wx prev ref) [0..<8]
      (nx, replicate QWORDS_IN_BLOCK None) = Some (nx1, sc1)" "length nx1 = 128" "length sc1 = 128"
    "\<And>j. j < 128 \<Longrightarrow> nx1 ! j = Some ((if wx then old ! j else 0) XOR ?R ! j)"
    "\<And>j. j < 128 \<Longrightarrow> sc1 ! j = Some (P_columns ?R ! j)"
    using fill_columns [OF assms] by blast
  obtain nx2 where 2: "foldl_option (fill_row sc1) [0..<8] nx1 = Some nx2" "length nx2 = 128"
    "\<And>j. j < 128 \<Longrightarrow> nx2 ! j = Some (((if wx then old ! j else 0) XOR ?R ! j) XOR P_rows (P_columns ?R) ! j)"
    using fill_rows [OF 1(3,5,2,4)] by blast
  have "compress ref prev ! j = P_rows (P_columns ?R) ! j XOR ?R ! j" if "j < 128" for j
    using that assms by (simp add: compress_def Let_def nth_xor_block)
  then have "nx2 = map (\<lambda>j. Some ((if wx then old ! j else 0) XOR compress ref prev ! j)) [0..<128]"
    using 2(2,3) by (intro nth_equalityI) (simp_all add: xor.assoc xor.commute xor.left_commute)
  then show ?thesis using 1(1) 2(1) by (simp add: fill_block_raw_def)
qed

section \<open>Reference indices\<close>

text \<open>The specification over natural numbers, RFC 9106 section 3.4 for one lane: the number of
  blocks that may be referenced, the position counted back from the most recent one, and its place
  in the lane.\<close>

definition ref_area :: "bool \<Rightarrow> nat \<Rightarrow> nat" where
  "ref_area first_pass c = (if first_pass then c - 1 else 3 * 65536 + c mod 65536 - 1)"

definition ref_index :: "bool \<Rightarrow> nat \<Rightarrow> nat \<Rightarrow> nat" where
  "ref_index first_pass c J1 =
     (let area = ref_area first_pass c;
          x = J1 ^ 2 div 2 ^ 32;
          z = area - 1 - area * x div 2 ^ 32;
          start = (if first_pass then 0 else (c div 65536 + 1) * 65536 mod 262144)
      in (start + z) mod 262144)"

definition in_segment :: "bool \<Rightarrow> nat \<Rightarrow> nat \<Rightarrow> bool" where
  "in_segment first_pass sl c \<longleftrightarrow>
     sl < 4 \<and> sl * 65536 \<le> c \<and> c < (sl + 1) * 65536 \<and> (first_pass \<longrightarrow> 2 \<le> c)"

lemma in_segment_parts:
  assumes "in_segment fp sl c"
  shows "c div 65536 = sl" "c mod 65536 = c - sl * 65536" "c < 262144" "sl < 4"
proof -
  have "c = sl * 65536 + (c - sl * 65536)" "c - sl * 65536 < 65536"
    using assms by (auto simp: in_segment_def)
  then show "c div 65536 = sl" "c mod 65536 = c - sl * 65536"
    using div_mod_unique by metis+
  have "(sl + 1) * 65536 \<le> 4 * 65536" "c < (sl + 1) * 65536" "sl < 4"
    using assms unfolding in_segment_def by auto
  then show "c < 262144" "sl < 4" by linarith+
qed

lemma ref_area_bounds:
  assumes "in_segment fp sl c"
  shows "1 \<le> ref_area fp c" "ref_area fp c < 262144" "fp \<Longrightarrow> ref_area fp c < c"
  using assms in_segment_parts [OF assms] by (auto simp: ref_area_def in_segment_def)

lemma unat_reference_area_size:
  assumes "in_segment fp sl c"
  shows "unat (reference_area_size fp (of_nat c) (of_nat c - of_nat sl * SEGMENT_LENGTH)) = ref_area fp c"
proof -
  note b = in_segment_parts [OF assms]
  have c: "unat (of_nat c :: u32) = c" using b(3) by (simp add: unat_of_nat)
  have sl: "unat (of_nat sl * SEGMENT_LENGTH) = sl * 65536"
    using b(4) unfolding SEGMENT_LENGTH_def by (subst unat_mult_bounded) (simp_all add: unat_of_nat)
  have ix: "unat (of_nat c - of_nat sl * SEGMENT_LENGTH) = c mod 65536"
    using assms unfolding b(2) by (subst unat_sub_bounded) (simp_all add: c sl in_segment_def)
  have "unat (RANDOMX_LANE_LENGTH - SEGMENT_LENGTH) = 3 * 65536"
    by (simp add: RANDOMX_LANE_LENGTH_def SEGMENT_LENGTH_def)
  then have "unat (RANDOMX_LANE_LENGTH - SEGMENT_LENGTH + (of_nat c - of_nat sl * SEGMENT_LENGTH)) =
      3 * 65536 + c mod 65536"
    using ix mod_less_divisor [of 65536 c] by (subst unat_add_bounded) simp_all
  then have "unat (RANDOMX_LANE_LENGTH - SEGMENT_LENGTH + (of_nat c - of_nat sl * SEGMENT_LENGTH) - 1) =
      3 * 65536 + c mod 65536 - 1"
    by (subst unat_sub_bounded) simp_all
  moreover have "fp \<Longrightarrow> unat ((of_nat c :: u32) - 1) = c - 1"
    using assms c by (subst unat_sub_bounded) (auto simp: in_segment_def)
  ultimately show ?thesis
    by (auto simp: reference_area_size_def ref_area_def unat_ucast_widen)
qed

lemma unat_relative_position:
  fixes area J :: u64
  assumes "1 \<le> unat area" "unat area < 262144"
  defines "x \<equiv> J AND 0xFFFFFFFF"
  shows "unat (area - 1 - drop_bit 32 (area * drop_bit 32 (x * x))) =
    unat area - 1 - unat area * ((unat J mod 2 ^ 32) ^ 2 div 2 ^ 32) div 2 ^ 32"
    and "unat area * ((unat J mod 2 ^ 32) ^ 2 div 2 ^ 32) div 2 ^ 32 \<le> unat area - 1"
proof -
  have "(0xFFFFFFFF :: u64) = mask 32" by (simp add: mask_eq_decr_exp)
  then have x: "unat x = unat J mod 2 ^ 32" unfolding x_def by (simp only: unat_and_mask_eq)
  have xb: "unat x \<le> 2 ^ 32 - 1" unfolding x by simp
  have "unat x * unat x \<le> (2 ^ 32 - 1) * (2 ^ 32 - 1)" using xb by (rule mult_mono [OF _ xb]) simp_all
  then have xx: "unat (x * x) = unat x ^ 2" "unat x ^ 2 < 2 ^ 32 * 2 ^ 32"
    by (simp_all add: unat_mult_bounded power2_eq_square)
  define y where "y = drop_bit 32 (x * x)"
  have y: "unat y = (unat J mod 2 ^ 32) ^ 2 div 2 ^ 32" "unat y < 2 ^ 32"
    using xx unfolding y_def unat_drop_bit x
    by (simp, metis less_mult_imp_div_less)
  have "unat area * unat y \<le> 262144 * 2 ^ 32" using assms y(2) by (intro mult_mono) auto
  then have ay: "unat (area * y) = unat area * unat y" by (intro unat_mult_bounded) simp
  have "unat area * unat y < unat area * 2 ^ 32" using assms(1) y(2) by simp
  then have "unat area * unat y div 2 ^ 32 < unat area" by (rule less_mult_imp_div_less)
  then have le: "unat area * unat y div 2 ^ 32 \<le> unat area - 1" by simp
  then show "unat area * ((unat J mod 2 ^ 32) ^ 2 div 2 ^ 32) div 2 ^ 32 \<le> unat area - 1"
    unfolding y(1) .
  have a1: "unat (area - 1) = unat area - 1" using assms(1) by (subst unat_sub_bounded) simp_all
  have "unat (area - 1 - drop_bit 32 (area * y)) = unat area - 1 - unat area * unat y div 2 ^ 32"
    using le by (subst unat_sub_bounded) (simp_all add: a1 unat_drop_bit ay)
  then show "unat (area - 1 - drop_bit 32 (area * drop_bit 32 (x * x))) =
    unat area - 1 - unat area * ((unat J mod 2 ^ 32) ^ 2 div 2 ^ 32) div 2 ^ 32"
    using y(1) y_def by simp
qed

lemma lane_mask: "LANE_MASK = mask 18"
  by (simp add: LANE_MASK_def RANDOMX_LANE_LENGTH_def mask_eq_decr_exp)

lemma unat_reference_offset:
  assumes seg: "in_segment fp sl c"
  shows "unat (reference_offset fp (of_nat sl) (of_nat c) J) = ref_index fp c (unat J mod 2 ^ 32)"
    (is "unat ?r = _")
proof -
  note b = in_segment_parts [OF seg] and ab = ref_area_bounds [OF seg]
  define area where "area = reference_area_size fp (of_nat c) (of_nat c - of_nat sl * SEGMENT_LENGTH)"
  have area: "unat area = ref_area fp c" unfolding area_def by (rule unat_reference_area_size [OF seg])
  define rel where "rel = area - 1 -
      drop_bit 32 (area * drop_bit 32 ((J AND 0xFFFFFFFF) * (J AND 0xFFFFFFFF)))"
  define z where "z = ref_area fp c - 1 -
      ref_area fp c * ((unat J mod 2 ^ 32) ^ 2 div 2 ^ 32) div 2 ^ 32"
  have rel: "unat rel = z"
    unfolding rel_def z_def area [symmetric] by (rule unat_relative_position) (use ab area in simp_all)
  have z: "z < 262144" using ab unfolding z_def by linarith
  have three: "(of_nat sl :: u32) = SYNC_POINTS - 1 \<longleftrightarrow> sl = 3"
  proof -
    have "(of_nat sl :: u32) = SYNC_POINTS - 1 \<longleftrightarrow> unat (of_nat sl :: u32) = 3"
      by (simp add: SYNC_POINTS_def word_unat_eq_iff)
    then show ?thesis using b(4) by (simp add: unat_of_nat)
  qed
  show ?thesis
  proof (cases "fp \<or> sl = 3")
    case True
    then have "?r = rel"
      using three by (auto simp: reference_offset_def rel_def area_def Let_def)
    moreover have "ref_index fp c (unat J mod 2 ^ 32) = z"
      using True z b(1) by (auto simp: ref_index_def z_def Let_def)
    ultimately show ?thesis using rel by simp
  next
    case False
    have "?r = (ucast (((of_nat sl :: u32) + 1) * SEGMENT_LENGTH) + rel) AND ucast LANE_MASK"
      using False three by (simp add: reference_offset_def rel_def area_def Let_def)
    moreover have "ucast LANE_MASK = (mask 18 :: u64)"
      by (simp add: lane_mask mask_eq_decr_exp)
    moreover have "unat (((of_nat sl :: u32) + 1) * SEGMENT_LENGTH) = (sl + 1) * 65536"
    proof -
      have "unat ((of_nat sl :: u32) + 1) = sl + 1"
        using b(4) by (subst unat_add_bounded) (simp_all add: unat_of_nat)
      then show ?thesis
        using b(4) unfolding SEGMENT_LENGTH_def by (subst unat_mult_bounded) simp_all
    qed
    ultimately have "unat ?r = ((sl + 1) * 65536 + z) mod 2 ^ 18"
      using b(4) z rel by (simp only: unat_and_mask_eq) (subst unat_add_bounded; simp add: unat_ucast_widen)
    moreover have "ref_index fp c (unat J mod 2 ^ 32) = ((sl + 1) * 65536 + z) mod 262144"
      using False b(1) by (simp add: ref_index_def z_def Let_def mod_add_left_eq)
    ultimately show ?thesis by simp
  qed
qed

lemma ref_index_bounds:
  assumes seg: "in_segment fp sl c"
  shows "ref_index fp c J < 262144" "ref_index fp c J \<noteq> c" "fp \<Longrightarrow> ref_index fp c J < c"
proof -
  note b = in_segment_parts [OF seg] and ab = ref_area_bounds [OF seg]
  show "ref_index fp c J < 262144" by (simp add: ref_index_def Let_def)
  define z where "z = ref_area fp c - 1 - ref_area fp c * (J ^ 2 div 2 ^ 32) div 2 ^ 32"
  have z: "z < ref_area fp c" using ab(1) unfolding z_def by linarith
  show *: "ref_index fp c J < c" if fp
    using that z ab by (simp add: ref_index_def z_def Let_def)
  show "ref_index fp c J \<noteq> c"
  proof (cases fp)
    case True
    then show ?thesis using * by simp
  next
    case False
    let ?i = "c - sl * 65536"
    have c: "c = sl * 65536 + ?i" using seg by (simp add: in_segment_def)
    have zi: "z < 196608 + ?i - 1" using z False by (simp add: ref_area_def b(2))
    have i: "?i < 65536" using seg by (auto simp: in_segment_def)
    have "((sl + 1) * 65536 mod 262144 + z) mod 262144 \<noteq> sl * 65536 + ?i"
      using b(4) zi i by (cases "sl = 3") (auto simp: mod_if)
    then show ?thesis
      using False c by (simp add: ref_index_def z_def Let_def b(1))
  qed
qed

section \<open>Filling the lane\<close>

text \<open>The specification: the first pass appends one block after another, a later pass adds the new
  block to the old one in place.\<close>

definition grow :: "Block list \<Rightarrow> Block list" where
  "grow B = B @ [compress (B ! ref_index True (length B) (unat (last B ! 0) mod 2 ^ 32)) (last B)]"

definition refill_block :: "nat \<Rightarrow> Block list \<Rightarrow> Block list" where
  "refill_block c B =
     (let prev = B ! ((c + 262143) mod 262144);
          ref = B ! ref_index False c (unat (prev ! 0) mod 2 ^ 32)
      in B[c := xor_block (B ! c) (compress ref prev)])"

definition argon2d_fill :: "Block \<Rightarrow> Block \<Rightarrow> Block list" where
  "argon2d_fill block0 block1 =
     (let B = (grow ^^ 262142) [block0, block1];
          B = fold refill_block [0..<262144] B
      in fold refill_block [0..<262144] B)"

definition blocks_ok :: "Block list \<Rightarrow> bool" where
  "blocks_ok B \<longleftrightarrow> (\<forall>b \<in> set B. length b = 128)"

text \<open>The lane of which a prefix is initialised.\<close>

definition lane_prefix :: "Block list \<Rightarrow> raw_block list" where
  "lane_prefix B = map (map Some) B @ replicate (262144 - length B) (replicate 128 None)"

lemma blocks_ok_nth: "blocks_ok B \<Longrightarrow> i < length B \<Longrightarrow> length (B ! i) = 128"
  by (simp add: blocks_ok_def)

lemma map_option_list_map_Some [simp]: "map_option_list (\<lambda>w. w) (map Some xs) = Some xs"
  by (induction xs) simp_all

lemma map_option_list_blocks [simp]:
  "map_option_list (map_option_list (\<lambda>w. w)) (map (map Some) B) = Some B"
  by (induction B) simp_all

lemma block_ref_prefix: "i < length B \<Longrightarrow> block_ref (lane_prefix B) i = Some (B ! i)"
  by (simp add: block_ref_def lane_prefix_def nth_append)

lemma block_ref_full: "i < length B \<Longrightarrow> block_ref (map (map Some) B) i = Some (B ! i)"
  by (simp add: block_ref_def)

lemma lane_prefix_update:
  assumes "length B < 262144"
  shows "(lane_prefix B)[length B := map Some b] = lane_prefix (B @ [b])"
proof -
  have "replicate (262144 - length B) (replicate 128 None) =
      (replicate 128 None :: raw_block) # replicate (262144 - length (B @ [b])) (replicate 128 None)"
    using assms by (simp add: Suc_diff_Suc [symmetric] del: replicate_Suc)
       (metis Suc_diff_Suc replicate_Suc)
  then show ?thesis by (simp add: lane_prefix_def list_update_append)
qed

lemma in_segment_div:
  assumes "c < 262144" "fp \<Longrightarrow> 2 \<le> c"
  shows "in_segment fp (c div 65536) c"
  using assms mult_div_mod_eq [of 65536 c] mod_less_divisor [of 65536 c]
  by (auto simp: in_segment_def algebra_simps div_less_iff_less_mult
      simp del: mult_div_mod_eq mod_less_divisor)

lemma grow_ok:
  assumes "blocks_ok B" "2 \<le> length B" "length B < 262144"
  shows "blocks_ok (grow B)" "length (grow B) = Suc (length B)"
proof -
  have "in_segment True (length B div 65536) (length B)" using assms(2,3) by (intro in_segment_div)
  then have "ref_index True (length B) J < length B" for J by (rule ref_index_bounds(3)) simp
  moreover have "B \<noteq> []" using assms(2) by auto
  ultimately show "blocks_ok (grow B)"
    using assms(1,2) by (auto simp: grow_def blocks_ok_def)
qed (simp add: grow_def)

lemma grow_iterate:
  assumes "blocks_ok B" "2 \<le> length B" "length B + n \<le> 262144"
  shows "blocks_ok ((grow ^^ n) B) \<and> length ((grow ^^ n) B) = length B + n"
  using assms(3)
proof (induction n)
  case (Suc n)
  then show ?case using grow_ok [of "(grow ^^ n) B"] assms(2) by simp
qed (use assms in simp)

lemma fill_block_first:
  assumes "length prev = 128" "length ref = 128" "length nx = 128"
  shows "fill_block_raw False prev ref nx = Some (map Some (compress ref prev))"
proof -
  have "map (\<lambda>j. Some (compress ref prev ! j)) [0..<128] = map Some (compress ref prev)"
    using assms by (intro nth_equalityI) simp_all
  then show ?thesis using fill_block_raw_eq [of prev ref nx False] assms by simp
qed

lemma fill_block_again:
  assumes "length prev = 128" "length ref = 128" "length old = 128"
  shows "fill_block_raw True prev ref (map Some old) = Some (map Some (xor_block old (compress ref prev)))"
proof -
  have "map (\<lambda>j. Some (old ! j XOR compress ref prev ! j)) [0..<128] =
      map Some (xor_block old (compress ref prev))"
    using assms by (intro nth_equalityI) (simp_all add: nth_xor_block)
  then show ?thesis using fill_block_raw_eq [of prev ref "map Some old" True old] assms by simp
qed

lemma unat_offset: "c < 262144 \<Longrightarrow> unat (of_nat c :: u32) = c"
  by (simp add: unat_of_nat)

lemma segment_step_first:
  assumes "blocks_ok B" "in_segment True sl (length B)" and pv: "unat pv = length B - 1"
  shows "segment_step True False (of_nat sl) (of_nat (length B)) (pv, lane_prefix B) =
    Some (of_nat (length B), lane_prefix (grow B))"
proof -
  let ?c = "length B" and ?prev = "last B"
  let ?ref = "ref_index True ?c (unat (?prev ! 0) mod 2 ^ 32)"
  note c = in_segment_parts [OF assms(2)]
  have two: "2 \<le> ?c" using assms(2) by (simp add: in_segment_def)
  then have "B \<noteq> []" by auto
  then have last: "?prev = B ! (?c - 1)" by (rule last_conv_nth)
  have ref: "?ref < ?c" using ref_index_bounds(3) [OF assms(2)] by simp
  have prev: "block_ref (lane_prefix B) (unat pv) = Some ?prev"
    using two unfolding last pv by (intro block_ref_prefix) simp
  have at: "lane_prefix B ! ?c = replicate 128 None" "?c < length (lane_prefix B)"
    using c(3) by (simp_all add: lane_prefix_def nth_append)
  have "fill_block_raw False ?prev (B ! ?ref) (lane_prefix B ! ?c) =
      Some (map Some (compress (B ! ?ref) ?prev))"
    using blocks_ok_nth [OF assms(1)] ref two at by (intro fill_block_first) (simp_all add: last)
  then show ?thesis
    using at ref c(3) lane_prefix_update [OF c(3)]
    unfolding segment_step_def grow_def
    by (simp add: prev unat_reference_offset [OF assms(2)] unat_offset block_ref_prefix Let_def)
qed

lemma segment_first:
  assumes "blocks_ok B" "sl < 4" "length B = (if sl = 0 then 2 else sl * 65536)"
  shows "fill_memory_blocks_randomx_segment True False (of_nat sl) (lane_prefix B) =
    Some (lane_prefix ((grow ^^ ((sl + 1) * 65536 - length B)) B))"
proof -
  let ?a = "length B" and ?b = "(sl + 1) * 65536"
  have two: "2 \<le> ?a" and ab: "?a \<le> ?b" and b: "?b \<le> 262144" using assms(2,3) by auto
  have start: "unat (of_nat sl * SEGMENT_LENGTH :: u32) = sl * 65536"
    using assms(2) unfolding SEGMENT_LENGTH_def by (subst unat_mult_bounded) (simp_all add: unat_of_nat)
  have e: "unat (of_nat sl * SEGMENT_LENGTH + SEGMENT_LENGTH :: u32) = ?b"
    using assms(2) start unfolding SEGMENT_LENGTH_def by (subst unat_add_bounded) simp_all
  have zero: "(of_nat sl :: u32) = 0 \<longleftrightarrow> sl = 0"
    using assms(2) by (simp add: word_unat_eq_iff unat_of_nat)
  define f where "f = of_nat sl * SEGMENT_LENGTH + (if sl = 0 then 2 else 0 :: u32)"
  have f: "unat f = ?a"
    using start assms(2,3) unfolding f_def by (subst unat_add_bounded) auto
  have prev: "(f - 1) AND LANE_MASK = of_nat (?a - 1)"
  proof -
    have "unat (f - 1) = ?a - 1" using two f by (subst unat_sub_bounded) simp_all
    moreover have "?a - 1 < 262144" using ab b two by linarith
    ultimately show ?thesis unfolding word_unat_eq_iff lane_mask unat_and_mask_eq
      by (simp add: unat_offset)
  qed
  let ?P = "\<lambda>i s. s = (of_nat (i - 1) :: u32, lane_prefix ((grow ^^ (i - ?a)) B))"
  have "\<exists>s'. foldl_option (segment_step True False (of_nat sl) \<circ> of_nat) [?a..<?b]
      (of_nat (?a - 1), lane_prefix B) = Some s' \<and> ?P ?b s'"
  proof (rule foldl_option_upt [OF ab])
    fix i and s :: "u32 \<times> raw_block list"
    assume i: "?a \<le> i" "i < ?b" and P: "?P i s"
    let ?B = "(grow ^^ (i - ?a)) B"
    have B: "blocks_ok ?B" "length ?B = i" using grow_iterate [OF assms(1) two, of "i - ?a"] i b by auto
    have "in_segment True sl i" using i assms(2,3) two by (auto simp: in_segment_def split: if_splits)
    then have "segment_step True False (of_nat sl) (of_nat i) (of_nat (i - 1), lane_prefix ?B) =
        Some (of_nat i, lane_prefix (grow ?B))"
      using segment_step_first [OF B(1), of sl "of_nat (i - 1)"] B(2) i b by (simp add: unat_offset)
    moreover have "grow ?B = (grow ^^ (Suc i - ?a)) B" using i(1) by (simp add: Suc_diff_le)
    ultimately show "\<exists>s'. (segment_step True False (of_nat sl) \<circ> of_nat) i s = Some s' \<and> ?P (Suc i) s'"
      using P by simp
  qed simp
  then show ?thesis
    using prev f e zero
    by (simp add: fill_memory_blocks_randomx_segment_def Let_def foldl_option_map f_def [symmetric])
qed

lemma pass_first:
  assumes "length block0 = 128" "length block1 = 128"
  shows "fill_memory_blocks_randomx_pass True False (lane_prefix [block0, block1]) =
    Some (map (map Some) ((grow ^^ 262142) [block0, block1]))"
proof -
  let ?B = "\<lambda>n. (grow ^^ n) [block0, block1]"
  have B: "blocks_ok (?B n)" "length (?B n) = 2 + n" if "n \<le> 262142" for n
    using grow_iterate [of "[block0, block1]" n] assms that by (simp_all add: blocks_ok_def)
  have more: "(grow ^^ k) (?B n) = ?B (k + n)" for k n by (simp add: funpow_add)
  have "fill_memory_blocks_randomx_segment True False 0 (lane_prefix (?B 0)) = Some (lane_prefix (?B 65534))"
    using segment_first [OF B(1), of 0 0] by simp
  moreover have "fill_memory_blocks_randomx_segment True False 1 (lane_prefix (?B 65534)) =
      Some (lane_prefix (?B 131070))"
    using segment_first [OF B(1), of 65534 1] B(2) [of 65534] more [of 65536 65534] by simp
  moreover have "fill_memory_blocks_randomx_segment True False 2 (lane_prefix (?B 131070)) =
      Some (lane_prefix (?B 196606))"
    using segment_first [OF B(1), of 131070 2] B(2) [of 131070] more [of 65536 131070] by simp
  moreover have "fill_memory_blocks_randomx_segment True False 3 (lane_prefix (?B 196606)) =
      Some (lane_prefix (?B 262142))"
    using segment_first [OF B(1), of 196606 3] B(2) [of 196606] more [of 65536 196606] by simp
  moreover have "lane_prefix (?B 262142) = map (map Some) (?B 262142)"
    using B(2) [of 262142] by (simp add: lane_prefix_def)
  ultimately show ?thesis by (simp add: fill_memory_blocks_randomx_pass_def)
qed

lemma refill_block_ok:
  assumes "blocks_ok B" "length B = 262144" "c < 262144"
  shows "blocks_ok (refill_block c B)" "length (refill_block c B) = 262144"
proof -
  have "ref_index False c J < 262144" for J
    by (rule ref_index_bounds(1)) (rule in_segment_div [OF assms(3)], simp)
  moreover have "(c + 262143) mod 262144 < 262144" by simp
  ultimately have "length (xor_block (B ! c) (compress (B ! ref_index False c J)
      (B ! ((c + 262143) mod 262144)))) = 128" for J
    using blocks_ok_nth [OF assms(1)] assms(2,3) by simp
  then show "blocks_ok (refill_block c B)"
    using assms(1) set_update_subset_insert unfolding blocks_ok_def refill_block_def Let_def by fast
qed (use assms in \<open>simp add: refill_block_def Let_def\<close>)

lemma fold_refill_ok:
  assumes "blocks_ok B" "length B = 262144" "\<forall>c \<in> set cs. c < 262144"
  shows "blocks_ok (fold refill_block cs B)" "length (fold refill_block cs B) = 262144"
  using assms by (induction cs arbitrary: B) (simp_all add: refill_block_ok)

lemma segment_step_again:
  assumes "blocks_ok B" "length B = 262144" "in_segment False sl c" "unat pv = (c + 262143) mod 262144"
  shows "segment_step False True (of_nat sl) (of_nat c) (pv, map (map Some) B) =
    Some (of_nat c, map (map Some) (refill_block c B))"
proof -
  let ?prev = "B ! ((c + 262143) mod 262144)"
  let ?ref = "ref_index False c (unat (?prev ! 0) mod 2 ^ 32)"
  note c = in_segment_parts(3) [OF assms(3)]
  have ref: "?ref < 262144" using ref_index_bounds(1) [OF assms(3)] .
  have prev: "block_ref (map (map Some) B) (unat pv) = Some ?prev"
    unfolding assms(4) by (rule block_ref_full) (simp add: assms(2))
  have "fill_block_raw True ?prev (B ! ?ref) (map Some (B ! c)) =
      Some (map Some (xor_block (B ! c) (compress (B ! ?ref) ?prev)))"
    using blocks_ok_nth [OF assms(1)] ref c assms(2) by (intro fill_block_again) simp_all
  then show ?thesis
    using ref c assms(2)
    unfolding segment_step_def refill_block_def
    by (simp add: prev unat_reference_offset [OF assms(3)] unat_offset block_ref_full Let_def map_update)
qed

lemma segment_again:
  assumes "blocks_ok B" "length B = 262144" "sl < 4"
  shows "fill_memory_blocks_randomx_segment False True (of_nat sl) (map (map Some) B) =
    Some (map (map Some) (fold refill_block [sl * 65536..<(sl + 1) * 65536] B))"
proof -
  let ?a = "sl * 65536" and ?b = "(sl + 1) * 65536"
  have b: "?b \<le> 262144" using assms(3) by auto
  define f where "f = of_nat sl * (SEGMENT_LENGTH :: u32)"
  have f: "unat f = ?a"
    using assms(3) unfolding f_def SEGMENT_LENGTH_def
    by (subst unat_mult_bounded) (simp_all add: unat_of_nat)
  have e: "unat (f + SEGMENT_LENGTH) = ?b"
    using assms(3) f unfolding SEGMENT_LENGTH_def by (subst unat_add_bounded) simp_all
  have prev: "unat ((f - 1) AND LANE_MASK) = (?a + 262143) mod 262144"
  proof (cases "sl = 0")
    case True
    then show ?thesis by (simp add: f_def lane_mask mask_eq_decr_exp)
  next
    case False
    then have "unat (f - 1) = ?a - 1" using f by (subst unat_sub_bounded) simp_all
    moreover have "(?a + 262143) mod 262144 = (?a - 1) mod 262144"
    proof -
      have "?a + 262143 = ?a - 1 + 262144" using False by simp
      then show ?thesis by (simp only: mod_add_self2)
    qed
    ultimately show ?thesis unfolding lane_mask unat_and_mask_eq by simp
  qed
  let ?P = "\<lambda>i s. unat (fst s :: u32) = (i + 262143) mod 262144 \<and>
      snd s = map (map Some) (fold refill_block [?a..<i] B)"
  have "\<exists>s'. foldl_option (segment_step False True (of_nat sl) \<circ> of_nat) [?a..<?b]
      ((f - 1) AND LANE_MASK, map (map Some) B) = Some s' \<and> ?P ?b s'"
  proof (rule foldl_option_upt)
    fix i and s :: "u32 \<times> raw_block list"
    assume i: "?a \<le> i" "i < ?b" and P: "?P i s"
    let ?B = "fold refill_block [?a..<i] B"
    have B: "blocks_ok ?B" "length ?B = 262144"
      using fold_refill_ok [OF assms(1,2), of "[?a..<i]"] i b by auto
    have "in_segment False sl i" using i assms(3) by (simp add: in_segment_def)
    then have "segment_step False True (of_nat sl) (of_nat i) (fst s, map (map Some) ?B) =
        Some (of_nat i, map (map Some) (refill_block i ?B))"
      using segment_step_again [OF B, of sl i "fst s"] P by simp
    moreover have "refill_block i ?B = fold refill_block [?a..<Suc i] B" using i(1) by simp
    moreover have "unat (of_nat i :: u32) = (Suc i + 262143) mod 262144"
      using i b by (simp add: unat_offset)
    ultimately show "\<exists>s'. (segment_step False True (of_nat sl) \<circ> of_nat) i s = Some s' \<and> ?P (Suc i) s'"
      using P by (cases s) simp
  qed (use prev in simp_all)
  then show ?thesis
    using f e
    by (auto simp: fill_memory_blocks_randomx_segment_def Let_def foldl_option_map f_def [symmetric])
qed

lemma pass_again:
  assumes "blocks_ok B" "length B = 262144"
  shows "fill_memory_blocks_randomx_pass False True (map (map Some) B) =
    Some (map (map Some) (fold refill_block [0..<262144] B))"
proof -
  let ?F = "\<lambda>i j. fold refill_block [i..<j]"
  have ok: "blocks_ok (?F 0 j B)" "length (?F 0 j B) = 262144" if "j \<le> 262144" for j
    using fold_refill_ok [OF assms, of "[0..<j]"] that by auto
  have app: "?F i j (?F 0 i B) = ?F 0 j B" if "i \<le> j" for i j
  proof -
    have "[0..<j] = [0..<i] @ [i..<j]" using that upt_add_eq_append [of 0 i "j - i"] by simp
    then show ?thesis by (simp only: fold_append comp_apply)
  qed
  have seg: "fill_memory_blocks_randomx_segment False True (of_nat sl) (map (map Some) (?F 0 (sl * 65536) B)) =
      Some (map (map Some) (?F 0 ((sl + 1) * 65536) B))" if "sl < 4" for sl
  proof -
    have "sl * 65536 \<le> 262144" using that by simp
    then have "fill_memory_blocks_randomx_segment False True (of_nat sl) (map (map Some) (?F 0 (sl * 65536) B)) =
        Some (map (map Some) (?F (sl * 65536) ((sl + 1) * 65536) (?F 0 (sl * 65536) B)))"
      by (intro segment_again [OF ok that])
    then show ?thesis using app [of "sl * 65536" "(sl + 1) * 65536"] by simp
  qed
  from seg [of 0] seg [of 1] seg [of 2] seg [of 3] show ?thesis
    unfolding fill_memory_blocks_randomx_pass_def
    by (simp del: upt_rec_numeral)
qed

section \<open>The variable-length hash\<close>

text \<open>The documented behaviour of Blake2b that the code relies on: a digest has the requested
  length.\<close>

definition digest_length :: "(nat \<Rightarrow> u8 list \<Rightarrow> u8 list) \<Rightarrow> bool" where
  "digest_length hash \<longleftrightarrow> (\<forall>n x. 1 \<le> n \<and> n \<le> 64 \<longrightarrow> length (hash n x) = n)"

text \<open>The specification, RFC 9106 section 3.3.\<close>

definition hprime_V :: "(nat \<Rightarrow> u8 list \<Rightarrow> u8 list) \<Rightarrow> nat \<Rightarrow> u8 list \<Rightarrow> nat \<Rightarrow> u8 list" where
  "hprime_V hash T A i = (hash 64 ^^ i) (to_le_bytes 4 (of_nat T :: u32) @ A)"

definition hprime_spec :: "(nat \<Rightarrow> u8 list \<Rightarrow> u8 list) \<Rightarrow> nat \<Rightarrow> u8 list \<Rightarrow> u8 list" where
  "hprime_spec hash T A =
     (if T \<le> 64 then hash T (to_le_bytes 4 (of_nat T :: u32) @ A)
      else let r = (T + 31) div 32 - 2
           in concat (map (\<lambda>i. take 32 (hprime_V hash T A i)) [1..<r + 1])
              @ hash (T - 32 * r) (hprime_V hash T A r))"

lemma blake2b_eq:
  "digest_length hash \<Longrightarrow> 1 \<le> n \<Longrightarrow> n \<le> 64 \<Longrightarrow> blake2b hash n xs = Some (hash n (concat xs))"
  by (simp add: blake2b_def digest_length_def BLAKE2B_OUT_LENGTH_def)

lemma hprime_loop_eq:
  assumes "digest_length hash" "32 < n"
  shows "hprime_loop hash v n =
    Some (concat (map (\<lambda>i. take 32 ((hash 64 ^^ i) v)) [1..<(n - 1) div 32])
          @ hash (n - 32 * ((n - 1) div 32 - 1)) ((hash 64 ^^ ((n - 1) div 32 - 1)) v))"
  using assms(2)
proof (induction n arbitrary: v rule: less_induct)
  case (less n)
  show ?case
  proof (cases "n \<le> 64")
    case True
    then have "(n - 1) div 32 = 1"
      using less.prems div_mod_unique(1) [of "n - 33" 32 1] by simp
    then show ?thesis
      using True less.prems assms(1)
      by (simp add: hprime_loop.simps [of hash v n] BLAKE2B_OUT_LENGTH_def blake2b_eq)
  next
    case False
    define k where "k = (n - 32 - 1) div 32"
    have "n - 1 = n - 32 - 1 + 32" using False by simp
    then have k1: "(n - 1) div 32 = Suc k" unfolding k_def by (simp only: div_add_self2)
    have k: "1 \<le> k" using False unfolding k_def by (simp add: Suc_le_eq div_greater_zero_iff)
    have shift: "(hash 64 ^^ i) (hash 64 v) = (hash 64 ^^ Suc i) v" for i
      by (simp add: funpow_swap1)
    have W: "concat (map (\<lambda>i. take 32 ((hash 64 ^^ i) v)) [1..<Suc k]) =
        take 32 (hash 64 v) @ concat (map (\<lambda>i. take 32 ((hash 64 ^^ i) (hash 64 v))) [1..<k])"
    proof -
      have "[1..<Suc k] = 1 # map Suc [1..<k]" using k by (simp add: upt_conv_Cons map_Suc_upt)
      then show ?thesis by (simp only: shift) (simp add: comp_def)
    qed
    have "n - 32 - 32 * (k - 1) = n - 32 * (Suc k - 1)" using k by auto
    moreover have "(hash 64 ^^ (k - 1)) (hash 64 v) = (hash 64 ^^ (Suc k - 1)) v"
      using k shift [of "k - 1"] by simp
    moreover have "hprime_loop hash v n = Option.bind (hprime_loop hash (hash 64 v) (n - 32))
        (\<lambda>rest. Some (take 32 (hash 64 v) @ rest))"
      using False assms(1)
      by (simp add: hprime_loop.simps [of hash v n] BLAKE2B_OUT_LENGTH_def blake2b_eq)
    moreover have "hprime_loop hash (hash 64 v) (n - 32) =
        Some (concat (map (\<lambda>i. take 32 ((hash 64 ^^ i) (hash 64 v))) [1..<k])
              @ hash (n - 32 - 32 * (k - 1)) ((hash 64 ^^ (k - 1)) (hash 64 v)))"
      unfolding k_def by (rule less.IH) (use False in simp_all)
    ultimately show ?thesis unfolding k1 W by (simp only: Option.bind.simps append_assoc)
  qed
qed

lemma hprime_eq:
  assumes "digest_length hash" "1 \<le> T"
  shows "hprime hash T A = Some (hprime_spec hash T A)"
proof (cases "T \<le> 64")
  case True
  then show ?thesis
    using assms by (simp add: hprime_def hprime_spec_def BLAKE2B_OUT_LENGTH_def blake2b_eq)
next
  case False
  define A' where "A' = to_le_bytes 4 (of_nat T :: u32) @ A"
  define k where "k = (T - 32 - 1) div 32"
  have "T + 31 = T - 32 - 1 + 64" using False by simp
  then have r: "(T + 31) div 32 - 2 = k" unfolding k_def by simp
  have k: "1 \<le> k" using False unfolding k_def by (simp add: Suc_le_eq div_greater_zero_iff)
  have V: "hprime_V hash T A (Suc i) = (hash 64 ^^ i) (hash 64 A')" for i
    by (simp add: hprime_V_def A'_def funpow_swap1)
  have "[1..<k + 1] = 1 # map Suc [1..<k]" using k by (simp add: upt_conv_Cons map_Suc_upt)
  then have W: "concat (map (\<lambda>i. take 32 (hprime_V hash T A i)) [1..<k + 1]) =
      take 32 (hash 64 A') @ concat (map (\<lambda>i. take 32 ((hash 64 ^^ i) (hash 64 A'))) [1..<k])"
    using V [of 0] by (simp add: V comp_def)
  have "hprime_V hash T A k = (hash 64 ^^ (k - 1)) (hash 64 A')" using V [of "k - 1"] k by simp
  moreover have "T - 32 - 32 * (k - 1) = T - 32 * k" using k by auto
  ultimately have "hprime_spec hash T A = take 32 (hash 64 A') @
      concat (map (\<lambda>i. take 32 ((hash 64 ^^ i) (hash 64 A'))) [1..<k]) @
      hash (T - 32 - 32 * (k - 1)) ((hash 64 ^^ (k - 1)) (hash 64 A'))"
    using False W by (simp only: hprime_spec_def r Let_def) simp
  then show ?thesis
    using False assms hprime_loop_eq [of hash "T - 32" "hash 64 A'"]
    by (simp add: hprime_def BLAKE2B_OUT_LENGTH_def blake2b_eq k_def A'_def Let_def)
qed

lemma length_hprime_spec:
  assumes "digest_length hash" "1 \<le> T"
  shows "length (hprime_spec hash T A) = T"
proof (cases "T \<le> 64")
  case True
  then show ?thesis using assms by (simp add: hprime_spec_def digest_length_def)
next
  case False
  define k where "k = (T + 31) div 32 - 2"
  have kb: "32 * k < T" "T - 32 * k \<le> 64" using False unfolding k_def by linarith+
  have "length (take 32 (hprime_V hash T A i)) = 32" if "1 \<le> i" for i
    using assms(1) that by (cases i) (simp_all add: hprime_V_def digest_length_def)
  then have "map length (map (\<lambda>i. take 32 (hprime_V hash T A i)) [1..<k + 1]) = map (\<lambda>_. 32) [1..<k + 1]"
    unfolding map_map comp_def by (intro map_cong) auto
  then have "length (concat (map (\<lambda>i. take 32 (hprime_V hash T A i)) [1..<k + 1])) = 32 * k"
    unfolding length_concat by (simp only:) (simp add: sum_list_triv)
  moreover have "length (hash (T - 32 * k) (hprime_V hash T A k)) = T - 32 * k"
    using assms(1) kb by (simp add: digest_length_def)
  ultimately show ?thesis
    using False kb by (simp add: hprime_spec_def k_def [symmetric] Let_def)
qed

section \<open>The whole construction\<close>

text \<open>The prehash of RFC 9106 section 3.2 for the parameters of RandomX: one lane, tag length 0,
  262144 KiB, three passes, version 0x13, variant Argon2d, no secret and no associated data.\<close>

definition LE32 :: "nat \<Rightarrow> u8 list" where
  "LE32 n = to_le_bytes 4 (of_nat n :: u32)"

definition argon2_H0 :: "(nat \<Rightarrow> u8 list \<Rightarrow> u8 list) \<Rightarrow> u8 list \<Rightarrow> u8 list" where
  "argon2_H0 hash key =
     hash 64 (LE32 1 @ LE32 0 @ LE32 262144 @ LE32 3 @ LE32 19 @ LE32 0 @ LE32 (length key) @ key
              @ LE32 8 @ RANDOMX_SALT @ LE32 0 @ LE32 0)"

definition argon2_initial :: "(nat \<Rightarrow> u8 list \<Rightarrow> u8 list) \<Rightarrow> u8 list \<Rightarrow> nat \<Rightarrow> Block" where
  "argon2_initial hash key i = block_of_u8 (hprime_spec hash 1024 (argon2_H0 hash key @ LE32 i @ LE32 0))"

lemma initial_hash_eq:
  assumes "digest_length hash"
  shows "initial_hash hash key = Some (argon2_H0 hash key @ replicate 8 0)"
  using assms
  by (simp add: initial_hash_def PREHASH_DIGEST_LENGTH_def PREHASH_SEED_LENGTH_def blake2b_eq argon2_H0_def
      LE32_def RANDOMX_LANES_def RANDOMX_HASH_LENGTH_def RANDOMX_LANE_LENGTH_def RANDOMX_ITERATIONS_def
      ARGON2_VERSION_13_def ARGON2D_def RANDOMX_SALT_def)

lemma initial_block_eq:
  assumes "digest_length hash"
  shows "initial_block hash (argon2_H0 hash key @ replicate 8 0) i = Some (argon2_initial hash key i)"
proof -
  have "length (argon2_H0 hash key) = 64" using assms by (simp add: argon2_H0_def digest_length_def)
  then show ?thesis
    using assms by (simp add: initial_block_def PREHASH_DIGEST_LENGTH_def BLOCK_SIZE_def hprime_eq
        argon2_initial_def LE32_def)
qed

lemma length_argon2_initial:
  assumes "digest_length hash"
  shows "length (argon2_initial hash key i) = 128"
  using assms by (simp add: argon2_initial_def block_of_u8_def length_chunks_exact length_hprime_spec)

lemma lane_prefix_two:
  "(replicate 262144 (replicate 128 None))[0 := map Some b0, Suc 0 := map Some b1] = lane_prefix [b0, b1]"
proof -
  have "(262144 :: nat) = Suc (Suc 262142)" by simp
  then have "replicate 262144 (replicate 128 None :: raw_block) =
      replicate 128 None # replicate 128 None # replicate 262142 (replicate 128 None)"
    by (metis replicate_Suc)
  then show ?thesis by (simp add: lane_prefix_def)
qed

lemma argon2d_fill_ok:
  assumes "length b0 = 128" "length b1 = 128"
  shows "blocks_ok (argon2d_fill b0 b1)" "length (argon2d_fill b0 b1) = 262144"
proof -
  have "blocks_ok ((grow ^^ 262142) [b0, b1])" "length ((grow ^^ 262142) [b0, b1]) = 262144"
    using grow_iterate [of "[b0, b1]" 262142] assms by (simp_all add: blocks_ok_def)
  then show "blocks_ok (argon2d_fill b0 b1)" "length (argon2d_fill b0 b1) = 262144"
    unfolding argon2d_fill_def Let_def by (intro fold_refill_ok; simp)+
qed

lemma initialize_randomx_eq:
  assumes "digest_length hash"
  shows "initialize_randomx hash key =
    Some (argon2d_fill (argon2_initial hash key 0) (argon2_initial hash key 1))"
proof -
  let ?b0 = "argon2_initial hash key 0" and ?b1 = "argon2_initial hash key 1"
  let ?G = "(grow ^^ 262142) [?b0, ?b1]"
  have len: "length ?b0 = 128" "length ?b1 = 128" using length_argon2_initial [OF assms] by simp_all
  have N: "unat RANDOMX_LANE_LENGTH = 262144" "QWORDS_IN_BLOCK = 128"
    by (simp_all add: RANDOMX_LANE_LENGTH_def QWORDS_IN_BLOCK_def BLOCK_SIZE_def)
  have G: "blocks_ok ?G" "length ?G = 262144"
    using grow_iterate [of "[?b0, ?b1]" 262142] len by (simp_all add: blocks_ok_def)
  let ?H = "fold refill_block [0..<262144] ?G"
  have H: "blocks_ok ?H" "length ?H = 262144" by (intro fold_refill_ok [OF G]; simp)+
  have "initialize_randomx hash key = Some (fold refill_block [0..<262144] ?H)"
    unfolding initialize_randomx_def initial_hash_eq [OF assms] N Let_def Option.bind.simps
      initial_block_eq [OF assms] One_nat_def lane_prefix_two
    using pass_first [OF len] pass_again [OF G] pass_again [OF H]
    by (simp only: One_nat_def Option.bind.simps map_option_list_blocks)
  then show ?thesis by (simp only: argon2d_fill_def Let_def)
qed

text \<open>A digest of the right length, for the witnesses.\<close>

definition zero_digest :: "nat \<Rightarrow> u8 list \<Rightarrow> u8 list" where
  "zero_digest n x = replicate n 0"

lemma zero_digest_length: "digest_length zero_digest"
  by (simp add: digest_length_def zero_digest_def)

section \<open>Properties\<close>

text \<open>C12: For every key, \<open>initialize_randomx\<close> returns: the first pass reads only blocks that were
  already written, no index leaves the lane, and the result is the Argon2d recurrence started from
  the two blocks derived from the key, 262144 blocks of 128 words.\<close>

theorem initialize_randomx_correct:
  assumes "digest_length hash"
  shows "initialize_randomx hash key =
      Some (argon2d_fill (argon2_initial hash key 0) (argon2_initial hash key 1)) \<and>
    length (argon2d_fill (argon2_initial hash key 0) (argon2_initial hash key 1)) = 262144 \<and>
    blocks_ok (argon2d_fill (argon2_initial hash key 0) (argon2_initial hash key 1))"
  using initialize_randomx_eq [OF assms] argon2d_fill_ok [OF length_argon2_initial length_argon2_initial, OF assms assms]
  by blast

theorem initialize_randomx_correct_witness:
  "initialize_randomx zero_digest [1, 2, 3] =
     Some (argon2d_fill (argon2_initial zero_digest [1, 2, 3] 0) (argon2_initial zero_digest [1, 2, 3] 1))"
  using initialize_randomx_correct [OF zero_digest_length] by blast

text \<open>The fused compression, which never clears its scratch block and folds the last permutation
  into the destination, computes the Argon2 compression function of its inputs, added to the old
  destination on the later passes; it does not read the destination on the first pass.\<close>

theorem fill_block_raw_correct:
  assumes "length prev_block = 128" "length ref_block = 128" "length next_words = 128"
    and "with_xor \<longrightarrow> (\<forall>w \<in> set next_words. w \<noteq> None)"
  shows "fill_block_raw with_xor prev_block ref_block next_words =
    Some (map Some (if with_xor then xor_block (map the next_words) (compress ref_block prev_block)
                    else compress ref_block prev_block))"
proof (cases with_xor)
  case True
  then have "map Some (map the next_words) = next_words"
    using assms(4) by (intro nth_equalityI) (auto simp: in_set_conv_nth)
  then show ?thesis
    using True fill_block_again [OF assms(1,2), of "map the next_words"] assms(3) by simp
next
  case False
  then show ?thesis using fill_block_first [OF assms(1-3)] by simp
qed

theorem fill_block_raw_correct_witness:
  "fill_block_raw True (replicate 128 1) (replicate 128 2) (replicate 128 (Some 3)) =
     Some (map Some (xor_block (replicate 128 3) (compress (replicate 128 2) (replicate 128 1))))"
  using fill_block_raw_correct [of "replicate 128 1" "replicate 128 2" "replicate 128 (Some 3)" True]
  by simp

text \<open>C37: The 64-bit index arithmetic is exact, the referenced block lies in the lane, is never the
  block being written, and on the first pass precedes it.\<close>

theorem reference_offset_correct:
  assumes "in_segment first_pass SLICE c"
  shows "unat (reference_offset first_pass (of_nat SLICE) (of_nat c) J) =
      ref_index first_pass c (unat J mod 2 ^ 32) \<and>
    ref_index first_pass c (unat J mod 2 ^ 32) < 262144 \<and>
    ref_index first_pass c (unat J mod 2 ^ 32) \<noteq> c \<and>
    (first_pass \<longrightarrow> ref_index first_pass c (unat J mod 2 ^ 32) < c)"
  using unat_reference_offset [OF assms] ref_index_bounds [OF assms] by blast

theorem reference_offset_correct_witness:
  "unat (reference_offset False (of_nat 1) (of_nat 65541) 0x80000000) = ref_index False 65541 2147483648 \<and>
   ref_index False 65541 2147483648 \<noteq> 65541"
  using reference_offset_correct [where first_pass = False and SLICE = 1 and c = 65541 and J = "0x80000000"]
  by (simp add: in_segment_def)

text \<open>The variable-length hash is the function H' of Argon2 for every output length.\<close>

theorem hprime_correct:
  assumes "digest_length hash" "1 \<le> out_len"
  shows "hprime hash out_len input = Some (hprime_spec hash out_len input) \<and>
         length (hprime_spec hash out_len input) = out_len"
  using hprime_eq [OF assms] length_hprime_spec [OF assms] by blast

theorem hprime_correct_witness:
  "hprime zero_digest 1024 [9] = Some (hprime_spec zero_digest 1024 [9])"
  using hprime_correct [OF zero_digest_length, of 1024 "[9]"] by simp

end
