(* ===== verification/Memory.thy ===== *)
theory Memory
  imports Argon2 SuperscalarExec
begin

text \<open>
  Model of \<open>randomx-core/src/memory.rs\<close>: the cache (\<open>SeedMemory\<close>: the Argon2 blocks and
  eight superscalar programs) and the derivation of dataset items in light mode. The cache is read
  through an unchecked flat word index; a read outside the allocation is \<open>None\<close>. The locale
  \<open>dataset\<close> is the interface the virtual machine uses; it is interpreted on
  \<open>dataset_read\<close> for every memory the constructors build.
\<close>

section \<open>The cache\<close>

definition RANDOMX_ARGON_MEMORY :: u32 where "RANDOMX_ARGON_MEMORY = 262144"
definition RANDOMX_CACHE_ACCESSES :: nat where "RANDOMX_CACHE_ACCESSES = 8"
definition ARGON_BLOCK_SIZE :: u32 where "ARGON_BLOCK_SIZE = 1024"
definition ARGON_BLOCK_WORDS :: nat where "ARGON_BLOCK_WORDS = unat ARGON_BLOCK_SIZE div 8"
definition CACHE_LINE_SIZE :: u64 where "CACHE_LINE_SIZE = 64"
definition CACHE_LINE_WORDS :: nat where "CACHE_LINE_WORDS = unat CACHE_LINE_SIZE div 8"
definition CACHE_LINE_COUNT :: u64 where
  "CACHE_LINE_COUNT = (ucast RANDOMX_ARGON_MEMORY * ucast ARGON_BLOCK_SIZE) div CACHE_LINE_SIZE"
definition CACHE_LINE_MASK :: u64 where "CACHE_LINE_MASK = CACHE_LINE_COUNT - 1"

definition SUPERSCALAR_MUL_0 :: u64 where "SUPERSCALAR_MUL_0 = 6364136223846793005"
definition SUPERSCALAR_ADD_1 :: u64 where "SUPERSCALAR_ADD_1 = 9298411001130361340"
definition SUPERSCALAR_ADD_2 :: u64 where "SUPERSCALAR_ADD_2 = 12065312585734608966"
definition SUPERSCALAR_ADD_3 :: u64 where "SUPERSCALAR_ADD_3 = 9306329213124626780"
definition SUPERSCALAR_ADD_4 :: u64 where "SUPERSCALAR_ADD_4 = 5281919268842080866"
definition SUPERSCALAR_ADD_5 :: u64 where "SUPERSCALAR_ADD_5 = 10536153434571861004"
definition SUPERSCALAR_ADD_6 :: u64 where "SUPERSCALAR_ADD_6 = 3398623926847679864"
definition SUPERSCALAR_ADD_7 :: u64 where "SUPERSCALAR_ADD_7 = 9549104520008361294"

record SeedMemory =
  sm_blocks :: "Block list"
  sm_programs :: "ScProgram list"

definition SeedMemory_no_memory :: SeedMemory where
  "SeedMemory_no_memory = \<lparr> sm_blocks = [], sm_programs = [] \<rparr>"

text \<open>The loop that generates the programs from one generator.\<close>

primrec generate_programs ::
  "(u8 list \<Rightarrow> u8 list) \<Rightarrow> nat \<Rightarrow> Blake2Generator \<Rightarrow> ScProgram list option" where
  "generate_programs hash64 0 g = Some []"
| "generate_programs hash64 (Suc n) g =
     do { (prog, g) \<leftarrow> generate hash64 g;
          progs \<leftarrow> generate_programs hash64 n g;
          Some (prog # progs) }"

definition new_initialised :: "(nat \<Rightarrow> u8 list \<Rightarrow> u8 list) \<Rightarrow> u8 list \<Rightarrow> SeedMemory option" where
  "new_initialised hash key =
     do { blocks \<leftarrow> initialize_randomx hash key;
          programs \<leftarrow> generate_programs (hash 64) RANDOMX_CACHE_ACCESSES (Blake2Generator_new key 0);
          Some \<lparr> sm_blocks = blocks, sm_programs = programs \<rparr> }"

definition mix_word_index :: "u64 \<Rightarrow> nat \<Rightarrow> nat" where
  "mix_word_index reg_value r = unat (reg_value AND CACHE_LINE_MASK) * CACHE_LINE_WORDS + r"

text \<open>The blocks seen as one flat array of words.\<close>

definition mix_block_value :: "SeedMemory \<Rightarrow> u64 \<Rightarrow> nat \<Rightarrow> u64 option" where
  "mix_block_value seed_mem reg_value r =
     (let flat = concat (sm_blocks seed_mem); word_index = mix_word_index reg_value r
      in if word_index < length flat then Some (flat ! word_index) else None)"

text \<open>One iteration of the loop over the programs; the state is \<open>ds\<close> and \<open>reg_value\<close>.\<close>

definition mix_values :: "SeedMemory \<Rightarrow> u64 \<Rightarrow> u64 list \<Rightarrow> u64 list option" where
  "mix_values seed_mem reg_value ds =
     map_option_list
       (\<lambda>(r, v). do { mix_value \<leftarrow> mix_block_value seed_mem reg_value r; Some (v XOR mix_value) })
       (zip [0..<length ds] ds)"

definition item_step :: "SeedMemory \<Rightarrow> ScProgram \<Rightarrow> u64 list \<times> u64 \<Rightarrow> (u64 list \<times> u64) option" where
  "item_step seed_mem prog = (\<lambda>(ds, reg_value).
     do { ds \<leftarrow> execute prog ds;
          ds \<leftarrow> mix_values seed_mem reg_value ds;
          reg_value \<leftarrow> address_register prog ds;
          Some (ds, reg_value) })"

definition item_start :: "u64 \<Rightarrow> u64 list" where
  "item_start item_num =
     (let d = (item_num + 1) * SUPERSCALAR_MUL_0
      in [d, d XOR SUPERSCALAR_ADD_1, d XOR SUPERSCALAR_ADD_2, d XOR SUPERSCALAR_ADD_3,
          d XOR SUPERSCALAR_ADD_4, d XOR SUPERSCALAR_ADD_5, d XOR SUPERSCALAR_ADD_6,
          d XOR SUPERSCALAR_ADD_7])"

definition init_dataset_item :: "SeedMemory \<Rightarrow> u64 \<Rightarrow> u64 list option" where
  "init_dataset_item seed_mem item_num =
     map_option fst
       (foldl_option (item_step seed_mem) (sm_programs seed_mem) (item_start item_num, item_num))"

section \<open>The memory of the virtual machine\<close>

record VmMemory =
  seed_memory :: SeedMemory

definition VmMemory_no_memory :: VmMemory where
  "VmMemory_no_memory = \<lparr> seed_memory = SeedMemory_no_memory \<rparr>"

definition light :: "(nat \<Rightarrow> u8 list \<Rightarrow> u8 list) \<Rightarrow> u8 list \<Rightarrow> VmMemory option" where
  "light hash key = do { sm \<leftarrow> new_initialised hash key; Some \<lparr> seed_memory = sm \<rparr> }"

definition dataset_read :: "VmMemory \<Rightarrow> u64 \<Rightarrow> u64 list \<Rightarrow> u64 list option" where
  "dataset_read mem offset reg =
     do { let item_num = offset div CACHE_LINE_SIZE;
          rl \<leftarrow> init_dataset_item (seed_memory mem) item_num;
          Some (map2 (XOR) reg rl) }"

section \<open>Specification\<close>

text \<open>The cache line of a register value by block and word, and the item with the reference
  interpreter: every program is followed by one line of the cache.\<close>

definition cache_line :: "Block list \<Rightarrow> u64 \<Rightarrow> u64 list" where
  "cache_line blocks reg_value =
     (let line = unat reg_value mod 2 ^ 22
      in map (\<lambda>r. blocks ! (line div 16) ! (8 * (line mod 16) + r)) [0..<8])"

definition spec_item_step :: "Block list \<Rightarrow> ScProgram \<Rightarrow> u64 list \<times> u64 \<Rightarrow> u64 list \<times> u64" where
  "spec_item_step blocks prog = (\<lambda>(ds, reg_value).
     let ds = map2 (XOR) (the (execute_reference prog ds)) (cache_line blocks reg_value)
     in (ds, ds ! sp_address_reg prog))"

definition dataset_item :: "SeedMemory \<Rightarrow> u64 \<Rightarrow> u64 list" where
  "dataset_item m item_num =
     fst (fold (spec_item_step (sm_blocks m)) (sm_programs m) (item_start item_num, item_num))"

definition prog_runs :: "ScProgram \<Rightarrow> bool" where
  "prog_runs p \<longleftrightarrow> sp_address_reg p < 8 \<and>
     (\<forall>ds. length ds = 8 \<longrightarrow>
        (\<exists>ds'. execute p ds = Some ds' \<and> execute_reference p ds = Some ds' \<and> length ds' = 8))"

definition seed_memory_ok :: "SeedMemory \<Rightarrow> bool" where
  "seed_memory_ok m \<longleftrightarrow>
     (sm_programs m = [] \<or> length (sm_blocks m) = 262144 \<and> blocks_ok (sm_blocks m)) \<and>
     (\<forall>p \<in> set (sm_programs m). prog_runs p)"

lemma generate_prog_runs:
  assumes "generate hash64 g = Some (p, g')"
  shows "prog_runs p"
proof -
  have "sp_address_reg p < 8"
    using generate_runs [OF assms, of "replicate 8 0"] by (auto simp: address_register_def split: if_splits)
  then show ?thesis
    using generate_runs [OF assms] unfolding prog_runs_def by blast
qed

lemma generate_programs_run:
  "generate_programs hash64 n g = Some ps \<Longrightarrow> length ps = n \<and> (\<forall>p \<in> set ps. prog_runs p)"
  by (induction n arbitrary: g ps) (auto simp: bind_eq_Some_conv dest: generate_prog_runs)

lemma generate_programs_total:
  "rejection_ends hash64 \<Longrightarrow> \<exists>ps. generate_programs hash64 n g = Some ps"
proof (induction n arbitrary: g)
  case (Suc n)
  obtain p g' where "generate hash64 g = Some (p, g')" using generate_returns [OF Suc.prems] by blast
  then show ?case using Suc.IH [OF Suc.prems, of g'] by auto
qed simp

lemma new_initialised_ok:
  assumes "digest_length hash" "rejection_ends (hash 64)"
  shows "\<exists>m. new_initialised hash key = Some m \<and> seed_memory_ok m \<and> length (sm_programs m) = 8"
proof -
  obtain ps where "generate_programs (hash 64) RANDOMX_CACHE_ACCESSES (Blake2Generator_new key 0) = Some ps"
    using generate_programs_total [OF assms(2)] by blast
  then show ?thesis
    using generate_programs_run [of "hash 64" RANDOMX_CACHE_ACCESSES _ ps]
      argon2d_fill_ok [OF length_argon2_initial length_argon2_initial, OF assms(1) assms(1)]
    by (simp add: new_initialised_def initialize_randomx_eq [OF assms(1)] seed_memory_ok_def
        RANDOMX_CACHE_ACCESSES_def)
qed

lemma no_memory_ok: "seed_memory_ok SeedMemory_no_memory"
  by (simp add: seed_memory_ok_def SeedMemory_no_memory_def)

section \<open>Flat addressing\<close>

lemma length_concat_blocks: "blocks_ok B \<Longrightarrow> length (concat B) = 128 * length B"
  by (induction B) (simp_all add: blocks_ok_def)

lemma nth_concat_blocks:
  "blocks_ok B \<Longrightarrow> i < 128 * length B \<Longrightarrow> concat B ! i = B ! (i div 128) ! (i mod 128)"
proof (induction B arbitrary: i)
  case (Cons b B)
  then have b: "length b = 128" and B: "blocks_ok B" by (simp_all add: blocks_ok_def)
  show ?case
  proof (cases "i < 128")
    case False
    then have "i div 128 = Suc ((i - 128) div 128)" "i mod 128 = (i - 128) mod 128"
      by (simp_all add: le_div_geq le_mod_geq)
    then show ?thesis using False Cons.IH [OF B, of "i - 128"] Cons.prems(2) b by (simp add: nth_append)
  qed (simp add: b nth_append)
qed simp

lemma cache_constants: "CACHE_LINE_MASK = mask 22" "CACHE_LINE_WORDS = 8"
  by (simp_all add: CACHE_LINE_MASK_def CACHE_LINE_COUNT_def RANDOMX_ARGON_MEMORY_def
      ARGON_BLOCK_SIZE_def CACHE_LINE_SIZE_def CACHE_LINE_WORDS_def mask_eq_decr_exp)

lemma mix_word_index_eq: "mix_word_index v r = 8 * (unat v mod 2 ^ 22) + r"
  unfolding mix_word_index_def cache_constants unat_and_mask_eq by simp

lemma mix_word_index_bound: "r < 8 \<Longrightarrow> mix_word_index v r < 128 * 262144"
proof -
  assume "r < 8"
  moreover have "unat v mod 2 ^ 22 \<le> 2 ^ 22 - 1" by simp
  ultimately show ?thesis unfolding mix_word_index_eq by simp
qed

lemma mix_word_index_block:
  assumes "r < 8"
  shows "mix_word_index v r div 128 = unat v mod 2 ^ 22 div 16"
    "mix_word_index v r mod 128 = 8 * (unat v mod 2 ^ 22 mod 16) + r"
proof -
  define l where "l = unat v mod 2 ^ 22"
  have "8 * l + r = (l div 16) * 128 + (8 * (l mod 16) + r)"
    using mult_div_mod_eq [of 16 l] by linarith
  moreover have "8 * (l mod 16) + r < 128" using assms mod_less_divisor [of 16 l] by linarith
  ultimately show "mix_word_index v r div 128 = unat v mod 2 ^ 22 div 16"
    "mix_word_index v r mod 128 = 8 * (unat v mod 2 ^ 22 mod 16) + r"
    unfolding mix_word_index_eq l_def [symmetric] by (metis div_mod_unique)+
qed

lemma mix_block_value_eq:
  assumes "length (sm_blocks m) = 262144" "blocks_ok (sm_blocks m)" "r < 8"
  shows "mix_block_value m v r = Some (cache_line (sm_blocks m) v ! r)"
proof -
  have "mix_word_index v r < 128 * length (sm_blocks m)"
    using mix_word_index_bound [OF assms(3)] assms(1) by simp
  then show ?thesis
    using assms by (simp add: mix_block_value_def cache_line_def length_concat_blocks nth_concat_blocks
        mix_word_index_block [OF assms(3)] Let_def)
qed

lemma mix_values_eq:
  assumes "length (sm_blocks m) = 262144" "blocks_ok (sm_blocks m)" "length ds = 8"
  shows "mix_values m v ds = Some (map2 (XOR) ds (cache_line (sm_blocks m) v))"
proof -
  have "mix_values m v ds =
      Some (map (\<lambda>(r, x). x XOR cache_line (sm_blocks m) v ! r) (zip [0..<length ds] ds))"
    unfolding mix_values_def
    by (rule map_option_list_eqI)
       (use assms in \<open>auto simp: mix_block_value_eq dest!: set_zip_leftD\<close>)
  also have "map (\<lambda>(r, x). x XOR cache_line (sm_blocks m) v ! r) (zip [0..<length ds] ds) =
      map2 (XOR) ds (cache_line (sm_blocks m) v)"
    using assms(3) by (intro nth_equalityI) (simp_all add: cache_line_def Let_def)
  finally show ?thesis .
qed

section \<open>Dataset items\<close>

lemma item_step_eq:
  assumes "length (sm_blocks m) = 262144" "blocks_ok (sm_blocks m)" "prog_runs p" "length (fst s) = 8"
  shows "item_step m p s = Some (spec_item_step (sm_blocks m) p s)"
    and "length (fst (spec_item_step (sm_blocks m) p s)) = 8"
proof -
  obtain ds v where s: "s = (ds, v)" by (rule prod.exhaust)
  obtain ds' where ds': "execute p ds = Some ds'" "execute_reference p ds = Some ds'" "length ds' = 8"
    using assms(3,4) s unfolding prog_runs_def by auto
  have len: "length (map2 (XOR) ds' (cache_line (sm_blocks m) v)) = 8"
    using ds'(3) by (simp add: cache_line_def Let_def)
  then have "address_register p (map2 (XOR) ds' (cache_line (sm_blocks m) v)) =
      Some (map2 (XOR) ds' (cache_line (sm_blocks m) v) ! sp_address_reg p)"
    using assms(3) by (simp add: address_register_def prog_runs_def)
  then show "item_step m p s = Some (spec_item_step (sm_blocks m) p s)"
    using ds' mix_values_eq [OF assms(1,2) ds'(3)]
    by (simp add: item_step_def spec_item_step_def s Let_def)
  show "length (fst (spec_item_step (sm_blocks m) p s)) = 8"
    using len ds'(2) by (simp add: spec_item_step_def s Let_def)
qed

lemma init_dataset_item_eq:
  assumes "seed_memory_ok m"
  shows "init_dataset_item m n = Some (dataset_item m n)" "length (dataset_item m n) = 8"
proof -
  have start: "length (item_start n) = 8" by (simp add: item_start_def Let_def)
  have "\<exists>s'. foldl_option (item_step m) (sm_programs m) (item_start n, n) = Some s' \<and>
      (s' = fold (spec_item_step (sm_blocks m)) (sm_programs m) (item_start n, n) \<and> length (fst s') = 8)"
  proof (cases "sm_programs m = []")
    case False
    then have B: "length (sm_blocks m) = 262144" "blocks_ok (sm_blocks m)"
      and P: "\<And>p. p \<in> set (sm_programs m) \<Longrightarrow> prog_runs p"
      using assms by (auto simp: seed_memory_ok_def)
    show ?thesis
    proof (rule foldl_option_refine [where R = "\<lambda>s t. s = t \<and> length (fst s) = 8"])
      fix p and s t :: "u64 list \<times> u64"
      assume "p \<in> set (sm_programs m)" "s = t \<and> length (fst s) = 8"
      then show "\<exists>s'. item_step m p s = Some s' \<and>
          s' = spec_item_step (sm_blocks m) p t \<and> length (fst s') = 8"
        using item_step_eq [OF B P, of p s] by blast
    qed (simp add: start)
  qed (simp add: start)
  then obtain s' where "foldl_option (item_step m) (sm_programs m) (item_start n, n) = Some s'"
    "s' = fold (spec_item_step (sm_blocks m)) (sm_programs m) (item_start n, n)" "length (fst s') = 8"
    by blast
  then show "init_dataset_item m n = Some (dataset_item m n)" "length (dataset_item m n) = 8"
    by (simp_all add: init_dataset_item_def dataset_item_def)
qed

section \<open>The interface to the virtual machine\<close>

text \<open>A dataset of 64-byte items: a read adds the item of the line of the offset to the registers.\<close>

locale dataset =
  fixes valid :: "'m \<Rightarrow> bool"
    and dsread :: "'m \<Rightarrow> u64 \<Rightarrow> u64 list \<Rightarrow> u64 list option"
    and item :: "'m \<Rightarrow> u64 \<Rightarrow> u64 list"
  assumes length_item: "valid m \<Longrightarrow> length (item m n) = 8"
    and dsread_item: "valid m \<Longrightarrow> length reg = 8 \<Longrightarrow>
      dsread m offset reg = Some (map2 (XOR) reg (item m (offset div 64)))"
begin

lemma dsread_returns:
  assumes "valid m" "length reg = 8"
  shows "\<exists>reg'. dsread m offset reg = Some reg' \<and> length reg' = 8"
  using assms by (simp add: dsread_item length_item)

lemma dsread_same_line:
  assumes "valid m" "length reg = 8" "o1 div 64 = o2 div 64"
  shows "dsread m o1 reg = dsread m o2 reg"
  using assms by (simp add: dsread_item)

lemma dsread_twice:
  assumes "valid m" "length reg = 8"
  shows "Option.bind (dsread m offset reg) (dsread m offset) = Some reg"
proof -
  let ?i = "item m (offset div 64)"
  have "map2 (XOR) (map2 (XOR) reg ?i) ?i = reg"
    using assms by (intro nth_equalityI) (simp_all add: length_item)
  then show ?thesis using assms by (simp add: dsread_item length_item)
qed

end

definition vm_memory_ok :: "VmMemory \<Rightarrow> bool" where
  "vm_memory_ok mem \<longleftrightarrow> seed_memory_ok (seed_memory mem)"

interpretation ds: dataset vm_memory_ok dataset_read "\<lambda>mem. dataset_item (seed_memory mem)"
proof unfold_locales
  fix mem n and reg :: "u64 list" and offset
  assume "vm_memory_ok mem"
  then show "length (dataset_item (seed_memory mem) n) = 8"
    and "length reg = 8 \<Longrightarrow> dataset_read mem offset reg =
      Some (map2 (XOR) reg (dataset_item (seed_memory mem) (offset div 64)))"
    by (simp_all add: vm_memory_ok_def dataset_read_def init_dataset_item_eq CACHE_LINE_SIZE_def)
qed

section \<open>Properties\<close>

lemma const_digest: "digest_length (\<lambda>n x. replicate n 7)" "rejection_ends ((\<lambda>n x. replicate n 7) 64)"
proof -
  have "(\<lambda>x :: u8 list. replicate 64 (7 :: u8)) = const_hash" by (simp add: const_hash_def fun_eq_iff)
  then show "rejection_ends ((\<lambda>n x. replicate n 7) 64)" using const_hash_ends by simp
qed (simp add: digest_length_def)

text \<open>C13: The light-mode memory of every key is built, with eight programs, and a read at any offset
  then returns the registers with the dataset item of that offset's line added: every cache access of
  the derivation is inside the allocation and is the block and word the specification names, and the
  optimised superscalar executor computes the specified programs.\<close>

theorem light_dataset_correct:
  assumes "digest_length hash" "rejection_ends (hash 64)" "length reg = 8"
  shows "\<exists>mem. light hash key = Some mem \<and> length (sm_programs (seed_memory mem)) = 8 \<and>
    (\<forall>offset. dataset_read mem offset reg =
       Some (map2 (XOR) reg (dataset_item (seed_memory mem) (offset div 64))))"
proof -
  obtain m where m: "new_initialised hash key = Some m" "seed_memory_ok m" "length (sm_programs m) = 8"
    using new_initialised_ok [OF assms(1,2)] by blast
  then have "vm_memory_ok \<lparr> seed_memory = m \<rparr>" by (simp add: vm_memory_ok_def)
  then show ?thesis using m ds.dsread_item [OF _ assms(3)] by (simp add: light_def)
qed

theorem light_dataset_correct_witness:
  "\<exists>mem. light (\<lambda>n x. replicate n 7) [1, 2] = Some mem \<and>
     dataset_read mem 128 [0, 1, 2, 3, 4, 5, 6, 7] =
       Some (map2 (XOR) [0, 1, 2, 3, 4, 5, 6, 7] (dataset_item (seed_memory mem) (128 div 64)))"
  using light_dataset_correct [OF const_digest, of "[0, 1, 2, 3, 4, 5, 6, 7]" "[1, 2]"] by auto

end
