(* ===== verification/Program.thy ===== *)
theory Program
  imports Common M128 Superscalar
begin

text \<open>
  Model of \<open>randomx-core/src/program.rs\<close>: the decoded form of a RandomX program and its decoder.
  An \<open>i64\<close> or \<open>i32\<close> value is the word of its bits; program indices and branch targets,
  which stay between -1 and 255, are integers. The function pointer \<open>effect\<close> of an instruction
  is a value of the datatype \<open>Effect\<close>; \<open>Vm\<close> defines what each of them does. The \<open>Display\<close>
  implementations are in \<open>ProgramText\<close>. The lemmas describe what the decoder produces: every operand is
  a register the effect accepts, and a branch target lies after every earlier write of its register
  and every earlier branch.
\<close>

section \<open>Instructions\<close>

definition MAX_FLOAT_REG :: nat where "MAX_FLOAT_REG = 4"
definition MAX_REG :: nat where "MAX_REG = 8"
definition STORE_L3_CONDITION :: u8 where "STORE_L3_CONDITION = 14"
definition SCRATCHPAD_L3_MASK :: u64 where "SCRATCHPAD_L3_MASK = 0x1ffff8"

datatype Opcode =
  NOP | IADD_RS | IADD_M | ISUB_R | ISUB_M | IMUL_R | IMUL_M | IMULH_R | IMULH_M | ISMULH_R
  | ISMULH_M | IMUL_RCP | INEG_R | IXOR_R | IXOR_M | IROR_R | IROL_R | ISWAP_R | FSWAP_R
  | FADD_R | FADD_M | FSUB_R | FSUB_M | FSCAL_R | FMUL_R | FDIV_M | FSQRT_R | CBRANCH | CFROUND
  | ISTORE

text \<open>The discriminants: the first opcode byte after the range of the instruction.\<close>

fun opcode_bound :: "Opcode \<Rightarrow> nat" where
  "opcode_bound NOP = 0"
| "opcode_bound IADD_RS = 16"
| "opcode_bound IADD_M = 23"
| "opcode_bound ISUB_R = 39"
| "opcode_bound ISUB_M = 46"
| "opcode_bound IMUL_R = 62"
| "opcode_bound IMUL_M = 66"
| "opcode_bound IMULH_R = 70"
| "opcode_bound IMULH_M = 71"
| "opcode_bound ISMULH_R = 75"
| "opcode_bound ISMULH_M = 76"
| "opcode_bound IMUL_RCP = 84"
| "opcode_bound INEG_R = 86"
| "opcode_bound IXOR_R = 101"
| "opcode_bound IXOR_M = 106"
| "opcode_bound IROR_R = 114"
| "opcode_bound IROL_R = 116"
| "opcode_bound ISWAP_R = 120"
| "opcode_bound FSWAP_R = 124"
| "opcode_bound FADD_R = 140"
| "opcode_bound FADD_M = 145"
| "opcode_bound FSUB_R = 161"
| "opcode_bound FSUB_M = 166"
| "opcode_bound FSCAL_R = 172"
| "opcode_bound FMUL_R = 204"
| "opcode_bound FDIV_M = 208"
| "opcode_bound FSQRT_R = 214"
| "opcode_bound CBRANCH = 239"
| "opcode_bound CFROUND = 240"
| "opcode_bound ISTORE = 256"

datatype Store =
  Store_NONE | Store_R nat | Store_F nat | Store_E nat | Store_A nat | Store_Imm
| Store_L1 Store | Store_L2 Store | Store_L3 Store

definition REG_NEEDS_DISPLACEMENT :: Store where
  "REG_NEEDS_DISPLACEMENT = Store_R REG_NEEDS_DISPLACEMENT_IX"

datatype Mode = Mode_None | Mode_Cond u8 | Mode_Shft u8

datatype Effect =
  Vm_nop | Vm_exec_iadd_rs | Vm_exec_iadd_m | Vm_exec_isub_r | Vm_exec_isub_m | Vm_exec_imul_r
  | Vm_exec_imul_m | Vm_exec_imulh_r | Vm_exec_imulh_m | Vm_exec_ismulh_r | Vm_exec_ismulh_m
  | Vm_exec_imul_rcp | Vm_exec_ineg_r | Vm_exec_ixor_r | Vm_exec_ixor_m | Vm_exec_iror_r
  | Vm_exec_irol_r | Vm_exec_iswap_r | Vm_exec_fswap_r | Vm_exec_fadd_r | Vm_exec_fadd_m
  | Vm_exec_fsub_r | Vm_exec_fsub_m | Vm_exec_fscal_r | Vm_exec_fmul_r | Vm_exec_fdiv_m
  | Vm_exec_fsqrt_r | Vm_exec_cbranch | Vm_exec_cfround | Vm_exec_istore

record Instr =
  i_op :: Opcode
  i_src :: Store
  i_dst :: Store
  i_imm :: "u32 option"
  i_unsigned_imm :: bool
  i_mode :: Mode
  i_target :: "int option"
  i_reciprocal :: u64
  i_effect :: Effect

section \<open>Operand helpers\<close>

definition r_reg :: "nat \<Rightarrow> Store" where "r_reg dst = Store_R (dst mod MAX_REG)"
definition a_reg :: "nat \<Rightarrow> Store" where "a_reg dst = Store_A (dst mod MAX_FLOAT_REG)"

definition e_reg_ix :: "nat \<Rightarrow> Store" where
  "e_reg_ix ix = (if ix < 4 then Store_E ix else Store_E 0)"

definition e_reg :: "nat \<Rightarrow> Store" where "e_reg dst = e_reg_ix (dst mod MAX_FLOAT_REG)"

definition f_reg_ix :: "nat \<Rightarrow> Store" where
  "f_reg_ix ix = (if ix < 4 then Store_F ix else Store_F 0)"

definition f_reg :: "nat \<Rightarrow> Store" where "f_reg dst = f_reg_ix (dst mod MAX_FLOAT_REG)"

definition mod_mem_u8 :: "u8 \<Rightarrow> u8" where "mod_mem_u8 modi = modi mod 4"
definition mod_cond_u8 :: "u8 \<Rightarrow> u8" where "mod_cond_u8 modi = drop_bit 4 modi"
definition mod_cond :: "u8 \<Rightarrow> Mode" where "mod_cond modi = Mode_Cond (mod_cond_u8 modi)"
definition mod_shft :: "u8 \<Rightarrow> Mode" where "mod_shft modi = Mode_Shft (drop_bit 2 modi mod 4)"

definition l_cache :: "nat \<Rightarrow> u8 \<Rightarrow> Store" where
  "l_cache dst modi =
     (let reg = r_reg dst; cnd = mod_cond_u8 modi in
      if cnd < STORE_L3_CONDITION
      then if mod_mem_u8 modi = 0 then Store_L2 reg else Store_L1 reg
      else Store_L3 reg)"

definition l12_cache :: "nat \<Rightarrow> u8 \<Rightarrow> Store" where
  "l12_cache src modi =
     (let reg = r_reg src in if mod_mem_u8 modi = 0 then Store_L2 reg else Store_L1 reg)"

definition is_zero_or_power_of_2 :: "u64 \<Rightarrow> bool" where
  "is_zero_or_power_of_2 imm \<longleftrightarrow> imm AND (imm - 1) = 0"

section \<open>Constructors\<close>

definition new_instr :: "Opcode \<Rightarrow> Store \<Rightarrow> Store \<Rightarrow> u32 \<Rightarrow> Mode \<Rightarrow> Effect \<Rightarrow> Instr" where
  "new_instr opc dst src imm mode eff =
     (if src = dst
      then \<lparr> i_op = opc, i_src = Store_NONE, i_dst = dst, i_imm = Some imm, i_unsigned_imm = False,
             i_mode = mode, i_target = None, i_reciprocal = 0, i_effect = eff \<rparr>
      else \<lparr> i_op = opc, i_src = src, i_dst = dst, i_imm = None, i_unsigned_imm = False,
             i_mode = mode, i_target = None, i_reciprocal = 0, i_effect = eff \<rparr>)"

definition new_imm_instr :: "Opcode \<Rightarrow> Store \<Rightarrow> u32 \<Rightarrow> Mode \<Rightarrow> Effect \<Rightarrow> Instr" where
  "new_imm_instr opc dst imm mode eff =
     \<lparr> i_op = opc, i_src = Store_NONE, i_dst = dst, i_imm = Some imm, i_unsigned_imm = False,
       i_mode = mode, i_target = None, i_reciprocal = 0, i_effect = eff \<rparr>"

definition new_lcache_instr :: "Opcode \<Rightarrow> Store \<Rightarrow> nat \<Rightarrow> u32 \<Rightarrow> u8 \<Rightarrow> Effect \<Rightarrow> Instr" where
  "new_lcache_instr opc dst_reg src imm modi eff =
     (if r_reg src = dst_reg
      then \<lparr> i_op = opc, i_src = Store_L3 Store_Imm, i_dst = dst_reg,
             i_imm = Some (imm AND ucast SCRATCHPAD_L3_MASK), i_unsigned_imm = False,
             i_mode = Mode_None, i_target = None, i_reciprocal = 0, i_effect = eff \<rparr>
      else \<lparr> i_op = opc, i_src = l12_cache src modi, i_dst = dst_reg, i_imm = Some imm,
             i_unsigned_imm = False, i_mode = Mode_None, i_target = None, i_reciprocal = 0,
             i_effect = eff \<rparr>)"

text \<open>The literal \<open>Instr { .. }\<close> with the fields that most branches share.\<close>

definition plain_instr ::
  "Opcode \<Rightarrow> Store \<Rightarrow> Store \<Rightarrow> u32 option \<Rightarrow> Mode \<Rightarrow> int option \<Rightarrow> Effect \<Rightarrow> Instr" where
  "plain_instr opc dst src imm mode target eff =
     \<lparr> i_op = opc, i_src = src, i_dst = dst, i_imm = imm, i_unsigned_imm = False, i_mode = mode,
       i_target = target, i_reciprocal = 0, i_effect = eff \<rparr>"

section \<open>The decoder\<close>

text \<open>The fields of the instruction word. The 64-bit value is signed in the source: the last shift
  is arithmetic, and the truncation that follows drops the sign bits.\<close>

definition ins_op :: "u64 \<Rightarrow> nat" where "ins_op bytes = unat (bytes AND 0xFF)"
definition ins_dst :: "u64 \<Rightarrow> nat" where "ins_dst bytes = unat (drop_bit 8 (bytes AND 0xFF00))"
definition ins_src :: "u64 \<Rightarrow> nat" where "ins_src bytes = unat (drop_bit 16 (bytes AND 0xFF0000))"
definition ins_modi :: "u64 \<Rightarrow> u8" where "ins_modi bytes = ucast (drop_bit 24 (bytes AND 0xFF000000))"
definition ins_imm :: "u64 \<Rightarrow> u32" where
  "ins_imm bytes = ucast (signed_drop_bit 32 (bytes AND 0xFFFFFFFF00000000))"

text \<open>The branches of the decoder, last group first: floating point, branch, rounding and
  store.\<close>

definition decode_float_control :: "u64 \<Rightarrow> int \<Rightarrow> int list \<Rightarrow> (Instr \<times> int list) option" where
  "decode_float_control bytes i usage =
     (let opc = ins_op bytes; dst = ins_dst bytes; src = ins_src bytes;
          modi = ins_modi bytes; imm = ins_imm bytes
      in if opc < opcode_bound FSWAP_R
         then (let dst_ix = dst mod MAX_REG
            in if dst_ix \<ge> MAX_FLOAT_REG
               then Some (new_instr FSWAP_R (e_reg_ix (dst_ix mod MAX_FLOAT_REG)) Store_NONE imm Mode_None
                            Vm_exec_fswap_r, usage)
               else Some (new_instr FSWAP_R (f_reg_ix (dst_ix mod MAX_FLOAT_REG)) Store_NONE imm Mode_None
                            Vm_exec_fswap_r, usage))
         else if opc < opcode_bound FADD_R
         then Some (new_instr FADD_R (f_reg dst) (a_reg src) imm Mode_None Vm_exec_fadd_r, usage)
         else if opc < opcode_bound FADD_M
         then Some (new_lcache_instr FADD_M (f_reg dst) src imm modi Vm_exec_fadd_m, usage)
         else if opc < opcode_bound FSUB_R
         then Some (new_instr FSUB_R (f_reg dst) (a_reg src) imm Mode_None Vm_exec_fsub_r, usage)
         else if opc < opcode_bound FSUB_M
         then Some (new_lcache_instr FSUB_M (f_reg dst) src imm modi Vm_exec_fsub_m, usage)
         else if opc < opcode_bound FSCAL_R
         then Some (new_instr FSCAL_R (f_reg dst) Store_NONE imm Mode_None Vm_exec_fscal_r, usage)
         else if opc < opcode_bound FMUL_R
         then Some (new_instr FMUL_R (e_reg dst) (a_reg src) imm Mode_None Vm_exec_fmul_r, usage)
         else if opc < opcode_bound FDIV_M
         then Some (new_lcache_instr FDIV_M (e_reg dst) src imm modi Vm_exec_fdiv_m, usage)
         else if opc < opcode_bound FSQRT_R
         then Some (new_instr FSQRT_R (e_reg dst) Store_NONE imm Mode_None Vm_exec_fsqrt_r, usage)
         else if opc < opcode_bound CBRANCH
         then Some (plain_instr CBRANCH (r_reg dst) Store_NONE (Some imm) (mod_cond modi)
                   (Some (usage ! (dst mod MAX_REG))) Vm_exec_cbranch, replicate MAX_REG i)
         else if opc < opcode_bound CFROUND
         then Some (plain_instr CFROUND Store_NONE (r_reg src) (Some (imm AND 63)) Mode_None None
                   Vm_exec_cfround, usage)
         else if opc < opcode_bound ISTORE
         then Some (plain_instr ISTORE (l_cache dst modi) (r_reg src) (Some imm) Mode_None None
                   Vm_exec_istore, usage)
         else Some (new_instr NOP Store_NONE Store_NONE imm Mode_None Vm_nop, usage))"

text \<open>The rest of the integer instructions.\<close>

definition decode_integer_rest :: "u64 \<Rightarrow> int \<Rightarrow> int list \<Rightarrow> (Instr \<times> int list) option" where
  "decode_integer_rest bytes i usage =
     (let opc = ins_op bytes; dst = ins_dst bytes; src = ins_src bytes;
          modi = ins_modi bytes; imm = ins_imm bytes;
          used = usage[dst mod MAX_REG := i]
      in if opc < opcode_bound INEG_R
         then Some (new_instr INEG_R (r_reg dst) Store_NONE imm Mode_None Vm_exec_ineg_r, used)
         else if opc < opcode_bound IXOR_R
         then Some (new_instr IXOR_R (r_reg dst) (r_reg src) imm Mode_None Vm_exec_ixor_r, used)
         else if opc < opcode_bound IXOR_M
         then Some (new_lcache_instr IXOR_M (r_reg dst) src imm modi Vm_exec_ixor_m, used)
         else if opc < opcode_bound IROR_R
         then Some (new_instr IROR_R (r_reg dst) (r_reg src) (imm AND 63) Mode_None Vm_exec_iror_r, used)
         else if opc < opcode_bound IROL_R
         then Some (new_instr IROL_R (r_reg dst) (r_reg src) (imm AND 63) Mode_None Vm_exec_irol_r, used)
         else if opc < opcode_bound ISWAP_R
         then (let dst_r = dst mod MAX_REG; src_r = src mod MAX_REG
            in if src_r \<noteq> dst_r
               then Some (plain_instr ISWAP_R (r_reg dst) (r_reg src) None Mode_None None Vm_exec_iswap_r,
                          usage[dst_r := i, src_r := i])
               else Some (new_instr NOP Store_NONE Store_NONE imm Mode_None Vm_nop, usage))
         else decode_float_control bytes i usage)"

text \<open>\<open>decode_instruction\<close>; \<open>None\<close> is the panic of a division by zero in
  \<open>randomx_reciprocal\<close>.\<close>

definition decode_instruction :: "u64 \<Rightarrow> int \<Rightarrow> int list \<Rightarrow> (Instr \<times> int list) option" where
  "decode_instruction bytes i usage =
     (let opc = ins_op bytes; dst = ins_dst bytes; src = ins_src bytes;
          modi = ins_modi bytes; imm = ins_imm bytes;
          used = usage[dst mod MAX_REG := i]
      in if opc < opcode_bound IADD_RS
         then Some (plain_instr IADD_RS (r_reg dst) (r_reg src)
                   (if r_reg dst = REG_NEEDS_DISPLACEMENT then Some imm else None)
                   (mod_shft modi) None Vm_exec_iadd_rs, used)
         else if opc < opcode_bound IADD_M
         then Some (new_lcache_instr IADD_M (r_reg dst) src imm modi Vm_exec_iadd_m, used)
         else if opc < opcode_bound ISUB_R
         then Some (new_instr ISUB_R (r_reg dst) (r_reg src) imm Mode_None Vm_exec_isub_r, used)
         else if opc < opcode_bound ISUB_M
         then Some (new_lcache_instr ISUB_M (r_reg dst) src imm modi Vm_exec_isub_m, used)
         else if opc < opcode_bound IMUL_R
         then Some (new_instr IMUL_R (r_reg dst) (r_reg src) imm Mode_None Vm_exec_imul_r, used)
         else if opc < opcode_bound IMUL_M
         then Some (new_lcache_instr IMUL_M (r_reg dst) src imm modi Vm_exec_imul_m, used)
         else if opc < opcode_bound IMULH_R
         then Some (plain_instr IMULH_R (r_reg dst) (r_reg src) None Mode_None None Vm_exec_imulh_r, used)
         else if opc < opcode_bound IMULH_M
         then Some (new_lcache_instr IMULH_M (r_reg dst) src imm modi Vm_exec_imulh_m, used)
         else if opc < opcode_bound ISMULH_R
         then Some (plain_instr ISMULH_R (r_reg dst) (r_reg src) None Mode_None None Vm_exec_ismulh_r, used)
         else if opc < opcode_bound ISMULH_M
         then Some (new_lcache_instr ISMULH_M (r_reg dst) src imm modi Vm_exec_ismulh_m, used)
         else if opc < opcode_bound IMUL_RCP
         then (let divisor = ucast imm;
                instr = (new_imm_instr IMUL_RCP (r_reg dst) imm Mode_None Vm_exec_imul_rcp)
                          \<lparr> i_unsigned_imm := True \<rparr>
            in if is_zero_or_power_of_2 divisor then Some (instr, usage)
               else do { reciprocal \<leftarrow> randomx_reciprocal divisor;
                         Some (instr\<lparr> i_reciprocal := reciprocal \<rparr>, used) })
         else decode_integer_rest bytes i usage)"

section \<open>Programs\<close>

record Program =
  p_entropy :: "u64 list"
  p_program :: "Instr list"
  p_register_usage :: "int list"

text \<open>The loop over the instruction words, two instructions for each 128-bit word.\<close>

primrec decode_words :: "u64 list \<Rightarrow> int \<Rightarrow> int list \<Rightarrow> (Instr list \<times> int list) option" where
  "decode_words [] i usage = Some ([], usage)"
| "decode_words (w # ws) i usage =
     do { (instr, usage) \<leftarrow> decode_instruction w i usage;
          (instrs, usage) \<leftarrow> decode_words ws (i + 1) usage;
          Some (instr # instrs, usage) }"

definition m128i_halves :: "m128i \<Rightarrow> u64 list" where
  "m128i_halves v = (let (hi, lo) = as_i64 v in [lo, hi])"

text \<open>Fewer than eight words underflow the capacity computation, which panics.\<close>

definition from_bytes :: "m128i list \<Rightarrow> Program option" where
  "from_bytes bytes =
     (if length bytes < 8 then None
      else do { (program, usage) \<leftarrow> decode_words (concat (map m128i_halves (drop 8 bytes))) 0
                  (replicate MAX_REG (-1));
                Some \<lparr> p_entropy = concat (map m128i_halves (take 8 bytes)),
                       p_program = program, p_register_usage = usage \<rparr> })"

end
