(* ===== verification/Vm.thy ===== *)
theory Vm
  imports AesHash Memory Program Registers
begin

text \<open>
  Model of the reference virtual machine, \<open>randomx-core/src/vm.rs\<close>: the machine state, program
  set-up, the effect of every instruction, the iteration loop and the hash. \<open>None\<close> is a panic
  (an operand of the wrong kind, an index out of range, a failed assertion). The floating-point
  control register of the host, which \<open>set_rounding_mode_env\<close> writes and the arithmetic of
  doubles obeys, is the field \<open>fp_env\<close>; on a target without one it is \<open>No_env\<close> and
  arithmetic rounds to nearest. The instruction loop, which has no counter, is a
  \<open>partial_function\<close>; \<open>VmTermination\<close> shows that it ends.
\<close>

section \<open>Constants\<close>

definition SCRATCHPAD_L1_MASK :: u64 where "SCRATCHPAD_L1_MASK = 0x3ff8"
definition SCRATCHPAD_L2_MASK :: u64 where "SCRATCHPAD_L2_MASK = 0x3fff8"
definition SCRATCHPAD_L3_MASK_U32 :: u32 where "SCRATCHPAD_L3_MASK_U32 = 0x1fffc0"
definition SCRATCHPAD_SIZE :: nat where "SCRATCHPAD_SIZE = 262144"
definition CONDITION_OFFSET :: nat where "CONDITION_OFFSET = 8"
definition CONDITION_MASK :: u64 where "CONDITION_MASK = push_bit CONDITION_OFFSET 1 - 1"
definition RANDOMX_PROGRAM_COUNT :: nat where "RANDOMX_PROGRAM_COUNT = 8"
definition RANDOMX_PROGRAM_SIZE :: int where "RANDOMX_PROGRAM_SIZE = 256"
definition RANDOMX_PROGRAM_ITERATIONS :: nat where "RANDOMX_PROGRAM_ITERATIONS = 2048"
definition RANDOMX_DATASET_BASE_SIZE :: u64 where "RANDOMX_DATASET_BASE_SIZE = 2147483648"
definition RANDOMX_DATASET_ITEM_SIZE :: u64 where "RANDOMX_DATASET_ITEM_SIZE = 64"
definition RANDOMX_DATASET_EXTRA_SIZE :: u64 where "RANDOMX_DATASET_EXTRA_SIZE = 33554368"
definition RANDOMX_HASH_SIZE :: nat where "RANDOMX_HASH_SIZE = 32"
definition DATASET_EXTRA_ITEMS :: u64 where
  "DATASET_EXTRA_ITEMS = RANDOMX_DATASET_EXTRA_SIZE div RANDOMX_DATASET_ITEM_SIZE"
definition MANTISSA_SIZE :: nat where "MANTISSA_SIZE = 52"
definition MANTISSA_MASK :: u64 where "MANTISSA_MASK = push_bit MANTISSA_SIZE 1 - 1"
definition EXPONENT_SIZE :: nat where "EXPONENT_SIZE = 11"
definition EXPONENT_BIAS :: u64 where "EXPONENT_BIAS = 1023"
definition EXPONENT_MASK :: u64 where "EXPONENT_MASK = push_bit EXPONENT_SIZE 1 - 1"
definition EXPONENT_BITS :: u64 where "EXPONENT_BITS = 0x300"
definition DYNAMIC_EXPONENT_BITS :: nat where "DYNAMIC_EXPONENT_BITS = 4"
definition STATIC_EXPONENT_BITS :: nat where "STATIC_EXPONENT_BITS = 4"
definition DYNAMIC_MANTISSA_MASK :: u64 where
  "DYNAMIC_MANTISSA_MASK = push_bit (MANTISSA_SIZE + DYNAMIC_EXPONENT_BITS) 1 - 1"
definition CACHE_LINE_ALIGN_MASK :: u64 where
  "CACHE_LINE_ALIGN_MASK = (RANDOMX_DATASET_BASE_SIZE - 1) AND NOT (RANDOMX_DATASET_ITEM_SIZE - 1)"

section \<open>The floating-point environment\<close>

text \<open>The control register of the host: MXCSR on x86-64, FPCR on AArch64, none elsewhere.\<close>

datatype FpEnv = Mxcsr u32 | Fpcr u64 | No_env

text \<open>The rounding mode a register selects: bits 13 and 14 of MXCSR, bits 22 and 23 of FPCR.\<close>

fun env_mode :: "FpEnv \<Rightarrow> RoundingMode" where
  "env_mode (Mxcsr m) =
     (let rc = drop_bit 13 m AND 3 in
      if rc = 0 then Nearest else if rc = 1 then Down else if rc = 2 then Up else TowardZero)"
| "env_mode (Fpcr c) =
     (let rmode = drop_bit 22 c AND 3 in
      if rmode = 0 then Nearest else if rmode = 1 then Up else if rmode = 2 then Down else TowardZero)"
| "env_mode No_env = Nearest"

fun set_rounding_mode_env :: "u32 \<Rightarrow> FpEnv \<Rightarrow> FpEnv" where
  "set_rounding_mode_env mode (Mxcsr m) =
     (let mxcsr_mode = (if mode = 1 then 0x2000 else if mode = 2 then 0x4000
                        else if mode = 3 then 0x6000 else 0)
      in Mxcsr ((m AND NOT 0x6000) OR mxcsr_mode))"
| "set_rounding_mode_env mode (Fpcr c) =
     (let arm_mode = (if mode = 1 then 2 else if mode = 2 then 1 else if mode = 3 then 3 else 0)
      in Fpcr ((c AND NOT (push_bit 22 3)) OR push_bit 22 arm_mode))"
| "set_rounding_mode_env mode No_env = No_env"

section \<open>Machine state\<close>

record MemoryRegister =
  mx :: u64
  ma :: u64

record Register =
  reg_r :: "u64 list"
  reg_f :: "m128d list"
  reg_e :: "m128d list"
  reg_a :: "m128d list"

definition new_register :: Register where
  "new_register = \<lparr> reg_r = replicate MAX_REG 0, reg_f = replicate MAX_FLOAT_REG m128d_zero,
     reg_e = replicate MAX_FLOAT_REG m128d_zero, reg_a = replicate MAX_FLOAT_REG m128d_zero \<rparr>"

text \<open>The sequence of \<open>copy_into_le\<close> calls at increasing offsets.\<close>

definition float_bytes :: "m128d \<Rightarrow> u8 list" where
  "float_bytes v = (let (h, l) = as_u64 v in to_le_bytes 8 l @ to_le_bytes 8 h)"

definition to_bytes :: "Register \<Rightarrow> u8 list" where
  "to_bytes reg = concat (map (to_le_bytes 8) (reg_r reg)) @ concat (map float_bytes (reg_f reg))
     @ concat (map float_bytes (reg_e reg)) @ concat (map float_bytes (reg_a reg))"

record VmConfig =
  e_mask :: "u64 list"
  read_reg :: "nat list"

record Vm =
  mem_reg :: MemoryRegister
  reg :: Register
  scratchpad :: "u64 list"
  vm_pc :: int
  config :: VmConfig
  mem :: VmMemory
  dataset_offset :: u64
  rounding_mode :: u8
  fp_env :: FpEnv

definition new_vm :: "VmMemory \<Rightarrow> FpEnv \<Rightarrow> Vm" where
  "new_vm m env =
     \<lparr> mem_reg = \<lparr> mx = 0, ma = 0 \<rparr>, reg = new_register, scratchpad = replicate SCRATCHPAD_SIZE 0,
       vm_pc = 0, config = \<lparr> e_mask = replicate 2 0, read_reg = replicate 4 0 \<rparr>, mem = m,
       dataset_offset = 0, rounding_mode = 0, fp_env = env \<rparr>"

text \<open>Updates of the register groups and checked indexing.\<close>

abbreviation upd_r :: "u64 list \<Rightarrow> Vm \<Rightarrow> Vm" where
  "upd_r xs vm \<equiv> vm\<lparr> reg := (reg vm)\<lparr> reg_r := xs \<rparr> \<rparr>"
abbreviation upd_f :: "m128d list \<Rightarrow> Vm \<Rightarrow> Vm" where
  "upd_f xs vm \<equiv> vm\<lparr> reg := (reg vm)\<lparr> reg_f := xs \<rparr> \<rparr>"
abbreviation upd_e :: "m128d list \<Rightarrow> Vm \<Rightarrow> Vm" where
  "upd_e xs vm \<equiv> vm\<lparr> reg := (reg vm)\<lparr> reg_e := xs \<rparr> \<rparr>"
abbreviation upd_a :: "m128d list \<Rightarrow> Vm \<Rightarrow> Vm" where
  "upd_a xs vm \<equiv> vm\<lparr> reg := (reg vm)\<lparr> reg_a := xs \<rparr> \<rparr>"

definition arr_get :: "'a list \<Rightarrow> nat \<Rightarrow> 'a option" where
  "arr_get xs i = (if i < length xs then Some (xs ! i) else None)"

definition arr_set :: "'a list \<Rightarrow> nat \<Rightarrow> 'a \<Rightarrow> 'a list option" where
  "arr_set xs i v = (if i < length xs then Some (xs[i := v]) else None)"

section \<open>Program set-up\<close>

definition small_positive_float_bit :: "u64 \<Rightarrow> u64" where
  "small_positive_float_bit entropy =
     (let exponent = drop_bit 59 entropy;
          mantissa = entropy AND MANTISSA_MASK;
          exponent = exponent + EXPONENT_BIAS;
          exponent = exponent AND EXPONENT_MASK;
          exponent = push_bit MANTISSA_SIZE exponent
      in exponent OR mantissa)"

definition static_exponent :: "u64 \<Rightarrow> u64" where
  "static_exponent entropy =
     (let exponent = EXPONENT_BITS OR
            push_bit DYNAMIC_EXPONENT_BITS (drop_bit (64 - STATIC_EXPONENT_BITS) entropy)
      in push_bit MANTISSA_SIZE exponent)"

definition float_mask :: "u64 \<Rightarrow> u64" where
  "float_mask entropy =
     (let mask22bit = push_bit 22 1 - 1 in (entropy AND mask22bit) OR static_exponent entropy)"

text \<open>\<open>init_vm\<close> for the sixteen words of entropy; shorter entropy panics.\<close>

definition init_vm :: "u64 list \<Rightarrow> Vm \<Rightarrow> Vm option" where
  "init_vm en vm =
     (if length en < 16 then None
      else Some (vm\<lparr>
        reg := (reg vm)\<lparr>
          reg_r := replicate MAX_REG 0,
          reg_a :=
            [m128d_from_u64 (small_positive_float_bit (en ! 1)) (small_positive_float_bit (en ! 0)),
             m128d_from_u64 (small_positive_float_bit (en ! 3)) (small_positive_float_bit (en ! 2)),
             m128d_from_u64 (small_positive_float_bit (en ! 5)) (small_positive_float_bit (en ! 4)),
             m128d_from_u64 (small_positive_float_bit (en ! 7)) (small_positive_float_bit (en ! 6))] \<rparr>,
        mem_reg := \<lparr> mx = ucast (ucast (en ! 10) :: u32),
                     ma = ucast (ucast (en ! 8 AND CACHE_LINE_ALIGN_MASK) :: u32) \<rparr>,
        config := \<lparr> e_mask = [float_mask (en ! 14), float_mask (en ! 15)],
                    read_reg = [unat (en ! 12 AND 1), 2 + unat (drop_bit 1 (en ! 12) AND 1),
                                4 + unat (drop_bit 2 (en ! 12) AND 1),
                                6 + unat (drop_bit 3 (en ! 12) AND 1)] \<rparr>,
        dataset_offset := (en ! 13 mod (DATASET_EXTRA_ITEMS + 1)) * CACHE_LINE_SIZE \<rparr>))"

definition init_scratchpad :: "seed \<Rightarrow> Vm \<Rightarrow> (seed \<times> Vm) option" where
  "init_scratchpad sd vm =
     do { (pad, sd) \<leftarrow> fill_aes_1rx4_u64 sd (length (scratchpad vm));
          Some (sd, vm\<lparr> scratchpad := pad \<rparr>) }"

definition reset_rounding_mode :: "Vm \<Rightarrow> Vm" where
  "reset_rounding_mode vm = vm\<lparr> rounding_mode := 0, fp_env := set_rounding_mode_env 0 (fp_env vm) \<rparr>"

definition set_rounding_mode :: "u32 \<Rightarrow> Vm \<Rightarrow> Vm option" where
  "set_rounding_mode mode vm =
     (if mode < 4
      then Some (vm\<lparr> rounding_mode := ucast mode, fp_env := set_rounding_mode_env mode (fp_env vm) \<rparr>)
      else None)"

definition get_rounding_mode :: "Vm \<Rightarrow> u32" where
  "get_rounding_mode vm = ucast (rounding_mode vm)"

section \<open>Operands\<close>

fun read_float_reg :: "Vm \<Rightarrow> Store \<Rightarrow> m128d option" where
  "read_float_reg vm (Store_A i) = arr_get (reg_a (reg vm)) i"
| "read_float_reg vm (Store_E i) = arr_get (reg_e (reg vm)) i"
| "read_float_reg vm (Store_F i) = arr_get (reg_f (reg vm)) i"
| "read_float_reg vm _ = None"

fun write_float_reg :: "Store \<Rightarrow> m128d \<Rightarrow> Vm \<Rightarrow> Vm option" where
  "write_float_reg (Store_A i) v vm = do { xs \<leftarrow> arr_set (reg_a (reg vm)) i v; Some (upd_a xs vm) }"
| "write_float_reg (Store_E i) v vm = do { xs \<leftarrow> arr_set (reg_e (reg vm)) i v; Some (upd_e xs vm) }"
| "write_float_reg (Store_F i) v vm = do { xs \<leftarrow> arr_set (reg_f (reg vm)) i v; Some (upd_f xs vm) }"
| "write_float_reg _ v vm = None"

fun read_r :: "Vm \<Rightarrow> Store \<Rightarrow> u64 option" where
  "read_r vm (Store_R i) = arr_get (reg_r (reg vm)) i"
| "read_r vm _ = None"

fun write_r :: "Store \<Rightarrow> u64 \<Rightarrow> Vm \<Rightarrow> Vm option" where
  "write_r (Store_R i) v vm = do { xs \<leftarrow> arr_set (reg_r (reg vm)) i v; Some (upd_r xs vm) }"
| "write_r _ v vm = None"

fun read_f :: "Vm \<Rightarrow> Store \<Rightarrow> m128d option" where
  "read_f vm (Store_F i) = arr_get (reg_f (reg vm)) i"
| "read_f vm _ = None"

fun write_f :: "Store \<Rightarrow> m128d \<Rightarrow> Vm \<Rightarrow> Vm option" where
  "write_f (Store_F i) v vm = do { xs \<leftarrow> arr_set (reg_f (reg vm)) i v; Some (upd_f xs vm) }"
| "write_f _ v vm = None"

fun read_a :: "Vm \<Rightarrow> Store \<Rightarrow> m128d option" where
  "read_a vm (Store_A i) = arr_get (reg_a (reg vm)) i"
| "read_a vm _ = None"

fun read_e :: "Vm \<Rightarrow> Store \<Rightarrow> m128d option" where
  "read_e vm (Store_E i) = arr_get (reg_e (reg vm)) i"
| "read_e vm _ = None"

fun write_e :: "Store \<Rightarrow> m128d \<Rightarrow> Vm \<Rightarrow> Vm option" where
  "write_e (Store_E i) v vm = do { xs \<leftarrow> arr_set (reg_e (reg vm)) i v; Some (upd_e xs vm) }"
| "write_e _ v vm = None"

definition imm_or_r :: "Vm \<Rightarrow> Instr \<Rightarrow> u64 option" where
  "imm_or_r vm instr =
     (if i_src instr = Store_NONE then map_option scast (i_imm instr) else read_r vm (i_src instr))"

definition scratchpad_src_ix :: "Vm \<Rightarrow> Instr \<Rightarrow> nat option" where
  "scratchpad_src_ix vm instr =
     do { imm \<leftarrow> map_option u64_from_i32_imm (i_imm instr);
          addr \<leftarrow> (case i_src instr of
              Store_L1 d \<Rightarrow> do { v \<leftarrow> read_r vm d; Some ((v + imm) AND SCRATCHPAD_L1_MASK) }
            | Store_L2 d \<Rightarrow> do { v \<leftarrow> read_r vm d; Some ((v + imm) AND SCRATCHPAD_L2_MASK) }
            | Store_L3 d \<Rightarrow> Some (imm AND SCRATCHPAD_L3_MASK)
            | _ \<Rightarrow> None);
          Some (unat addr div 8) }"

definition scratchpad_dst_ix :: "Vm \<Rightarrow> Instr \<Rightarrow> nat option" where
  "scratchpad_dst_ix vm instr =
     do { imm \<leftarrow> map_option u64_from_i32_imm (i_imm instr);
          addr \<leftarrow> (case i_dst instr of
              Store_L1 d \<Rightarrow> do { v \<leftarrow> read_r vm d; Some ((v + imm) AND SCRATCHPAD_L1_MASK) }
            | Store_L2 d \<Rightarrow> do { v \<leftarrow> read_r vm d; Some ((v + imm) AND SCRATCHPAD_L2_MASK) }
            | Store_L3 d \<Rightarrow> do { v \<leftarrow> read_r vm d; Some ((v + imm) AND SCRATCHPAD_L3_MASK) }
            | _ \<Rightarrow> None);
          Some (unat addr div 8) }"

definition scratchpad_src :: "Vm \<Rightarrow> Instr \<Rightarrow> u64 option" where
  "scratchpad_src vm instr = do { ix \<leftarrow> scratchpad_src_ix vm instr; arr_get (scratchpad vm) ix }"

definition mask_register_exponent_mantissa :: "Vm \<Rightarrow> m128d \<Rightarrow> m128d option" where
  "mask_register_exponent_mantissa vm v =
     do { m1 \<leftarrow> arr_get (e_mask (config vm)) 1;
          m0 \<leftarrow> arr_get (e_mask (config vm)) 0;
          let mantissa_mask = m128d_from_u64 DYNAMIC_MANTISSA_MASK DYNAMIC_MANTISSA_MASK;
          let exponent_mask = m128d_from_u64 m1 m0;
          Some ((v AND mantissa_mask) OR exponent_mask) }"

fun shift_mode :: "Mode \<Rightarrow> u8 option" where
  "shift_mode (Mode_Shft x) = Some x"
| "shift_mode _ = None"

fun cond_mode :: "Mode \<Rightarrow> u8 option" where
  "cond_mode (Mode_Cond x) = Some x"
| "cond_mode _ = None"

section \<open>The effects\<close>

abbreviation vm_mode :: "Vm \<Rightarrow> RoundingMode" where
  "vm_mode vm \<equiv> env_mode (fp_env vm)"

subsection \<open>Floating point\<close>

definition exec_fswap_r :: "Instr \<Rightarrow> Vm \<Rightarrow> Vm option" where
  "exec_fswap_r instr vm =
     do { v_dst \<leftarrow> read_float_reg vm (i_dst instr);
          write_float_reg (i_dst instr) (shuffle_1 v_dst v_dst) vm }"

definition exec_fadd_r :: "Instr \<Rightarrow> Vm \<Rightarrow> Vm option" where
  "exec_fadd_r instr vm =
     do { v_src \<leftarrow> read_a vm (i_src instr);
          v_dst \<leftarrow> read_f vm (i_dst instr);
          write_f (i_dst instr) (m128d_add (vm_mode vm) v_src v_dst) vm }"

definition exec_fadd_m :: "Instr \<Rightarrow> Vm \<Rightarrow> Vm option" where
  "exec_fadd_m instr vm =
     do { v \<leftarrow> scratchpad_src vm instr;
          let v_src = lower_to_m128d (from_u64 0 v);
          v_dst \<leftarrow> read_f vm (i_dst instr);
          write_f (i_dst instr) (m128d_add (vm_mode vm) v_dst v_src) vm }"

definition exec_fsub_r :: "Instr \<Rightarrow> Vm \<Rightarrow> Vm option" where
  "exec_fsub_r instr vm =
     do { v_src \<leftarrow> read_a vm (i_src instr);
          v_dst \<leftarrow> read_f vm (i_dst instr);
          write_f (i_dst instr) (m128d_sub (vm_mode vm) v_dst v_src) vm }"

definition exec_fsub_m :: "Instr \<Rightarrow> Vm \<Rightarrow> Vm option" where
  "exec_fsub_m instr vm =
     do { v \<leftarrow> scratchpad_src vm instr;
          let v_src = lower_to_m128d (from_u64 0 v);
          v_dst \<leftarrow> read_f vm (i_dst instr);
          write_f (i_dst instr) (m128d_sub (vm_mode vm) v_dst v_src) vm }"

definition exec_fscal_r :: "Instr \<Rightarrow> Vm \<Rightarrow> Vm option" where
  "exec_fscal_r instr vm =
     do { v_dst \<leftarrow> read_f vm (i_dst instr);
          let scale_mask = m128d_from_u64 0x80F0000000000000 0x80F0000000000000;
          write_f (i_dst instr) (v_dst XOR scale_mask) vm }"

definition exec_fmul_r :: "Instr \<Rightarrow> Vm \<Rightarrow> Vm option" where
  "exec_fmul_r instr vm =
     do { v_src \<leftarrow> read_a vm (i_src instr);
          v_dst \<leftarrow> read_e vm (i_dst instr);
          write_e (i_dst instr) (m128d_mul (vm_mode vm) v_src v_dst) vm }"

definition exec_fsqrt_r :: "Instr \<Rightarrow> Vm \<Rightarrow> Vm option" where
  "exec_fsqrt_r instr vm =
     do { v_dst \<leftarrow> read_e vm (i_dst instr);
          write_e (i_dst instr) (m128d_sqrt (vm_mode vm) v_dst) vm }"

definition exec_fdiv_m :: "Instr \<Rightarrow> Vm \<Rightarrow> Vm option" where
  "exec_fdiv_m instr vm =
     do { v \<leftarrow> scratchpad_src vm instr;
          v_src \<leftarrow> mask_register_exponent_mantissa vm (lower_to_m128d (from_u64 0 v));
          v_dst \<leftarrow> read_e vm (i_dst instr);
          write_e (i_dst instr) (m128d_div (vm_mode vm) v_dst v_src) vm }"

subsection \<open>Integers\<close>

definition exec_iadd_m :: "Instr \<Rightarrow> Vm \<Rightarrow> Vm option" where
  "exec_iadd_m instr vm =
     do { v_src \<leftarrow> scratchpad_src vm instr;
          v_dst \<leftarrow> read_r vm (i_dst instr);
          write_r (i_dst instr) (v_dst + v_src) vm }"

definition exec_isub_m :: "Instr \<Rightarrow> Vm \<Rightarrow> Vm option" where
  "exec_isub_m instr vm =
     do { v_src \<leftarrow> scratchpad_src vm instr;
          v_dst \<leftarrow> read_r vm (i_dst instr);
          write_r (i_dst instr) (v_dst - v_src) vm }"

definition exec_imul_m :: "Instr \<Rightarrow> Vm \<Rightarrow> Vm option" where
  "exec_imul_m instr vm =
     do { v_src \<leftarrow> scratchpad_src vm instr;
          v_dst \<leftarrow> read_r vm (i_dst instr);
          write_r (i_dst instr) (v_dst * v_src) vm }"

definition exec_iadd_rs :: "Instr \<Rightarrow> Vm \<Rightarrow> Vm option" where
  "exec_iadd_rs instr vm =
     do { v \<leftarrow> read_r vm (i_src instr);
          k \<leftarrow> shift_mode (i_mode instr);
          let v = push_bit (unat k) v;
          let v = (case i_imm instr of Some imm \<Rightarrow> v + u64_from_i32_imm imm | None \<Rightarrow> v);
          v_dst \<leftarrow> read_r vm (i_dst instr);
          write_r (i_dst instr) (v_dst + v) vm }"

definition exec_isub_r :: "Instr \<Rightarrow> Vm \<Rightarrow> Vm option" where
  "exec_isub_r instr vm =
     do { v \<leftarrow> imm_or_r vm instr;
          v_dst \<leftarrow> read_r vm (i_dst instr);
          write_r (i_dst instr) (v_dst - v) vm }"

definition exec_imul_r :: "Instr \<Rightarrow> Vm \<Rightarrow> Vm option" where
  "exec_imul_r instr vm =
     do { v \<leftarrow> imm_or_r vm instr;
          v_dst \<leftarrow> read_r vm (i_dst instr);
          write_r (i_dst instr) (v_dst * v) vm }"

definition exec_imul_rcp :: "Instr \<Rightarrow> Vm \<Rightarrow> Vm option" where
  "exec_imul_rcp instr vm =
     (if i_reciprocal instr \<noteq> 0
      then do { v_dst \<leftarrow> read_r vm (i_dst instr);
                write_r (i_dst instr) (v_dst * i_reciprocal instr) vm }
      else Some vm)"

definition exec_imulh_r :: "Instr \<Rightarrow> Vm \<Rightarrow> Vm option" where
  "exec_imulh_r instr vm =
     do { v_src \<leftarrow> read_r vm (i_src instr);
          v_dst \<leftarrow> read_r vm (i_dst instr);
          write_r (i_dst instr) (mulh v_src v_dst) vm }"

definition exec_imulh_m :: "Instr \<Rightarrow> Vm \<Rightarrow> Vm option" where
  "exec_imulh_m instr vm =
     do { v_src \<leftarrow> scratchpad_src vm instr;
          v_dst \<leftarrow> read_r vm (i_dst instr);
          write_r (i_dst instr) (mulh v_src v_dst) vm }"

definition exec_ismulh_r :: "Instr \<Rightarrow> Vm \<Rightarrow> Vm option" where
  "exec_ismulh_r instr vm =
     do { v_src \<leftarrow> read_r vm (i_src instr);
          v_dst \<leftarrow> read_r vm (i_dst instr);
          write_r (i_dst instr) (smulh v_src v_dst) vm }"

definition exec_ismulh_m :: "Instr \<Rightarrow> Vm \<Rightarrow> Vm option" where
  "exec_ismulh_m instr vm =
     do { v_src \<leftarrow> scratchpad_src vm instr;
          v_dst \<leftarrow> read_r vm (i_dst instr);
          write_r (i_dst instr) (smulh v_src v_dst) vm }"

definition exec_ineg_r :: "Instr \<Rightarrow> Vm \<Rightarrow> Vm option" where
  "exec_ineg_r instr vm =
     do { v_dst \<leftarrow> read_r vm (i_dst instr);
          write_r (i_dst instr) (NOT v_dst + 1) vm }"

definition exec_ixor_r :: "Instr \<Rightarrow> Vm \<Rightarrow> Vm option" where
  "exec_ixor_r instr vm =
     do { v \<leftarrow> imm_or_r vm instr;
          v_dst \<leftarrow> read_r vm (i_dst instr);
          write_r (i_dst instr) (v_dst XOR v) vm }"

definition exec_ixor_m :: "Instr \<Rightarrow> Vm \<Rightarrow> Vm option" where
  "exec_ixor_m instr vm =
     do { v_src \<leftarrow> scratchpad_src vm instr;
          v_dst \<leftarrow> read_r vm (i_dst instr);
          write_r (i_dst instr) (v_dst XOR v_src) vm }"

definition exec_iror_r :: "Instr \<Rightarrow> Vm \<Rightarrow> Vm option" where
  "exec_iror_r instr vm =
     do { v \<leftarrow> imm_or_r vm instr;
          v_dst \<leftarrow> read_r vm (i_dst instr);
          write_r (i_dst instr) (word_rotr (unat (v AND 0xFFFFFF)) v_dst) vm }"

definition exec_irol_r :: "Instr \<Rightarrow> Vm \<Rightarrow> Vm option" where
  "exec_irol_r instr vm =
     do { v \<leftarrow> imm_or_r vm instr;
          v_dst \<leftarrow> read_r vm (i_dst instr);
          write_r (i_dst instr) (word_rotl (unat (v AND 0xFFFFFF)) v_dst) vm }"

definition exec_iswap_r :: "Instr \<Rightarrow> Vm \<Rightarrow> Vm option" where
  "exec_iswap_r instr vm =
     do { v_src \<leftarrow> read_r vm (i_src instr);
          v_dst \<leftarrow> read_r vm (i_dst instr);
          vm \<leftarrow> write_r (i_dst instr) v_src vm;
          write_r (i_src instr) v_dst vm }"

definition exec_istore :: "Instr \<Rightarrow> Vm \<Rightarrow> Vm option" where
  "exec_istore instr vm =
     do { ix \<leftarrow> scratchpad_dst_ix vm instr;
          v \<leftarrow> read_r vm (i_src instr);
          pad \<leftarrow> arr_set (scratchpad vm) ix v;
          Some (vm\<lparr> scratchpad := pad \<rparr>) }"

subsection \<open>Control\<close>

definition exec_cfround :: "Instr \<Rightarrow> Vm \<Rightarrow> Vm option" where
  "exec_cfround instr vm =
     do { v_src \<leftarrow> read_r vm (i_src instr);
          imm \<leftarrow> i_imm instr;
          set_rounding_mode (ucast (word_rotr (unat imm) v_src mod 4)) vm }"

definition exec_cbranch :: "Instr \<Rightarrow> Vm \<Rightarrow> Vm option" where
  "exec_cbranch instr vm =
     do { c \<leftarrow> cond_mode (i_mode instr);
          imm \<leftarrow> i_imm instr;
          let shift = unat c + CONDITION_OFFSET;
          let imm = u64_from_i32_imm imm OR push_bit shift 1;
          let imm = imm AND NOT (push_bit (shift - 1) 1);
          v \<leftarrow> read_r vm (i_dst instr);
          let v_dst = v + imm;
          vm \<leftarrow> write_r (i_dst instr) v_dst vm;
          if v_dst AND push_bit shift CONDITION_MASK = 0
          then do { target \<leftarrow> i_target instr; Some (vm\<lparr> vm_pc := target \<rparr>) }
          else Some vm }"

text \<open>\<open>Instr::execute\<close>: the call through the function pointer.\<close>

fun run_effect :: "Effect \<Rightarrow> Instr \<Rightarrow> Vm \<Rightarrow> Vm option" where
  "run_effect Vm_nop instr vm = Some vm"
| "run_effect Vm_exec_iadd_rs instr vm = exec_iadd_rs instr vm"
| "run_effect Vm_exec_iadd_m instr vm = exec_iadd_m instr vm"
| "run_effect Vm_exec_isub_r instr vm = exec_isub_r instr vm"
| "run_effect Vm_exec_isub_m instr vm = exec_isub_m instr vm"
| "run_effect Vm_exec_imul_r instr vm = exec_imul_r instr vm"
| "run_effect Vm_exec_imul_m instr vm = exec_imul_m instr vm"
| "run_effect Vm_exec_imulh_r instr vm = exec_imulh_r instr vm"
| "run_effect Vm_exec_imulh_m instr vm = exec_imulh_m instr vm"
| "run_effect Vm_exec_ismulh_r instr vm = exec_ismulh_r instr vm"
| "run_effect Vm_exec_ismulh_m instr vm = exec_ismulh_m instr vm"
| "run_effect Vm_exec_imul_rcp instr vm = exec_imul_rcp instr vm"
| "run_effect Vm_exec_ineg_r instr vm = exec_ineg_r instr vm"
| "run_effect Vm_exec_ixor_r instr vm = exec_ixor_r instr vm"
| "run_effect Vm_exec_ixor_m instr vm = exec_ixor_m instr vm"
| "run_effect Vm_exec_iror_r instr vm = exec_iror_r instr vm"
| "run_effect Vm_exec_irol_r instr vm = exec_irol_r instr vm"
| "run_effect Vm_exec_iswap_r instr vm = exec_iswap_r instr vm"
| "run_effect Vm_exec_fswap_r instr vm = exec_fswap_r instr vm"
| "run_effect Vm_exec_fadd_r instr vm = exec_fadd_r instr vm"
| "run_effect Vm_exec_fadd_m instr vm = exec_fadd_m instr vm"
| "run_effect Vm_exec_fsub_r instr vm = exec_fsub_r instr vm"
| "run_effect Vm_exec_fsub_m instr vm = exec_fsub_m instr vm"
| "run_effect Vm_exec_fscal_r instr vm = exec_fscal_r instr vm"
| "run_effect Vm_exec_fmul_r instr vm = exec_fmul_r instr vm"
| "run_effect Vm_exec_fdiv_m instr vm = exec_fdiv_m instr vm"
| "run_effect Vm_exec_fsqrt_r instr vm = exec_fsqrt_r instr vm"
| "run_effect Vm_exec_cbranch instr vm = exec_cbranch instr vm"
| "run_effect Vm_exec_cfround instr vm = exec_cfround instr vm"
| "run_effect Vm_exec_istore instr vm = exec_istore instr vm"

definition instr_execute :: "Instr \<Rightarrow> Vm \<Rightarrow> Vm option" where
  "instr_execute instr vm = run_effect (i_effect instr) instr vm"

section \<open>The iteration\<close>

text \<open>The scratchpad addresses of an iteration.\<close>

definition sp_addresses :: "u32 \<times> u32 \<Rightarrow> Vm \<Rightarrow> (u32 \<times> u32) option" where
  "sp_addresses = (\<lambda>(sp_addr_0, sp_addr_1) vm.
     do { r0 \<leftarrow> arr_get (read_reg (config vm)) 0;
          r1 \<leftarrow> arr_get (read_reg (config vm)) 1;
          v0 \<leftarrow> arr_get (reg_r (reg vm)) r0;
          v1 \<leftarrow> arr_get (reg_r (reg vm)) r1;
          let sp_mix = v0 XOR v1;
          let sp_addr_0 = ((sp_addr_0 XOR ucast sp_mix) AND SCRATCHPAD_L3_MASK_U32) div 8;
          let sp_addr_1 = ((sp_addr_1 XOR ucast (drop_bit 32 sp_mix)) AND SCRATCHPAD_L3_MASK_U32) div 8;
          Some (sp_addr_0, sp_addr_1) })"

definition load_r :: "nat \<Rightarrow> nat \<Rightarrow> Vm \<Rightarrow> Vm option" where
  "load_r addr i vm =
     do { w \<leftarrow> arr_get (scratchpad vm) (addr + i);
          v \<leftarrow> arr_get (reg_r (reg vm)) i;
          xs \<leftarrow> arr_set (reg_r (reg vm)) i (v XOR w);
          Some (upd_r xs vm) }"

definition load_f :: "nat \<Rightarrow> nat \<Rightarrow> Vm \<Rightarrow> Vm option" where
  "load_f addr i vm =
     do { w \<leftarrow> arr_get (scratchpad vm) (addr + i);
          xs \<leftarrow> arr_set (reg_f (reg vm)) i (lower_to_m128d (from_u64 0 w));
          Some (upd_f xs vm) }"

definition load_e :: "nat \<Rightarrow> nat \<Rightarrow> Vm \<Rightarrow> Vm option" where
  "load_e addr i vm =
     do { w \<leftarrow> arr_get (scratchpad vm) (addr + i + MAX_FLOAT_REG);
          v \<leftarrow> mask_register_exponent_mantissa vm (lower_to_m128d (from_u64 0 w));
          xs \<leftarrow> arr_set (reg_e (reg vm)) i v;
          Some (upd_e xs vm) }"

definition load_registers :: "nat \<Rightarrow> nat \<Rightarrow> Vm \<Rightarrow> Vm option" where
  "load_registers addr0 addr1 vm =
     do { vm \<leftarrow> foldl_option (load_r addr0) [0..<MAX_REG] vm;
          vm \<leftarrow> foldl_option (load_f addr1) [0..<MAX_FLOAT_REG] vm;
          foldl_option (load_e addr1) [0..<MAX_FLOAT_REG] vm }"

text \<open>One instruction: fetch, execute, advance. A negative counter cast to \<open>usize\<close> is out of
  range.\<close>

definition exec_step :: "Instr list \<Rightarrow> Vm \<Rightarrow> Vm option" where
  "exec_step prog vm =
     (if 0 \<le> vm_pc vm \<and> nat (vm_pc vm) < length prog
      then do { vm \<leftarrow> instr_execute (prog ! nat (vm_pc vm)) vm;
                Some (vm\<lparr> vm_pc := vm_pc vm + 1 \<rparr>) }
      else None)"

partial_function (option) exec_loop :: "Instr list \<Rightarrow> Vm \<Rightarrow> Vm option" where
  "exec_loop prog vm =
     (if vm_pc vm < RANDOMX_PROGRAM_SIZE
      then Option.bind (exec_step prog vm) (exec_loop prog)
      else Some vm)"

definition store_r :: "nat \<Rightarrow> nat \<Rightarrow> Vm \<Rightarrow> Vm option" where
  "store_r addr i vm =
     do { v \<leftarrow> arr_get (reg_r (reg vm)) i;
          pad \<leftarrow> arr_set (scratchpad vm) (addr + i) v;
          Some (vm\<lparr> scratchpad := pad \<rparr>) }"

definition mix_f :: "nat \<Rightarrow> Vm \<Rightarrow> Vm option" where
  "mix_f i vm =
     do { vf \<leftarrow> arr_get (reg_f (reg vm)) i;
          ve \<leftarrow> arr_get (reg_e (reg vm)) i;
          xs \<leftarrow> arr_set (reg_f (reg vm)) i (vf XOR ve);
          Some (upd_f xs vm) }"

definition store_f :: "nat \<Rightarrow> nat \<Rightarrow> Vm \<Rightarrow> Vm option" where
  "store_f addr i vm =
     do { vf \<leftarrow> arr_get (reg_f (reg vm)) i;
          let (u1, u0) = as_u64 vf;
          pad \<leftarrow> arr_set (scratchpad vm) (addr + 2 * i) u0;
          pad \<leftarrow> arr_set pad (addr + 2 * i + 1) u1;
          Some (vm\<lparr> scratchpad := pad \<rparr>) }"

definition store_registers :: "nat \<Rightarrow> nat \<Rightarrow> Vm \<Rightarrow> Vm option" where
  "store_registers addr0 addr1 vm =
     do { vm \<leftarrow> foldl_option (store_r addr1) [0..<MAX_REG] vm;
          vm \<leftarrow> foldl_option mix_f [0..<MAX_FLOAT_REG] vm;
          foldl_option (store_f addr0) [0..<MAX_FLOAT_REG] vm }"

text \<open>The access to the dataset: \<open>mx\<close> is updated, the item at \<open>ma\<close> is added, and the two
  are swapped.\<close>

definition dataset_step :: "Vm \<Rightarrow> Vm option" where
  "dataset_step vm =
     do { r2 \<leftarrow> arr_get (read_reg (config vm)) 2;
          r3 \<leftarrow> arr_get (read_reg (config vm)) 3;
          v2 \<leftarrow> arr_get (reg_r (reg vm)) r2;
          v3 \<leftarrow> arr_get (reg_r (reg vm)) r3;
          let mx' = (mx (mem_reg vm) XOR (v2 XOR v3)) AND CACHE_LINE_ALIGN_MASK;
          xs \<leftarrow> dataset_read (mem vm) (dataset_offset vm + ma (mem_reg vm)) (reg_r (reg vm));
          Some (upd_r xs (vm\<lparr> mem_reg := \<lparr> mx = ma (mem_reg vm), ma = mx' \<rparr> \<rparr>)) }"

definition run_iteration ::
  "Instr list \<Rightarrow> u32 \<times> u32 \<Rightarrow> Vm \<Rightarrow> Vm option" where
  "run_iteration prog sp vm =
     do { (sp_addr_0, sp_addr_1) \<leftarrow> sp_addresses sp vm;
          vm \<leftarrow> load_registers (unat sp_addr_0) (unat sp_addr_1) vm;
          vm \<leftarrow> exec_loop prog (vm\<lparr> vm_pc := 0 \<rparr>);
          vm \<leftarrow> dataset_step vm;
          store_registers (unat sp_addr_0) (unat sp_addr_1) vm }"

text \<open>The iterations; after the first one both addresses restart from 0.\<close>

primrec run_iterations :: "Instr list \<Rightarrow> nat \<Rightarrow> u32 \<times> u32 \<Rightarrow> Vm \<Rightarrow> Vm option" where
  "run_iterations prog 0 sp vm = Some vm"
| "run_iterations prog (Suc n) sp vm =
     do { vm \<leftarrow> run_iteration prog sp vm; run_iterations prog n (0, 0) vm }"

definition run :: "seed \<Rightarrow> Vm \<Rightarrow> Vm option" where
  "run sd vm =
     do { prog \<leftarrow> from_bytes (gen_program_aes_4rx4 sd 136);
          vm \<leftarrow> init_vm (p_entropy prog) vm;
          run_iterations (p_program prog) RANDOMX_PROGRAM_ITERATIONS
            (ucast (mx (mem_reg vm)), ucast (ma (mem_reg vm))) vm }"

section \<open>The hash\<close>

definition hash_to_m128i_array :: "u8 list \<Rightarrow> seed option" where
  "hash_to_m128i_array bytes =
     do { i1 \<leftarrow> from_u8 (take 16 bytes);
          i2 \<leftarrow> from_u8 (take 16 (drop 16 bytes));
          i3 \<leftarrow> from_u8 (take 16 (drop 32 bytes));
          i4 \<leftarrow> from_u8 (take 16 (drop 48 bytes));
          Some (i1, i2, i3, i4) }"

text \<open>The loop over all programs but the last.\<close>

primrec run_programs ::
  "(nat \<Rightarrow> u8 list \<Rightarrow> u8 list) \<Rightarrow> nat \<Rightarrow> seed \<Rightarrow> Vm \<Rightarrow> (seed \<times> Vm) option" where
  "run_programs hash 0 tmp_hash vm = Some (tmp_hash, vm)"
| "run_programs hash (Suc n) tmp_hash vm =
     do { vm \<leftarrow> run tmp_hash vm;
          tmp_hash \<leftarrow> hash_to_m128i_array (hash 64 (to_bytes (reg vm)));
          run_programs hash n tmp_hash vm }"

text \<open>\<open>HostRoundingModeGuard\<close>: the control register is captured on entry and restored when the
  guard is dropped; without a control register there is no guard.\<close>

abbreviation capture :: "Vm \<Rightarrow> FpEnv" where
  "capture vm \<equiv> fp_env vm"

abbreviation guard_drop :: "FpEnv \<Rightarrow> Vm \<Rightarrow> Vm" where
  "guard_drop guard vm \<equiv> vm\<lparr> fp_env := guard \<rparr>"

definition calculate_hash ::
  "(nat \<Rightarrow> u8 list \<Rightarrow> u8 list) \<Rightarrow> u8 list \<Rightarrow> Vm \<Rightarrow> (u8 list \<times> Vm) option" where
  "calculate_hash hash input vm =
     do { let guard = capture vm;
          sd \<leftarrow> hash_to_m128i_array (hash 64 input);
          (tmp_hash, vm) \<leftarrow> init_scratchpad sd vm;
          let vm = reset_rounding_mode vm;
          (tmp_hash, vm) \<leftarrow> run_programs hash (RANDOMX_PROGRAM_COUNT - 1) tmp_hash vm;
          vm \<leftarrow> run tmp_hash vm;
          (h0, h1, h2, h3) \<leftarrow> hash_aes_1rx4 (scratchpad vm);
          let vm = upd_a [as_m128d h0, as_m128d h1, as_m128d h2, as_m128d h3] vm;
          Some (hash RANDOMX_HASH_SIZE (to_bytes (reg vm)), guard_drop guard vm) }"

end
