(* ===== verification/BranchLoop.thy ===== *)
theory BranchLoop
  imports Prelude
begin

text \<open>
  The instruction loop of the RandomX virtual machine, seen through an interface. Both interpreters
  (\<open>vm.rs\<close> and \<open>randomx-sp1/src/lib.rs\<close>) run 256 instructions with backward branches and
  no instruction counter. The locale \<open>branch_machine\<close> states what the loop relies on: a branch
  adds an increment to a register and jumps when eight bits of the sum are zero; the increment has
  the lowest of these bits set and the bit below clear; the target lies after every earlier branch
  and after every earlier write of the register. From these laws the loop ends within 768
  instructions.
\<close>

section \<open>Runs of a loop\<close>

inductive runs :: "('s \<Rightarrow> 's option) \<Rightarrow> ('s \<Rightarrow> bool) \<Rightarrow> nat \<Rightarrow> 's \<Rightarrow> 's \<Rightarrow> bool"
  for f active where
  runs_done: "\<not> active s \<Longrightarrow> runs f active 0 s s"
| runs_step: "active s \<Longrightarrow> f s = Some s1 \<Longrightarrow> runs f active n s1 s' \<Longrightarrow> runs f active (Suc n) s s'"

inductive_cases runs_doneE: "runs f active 0 s s'"
inductive_cases runs_stepE: "runs f active (Suc n) s s'"

lemma runs_inactive: "runs f active n s s' \<Longrightarrow> \<not> active s'"
  by (induction rule: runs.induct) simp_all

text \<open>A function that satisfies the equation of the loop returns the final state of a run.\<close>

lemma runs_loop:
  assumes "runs f active n s s'"
    and "\<And>s. loop s = (if active s then Option.bind (f s) loop else Some s)"
  shows "loop s = Some s'"
  using assms(1)
proof (induction rule: runs.induct)
  case (runs_done s)
  then show ?case by (subst assms(2)) simp
next
  case (runs_step s s1 n s')
  then show ?case by (subst assms(2)) simp
qed

text \<open>An invariant of the steps holds at the end of a run.\<close>

lemma runs_invariant:
  assumes "runs f active n s s'" "P s"
    and "\<And>s s1. active s \<Longrightarrow> P s \<Longrightarrow> f s = Some s1 \<Longrightarrow> P s1"
  shows "P s'"
  using assms(1,2) by (induction rule: runs.induct) (use assms(3) in blast)+

section \<open>The branch condition\<close>

text \<open>The eight bits above \<open>shift\<close> are zero.\<close>

definition branch_taken :: "nat \<Rightarrow> u64 \<Rightarrow> bool" where
  "branch_taken shift v \<longleftrightarrow> v AND push_bit shift 255 = 0"

definition branch_increment :: "nat \<Rightarrow> u64 \<Rightarrow> bool" where
  "branch_increment shift inc \<longleftrightarrow> 1 \<le> shift \<and> shift + 8 \<le> 64 \<and> bit inc shift \<and> \<not> bit inc (shift - 1)"

lemma branch_taken_bits:
  assumes "shift + 8 \<le> 64"
  shows "branch_taken shift v \<longleftrightarrow> (\<forall>k < 8. \<not> bit v (shift + k))"
proof -
  have m: "(255 :: u64) = mask 8" by (simp add: mask_eq_decr_exp)
  have b: "bit (push_bit shift (mask 8 :: u64)) n \<longleftrightarrow> n < 64 \<and> shift \<le> n \<and> n < shift + 8" for n
    using assms by (auto simp: bit_push_bit_iff bit_mask_iff)
  have bv: "bit (v AND push_bit shift (mask 8)) n \<longleftrightarrow> bit v n \<and> n < 64 \<and> shift \<le> n \<and> n < shift + 8" for n
    unfolding bit_and_iff b by simp
  show ?thesis
  proof
    assume "branch_taken shift v"
    then have "\<not> bit (v AND push_bit shift (mask 8)) (shift + k)" for k
      unfolding branch_taken_def m by simp
    then show "\<forall>k < 8. \<not> bit v (shift + k)" unfolding bv using assms by fastforce
  next
    assume none: "\<forall>k < 8. \<not> bit v (shift + k)"
    have "\<not> bit (v AND push_bit shift (mask 8)) n" for n
    proof
      assume "bit (v AND push_bit shift (mask 8)) n"
      then have "bit v n" "shift \<le> n" "n - shift < 8" unfolding bv by auto
      then show False using none by (metis le_add_diff_inverse)
    qed
    then show "branch_taken shift v"
      unfolding branch_taken_def m by (intro bit_word_eqI) simp
  qed
qed

lemma branch_taken_iff:
  assumes "shift + 8 \<le> 64"
  shows "branch_taken shift v \<longleftrightarrow> unat v mod (256 * 2 ^ shift) < 2 ^ shift"
proof -
  define w where "w = take_bit 8 (drop_bit shift v)"
  have bw: "bit w k \<longleftrightarrow> k < 8 \<and> bit v (shift + k)" for k
    by (simp add: w_def bit_take_bit_iff bit_drop_bit_eq)
  have "(\<forall>k < 8. \<not> bit v (shift + k)) \<longleftrightarrow> w = 0"
  proof
    assume "\<forall>k < 8. \<not> bit v (shift + k)"
    then show "w = 0" by (intro bit_word_eqI) (simp add: bw)
  next
    assume "w = 0"
    then show "\<forall>k < 8. \<not> bit v (shift + k)" using bw by auto
  qed
  then have "branch_taken shift v \<longleftrightarrow> w = 0"
    by (simp only: branch_taken_bits [OF assms])
  also have "\<dots> \<longleftrightarrow> unat w = 0" by (simp add: unat_eq_0)
  also have "unat w = unat v div 2 ^ shift mod 256"
    unfolding w_def unsigned_take_bit_eq unat_drop_bit by (simp add: take_bit_eq_mod)
  also have "unat v div 2 ^ shift mod 256 = unat v mod (256 * 2 ^ shift) div 2 ^ shift"
    by (simp add: mod_mult2_eq mult.commute)
  finally show ?thesis by (simp add: div_eq_0_iff)
qed

lemma unat_add_mod:
  assumes "k \<le> 64"
  shows "unat (a + b :: u64) mod 2 ^ k = (unat a mod 2 ^ k + unat b mod 2 ^ k) mod 2 ^ k"
proof -
  have "(2 ^ k :: nat) dvd 2 ^ 64" using assms by (rule le_imp_power_dvd)
  then show ?thesis by (simp add: unat_word_ariths mod_mod_cancel mod_add_eq)
qed

lemma increment_mod:
  assumes "branch_increment shift inc"
  obtains h low where "unat inc mod 2 ^ (shift + 8) = h * 2 ^ shift + low"
    "1 \<le> h" "h \<le> 255" "2 * low < 2 ^ shift"
proof -
  define m where "m = (2 :: nat) ^ shift"
  define x where "x = unat inc mod 2 ^ (shift + 8)"
  have sh: "1 \<le> shift" using assms by (simp add: branch_increment_def)
  have m: "0 < m" by (simp add: m_def)
  have M: "2 ^ (shift + 8) = 256 * m" by (simp add: m_def power_add)
  have bx: "bit x n \<longleftrightarrow> n < shift + 8 \<and> bit inc n" for n
    using bit_imp_le_length [of inc n]
    by (auto simp: x_def bit_take_bit_iff bit_unsigned_iff simp flip: take_bit_eq_mod)
  have xd: "x = (x div m) * m + x mod m" by simp
  have "odd (x div m)"
    using bx [of shift] assms by (simp add: m_def bit_iff_odd branch_increment_def)
  then have h1: "1 \<le> x div m" by (cases "x div m") simp_all
  have "x < 256 * m" unfolding x_def M using m by simp
  then have h2: "x div m \<le> 255" using m by (simp add: div_less_iff_less_mult mult.commute less_Suc_eq_le [symmetric])
  have "even (x div 2 ^ (shift - 1))"
    using bx [of "shift - 1"] assms by (simp add: bit_iff_odd branch_increment_def)
  moreover have mm: "m = 2 ^ (shift - 1) * 2" using sh unfolding m_def by (cases shift) simp_all
  ultimately have "x mod m = x mod 2 ^ (shift - 1)"
    by (metis add_0 mod_mult2_eq mult_0_right even_iff_mod_2_eq_zero add.commute)
  then have "2 * (x mod m) < m" using mm mod_less_divisor [of "2 ^ (shift - 1)" x] by simp
  then show ?thesis
    using that [of "x div m" "x mod m"] xd h1 h2 unfolding m_def x_def by simp
qed

text \<open>After two taken branches the third is not taken.\<close>

lemma branch_third_falls_through:
  assumes inc: "branch_increment shift inc" and "branch_taken shift v" "branch_taken shift (v + inc)"
  shows "\<not> branch_taken shift (v + inc + inc)"
proof -
  define m where "m = (2 :: nat) ^ shift"
  have sh: "shift + 8 \<le> 64" using inc by (simp add: branch_increment_def)
  have M: "2 ^ (shift + 8) = 256 * m" by (simp add: m_def power_add)
  obtain h low where i: "unat inc mod (256 * m) = h * m + low" "1 \<le> h" "h \<le> 255" "2 * low < m"
    using increment_mod [OF inc] unfolding m_def M .
  define x where "x = unat v mod (256 * m)"
  have x: "x < m" using assms(2) by (simp add: branch_taken_iff [OF sh] x_def m_def)
  define y where "y = (x + (h * m + low)) mod (256 * m)"
  have "unat (v + inc) mod (256 * m) = y"
    using unat_add_mod [OF sh, of v inc] unfolding M x_def y_def i(1) .
  then have y: "y < m" using assms(3) by (simp add: branch_taken_iff [OF sh] m_def)
  have hm: "m \<le> h * m" "h * m \<le> 255 * m" using i(2,3) by simp_all
  have "256 * m \<le> x + (h * m + low)"
  proof (rule ccontr)
    assume "\<not> 256 * m \<le> x + (h * m + low)"
    then have "y = x + (h * m + low)" unfolding y_def by simp
    then show False using y hm by linarith
  qed
  moreover from this have "h = 255"
  proof -
    have "h * m \<ge> 254 * m + 1" using \<open>256 * m \<le> x + (h * m + low)\<close> x i(4) by linarith
    then have "254 < h" using mult_le_mono1 [of h 254 m] by linarith
    then show ?thesis using i(3) by simp
  qed
  ultimately have "y = x + low - m"
    unfolding y_def using x i(4) by (simp add: mod_if)
  then have "y + (h * m + low) < 256 * m" using x i(4) unfolding \<open>h = 255\<close> by linarith
  then have "(y + (h * m + low)) mod (256 * m) = y + (h * m + low)" by simp
  moreover have "unat (v + inc + inc) mod (256 * m) = (y + (h * m + low)) mod (256 * m)"
    using unat_add_mod [OF sh, of "v + inc" inc] \<open>unat (v + inc) mod (256 * m) = y\<close>
    unfolding M i(1) by simp
  ultimately have "m \<le> unat (v + inc + inc) mod (256 * m)" using hm by linarith
  then show ?thesis by (simp add: branch_taken_iff [OF sh] m_def)
qed

section \<open>Machines with bounded branches\<close>

text \<open>\<open>ok p s\<close> says that \<open>p\<close> is a well-formed program and \<open>s\<close> a well-formed state;
  \<open>branch p q\<close> gives register, increment, shift and target when instruction \<open>q\<close> is a
  branch, \<open>writes p q\<close> the registers another instruction may change.\<close>

locale branch_machine =
  fixes ok :: "'p \<Rightarrow> 's \<Rightarrow> bool"
    and step :: "'p \<Rightarrow> 's \<Rightarrow> 's option"
    and pc :: "'s \<Rightarrow> int"
    and rv :: "'s \<Rightarrow> nat \<Rightarrow> u64"
    and branch :: "'p \<Rightarrow> nat \<Rightarrow> (nat \<times> u64 \<times> nat \<times> int) option"
    and writes :: "'p \<Rightarrow> nat \<Rightarrow> nat set"
  assumes step_other: "ok p s \<Longrightarrow> pc s = int q \<Longrightarrow> q < 256 \<Longrightarrow> branch p q = None \<Longrightarrow>
      \<exists>s'. step p s = Some s' \<and> ok p s' \<and> pc s' = int q + 1 \<and>
           (\<forall>d. d \<notin> writes p q \<longrightarrow> rv s' d = rv s d)"
    and step_branch: "ok p s \<Longrightarrow> pc s = int q \<Longrightarrow> q < 256 \<Longrightarrow> branch p q = Some (d, inc, shift, target) \<Longrightarrow>
      \<exists>s'. step p s = Some s' \<and> ok p s' \<and> rv s' d = rv s d + inc \<and>
           pc s' = (if branch_taken shift (rv s d + inc) then target + 1 else int q + 1)"
    and branch_shape: "ok p s \<Longrightarrow> q < 256 \<Longrightarrow> branch p q = Some (d, inc, shift, target) \<Longrightarrow>
      branch_increment shift inc \<and> -1 \<le> target \<and> target < int q \<and>
      (\<forall>i. target < int i \<and> i < q \<longrightarrow> branch p i = None \<and> d \<notin> writes p i)"
begin

text \<open>Straight-line code up to instruction \<open>q\<close> keeps a register that it does not write.\<close>

lemma straight_line:
  assumes "ok p s" "pc s = int i" "i \<le> q" "q < 256"
    and "\<And>j. i \<le> j \<Longrightarrow> j < q \<Longrightarrow> branch p j = None \<and> d \<notin> writes p j"
    and goal: "\<And>s2. ok p s2 \<Longrightarrow> pc s2 = int q \<Longrightarrow> rv s2 d = rv s d \<Longrightarrow>
      \<exists>n s'. runs (step p) (\<lambda>s. pc s < 256) n s2 s' \<and> n \<le> bound"
  shows "\<exists>n s'. runs (step p) (\<lambda>s. pc s < 256) n s s' \<and> n \<le> (q - i) + bound"
  using assms(1-3,5) goal
proof (induction "q - i" arbitrary: i s)
  case 0
  then have "i = q" by simp
  then show ?case using 0 by simp
next
  case (Suc k)
  then have i: "i < q" by simp
  then obtain s1 where s1: "step p s = Some s1" "ok p s1" "pc s1 = int (Suc i)" "rv s1 d = rv s d"
    using step_other [OF Suc.prems(1,2)] assms(4) Suc.prems(4) [of i] by force
  have "\<exists>n s'. runs (step p) (\<lambda>s. pc s < 256) n s1 s' \<and> n \<le> (q - Suc i) + bound"
  proof (rule Suc.hyps(1))
    show "k = q - Suc i" using Suc.hyps(2) by simp
  qed (use s1 i Suc.prems in auto)
  then obtain n s' where "runs (step p) (\<lambda>s. pc s < 256) n s1 s'" "n \<le> (q - Suc i) + bound" by blast
  moreover have "pc s < 256" using i assms(4) Suc.prems(2) by simp
  ultimately have "runs (step p) (\<lambda>s. pc s < 256) (Suc n) s s'" "Suc n \<le> (q - i) + bound"
    using s1(1) i by (auto intro: runs_step)
  then show ?case by blast
qed

text \<open>One execution of the branch at \<open>q\<close>.\<close>

lemma branch_once:
  assumes ok: "ok p s" "pc s = int q" "q < 256" and br: "branch p q = Some (d, inc, shift, target)"
    and out: "\<And>s1. ok p s1 \<Longrightarrow> pc s1 = int q + 1 \<Longrightarrow>
      \<exists>n s'. runs (step p) (\<lambda>s. pc s < 256) n s1 s' \<and> n \<le> bound"
    and again: "\<And>s1. branch_taken shift (rv s d + inc) \<Longrightarrow> ok p s1 \<Longrightarrow> pc s1 = int q \<Longrightarrow>
      rv s1 d = rv s d + inc \<Longrightarrow> \<exists>n s'. runs (step p) (\<lambda>s. pc s < 256) n s1 s' \<and> n \<le> bound'"
    and le: "bound \<le> nat (int q - target - 1) + bound'"
  shows "\<exists>n s'. runs (step p) (\<lambda>s. pc s < 256) n s s' \<and> n \<le> 1 + (nat (int q - target - 1) + bound')"
proof -
  obtain s1 where s1: "step p s = Some s1" "ok p s1" "rv s1 d = rv s d + inc"
    "pc s1 = (if branch_taken shift (rv s d + inc) then target + 1 else int q + 1)"
    using step_branch [OF ok br] by blast
  note sh = branch_shape [OF ok(1,3) br]
  have "\<exists>n s'. runs (step p) (\<lambda>s. pc s < 256) n s1 s' \<and> n \<le> nat (int q - target - 1) + bound'"
  proof (cases "branch_taken shift (rv s d + inc)")
    case True
    let ?i = "nat (target + 1)"
    have i: "int ?i = target + 1" "?i \<le> q" using sh by auto
    have "q - ?i = nat (int q - target - 1)" using i by linarith
    moreover have "\<exists>n s'. runs (step p) (\<lambda>s. pc s < 256) n s1 s' \<and> n \<le> (q - ?i) + bound'"
      by (rule straight_line [where d = d]) (use s1 True i ok(3) sh again in auto)
    ultimately show ?thesis by simp
  next
    case False
    then obtain n s' where "runs (step p) (\<lambda>s. pc s < 256) n s1 s'" "n \<le> bound"
      using out [OF s1(2)] s1(4) by auto
    then show ?thesis using le by (meson le_trans)
  qed
  moreover have "pc s < 256" using ok by simp
  ultimately show ?thesis using s1(1) runs_step by (metis Suc_eq_plus1_left Suc_le_mono)
qed

text \<open>The bound from instruction \<open>q\<close> when \<open>last_br\<close> is the last branch before it.\<close>

lemma runs_from:
  assumes "ok p s" "pc s = int q" "q \<le> 256" "-1 \<le> last_br" "last_br < int q"
    and "last_br = -1 \<or> branch p (nat last_br) \<noteq> None"
    and "\<And>i. last_br < int i \<Longrightarrow> i < q \<Longrightarrow> branch p i = None"
  shows "\<exists>n s'. runs (step p) (\<lambda>s. pc s < 256) n s s' \<and> n \<le> 3 * (256 - q) + 2 * nat (int q - 1 - last_br)"
  using assms
proof (induction "256 - q" arbitrary: q s last_br)
  case 0
  then have "\<not> pc s < 256" by simp
  then have "runs (step p) (\<lambda>s. pc s < 256) 0 s s" by (rule runs_done)
  then show ?case by blast
next
  case (Suc k)
  then have q: "q < 256" by simp
  show ?case
  proof (cases "branch p q")
    case None
    then obtain s1 where s1: "step p s = Some s1" "ok p s1" "pc s1 = int (Suc q)"
      using step_other [OF Suc.prems(1,2) q] by auto
    have "\<exists>n s'. runs (step p) (\<lambda>s. pc s < 256) n s1 s' \<and>
        n \<le> 3 * (256 - Suc q) + 2 * nat (int (Suc q) - 1 - last_br)"
    proof (rule Suc.hyps(1) [OF _ s1(2,3)])
      show "k = 256 - Suc q" using Suc.hyps(2) by simp
    qed (use Suc.prems q None in \<open>auto simp: less_Suc_eq\<close>)
    moreover have "pc s < 256" using Suc.prems(2) q by simp
    moreover have "Suc (3 * (256 - Suc q) + 2 * nat (int (Suc q) - 1 - last_br)) \<le>
        3 * (256 - q) + 2 * nat (int q - 1 - last_br)"
      using q Suc.prems(5) by linarith
    ultimately show ?thesis using s1(1) runs_step by (meson Suc_le_mono le_trans)
  next
    case (Some b)
    then obtain d inc shift target where br: "branch p q = Some (d, inc, shift, target)" by (metis surj_pair)
    note sh = branch_shape [OF Suc.prems(1) q br]
    have target: "last_br \<le> target"
    proof (rule ccontr)
      assume "\<not> last_br \<le> target"
      then have "last_br \<noteq> -1" "target < int (nat last_br)" "nat last_br < q" using sh Suc.prems(5) by auto
      then show False using sh Suc.prems(6) by auto
    qed
    let ?B = "3 * (256 - Suc q)" and ?w = "nat (int q - target - 1)"
    have out: "\<exists>n s'. runs (step p) (\<lambda>s. pc s < 256) n s1 s' \<and> n \<le> ?B"
      if "ok p s1" "pc s1 = int q + 1" for s1
    proof -
      have "\<exists>n s'. runs (step p) (\<lambda>s. pc s < 256) n s1 s' \<and>
          n \<le> 3 * (256 - Suc q) + 2 * nat (int (Suc q) - 1 - int q)"
      proof (rule Suc.hyps(1))
        show "k = 256 - Suc q" using Suc.hyps(2) by simp
      qed (use that q br in auto)
      then show ?thesis by simp
    qed
    have third: "\<exists>n s'. runs (step p) (\<lambda>s. pc s < 256) n s3 s' \<and> n \<le> 1 + ?B"
      if s3: "ok p s3" "pc s3 = int q" "\<not> branch_taken shift (rv s3 d + inc)" for s3
    proof -
      obtain s4 where s4: "step p s3 = Some s4" "ok p s4" "pc s4 = int q + 1"
        using step_branch [OF s3(1,2) q br] s3(3) by auto
      have "pc s3 < 256" using s3 q by simp
      with out [OF s4(2,3)] s4(1) runs_step show ?thesis by (metis Suc_eq_plus1_left Suc_le_mono)
    qed
    have second: "\<exists>n s'. runs (step p) (\<lambda>s. pc s < 256) n s2 s' \<and> n \<le> 1 + (?w + (1 + ?B))"
      if "ok p s2" "pc s2 = int q" "branch_taken shift (rv s2 d)" for s2
      by (rule branch_once [OF that(1,2) q br out])
         (use that(3) sh branch_third_falls_through third in auto)
    have "\<exists>n s'. runs (step p) (\<lambda>s. pc s < 256) n s s' \<and> n \<le> 1 + (?w + (1 + (?w + (1 + ?B))))"
      by (rule branch_once [OF Suc.prems(1,2) q br out]) (use second in auto)
    moreover have "1 + (?w + (1 + (?w + (1 + ?B)))) \<le> 3 * (256 - q) + 2 * nat (int q - 1 - last_br)"
      using q target sh by linarith
    ultimately show ?thesis by (meson le_trans)
  qed
qed

lemma step_keeps_ok:
  assumes "ok p s" "0 \<le> pc s" "pc s < 256" "step p s = Some s'"
  shows "ok p s' \<and> 0 \<le> pc s'"
proof -
  define q where "q = nat (pc s)"
  have q: "pc s = int q" "q < 256" using assms(2,3) by (simp_all add: q_def)
  show ?thesis
  proof (cases "branch p q")
    case None
    then show ?thesis using step_other [OF assms(1) q None] assms(4) by auto
  next
    case (Some b)
    then obtain d inc shift target where br: "branch p q = Some (d, inc, shift, target)" by (metis surj_pair)
    then show ?thesis
      using step_branch [OF assms(1) q br] branch_shape [OF assms(1) q(2) br] assms(4) by (auto split: if_splits)
  qed
qed

text \<open>From the first instruction the loop ends within 768 steps in a well-formed state.\<close>

lemma loop_bound:
  assumes "ok p s" "pc s = 0"
  shows "\<exists>n s'. runs (step p) (\<lambda>s. pc s < 256) n s s' \<and> n \<le> 768 \<and> ok p s'"
proof -
  obtain n s' where run: "runs (step p) (\<lambda>s. pc s < 256) n s s'" "n \<le> 768"
    using runs_from [of p s 0 "-1"] assms by auto
  have "ok p s' \<and> 0 \<le> pc s'"
    by (rule runs_invariant [OF run(1)]) (use assms step_keeps_ok in auto)
  with run show ?thesis by blast
qed

end

end
