(* ===== verification/ProgramOk.thy ===== *)
theory ProgramOk
  imports Program BranchLoop
begin

text \<open>
  What the decoder of \<open>Program\<close> produces. Every decoded instruction has the operands its effect
  accepts (\<open>instr_ok\<close>), decoding never fails, and the usage table gives each branch a target
  that lies after all earlier branches and all earlier writes of its register (\<open>prog_ok\<close>), the
  law that bounds the instruction loop.
\<close>

section \<open>Well-formed instructions\<close>

fun is_R :: "Store \<Rightarrow> bool" where "is_R (Store_R d) = (d < 8)" | "is_R _ = False"
fun is_F :: "Store \<Rightarrow> bool" where "is_F (Store_F d) = (d < 4)" | "is_F _ = False"
fun is_E :: "Store \<Rightarrow> bool" where "is_E (Store_E d) = (d < 4)" | "is_E _ = False"
fun is_A :: "Store \<Rightarrow> bool" where "is_A (Store_A d) = (d < 4)" | "is_A _ = False"

fun is_mem_src :: "Store \<Rightarrow> bool" where
  "is_mem_src (Store_L1 d) = is_R d"
| "is_mem_src (Store_L2 d) = is_R d"
| "is_mem_src (Store_L3 d) = True"
| "is_mem_src _ = False"

fun is_mem_dst :: "Store \<Rightarrow> bool" where
  "is_mem_dst (Store_L1 d) = is_R d"
| "is_mem_dst (Store_L2 d) = is_R d"
| "is_mem_dst (Store_L3 d) = is_R d"
| "is_mem_dst _ = False"

text \<open>The operands each effect accepts without panicking.\<close>

definition r_or_imm :: "Instr \<Rightarrow> bool" where
  "r_or_imm ins \<longleftrightarrow> is_R (i_src ins) \<or> i_src ins = Store_NONE \<and> i_imm ins \<noteq> None"

definition mem_src :: "Instr \<Rightarrow> bool" where
  "mem_src ins \<longleftrightarrow> is_mem_src (i_src ins) \<and> i_imm ins \<noteq> None"

fun effect_ok :: "Effect \<Rightarrow> Instr \<Rightarrow> bool" where
  "effect_ok Vm_nop ins = True"
| "effect_ok Vm_exec_iadd_rs ins =
     (is_R (i_dst ins) \<and> is_R (i_src ins) \<and> (\<exists>k. i_mode ins = Mode_Shft k \<and> k < 4))"
| "effect_ok Vm_exec_iadd_m ins = (is_R (i_dst ins) \<and> mem_src ins)"
| "effect_ok Vm_exec_isub_r ins = (is_R (i_dst ins) \<and> r_or_imm ins)"
| "effect_ok Vm_exec_isub_m ins = (is_R (i_dst ins) \<and> mem_src ins)"
| "effect_ok Vm_exec_imul_r ins = (is_R (i_dst ins) \<and> r_or_imm ins)"
| "effect_ok Vm_exec_imul_m ins = (is_R (i_dst ins) \<and> mem_src ins)"
| "effect_ok Vm_exec_imulh_r ins = (is_R (i_dst ins) \<and> is_R (i_src ins))"
| "effect_ok Vm_exec_imulh_m ins = (is_R (i_dst ins) \<and> mem_src ins)"
| "effect_ok Vm_exec_ismulh_r ins = (is_R (i_dst ins) \<and> is_R (i_src ins))"
| "effect_ok Vm_exec_ismulh_m ins = (is_R (i_dst ins) \<and> mem_src ins)"
| "effect_ok Vm_exec_imul_rcp ins = is_R (i_dst ins)"
| "effect_ok Vm_exec_ineg_r ins = is_R (i_dst ins)"
| "effect_ok Vm_exec_ixor_r ins = (is_R (i_dst ins) \<and> r_or_imm ins)"
| "effect_ok Vm_exec_ixor_m ins = (is_R (i_dst ins) \<and> mem_src ins)"
| "effect_ok Vm_exec_iror_r ins = (is_R (i_dst ins) \<and> r_or_imm ins)"
| "effect_ok Vm_exec_irol_r ins = (is_R (i_dst ins) \<and> r_or_imm ins)"
| "effect_ok Vm_exec_iswap_r ins = (is_R (i_dst ins) \<and> is_R (i_src ins))"
| "effect_ok Vm_exec_fswap_r ins = (is_F (i_dst ins) \<or> is_E (i_dst ins))"
| "effect_ok Vm_exec_fadd_r ins = (is_F (i_dst ins) \<and> is_A (i_src ins))"
| "effect_ok Vm_exec_fadd_m ins = (is_F (i_dst ins) \<and> mem_src ins)"
| "effect_ok Vm_exec_fsub_r ins = (is_F (i_dst ins) \<and> is_A (i_src ins))"
| "effect_ok Vm_exec_fsub_m ins = (is_F (i_dst ins) \<and> mem_src ins)"
| "effect_ok Vm_exec_fscal_r ins = is_F (i_dst ins)"
| "effect_ok Vm_exec_fmul_r ins = (is_E (i_dst ins) \<and> is_A (i_src ins))"
| "effect_ok Vm_exec_fdiv_m ins = (is_E (i_dst ins) \<and> mem_src ins)"
| "effect_ok Vm_exec_fsqrt_r ins = is_E (i_dst ins)"
| "effect_ok Vm_exec_cbranch ins =
     (is_R (i_dst ins) \<and> i_imm ins \<noteq> None \<and> i_target ins \<noteq> None \<and>
      (\<exists>c. i_mode ins = Mode_Cond c \<and> c < 16))"
| "effect_ok Vm_exec_cfround ins = (is_R (i_src ins) \<and> i_imm ins \<noteq> None)"
| "effect_ok Vm_exec_istore ins = (is_mem_dst (i_dst ins) \<and> is_R (i_src ins) \<and> i_imm ins \<noteq> None)"

definition instr_ok :: "Instr \<Rightarrow> bool" where
  "instr_ok ins \<longleftrightarrow> effect_ok (i_effect ins) ins"

text \<open>Register, increment, shift and target of a branch.\<close>

definition branch_inc :: "nat \<Rightarrow> u32 \<Rightarrow> u64" where
  "branch_inc shift imm = (u64_from_i32_imm imm OR push_bit shift 1) AND NOT (push_bit (shift - 1) 1)"

fun instr_branch_of :: "Effect \<Rightarrow> Store \<Rightarrow> Mode \<Rightarrow> u32 option \<Rightarrow> int option \<Rightarrow> (nat \<times> u64 \<times> nat \<times> int) option" where
  "instr_branch_of Vm_exec_cbranch (Store_R d) (Mode_Cond c) (Some imm) (Some t) =
     Some (d, branch_inc (unat c + 8) imm, unat c + 8, t)"
| "instr_branch_of _ _ _ _ _ = None"

definition instr_branch :: "Instr \<Rightarrow> (nat \<times> u64 \<times> nat \<times> int) option" where
  "instr_branch ins = instr_branch_of (i_effect ins) (i_dst ins) (i_mode ins) (i_imm ins) (i_target ins)"

text \<open>The integer registers an instruction other than a branch may change.\<close>

definition instr_writes :: "Instr \<Rightarrow> nat set" where
  "instr_writes ins =
     (if i_effect ins \<in> {Vm_nop, Vm_exec_fswap_r, Vm_exec_fadd_r, Vm_exec_fadd_m, Vm_exec_fsub_r,
           Vm_exec_fsub_m, Vm_exec_fscal_r, Vm_exec_fmul_r, Vm_exec_fdiv_m, Vm_exec_fsqrt_r,
           Vm_exec_cfround, Vm_exec_istore} \<or>
         i_effect ins = Vm_exec_imul_rcp \<and> i_reciprocal ins = 0
      then {}
      else {d. i_dst ins = Store_R d} \<union>
           (if i_effect ins = Vm_exec_iswap_r then {d. i_src ins = Store_R d} else {}))"

lemma branch_inc_increment:
  assumes "1 \<le> shift" "shift + 8 \<le> 64"
  shows "branch_increment shift (branch_inc shift imm)"
  using assms
  by (auto simp: branch_increment_def branch_inc_def bit_simps)

section \<open>Fields of the constructed instructions\<close>

lemma new_instr_fields [simp]:
  "i_dst (new_instr opc dst src imm m eff) = dst"
  "i_src (new_instr opc dst src imm m eff) = (if src = dst then Store_NONE else src)"
  "i_imm (new_instr opc dst src imm m eff) = (if src = dst then Some imm else None)"
  "i_mode (new_instr opc dst src imm m eff) = m"
  "i_target (new_instr opc dst src imm m eff) = None"
  "i_reciprocal (new_instr opc dst src imm m eff) = 0"
  "i_effect (new_instr opc dst src imm m eff) = eff"
  by (simp_all add: new_instr_def)

lemma new_imm_instr_fields [simp]:
  "i_dst (new_imm_instr opc dst imm m eff) = dst"
  "i_src (new_imm_instr opc dst imm m eff) = Store_NONE"
  "i_imm (new_imm_instr opc dst imm m eff) = Some imm"
  "i_mode (new_imm_instr opc dst imm m eff) = m"
  "i_target (new_imm_instr opc dst imm m eff) = None"
  "i_reciprocal (new_imm_instr opc dst imm m eff) = 0"
  "i_effect (new_imm_instr opc dst imm m eff) = eff"
  by (simp_all add: new_imm_instr_def)

lemma new_lcache_instr_fields [simp]:
  "i_dst (new_lcache_instr opc dst src imm modi eff) = dst"
  "i_src (new_lcache_instr opc dst src imm modi eff) =
     (if r_reg src = dst then Store_L3 Store_Imm else l12_cache src modi)"
  "i_imm (new_lcache_instr opc dst src imm modi eff) =
     Some (if r_reg src = dst then imm AND ucast SCRATCHPAD_L3_MASK else imm)"
  "i_target (new_lcache_instr opc dst src imm modi eff) = None"
  "i_reciprocal (new_lcache_instr opc dst src imm modi eff) = 0"
  "i_effect (new_lcache_instr opc dst src imm modi eff) = eff"
  by (simp_all add: new_lcache_instr_def)

lemma plain_instr_fields [simp]:
  "i_dst (plain_instr opc dst src imm m t eff) = dst"
  "i_src (plain_instr opc dst src imm m t eff) = src"
  "i_imm (plain_instr opc dst src imm m t eff) = imm"
  "i_mode (plain_instr opc dst src imm m t eff) = m"
  "i_target (plain_instr opc dst src imm m t eff) = t"
  "i_reciprocal (plain_instr opc dst src imm m t eff) = 0"
  "i_effect (plain_instr opc dst src imm m t eff) = eff"
  by (simp_all add: plain_instr_def)

lemma reg_kinds [simp]:
  "is_R (r_reg n)" "is_A (a_reg n)" "is_E (e_reg n)" "is_F (f_reg n)"
  "n < 4 \<Longrightarrow> is_E (e_reg_ix n)" "n < 4 \<Longrightarrow> is_F (f_reg_ix n)"
  by (simp_all add: r_reg_def a_reg_def e_reg_def f_reg_def e_reg_ix_def f_reg_ix_def MAX_REG_def MAX_FLOAT_REG_def)

lemma displacement_is_R [simp]: "is_R REG_NEEDS_DISPLACEMENT"
  by (simp add: REG_NEEDS_DISPLACEMENT_def REG_NEEDS_DISPLACEMENT_IX_def)

lemma cache_kinds [simp]: "is_mem_src (l12_cache n m)" "is_mem_dst (l_cache n m)"
  by (simp_all add: l12_cache_def l_cache_def Let_def)

lemma reg_not_none [simp]:
  "r_reg n \<noteq> Store_NONE" "Store_NONE \<noteq> r_reg n" "f_reg n \<noteq> Store_NONE" "Store_NONE \<noteq> f_reg n"
  "e_reg n \<noteq> Store_NONE" "Store_NONE \<noteq> e_reg n" "a_reg n \<noteq> f_reg m" "a_reg n \<noteq> e_reg m"
  "r_reg n \<noteq> f_reg m" "r_reg n \<noteq> e_reg m"
  by (simp_all add: r_reg_def a_reg_def e_reg_def f_reg_def e_reg_ix_def f_reg_ix_def MAX_REG_def MAX_FLOAT_REG_def)

lemma mode_kinds:
  "\<exists>k. mod_shft m = Mode_Shft k \<and> k < 4" "\<exists>c. mod_cond m = Mode_Cond c \<and> c < 16"
proof -
  have "drop_bit 2 m mod 4 < 4" by (simp add: word_less_nat_alt unat_mod)
  then show "\<exists>k. mod_shft m = Mode_Shft k \<and> k < 4" by (simp add: mod_shft_def)
  have "unat m div 16 < 16" using unat_lt_u8 [of m] by (simp add: div_less_iff_less_mult)
  then have "drop_bit 4 m < 16" by (simp add: word_less_nat_alt unat_drop_bit)
  then show "\<exists>c. mod_cond m = Mode_Cond c \<and> c < 16" by (simp add: mod_cond_def mod_cond_u8_def)
qed

lemmas decode_defs = decode_instruction_def decode_integer_rest_def decode_float_control_def

lemma decode_instr_ok:
  assumes "decode_instruction w i usage = Some (ins, usage')"
  shows "instr_ok ins"
  using assms mode_kinds unfolding decode_defs Let_def
  by (auto simp: instr_ok_def r_or_imm_def mem_src_def bind_eq_Some_conv MAX_FLOAT_REG_def
      simp del: opcode_bound.simps split: if_split_asm)

text \<open>The usage table: an instruction marks the registers it writes, a branch marks all of them and
  takes its target from the table.\<close>

lemma r_reg_eq: "r_reg n = Store_R d \<longleftrightarrow> d = n mod 8"
  by (auto simp: r_reg_def MAX_REG_def)

lemma float_regs_not_R [simp]:
  "f_reg n \<noteq> Store_R d" "e_reg n \<noteq> Store_R d" "f_reg_ix n \<noteq> Store_R d" "e_reg_ix n \<noteq> Store_R d"
  by (simp_all add: e_reg_def f_reg_def e_reg_ix_def f_reg_ix_def)

definition usage_step :: "int \<Rightarrow> Instr \<Rightarrow> int list \<Rightarrow> int list \<Rightarrow> bool" where
  "usage_step i ins usage usage' \<longleftrightarrow> length usage' = 8 \<and>
     (case instr_branch ins of
        None \<Rightarrow> \<forall>d < 8. usage' ! d = i \<or> usage' ! d = usage ! d \<and> d \<notin> instr_writes ins
      | Some (d, inc, shift, t) \<Rightarrow>
          d < 8 \<and> t = usage ! d \<and> usage' = replicate 8 i \<and> branch_increment shift inc)"

lemma branch_instr:
  "instr_branch (plain_instr opc (r_reg n) src (Some imm) (mod_cond m) (Some t) Vm_exec_cbranch) =
     Some (n mod 8, branch_inc (unat (drop_bit 4 m) + 8) imm, unat (drop_bit 4 m) + 8, t)"
  by (simp add: instr_branch_def r_reg_def MAX_REG_def mod_cond_def mod_cond_u8_def)

lemma cond_shift_bound: "unat (drop_bit 4 (m :: u8)) + 8 + 8 \<le> 64"
proof -
  have "unat m div 16 < 16" using unat_lt_u8 [of m] by (simp add: div_less_iff_less_mult)
  then show ?thesis by (simp add: unat_drop_bit)
qed

lemma not_branch [simp]: "i_effect ins \<noteq> Vm_exec_cbranch \<Longrightarrow> instr_branch ins = None"
  by (cases "i_effect ins") (simp_all add: instr_branch_def)

lemma usage_step_keep:
  "i_effect ins \<noteq> Vm_exec_cbranch \<Longrightarrow> instr_writes ins = {} \<Longrightarrow> length usage = 8 \<Longrightarrow>
     usage_step i ins usage usage"
  by (simp add: usage_step_def)

lemma nth_list_update_if: "j < length xs \<Longrightarrow> xs[k := v] ! j = (if k = j then v else xs ! j)"
  by (cases "k = j") simp_all

lemma usage_step_write:
  "i_effect ins \<noteq> Vm_exec_cbranch \<Longrightarrow> instr_writes ins \<subseteq> {d} \<Longrightarrow> length usage = 8 \<Longrightarrow>
     usage_step i ins usage (usage[d := i])"
  by (auto simp: usage_step_def nth_list_update_if)

lemma usage_step_write_two:
  "i_effect ins \<noteq> Vm_exec_cbranch \<Longrightarrow> instr_writes ins \<subseteq> {d, d'} \<Longrightarrow> length usage = 8 \<Longrightarrow>
     usage_step i ins usage (usage[d := i, d' := i])"
  by (auto simp: usage_step_def nth_list_update_if)

lemma usage_step_branch:
  assumes "length usage = 8" "t = usage ! (n mod 8)"
  shows "usage_step i (plain_instr opc (r_reg n) src (Some imm) (mod_cond m) (Some t) Vm_exec_cbranch)
           usage (replicate 8 i)"
  using assms branch_inc_increment [OF _ cond_shift_bound [of m], of imm]
  by (simp add: usage_step_def branch_instr)

lemma writes_dst: "instr_writes ins \<subseteq> {d. i_dst ins = Store_R d \<or> i_effect ins = Vm_exec_iswap_r \<and> i_src ins = Store_R d}"
  by (auto simp: instr_writes_def)

lemma writes_none [simp]:
  "i_effect ins \<in> {Vm_nop, Vm_exec_fswap_r, Vm_exec_fadd_r, Vm_exec_fadd_m, Vm_exec_fsub_r,
     Vm_exec_fsub_m, Vm_exec_fscal_r, Vm_exec_fmul_r, Vm_exec_fdiv_m, Vm_exec_fsqrt_r,
     Vm_exec_cfround, Vm_exec_istore} \<Longrightarrow> instr_writes ins = {}"
  "i_effect ins = Vm_exec_imul_rcp \<Longrightarrow> i_reciprocal ins = 0 \<Longrightarrow> instr_writes ins = {}"
  by (simp_all add: instr_writes_def)

lemma usage_step_r_reg:
  assumes "i_effect ins \<notin> {Vm_exec_cbranch, Vm_exec_iswap_r}" "i_dst ins = r_reg n" "length usage = 8"
  shows "usage_step i ins usage (usage[n mod 8 := i])"
  using assms writes_dst [of ins] by (intro usage_step_write) (auto simp: r_reg_eq)

lemma usage_step_swap:
  assumes "i_effect ins = Vm_exec_iswap_r" "i_dst ins = r_reg n" "i_src ins = r_reg m" "length usage = 8"
  shows "usage_step i ins usage (usage[n mod 8 := i, m mod 8 := i])"
  using assms writes_dst [of ins] by (intro usage_step_write_two) (auto simp: r_reg_eq)

lemma decode_usage:
  assumes "decode_instruction w i usage = Some (ins, usage')" "length usage = 8"
  shows "usage_step i ins usage usage'"
  using assms unfolding decode_defs Let_def MAX_REG_def
  by (auto simp: bind_eq_Some_conv simp del: opcode_bound.simps split: if_split_asm
      intro!: usage_step_keep usage_step_branch usage_step_r_reg usage_step_swap)

lemma decode_total: "\<exists>ins usage'. decode_instruction w i usage = Some (ins, usage')"
proof -
  have "\<exists>r. randomx_reciprocal d = Some r" if "\<not> is_zero_or_power_of_2 d" for d
  proof -
    have "d \<noteq> 0" using that by (auto simp: is_zero_or_power_of_2_def)
    then show ?thesis by (simp add: randomx_reciprocal_def)
  qed
  then show ?thesis unfolding decode_defs Let_def by (auto simp: bind_eq_Some_conv)
qed

section \<open>Well-formed programs\<close>

definition branch_ok :: "Instr list \<Rightarrow> nat \<Rightarrow> (nat \<times> u64 \<times> nat \<times> int) \<Rightarrow> bool" where
  "branch_ok prog q = (\<lambda>(d, inc, shift, t).
     d < 8 \<and> branch_increment shift inc \<and> -1 \<le> t \<and> t < int q \<and>
     (\<forall>i < q. t < int i \<longrightarrow> instr_branch (prog ! i) = None \<and> d \<notin> instr_writes (prog ! i)))"

definition prog_ok :: "Instr list \<Rightarrow> bool" where
  "prog_ok prog \<longleftrightarrow> (\<forall>q < length prog. instr_ok (prog ! q) \<and>
     (case instr_branch (prog ! q) of None \<Rightarrow> True | Some b \<Rightarrow> branch_ok prog q b))"

definition usage_inv :: "Instr list \<Rightarrow> int list \<Rightarrow> bool" where
  "usage_inv pre usage \<longleftrightarrow> length usage = 8 \<and>
     (\<forall>d < 8. -1 \<le> usage ! d \<and> usage ! d < int (length pre) \<and>
        (\<forall>j < length pre. usage ! d < int j \<longrightarrow>
           instr_branch (pre ! j) = None \<and> d \<notin> instr_writes (pre ! j)))"

lemma usage_inv_empty: "usage_inv [] (replicate 8 (-1))"
  by (simp add: usage_inv_def)

lemma usage_inv_step:
  assumes "usage_inv pre usage" "usage_step (int (length pre)) ins usage usage'"
  shows "usage_inv (pre @ [ins]) usage'"
proof -
  have "-1 \<le> usage' ! d \<and> usage' ! d < int (length (pre @ [ins])) \<and>
      (\<forall>j < length (pre @ [ins]). usage' ! d < int j \<longrightarrow>
         instr_branch ((pre @ [ins]) ! j) = None \<and> d \<notin> instr_writes ((pre @ [ins]) ! j))"
    if d: "d < 8" for d
  proof (cases "usage' ! d = int (length pre)")
    case False
    then have "instr_branch ins = None" "usage' ! d = usage ! d" "d \<notin> instr_writes ins"
      using assms(2) d by (auto simp: usage_step_def split: option.splits)
    then show ?thesis using assms(1) d by (auto simp: usage_inv_def nth_append less_Suc_eq)
  qed simp
  moreover have "length usage' = 8" using assms(2) by (simp add: usage_step_def)
  ultimately show ?thesis by (simp add: usage_inv_def)
qed

lemma branch_ok_append: "branch_ok prog q b \<Longrightarrow> q \<le> length prog \<Longrightarrow> branch_ok (prog @ xs) q b"
  by (auto simp: branch_ok_def nth_append)

lemma prog_ok_step:
  assumes "prog_ok pre" "usage_inv pre usage" "instr_ok ins" "usage_step (int (length pre)) ins usage usage'"
  shows "prog_ok (pre @ [ins])"
proof -
  have last_ok: "branch_ok (pre @ [ins]) (length pre) b" if "instr_branch ins = Some b" for b
  proof -
    have "branch_ok pre (length pre) b"
      using assms(2,4) that by (auto simp: usage_step_def usage_inv_def branch_ok_def split: prod.splits)
    then show ?thesis by (rule branch_ok_append) simp
  qed
  show ?thesis unfolding prog_ok_def
  proof (intro allI impI)
    fix q assume "q < length (pre @ [ins])"
    then consider "q < length pre" | "q = length pre" by fastforce
    then show "instr_ok ((pre @ [ins]) ! q) \<and>
        (case instr_branch ((pre @ [ins]) ! q) of None \<Rightarrow> True | Some b \<Rightarrow> branch_ok (pre @ [ins]) q b)"
    proof cases
      case 1
      then show ?thesis
        using assms(1) branch_ok_append [of pre q _ "[ins]"]
        by (auto simp: prog_ok_def nth_append split: option.splits)
    next
      case 2
      then show ?thesis using assms(3) last_ok by (simp split: option.split)
    qed
  qed
qed

lemma decode_words_ok:
  assumes "decode_words ws (int (length pre)) usage = Some (is, usage')" "prog_ok pre" "usage_inv pre usage"
  shows "prog_ok (pre @ is) \<and> length is = length ws"
  using assms
proof (induction ws arbitrary: pre usage "is")
  case (Cons w ws)
  then obtain ins u1 rest where d: "decode_instruction w (int (length pre)) usage = Some (ins, u1)"
    "decode_words ws (int (length pre) + 1) u1 = Some (rest, usage')" "is = ins # rest"
    by (auto simp: bind_eq_Some_conv)
  have st: "usage_step (int (length pre)) ins usage u1"
    using decode_usage [OF d(1)] Cons.prems(3) by (simp add: usage_inv_def)
  have "prog_ok ((pre @ [ins]) @ rest) \<and> length rest = length ws"
  proof (rule Cons.IH)
    show "decode_words ws (int (length (pre @ [ins]))) u1 = Some (rest, usage')" using d(2) by (simp add: add.commute)
    show "prog_ok (pre @ [ins])" using prog_ok_step [OF Cons.prems(2,3) decode_instr_ok [OF d(1)] st] .
    show "usage_inv (pre @ [ins]) u1" using usage_inv_step [OF Cons.prems(3) st] .
  qed
  then show ?case using d(3) by simp
qed simp

lemma decode_words_total: "\<exists>is usage'. decode_words ws i usage = Some (is, usage')"
proof (induction ws arbitrary: i usage)
  case (Cons w ws)
  obtain ins u1 where "decode_instruction w i usage = Some (ins, u1)" using decode_total by blast
  then show ?case using Cons.IH [of "i + 1" u1] by auto
qed simp

lemma length_halves: "length (concat (map m128i_halves vs)) = 2 * length vs"
  by (induction vs) (simp_all add: m128i_halves_def Let_def case_prod_beta)

lemma from_bytes_ok:
  assumes "length bytes = 136"
  shows "\<exists>prog. from_bytes bytes = Some prog \<and> length (p_program prog) = 256 \<and>
    length (p_entropy prog) = 16 \<and> prog_ok (p_program prog)"
proof -
  let ?ws = "concat (map m128i_halves (drop 8 bytes))"
  obtain prg u where d: "decode_words ?ws 0 (replicate 8 (-1)) = Some (prg, u)" using decode_words_total by blast
  have "prog_ok prg \<and> length prg = length ?ws"
    using decode_words_ok [of ?ws "[]" _ prg u] d usage_inv_empty by (simp add: prog_ok_def)
  then show ?thesis
    using d assms by (simp add: from_bytes_def MAX_REG_def length_halves)
qed

text \<open>C14: Every generated buffer of 136 vectors decodes, without a panic, to 16 words of entropy and
  256 well-formed instructions: each instruction has operands its effect accepts, and each branch
  goes back to a target \<open>t\<close> with \<open>-1 \<le> t\<close> before itself such that no instruction after \<open>t\<close>
  and before the branch is a branch or writes the register of the branch, with an increment whose
  bit at the condition shift is set and whose bit below it is clear. A buffer shorter than the
  entropy is a panic.\<close>

theorem decoded_program_well_formed:
  "(length bytes = 136 \<longrightarrow> (\<exists>prog. from_bytes bytes = Some prog \<and> length (p_program prog) = 256 \<and>
      length (p_entropy prog) = 16 \<and> prog_ok (p_program prog))) \<and>
   (length bytes < 8 \<longrightarrow> from_bytes bytes = None)"
  using from_bytes_ok [of bytes] by (auto simp: from_bytes_def)

theorem decoded_program_well_formed_witness:
  "(\<exists>prog. from_bytes (replicate 136 0xD7) = Some prog \<and> length (p_program prog) = 256 \<and>
    length (p_entropy prog) = 16 \<and> prog_ok (p_program prog)) \<and> from_bytes [] = None"
  using decoded_program_well_formed [of "replicate 136 0xD7"] decoded_program_well_formed [of "[]"]
  by (simp only: length_replicate) simp

end
