(* ===== verification/VmSafety.thy ===== *)
theory VmSafety
  imports Vm ProgramOk Softfp
begin

text \<open>
  Safety of the reference machine. \<open>vm_ok\<close> is the shape of a machine state: the sizes of the
  register groups and of the scratchpad, read registers in range, a rounding mode below four.
  Every decoded instruction runs on every such state without panicking, keeps the shape, changes
  only the registers \<open>instr_writes\<close> names, and moves the program counter only when a branch is
  taken. The interpretation of \<open>branch_machine\<close> gives the bound of the instruction loop.
\<close>

section \<open>The shape of a machine state\<close>

definition vm_ok :: "Vm \<Rightarrow> bool" where
  "vm_ok vm \<longleftrightarrow> length (reg_r (reg vm)) = 8 \<and> length (reg_f (reg vm)) = 4 \<and>
     length (reg_e (reg vm)) = 4 \<and> length (reg_a (reg vm)) = 4 \<and>
     length (scratchpad vm) = 262144 \<and> length (e_mask (config vm)) = 2 \<and>
     length (read_reg (config vm)) = 4 \<and> (\<forall>i \<in> set (read_reg (config vm)). i < 8) \<and>
     unat (rounding_mode vm) < 4"

text \<open>The control register of a host agrees with the mode the machine holds.\<close>

definition env_sync :: "Vm \<Rightarrow> bool" where
  "env_sync vm \<longleftrightarrow> fp_env vm = No_env \<or> env_mode (fp_env vm) = from_fprc (get_rounding_mode vm)"

text \<open>What no instruction changes.\<close>

definition vm_frame :: "Vm \<Rightarrow> Vm \<Rightarrow> bool" where
  "vm_frame vm vm' \<longleftrightarrow> mem_reg vm' = mem_reg vm \<and> config vm' = config vm \<and> mem vm' = mem vm \<and>
     dataset_offset vm' = dataset_offset vm \<and> reg_a (reg vm') = reg_a (reg vm) \<and>
     (fp_env vm' = No_env \<longleftrightarrow> fp_env vm = No_env)"

fun reg_ix :: "Store \<Rightarrow> nat" where
  "reg_ix (Store_R d) = d"
| "reg_ix (Store_F d) = d"
| "reg_ix (Store_E d) = d"
| "reg_ix (Store_A d) = d"
| "reg_ix _ = 0"

lemma arr_simps [simp]:
  "i < length xs \<Longrightarrow> arr_get xs i = Some (xs ! i)" "i < length xs \<Longrightarrow> arr_set xs i v = Some (xs[i := v])"
  by (simp_all add: arr_get_def arr_set_def)

section \<open>Operands\<close>

lemma kind_cases:
  "is_R s \<Longrightarrow> \<exists>d < 8. s = Store_R d" "is_F s \<Longrightarrow> \<exists>d < 4. s = Store_F d"
  "is_E s \<Longrightarrow> \<exists>d < 4. s = Store_E d" "is_A s \<Longrightarrow> \<exists>d < 4. s = Store_A d"
  by (cases s; simp)+

lemma reg_access [fault_simps]:
  assumes "vm_ok vm"
  shows "is_R s \<Longrightarrow> read_r vm s = Some (reg_r (reg vm) ! reg_ix s)"
    "is_R s \<Longrightarrow> write_r s v vm = Some (upd_r ((reg_r (reg vm))[reg_ix s := v]) vm)"
    "is_F s \<Longrightarrow> read_f vm s = Some (reg_f (reg vm) ! reg_ix s)"
    "is_F s \<Longrightarrow> write_f s w vm = Some (upd_f ((reg_f (reg vm))[reg_ix s := w]) vm)"
    "is_E s \<Longrightarrow> read_e vm s = Some (reg_e (reg vm) ! reg_ix s)"
    "is_E s \<Longrightarrow> write_e s w vm = Some (upd_e ((reg_e (reg vm))[reg_ix s := w]) vm)"
    "is_A s \<Longrightarrow> read_a vm s = Some (reg_a (reg vm) ! reg_ix s)"
    "is_F s \<Longrightarrow> read_float_reg vm s = Some (reg_f (reg vm) ! reg_ix s)"
    "is_F s \<Longrightarrow> write_float_reg s w vm = Some (upd_f ((reg_f (reg vm))[reg_ix s := w]) vm)"
    "is_E s \<Longrightarrow> read_float_reg vm s = Some (reg_e (reg vm) ! reg_ix s)"
    "is_E s \<Longrightarrow> write_float_reg s w vm = Some (upd_e ((reg_e (reg vm))[reg_ix s := w]) vm)"
  using assms by (auto simp: vm_ok_def dest!: kind_cases)

lemma reg_ix_bound: "is_R s \<Longrightarrow> reg_ix s < 8" "is_F s \<Longrightarrow> reg_ix s < 4" "is_E s \<Longrightarrow> reg_ix s < 4" "is_A s \<Longrightarrow> reg_ix s < 4"
  by (cases s; simp)+

lemma masked_index:
  "unat (x AND SCRATCHPAD_L1_MASK) div 8 < 262144"
  "unat (x AND SCRATCHPAD_L2_MASK) div 8 < 262144"
  "unat (x AND SCRATCHPAD_L3_MASK) div 8 < 262144"
proof -
  have *: "unat (x AND m) div 8 < 262144" if "unat m < 8 * 262144" for m :: u64
  proof -
    have "unat (x AND m) \<le> unat m" by (simp add: word_le_nat_alt [symmetric] word_and_le1)
    then have "unat (x AND m) < 262144 * 8" using that by simp
    then show ?thesis by (rule less_mult_imp_div_less)
  qed
  show "unat (x AND SCRATCHPAD_L1_MASK) div 8 < 262144"
    "unat (x AND SCRATCHPAD_L2_MASK) div 8 < 262144"
    "unat (x AND SCRATCHPAD_L3_MASK) div 8 < 262144"
    by (rule *, simp add: SCRATCHPAD_L1_MASK_def SCRATCHPAD_L2_MASK_def SCRATCHPAD_L3_MASK_def)+
qed

lemma scratchpad_src_ix_ok:
  assumes "vm_ok vm" "mem_src ins"
  shows "\<exists>ix. scratchpad_src_ix vm ins = Some ix \<and> ix < 262144"
  using assms masked_index
  by (cases "i_src ins") (auto simp: mem_src_def scratchpad_src_ix_def reg_access)

lemma scratchpad_src_ok [fault_simps]:
  assumes "vm_ok vm" "mem_src ins"
  shows "scratchpad_src vm ins = Some (scratchpad vm ! the (scratchpad_src_ix vm ins))"
proof -
  obtain ix where "scratchpad_src_ix vm ins = Some ix" "ix < 262144"
    using scratchpad_src_ix_ok [OF assms] by blast
  then show ?thesis using assms(1) by (simp add: scratchpad_src_def vm_ok_def)
qed

lemma scratchpad_dst_ix_ok:
  assumes "vm_ok vm" "is_mem_dst (i_dst ins)" "i_imm ins \<noteq> None"
  shows "\<exists>ix. scratchpad_dst_ix vm ins = Some ix \<and> ix < 262144"
  using assms masked_index
  by (cases "i_dst ins") (auto simp: scratchpad_dst_ix_def reg_access)

lemma mask_exponent_ok [fault_simps]:
  "vm_ok vm \<Longrightarrow> mask_register_exponent_mantissa vm v =
     Some ((v AND m128d_from_u64 DYNAMIC_MANTISSA_MASK DYNAMIC_MANTISSA_MASK)
           OR m128d_from_u64 (e_mask (config vm) ! 1) (e_mask (config vm) ! 0))"
  by (simp add: mask_register_exponent_mantissa_def vm_ok_def)

lemma imm_or_r_ok [fault_simps]:
  assumes "vm_ok vm" "r_or_imm ins"
  shows "imm_or_r vm ins = Some (if i_src ins = Store_NONE then scast (the (i_imm ins))
                                 else reg_r (reg vm) ! reg_ix (i_src ins))"
  using assms by (auto simp: imm_or_r_def r_or_imm_def reg_access)

section \<open>The rounding mode\<close>

lemma field_set:
  fixes c a :: "'a::len word"
  assumes "k + 2 \<le> LENGTH('a)"
  shows "drop_bit k ((c AND NOT (push_bit k (mask 2))) OR push_bit k a) AND mask 2 = a AND mask 2"
  using assms by (intro bit_word_eqI) (auto simp: bit_simps)

lemma three_mask: "(3 :: u32) = mask 2" "(3 :: u64) = mask 2"
  by (simp_all add: mask_eq_decr_exp)

lemma env_mode_Mxcsr:
  "env_mode (Mxcsr ((c AND NOT (push_bit 13 3)) OR push_bit 13 a)) =
     (if a AND 3 = 0 then Nearest else if a AND 3 = 1 then Down else if a AND 3 = 2 then Up else TowardZero)"
proof -
  have "drop_bit 13 ((c AND NOT (push_bit 13 3)) OR push_bit 13 a) AND 3 = a AND 3"
    unfolding three_mask by (rule field_set) simp
  then show ?thesis by (simp only: env_mode.simps Let_def)
qed

lemma env_mode_Fpcr:
  "env_mode (Fpcr ((c AND NOT (push_bit 22 3)) OR push_bit 22 a)) =
     (if a AND 3 = 0 then Nearest else if a AND 3 = 1 then Up else if a AND 3 = 2 then Down else TowardZero)"
proof -
  have "drop_bit 22 ((c AND NOT (push_bit 22 3)) OR push_bit 22 a) AND 3 = a AND 3"
    unfolding three_mask by (rule field_set) simp
  then show ?thesis by (simp only: env_mode.simps Let_def)
qed

lemma mode_cases:
  assumes "mode < (4 :: u32)"
  shows "mode = 0 \<or> mode = 1 \<or> mode = 2 \<or> mode = 3"
proof -
  have "unat mode < 4" using assms by (simp add: word_less_nat_alt)
  then have "unat mode = 0 \<or> unat mode = 1 \<or> unat mode = 2 \<or> unat mode = 3" by linarith
  then show ?thesis by (simp add: word_unat_eq_iff)
qed

lemma env_mode_set:
  assumes "mode < 4" "env \<noteq> No_env"
  shows "env_mode (set_rounding_mode_env mode env) = from_fprc mode"
proof (cases env)
  case (Mxcsr c)
  have x: "set_rounding_mode_env mode (Mxcsr c) = Mxcsr ((c AND NOT (push_bit 13 3)) OR push_bit 13 mode)"
    using mode_cases [OF assms(1)] by (auto simp: Let_def)
  show ?thesis
    using mode_cases [OF assms(1)] unfolding Mxcsr x env_mode_Mxcsr by (auto simp: from_fprc_def)
next
  case (Fpcr c)
  show ?thesis
    using mode_cases [OF assms(1)]
    unfolding Fpcr set_rounding_mode_env.simps Let_def env_mode_Fpcr by (auto simp: from_fprc_def)
qed (use assms in simp)

lemma set_env_No_env [simp]: "set_rounding_mode_env mode env = No_env \<longleftrightarrow> env = No_env"
  by (cases env) (simp_all add: Let_def)

lemma set_rounding_mode_ok:
  assumes "vm_ok vm" "mode < 4"
  shows "\<exists>vm'. set_rounding_mode mode vm = Some vm' \<and> vm_ok vm' \<and> env_sync vm' \<and> vm_frame vm vm' \<and>
    vm_pc vm' = vm_pc vm \<and> reg vm' = reg vm \<and> scratchpad vm' = scratchpad vm"
proof -
  have u: "unat mode < 4" using assms(2) by (simp add: word_less_nat_alt)
  then have "unat (ucast mode :: u8) < 4" "(ucast (ucast mode :: u8) :: u32) = mode"
    using mode_cases [OF assms(2)] by auto
  then show ?thesis
    using assms env_mode_set [OF assms(2)]
    by (auto simp: set_rounding_mode_def vm_ok_def env_sync_def vm_frame_def get_rounding_mode_def)
qed

section \<open>Every decoded instruction runs\<close>

definition step_ok :: "Instr \<Rightarrow> Vm \<Rightarrow> Vm \<Rightarrow> bool" where
  "step_ok ins vm vm' \<longleftrightarrow> vm_ok vm' \<and> vm_frame vm vm' \<and> (env_sync vm \<longrightarrow> env_sync vm') \<and>
     vm_pc vm' = vm_pc vm \<and>
     (\<forall>d. d \<notin> instr_writes ins \<longrightarrow> reg_r (reg vm') ! d = reg_r (reg vm) ! d)"

lemma step_ok_refl: "vm_ok vm \<Longrightarrow> step_ok ins vm vm"
  by (simp add: step_ok_def vm_frame_def)

lemma step_ok_upd:
  assumes "vm_ok vm"
  shows "d \<in> instr_writes ins \<Longrightarrow> step_ok ins vm (upd_r ((reg_r (reg vm))[d := v]) vm)"
    "step_ok ins vm (upd_f ((reg_f (reg vm))[k := w]) vm)"
    "step_ok ins vm (upd_e ((reg_e (reg vm))[k := w]) vm)"
    "step_ok ins vm (vm\<lparr> scratchpad := (scratchpad vm)[k := x] \<rparr>)"
  using assms
  by (auto simp: step_ok_def vm_ok_def vm_frame_def env_sync_def get_rounding_mode_def
      intro!: nth_list_update_neq)

lemma dst_written:
  assumes "is_R (i_dst ins)"
    and "i_effect ins \<in> {Vm_exec_iadd_rs, Vm_exec_iadd_m, Vm_exec_isub_r, Vm_exec_isub_m, Vm_exec_imul_r,
      Vm_exec_imul_m, Vm_exec_imulh_r, Vm_exec_imulh_m, Vm_exec_ismulh_r, Vm_exec_ismulh_m,
      Vm_exec_ineg_r, Vm_exec_ixor_r, Vm_exec_ixor_m, Vm_exec_iror_r, Vm_exec_irol_r, Vm_exec_iswap_r} \<or>
      i_effect ins = Vm_exec_imul_rcp \<and> i_reciprocal ins \<noteq> 0"
  shows "reg_ix (i_dst ins) \<in> instr_writes ins"
proof -
  obtain d where "i_dst ins = Store_R d" using kind_cases(1) [OF assms(1)] by blast
  then show ?thesis using assms(2) by (auto simp: instr_writes_def)
qed

lemmas exec_defs =
  exec_fswap_r_def exec_fadd_r_def exec_fadd_m_def exec_fsub_r_def exec_fsub_m_def exec_fscal_r_def
  exec_fmul_r_def exec_fsqrt_r_def exec_fdiv_m_def exec_iadd_m_def exec_isub_m_def exec_imul_m_def
  exec_iadd_rs_def exec_isub_r_def exec_imul_r_def exec_imul_rcp_def exec_imulh_r_def exec_imulh_m_def
  exec_ismulh_r_def exec_ismulh_m_def exec_ineg_r_def exec_ixor_r_def exec_ixor_m_def exec_iror_r_def
  exec_irol_r_def exec_cbranch_def

lemma swap_ok:
  assumes "vm_ok vm" "is_R (i_dst ins)" "is_R (i_src ins)" "i_effect ins = Vm_exec_iswap_r"
  shows "\<exists>vm'. exec_iswap_r ins vm = Some vm' \<and> step_ok ins vm vm'"
proof -
  let ?r = "reg_r (reg vm)" and ?d = "reg_ix (i_dst ins)" and ?s = "reg_ix (i_src ins)"
  obtain d s where ds: "i_dst ins = Store_R d" "i_src ins = Store_R s" "d < 8" "s < 8"
    using kind_cases(1) assms by metis
  have w: "?d \<in> instr_writes ins" "?s \<in> instr_writes ins"
    using assms(4) ds by (auto simp: instr_writes_def)
  let ?vm1 = "upd_r (?r[?d := ?r ! ?s]) vm"
  have ok1: "step_ok ins vm ?vm1" using step_ok_upd(1) [OF assms(1) w(1)] .
  then have "vm_ok ?vm1" by (simp add: step_ok_def)
  then have ok2: "step_ok ins ?vm1 (upd_r ((reg_r (reg ?vm1))[?s := ?r ! ?d]) ?vm1)"
    using step_ok_upd(1) [OF _ w(2)] by blast
  have "exec_iswap_r ins vm = Some (upd_r ((reg_r (reg ?vm1))[?s := ?r ! ?d]) ?vm1)"
    using assms \<open>vm_ok ?vm1\<close> by (simp add: exec_iswap_r_def reg_access)
  moreover have "step_ok ins vm (upd_r ((reg_r (reg ?vm1))[?s := ?r ! ?d]) ?vm1)"
    using ok1 ok2 by (simp add: step_ok_def vm_frame_def)
  ultimately show ?thesis by blast
qed

lemma istore_ok:
  assumes "vm_ok vm" "is_mem_dst (i_dst ins)" "is_R (i_src ins)" "i_imm ins \<noteq> None"
  shows "\<exists>vm'. exec_istore ins vm = Some vm' \<and> step_ok ins vm vm'"
proof -
  obtain ix where "scratchpad_dst_ix vm ins = Some ix" "ix < 262144"
    using scratchpad_dst_ix_ok [OF assms(1,2,4)] by blast
  then show ?thesis
    using assms step_ok_upd(4) [OF assms(1)]
    by (simp add: exec_istore_def reg_access vm_ok_def [of vm])
qed

lemma cfround_ok:
  assumes "vm_ok vm" "is_R (i_src ins)" "i_imm ins \<noteq> None"
  shows "\<exists>vm'. exec_cfround ins vm = Some vm' \<and> step_ok ins vm vm'"
proof -
  obtain imm where imm: "i_imm ins = Some imm" using assms(3) by blast
  define mode :: u32 where "mode = ucast (word_rotr (unat imm) (reg_r (reg vm) ! reg_ix (i_src ins)) mod 4)"
  have "unat (word_rotr (unat imm) (reg_r (reg vm) ! reg_ix (i_src ins)) mod 4) < 4"
    by (simp add: unat_mod)
  then have "unat mode < 4"
    unfolding mode_def unsigned_ucast_eq by (simp add: take_bit_eq_mod order_le_less_trans [OF mod_less_eq_dividend])
  then have "mode < 4" by (simp add: word_less_nat_alt)
  then obtain vm' where "set_rounding_mode mode vm = Some vm'" "vm_ok vm'" "env_sync vm'" "vm_frame vm vm'"
    "vm_pc vm' = vm_pc vm" "reg vm' = reg vm"
    using set_rounding_mode_ok [OF assms(1)] by blast
  then show ?thesis
    using assms imm by (simp add: exec_cfround_def reg_access mode_def step_ok_def)
qed

lemma exec_ok:
  assumes vm: "vm_ok vm" and ok: "instr_ok ins" and nb: "i_effect ins \<noteq> Vm_exec_cbranch"
  shows "\<exists>vm'. instr_execute ins vm = Some vm' \<and> step_ok ins vm vm'"
  using ok nb vm unfolding instr_ok_def instr_execute_def
  by (cases "i_effect ins")
     (auto simp: exec_defs fault_simps Let_def swap_ok istore_ok cfround_ok
      intro!: step_ok_refl step_ok_upd dst_written)

section \<open>Branches and the instruction loop\<close>

lemma cbranch_ok:
  assumes "vm_ok vm" "instr_ok ins" "i_effect ins = Vm_exec_cbranch"
  shows "\<exists>d inc shift t. instr_branch ins = Some (d, inc, shift, t) \<and> d < 8 \<and>
    instr_execute ins vm =
      Some ((upd_r ((reg_r (reg vm))[d := reg_r (reg vm) ! d + inc]) vm)
        \<lparr> vm_pc := if branch_taken shift (reg_r (reg vm) ! d + inc) then t else vm_pc vm \<rparr>)"
proof -
  obtain d c imm t where i: "i_dst ins = Store_R d" "d < 8" "i_mode ins = Mode_Cond c"
    "i_imm ins = Some imm" "i_target ins = Some t"
    using assms(2,3) kind_cases(1) [of "i_dst ins"] by (auto simp: instr_ok_def)
  have "CONDITION_MASK = 255" by (simp add: CONDITION_MASK_def CONDITION_OFFSET_def)
  then have "instr_execute ins vm =
      Some ((upd_r ((reg_r (reg vm))[d := reg_r (reg vm) ! d + branch_inc (unat c + 8) imm]) vm)
        \<lparr> vm_pc := if branch_taken (unat c + 8) (reg_r (reg vm) ! d + branch_inc (unat c + 8) imm)
                   then t else vm_pc vm \<rparr>)"
    using assms(1,3) i
    by (simp add: instr_execute_def exec_cbranch_def Let_def vm_ok_def branch_taken_def branch_inc_def
        CONDITION_OFFSET_def)
  moreover have "instr_branch ins = Some (d, branch_inc (unat c + 8) imm, unat c + 8, t)"
    using assms(3) i by (simp add: instr_branch_def)
  ultimately show ?thesis using i(2) by blast
qed

lemma instr_branch_iff: "instr_ok ins \<Longrightarrow> instr_branch ins = None \<longleftrightarrow> i_effect ins \<noteq> Vm_exec_cbranch"
  using kind_cases(1) [of "i_dst ins"] by (cases "i_effect ins") (auto simp: instr_ok_def instr_branch_def)

definition machine_ok :: "Instr list \<Rightarrow> Vm \<Rightarrow> bool" where
  "machine_ok prog vm \<longleftrightarrow> length prog = 256 \<and> prog_ok prog \<and> vm_ok vm"

lemma machine_instr: "machine_ok prog vm \<Longrightarrow> q < 256 \<Longrightarrow> instr_ok (prog ! q)"
  by (simp add: machine_ok_def prog_ok_def)

lemma exec_step_at:
  assumes "machine_ok prog vm" "vm_pc vm = int q" "q < 256"
  shows "exec_step prog vm =
    Option.bind (instr_execute (prog ! q) vm) (\<lambda>vm. Some (vm\<lparr> vm_pc := vm_pc vm + 1 \<rparr>))"
  using assms by (simp add: exec_step_def machine_ok_def)

lemma vm_ok_pc [simp]: "vm_ok (vm\<lparr> vm_pc := t \<rparr>) = vm_ok vm"
  by (simp add: vm_ok_def)

interpretation ref: branch_machine machine_ok exec_step vm_pc "\<lambda>vm d. reg_r (reg vm) ! d"
  "\<lambda>prog q. instr_branch (prog ! q)" "\<lambda>prog q. instr_writes (prog ! q)"
proof unfold_locales
  fix prog vm q
  assume a: "machine_ok prog vm" "vm_pc vm = int q" "q < 256" "instr_branch (prog ! q) = None"
  have ok: "vm_ok vm" "instr_ok (prog ! q)" using a machine_instr by (auto simp: machine_ok_def)
  have "i_effect (prog ! q) \<noteq> Vm_exec_cbranch" using instr_branch_iff [OF ok(2)] a(4) by simp
  then obtain vm' where "instr_execute (prog ! q) vm = Some vm'" "step_ok (prog ! q) vm vm'"
    using exec_ok [OF ok] by blast
  then show "\<exists>s'. exec_step prog vm = Some s' \<and> machine_ok prog s' \<and> vm_pc s' = int q + 1 \<and>
      (\<forall>d. d \<notin> instr_writes (prog ! q) \<longrightarrow> reg_r (reg s') ! d = reg_r (reg vm) ! d)"
    using exec_step_at [OF a(1-3)] a by (simp add: step_ok_def machine_ok_def)
next
  fix prog vm q d inc shift t
  assume a: "machine_ok prog vm" "vm_pc vm = int q" "q < 256"
    "instr_branch (prog ! q) = Some (d, inc, shift, t)"
  have ok: "vm_ok vm" "instr_ok (prog ! q)" using a machine_instr by (auto simp: machine_ok_def)
  have "i_effect (prog ! q) = Vm_exec_cbranch" using instr_branch_iff [OF ok(2)] a(4) by auto
  then have "d < 8" "instr_execute (prog ! q) vm =
      Some ((upd_r ((reg_r (reg vm))[d := reg_r (reg vm) ! d + inc]) vm)
        \<lparr> vm_pc := if branch_taken shift (reg_r (reg vm) ! d + inc) then t else vm_pc vm \<rparr>)"
    using cbranch_ok [OF ok] a(4) by auto
  then show "\<exists>s'. exec_step prog vm = Some s' \<and> machine_ok prog s' \<and>
      reg_r (reg s') ! d = reg_r (reg vm) ! d + inc \<and>
      vm_pc s' = (if branch_taken shift (reg_r (reg vm) ! d + inc) then t + 1 else int q + 1)"
    using exec_step_at [OF a(1-3)] a by (simp add: machine_ok_def vm_ok_def)
next
  fix prog vm q d inc shift t
  assume "machine_ok prog vm" "q < 256" "instr_branch (prog ! q) = Some (d, inc, shift, t)"
  then show "branch_increment shift inc \<and> -1 \<le> t \<and> t < int q \<and>
      (\<forall>i. t < int i \<and> i < q \<longrightarrow> instr_branch (prog ! i) = None \<and> d \<notin> instr_writes (prog ! i))"
    by (fastforce simp: machine_ok_def prog_ok_def branch_ok_def)
qed

lemma exec_loop_runs:
  "runs (exec_step prog) (\<lambda>vm. vm_pc vm < 256) n vm vm' \<Longrightarrow> exec_loop prog vm = Some vm'"
  by (rule runs_loop [where loop = "exec_loop prog"])
     (assumption, subst exec_loop.simps, simp add: RANDOMX_PROGRAM_SIZE_def)

text \<open>What one step keeps besides the shape.\<close>

definition vm_good :: "Vm \<Rightarrow> bool" where
  "vm_good vm \<longleftrightarrow> vm_ok vm \<and> vm_memory_ok (mem vm) \<and> env_sync vm"

lemma exec_step_good:
  assumes "machine_ok prog vm" "0 \<le> vm_pc vm" "vm_pc vm < 256" "exec_step prog vm = Some vm'"
  shows "machine_ok prog vm' \<and> 0 \<le> vm_pc vm' \<and> vm_frame vm vm' \<and> (env_sync vm \<longrightarrow> env_sync vm')"
proof -
  define q where "q = nat (vm_pc vm)"
  have q: "vm_pc vm = int q" "q < 256" using assms(2,3) by (simp_all add: q_def)
  have ok: "vm_ok vm" "instr_ok (prog ! q)" using assms q machine_instr by (auto simp: machine_ok_def)
  have "vm_frame vm vm' \<and> (env_sync vm \<longrightarrow> env_sync vm')"
  proof (cases "i_effect (prog ! q) = Vm_exec_cbranch")
    case True
    then show ?thesis
      using cbranch_ok [OF ok True] exec_step_at [OF assms(1) q] assms(4)
      by (auto simp: vm_frame_def env_sync_def get_rounding_mode_def)
  next
    case False
    then show ?thesis
      using exec_ok [OF ok False] exec_step_at [OF assms(1) q] assms(4)
      by (auto simp: step_ok_def vm_frame_def env_sync_def get_rounding_mode_def)
  qed
  then show ?thesis using ref.step_keeps_ok [OF assms] by blast
qed

lemma exec_loop_ok:
  assumes "machine_ok prog vm" "vm_pc vm = 0" "vm_good vm"
  shows "\<exists>n vm'. runs (exec_step prog) (\<lambda>vm. vm_pc vm < 256) n vm vm' \<and> n \<le> 768 \<and>
    exec_loop prog vm = Some vm' \<and> vm_good vm' \<and> vm_frame vm vm'"
proof -
  obtain n vm' where run: "runs (exec_step prog) (\<lambda>vm. vm_pc vm < 256) n vm vm'" "n \<le> 768"
    using ref.loop_bound [OF assms(1,2)] by blast
  let ?P = "\<lambda>s. machine_ok prog s \<and> 0 \<le> vm_pc s \<and> vm_frame vm s \<and> env_sync s"
  have "?P vm'"
  proof (rule runs_invariant [OF run(1)])
    show "?P vm" using assms by (simp add: vm_frame_def vm_good_def)
  next
    fix s s1
    assume "vm_pc s < 256" "?P s" "exec_step prog s = Some s1"
    then show "?P s1" using exec_step_good [of prog s s1] by (auto simp: vm_frame_def)
  qed
  then show ?thesis
    using run exec_loop_runs [OF run(1)] assms(3) by (auto simp: vm_good_def machine_ok_def vm_frame_def)
qed

section \<open>Iterations, programs and the hash\<close>

lemma foldl_option_keeps:
  assumes "P s" "\<And>x s. x \<in> set xs \<Longrightarrow> P s \<Longrightarrow> \<exists>s'. f x s = Some s' \<and> P s'"
  shows "\<exists>s'. foldl_option f xs s = Some s' \<and> P s'"
  using foldl_option_refine [where R = "\<lambda>s t. P s" and h = "\<lambda>x t. t" and xs = xs and f = f] assms by simp

lemma vm_good_upd:
  assumes "vm_good vm"
  shows "length xs = 8 \<Longrightarrow> vm_good (upd_r xs vm)" "length ys = 4 \<Longrightarrow> vm_good (upd_f ys vm)"
    "length ys = 4 \<Longrightarrow> vm_good (upd_e ys vm)" "length ys = 4 \<Longrightarrow> vm_good (upd_a ys vm)"
    "length pad = 262144 \<Longrightarrow> vm_good (vm\<lparr> scratchpad := pad \<rparr>)"
    "vm_good (vm\<lparr> vm_pc := t \<rparr>)" "vm_good (vm\<lparr> mem_reg := m \<rparr>)"
  using assms by (auto simp: vm_good_def vm_ok_def env_sync_def get_rounding_mode_def)

lemma vm_good_sizes:
  assumes "vm_good vm"
  shows "length (reg_r (reg vm)) = 8" "length (reg_f (reg vm)) = 4" "length (reg_e (reg vm)) = 4"
    "length (scratchpad vm) = 262144" "length (read_reg (config vm)) = 4" "vm_ok vm"
    "i < 4 \<Longrightarrow> read_reg (config vm) ! i < 8"
  using assms by (auto simp: vm_good_def vm_ok_def)

lemma load_steps_ok:
  assumes "vm_good vm" "addr + 8 \<le> 262144"
  shows "i < 8 \<Longrightarrow> \<exists>vm'. load_r addr i vm = Some vm' \<and> vm_good vm'"
    "i < 4 \<Longrightarrow> \<exists>vm'. load_f addr i vm = Some vm' \<and> vm_good vm'"
    "i < 4 \<Longrightarrow> \<exists>vm'. load_e addr i vm = Some vm' \<and> vm_good vm'"
  using assms
  by (auto simp: load_r_def load_f_def load_e_def vm_good_sizes MAX_FLOAT_REG_def mask_exponent_ok
      intro!: vm_good_upd)

lemma load_registers_ok:
  assumes "vm_good vm" "addr0 + 8 \<le> 262144" "addr1 + 8 \<le> 262144"
  shows "\<exists>vm'. load_registers addr0 addr1 vm = Some vm' \<and> vm_good vm'"
proof -
  have "\<exists>vm1. foldl_option (load_r addr0) [0..<MAX_REG] vm = Some vm1 \<and> vm_good vm1"
    by (rule foldl_option_keeps [where P = vm_good, OF assms(1)]) (use assms load_steps_ok in \<open>auto simp: MAX_REG_def\<close>)
  then obtain vm1 where vm1: "foldl_option (load_r addr0) [0..<MAX_REG] vm = Some vm1" "vm_good vm1" by blast
  have "\<exists>vm2. foldl_option (load_f addr1) [0..<MAX_FLOAT_REG] vm1 = Some vm2 \<and> vm_good vm2"
    by (rule foldl_option_keeps [where P = vm_good, OF vm1(2)]) (use assms load_steps_ok in \<open>auto simp: MAX_FLOAT_REG_def\<close>)
  then obtain vm2 where vm2: "foldl_option (load_f addr1) [0..<MAX_FLOAT_REG] vm1 = Some vm2" "vm_good vm2" by blast
  have "\<exists>vm3. foldl_option (load_e addr1) [0..<MAX_FLOAT_REG] vm2 = Some vm3 \<and> vm_good vm3"
    by (rule foldl_option_keeps [where P = vm_good, OF vm2(2)]) (use assms load_steps_ok in \<open>auto simp: MAX_FLOAT_REG_def\<close>)
  then show ?thesis using vm1 vm2 by (simp add: load_registers_def)
qed

lemma store_steps_ok:
  assumes "vm_good vm" "addr + 8 \<le> 262144"
  shows "i < 8 \<Longrightarrow> \<exists>vm'. store_r addr i vm = Some vm' \<and> vm_good vm'"
    "i < 4 \<Longrightarrow> \<exists>vm'. mix_f i vm = Some vm' \<and> vm_good vm'"
    "i < 4 \<Longrightarrow> \<exists>vm'. store_f addr i vm = Some vm' \<and> vm_good vm'"
  using assms
  by (auto simp: store_r_def mix_f_def store_f_def vm_good_sizes case_prod_beta intro!: vm_good_upd)

lemma store_registers_ok:
  assumes "vm_good vm" "addr0 + 8 \<le> 262144" "addr1 + 8 \<le> 262144"
  shows "\<exists>vm'. store_registers addr0 addr1 vm = Some vm' \<and> vm_good vm'"
proof -
  have "\<exists>vm1. foldl_option (store_r addr1) [0..<MAX_REG] vm = Some vm1 \<and> vm_good vm1"
    by (rule foldl_option_keeps [where P = vm_good, OF assms(1)]) (use assms store_steps_ok in \<open>auto simp: MAX_REG_def\<close>)
  then obtain vm1 where vm1: "foldl_option (store_r addr1) [0..<MAX_REG] vm = Some vm1" "vm_good vm1" by blast
  have "\<exists>vm2. foldl_option mix_f [0..<MAX_FLOAT_REG] vm1 = Some vm2 \<and> vm_good vm2"
    by (rule foldl_option_keeps [where P = vm_good, OF vm1(2)]) (use assms store_steps_ok(2) in \<open>auto simp: MAX_FLOAT_REG_def\<close>)
  then obtain vm2 where vm2: "foldl_option mix_f [0..<MAX_FLOAT_REG] vm1 = Some vm2" "vm_good vm2" by blast
  have "\<exists>vm3. foldl_option (store_f addr0) [0..<MAX_FLOAT_REG] vm2 = Some vm3 \<and> vm_good vm3"
    by (rule foldl_option_keeps [where P = vm_good, OF vm2(2)]) (use assms store_steps_ok in \<open>auto simp: MAX_FLOAT_REG_def\<close>)
  then show ?thesis using vm1 vm2 by (simp add: store_registers_def)
qed

lemma sp_bound: "unat ((x AND SCRATCHPAD_L3_MASK_U32) div 8) + 8 \<le> 262144"
proof -
  have "unat (x AND SCRATCHPAD_L3_MASK_U32) \<le> unat SCRATCHPAD_L3_MASK_U32"
    by (simp add: word_le_nat_alt [symmetric] word_and_le1)
  then have "unat (x AND SCRATCHPAD_L3_MASK_U32) div 8 \<le> 0x1fffc0 div 8"
    by (intro div_le_mono) (simp add: SCRATCHPAD_L3_MASK_U32_def)
  then show ?thesis by (simp add: unat_div)
qed

lemma sp_addresses_ok:
  assumes "vm_good vm"
  shows "\<exists>a0 a1. sp_addresses sp vm = Some (a0, a1) \<and> unat a0 + 8 \<le> 262144 \<and> unat a1 + 8 \<le> 262144"
  using vm_good_sizes [OF assms] sp_bound by (simp add: sp_addresses_def case_prod_beta Let_def)

lemma dataset_step_ok:
  assumes "vm_good vm"
  shows "\<exists>vm'. dataset_step vm = Some vm' \<and> vm_good vm'"
proof -
  obtain xs where "dataset_read (mem vm) (dataset_offset vm + ma (mem_reg vm)) (reg_r (reg vm)) = Some xs"
    "length xs = 8"
    using ds.dsread_returns assms vm_good_sizes [OF assms] unfolding vm_good_def by blast
  then show ?thesis
    using vm_good_sizes [OF assms] vm_good_upd(1) [OF vm_good_upd(7) [OF assms], of xs]
    by (simp add: dataset_step_def Let_def)
qed

lemma run_iteration_ok:
  assumes "length prog = 256" "prog_ok prog" "vm_good vm"
  shows "\<exists>vm'. run_iteration prog sp vm = Some vm' \<and> vm_good vm'"
proof -
  obtain a0 a1 where a: "sp_addresses sp vm = Some (a0, a1)" "unat a0 + 8 \<le> 262144" "unat a1 + 8 \<le> 262144"
    using sp_addresses_ok [OF assms(3)] by blast
  obtain vm1 where vm1: "load_registers (unat a0) (unat a1) vm = Some vm1" "vm_good vm1"
    using load_registers_ok [OF assms(3) a(2,3)] by blast
  have "vm_good (vm1\<lparr> vm_pc := 0 \<rparr>)" using vm_good_upd(6) [OF vm1(2)] .
  then obtain vm2 where vm2: "exec_loop prog (vm1\<lparr> vm_pc := 0 \<rparr>) = Some vm2" "vm_good vm2"
    using exec_loop_ok [of prog "vm1\<lparr> vm_pc := 0 \<rparr>"] assms(1,2) by (auto simp: machine_ok_def vm_good_def)
  obtain vm3 where vm3: "dataset_step vm2 = Some vm3" "vm_good vm3"
    using dataset_step_ok [OF vm2(2)] by blast
  obtain vm4 where "store_registers (unat a0) (unat a1) vm3 = Some vm4" "vm_good vm4"
    using store_registers_ok [OF vm3(2) a(2,3)] by blast
  then show ?thesis using a vm1 vm2 vm3 by (simp add: run_iteration_def)
qed

lemma run_iterations_ok:
  assumes "length prog = 256" "prog_ok prog" "vm_good vm"
  shows "\<exists>vm'. run_iterations prog n sp vm = Some vm' \<and> vm_good vm'"
  using assms(3)
proof (induction n arbitrary: vm sp)
  case (Suc n)
  then obtain vm1 where "run_iteration prog sp vm = Some vm1" "vm_good vm1"
    using run_iteration_ok [OF assms(1,2)] by blast
  then show ?case using Suc.IH by auto
qed simp

lemma init_vm_ok:
  assumes "length en = 16" "vm_good vm"
  shows "\<exists>vm'. init_vm en vm = Some vm' \<and> vm_good vm'"
proof -
  have b: "unat (x AND 1) \<le> 1" for x :: u64
    using word_and_le1 [of x 1] by (simp add: word_le_nat_alt)
  have "unat (x AND 1) < 8" "2 + unat (x AND 1) < 8" "4 + unat (x AND 1) < 8" "6 + unat (x AND 1) < 8"
    for x :: u64
    using b [of x] by linarith+
  then show ?thesis
    using assms by (auto simp: init_vm_def vm_good_def vm_ok_def env_sync_def get_rounding_mode_def MAX_REG_def)
qed

lemma run_ok:
  assumes "vm_good vm"
  shows "\<exists>vm'. run sd vm = Some vm' \<and> vm_good vm'"
proof -
  have "length (gen_program_aes_4rx4 sd 136) = 136" by (simp add: length_gen_program_aes_4rx4)
  then obtain prog where prog: "from_bytes (gen_program_aes_4rx4 sd 136) = Some prog"
    "length (p_program prog) = 256" "length (p_entropy prog) = 16" "prog_ok (p_program prog)"
    using from_bytes_ok by blast
  obtain vm1 where vm1: "init_vm (p_entropy prog) vm = Some vm1" "vm_good vm1"
    using init_vm_ok [OF prog(3) assms] by blast
  show ?thesis using run_iterations_ok [OF prog(2,4) vm1(2)] prog(1) vm1(1) by (simp add: run_def)
qed

lemma hash_to_seed_ok:
  assumes "length bytes = 64"
  shows "\<exists>sd. hash_to_m128i_array bytes = Some sd"
  using assms by (simp add: hash_to_m128i_array_def from_u8_def)

lemma reset_rounding_mode_ok:
  assumes "vm_ok vm" "vm_memory_ok (mem vm)"
  shows "vm_good (reset_rounding_mode vm)"
  using assms env_mode_set [of 0 "fp_env vm"]
  by (auto simp: reset_rounding_mode_def vm_good_def vm_ok_def env_sync_def get_rounding_mode_def)

lemma run_programs_ok:
  assumes "digest_length hash" "vm_good vm"
  shows "\<exists>sd' vm'. run_programs hash n sd vm = Some (sd', vm') \<and> vm_good vm'"
  using assms(2)
proof (induction n arbitrary: sd vm)
  case 0
  then show ?case by (intro exI [of _ sd] exI [of _ vm]) simp
next
  case (Suc n)
  obtain vm1 where vm1: "run sd vm = Some vm1" "vm_good vm1" using run_ok [OF Suc.prems] by blast
  have "length (hash 64 (to_bytes (reg vm1))) = 64" using assms(1) by (simp add: digest_length_def)
  then obtain sd1 where "hash_to_m128i_array (hash 64 (to_bytes (reg vm1))) = Some sd1"
    using hash_to_seed_ok by blast
  then show ?case using vm1(1) Suc.IH [OF vm1(2), of sd1] by simp
qed

lemma vm_ok_sync_irrelevant: "vm_ok (vm\<lparr> fp_env := env \<rparr>) = vm_ok vm"
  by (simp add: vm_ok_def)

lemma calculate_hash_ok:
  assumes "digest_length hash" "vm_ok vm" "vm_memory_ok (mem vm)"
  shows "\<exists>digest vm'. calculate_hash hash input vm = Some (digest, vm') \<and> length digest = 32 \<and>
    vm_ok vm' \<and> fp_env vm' = fp_env vm"
proof -
  have "length (hash 64 input) = 64" using assms(1) by (simp add: digest_length_def)
  then obtain sd where sd: "hash_to_m128i_array (hash 64 input) = Some sd" using hash_to_seed_ok by blast
  obtain pad sd1 where f: "fill_u64_loop 32768 sd = (pad, sd1)" by (rule prod.exhaust)
  have "length pad = 262144" using length_fill_loops(1) [of 32768 sd] f by simp
  then have vm1: "init_scratchpad sd vm = Some (sd1, vm\<lparr> scratchpad := pad \<rparr>)"
    "vm_ok (vm\<lparr> scratchpad := pad \<rparr>)" "vm_memory_ok (mem (vm\<lparr> scratchpad := pad \<rparr>))"
    using assms(2,3) f by (simp_all add: init_scratchpad_def fill_aes_1rx4_u64_def vm_ok_def)
  obtain sd2 vm2 where vm2: "run_programs hash (RANDOMX_PROGRAM_COUNT - 1) sd1
      (reset_rounding_mode (vm\<lparr> scratchpad := pad \<rparr>)) = Some (sd2, vm2)" "vm_good vm2"
    using run_programs_ok [OF assms(1) reset_rounding_mode_ok [OF vm1(2,3)]] by blast
  obtain vm3 where vm3: "run sd2 vm2 = Some vm3" "vm_good vm3" using run_ok [OF vm2(2)] by blast
  obtain h0 h1 h2 h3 where h: "hash_aes_1rx4 (scratchpad vm3) = Some (h0, h1, h2, h3)"
    using vm_good_sizes(4) [OF vm3(2)] by (simp add: hash_aes_1rx4_def Let_def) (metis surj_pair)
  have "vm_good (upd_a [as_m128d h0, as_m128d h1, as_m128d h2, as_m128d h3] vm3)"
    using vm_good_upd(4) [OF vm3(2)] by simp
  then have "vm_ok (upd_a [as_m128d h0, as_m128d h1, as_m128d h2, as_m128d h3] vm3)" by (simp add: vm_good_def)
  moreover have "length (hash RANDOMX_HASH_SIZE x) = 32" for x
    using assms(1) by (simp add: digest_length_def RANDOMX_HASH_SIZE_def)
  ultimately show ?thesis
    using sd vm1(1) vm2(1) vm3(1) h
    by (simp add: calculate_hash_def Let_def vm_ok_sync_irrelevant)
qed

lemma new_vm_ok: "vm_ok (new_vm m env)"
  by (simp add: new_vm_def new_register_def vm_ok_def MAX_REG_def MAX_FLOAT_REG_def SCRATCHPAD_SIZE_def)

section \<open>Properties\<close>

text \<open>C6: \<open>calculate_hash\<close> returns for every input: all loops end, no index, operand or assertion
  panics, the digest has 32 bytes, the machine keeps its shape and the caller's floating-point
  control register is restored.\<close>

theorem calculate_hash_total:
  assumes "digest_length hash" "vm_ok vm" "vm_memory_ok (mem vm)"
  shows "\<exists>digest vm'. calculate_hash hash input vm = Some (digest, vm') \<and> length digest = 32 \<and>
    vm_ok vm' \<and> fp_env vm' = fp_env vm"
  using calculate_hash_ok [OF assms] .

theorem calculate_hash_total_witness:
  "\<exists>digest vm'. calculate_hash zero_digest [1, 2, 3] (new_vm VmMemory_no_memory (Mxcsr 0x1f80)) =
     Some (digest, vm') \<and> length digest = 32 \<and> fp_env vm' = Mxcsr 0x1f80"
proof -
  have "vm_memory_ok (mem (new_vm VmMemory_no_memory (Mxcsr 0x1f80)))"
    using no_memory_ok by (simp add: new_vm_def vm_memory_ok_def VmMemory_no_memory_def)
  from calculate_hash_total [OF zero_digest_length new_vm_ok this, of "[1, 2, 3]"] show ?thesis
    by (auto simp: new_vm_def)
qed

text \<open>C15: The instruction loop of a decoded program ends after at most 768 instructions, from every
  machine state: a branch is taken at most twice in a row and never jumps over an earlier branch.\<close>

theorem instruction_loop_bound:
  assumes "from_bytes bytes = Some prog" "length bytes = 136" "vm_ok vm" "vm_pc vm = 0"
  shows "\<exists>n vm'. runs (exec_step (p_program prog)) (\<lambda>vm. vm_pc vm < RANDOMX_PROGRAM_SIZE) n vm vm' \<and>
    n \<le> 768 \<and> exec_loop (p_program prog) vm = Some vm' \<and> vm_ok vm'"
proof -
  have "machine_ok (p_program prog) vm"
    using from_bytes_ok [OF assms(2)] assms(1,3) by (simp add: machine_ok_def)
  from ref.loop_bound [OF this assms(4)] show ?thesis
    using exec_loop_runs by (auto simp: RANDOMX_PROGRAM_SIZE_def machine_ok_def)
qed

theorem instruction_loop_bound_witness:
  "\<exists>prog n vm'. from_bytes (replicate 136 0) = Some prog \<and> n \<le> 768 \<and>
     runs (exec_step (p_program prog)) (\<lambda>vm. vm_pc vm < RANDOMX_PROGRAM_SIZE) n
       (new_vm VmMemory_no_memory No_env) vm'"
proof -
  obtain prog where "from_bytes (replicate 136 0) = Some prog" using from_bytes_ok [of "replicate 136 0"] by auto
  from instruction_loop_bound [OF this _ new_vm_ok, of VmMemory_no_memory No_env] this show ?thesis
    by (auto simp: new_vm_def)
qed

text \<open>C16: Every 64-bit word decodes to an instruction whose effect runs without panic on every machine
  state of the right shape, and leaves a state of the right shape.\<close>

theorem decoded_instruction_safe:
  assumes "vm_ok vm"
  shows "\<exists>ins usage' vm'. decode_instruction w i usage = Some (ins, usage') \<and>
    instr_execute ins vm = Some vm' \<and> vm_ok vm'"
proof -
  obtain ins usage' where d: "decode_instruction w i usage = Some (ins, usage')" using decode_total by blast
  have "\<exists>vm'. instr_execute ins vm = Some vm' \<and> vm_ok vm'"
  proof (cases "i_effect ins = Vm_exec_cbranch")
    case True
    then show ?thesis
      using cbranch_ok [OF assms decode_instr_ok [OF d] True] assms by (auto simp: vm_ok_def)
  next
    case False
    then show ?thesis using exec_ok [OF assms decode_instr_ok [OF d] False] by (auto simp: step_ok_def)
  qed
  with d show ?thesis by blast
qed

theorem decoded_instruction_safe_witness:
  "\<exists>ins usage' vm'. decode_instruction 0x123456789abcdef0 3 (replicate 8 (-1)) = Some (ins, usage') \<and>
     instr_execute ins (new_vm VmMemory_no_memory No_env) = Some vm'"
  using decoded_instruction_safe [OF new_vm_ok, of "0x123456789abcdef0" 3 "replicate 8 (-1)"] by blast

text \<open>On a host, \<open>set_rounding_mode\<close> makes the control register select the requested mode, for
  both register formats, and rejects every other mode number.\<close>

theorem set_rounding_mode_correct:
  assumes "fp_env vm \<noteq> No_env"
  shows "if mode < 4
    then \<exists>vm'. set_rounding_mode mode vm = Some vm' \<and> env_mode (fp_env vm') = from_fprc mode \<and>
               get_rounding_mode vm' = mode
    else set_rounding_mode mode vm = None"
  using env_mode_set [OF _ assms, of mode] mode_cases [of mode]
  by (auto simp: set_rounding_mode_def get_rounding_mode_def)

theorem set_rounding_mode_correct_witness:
  "\<exists>vm'. set_rounding_mode 2 (new_vm VmMemory_no_memory (Fpcr 0)) = Some vm' \<and> env_mode (fp_env vm') = Up"
  using set_rounding_mode_correct [of "new_vm VmMemory_no_memory (Fpcr 0)" 2]
  by (auto simp: new_vm_def from_fprc_def)

end
