(* ===== verification/Compact.thy ===== *)
theory Compact
  imports Vm Softfp
begin

text \<open>
  Model of the production interpreter, \<open>randomx-sp1/src/lib.rs\<close>: the compact instruction format
  with its decoder, the unchecked operand accessors, the effects with software rounding, the
  iteration loop and the public function \<open>hash\<close>. The machine state is that of \<open>Vm\<close>; on the
  zkVM guest its \<open>fp_env\<close> is \<open>No_env\<close>. A register operand is a byte offset into the register
  array and a memory operand a byte offset into the scratchpad; an access that is misaligned or out of
  bounds is undefined behaviour, the value \<open>None\<close>. Names that the file shares with \<open>vm.rs\<close>
  carry the prefix \<open>sp1_\<close>; the constants of the two files are equal and are defined once.
  The differential audit is in the theory \<open>Differential\<close>.
\<close>

section \<open>Instructions\<close>

definition NO_REG :: u8 where "NO_REG = 255"
definition MEM_L1 :: u8 where "MEM_L1 = 0"
definition MEM_L2 :: u8 where "MEM_L2 = 1"
definition MEM_L3 :: u8 where "MEM_L3 = 2"

datatype CEffect =
  Sp1_nop | Sp1_iadd_rs | Sp1_iadd_m | Sp1_isub_r | Sp1_isub_imm | Sp1_isub_m | Sp1_imul_r
  | Sp1_imul_imm | Sp1_imul_m | Sp1_imulh_r | Sp1_imulh_m | Sp1_ismulh_r | Sp1_ismulh_m
  | Sp1_imul_rcp | Sp1_ineg_r | Sp1_ixor_r | Sp1_ixor_imm | Sp1_ixor_m | Sp1_iror_r
  | Sp1_iror_imm | Sp1_irol_r | Sp1_irol_imm | Sp1_iswap_r | Sp1_fswap_f | Sp1_fswap_e
  | Sp1_fadd_r | Sp1_fadd_m | Sp1_fsub_r | Sp1_fsub_m | Sp1_fscal_r | Sp1_fmul_r | Sp1_fdiv_m
  | Sp1_fsqrt_r | Sp1_cbranch | Sp1_cfround | Sp1_istore

record CompactInstr =
  c_effect :: CEffect
  c_imm :: u64
  c_target :: int
  c_memory_mask :: u32
  c_dst :: u8
  c_src :: u8
  c_mode :: u8

definition register_byte_offset :: "u8 \<Rightarrow> u8 \<Rightarrow> u8" where
  "register_byte_offset index stride = (if index = NO_REG then NO_REG else index * stride)"

definition compact_new :: "CEffect \<Rightarrow> u8 \<Rightarrow> u8 \<Rightarrow> u64 \<Rightarrow> u8 \<Rightarrow> CompactInstr" where
  "compact_new eff dst src imm mode =
     \<lparr> c_effect = eff, c_imm = imm, c_target = 0, c_memory_mask = 0,
       c_dst = register_byte_offset dst 8, c_src = register_byte_offset src 8, c_mode = mode \<rparr>"

definition compact_new_float :: "CEffect \<Rightarrow> u8 \<Rightarrow> u8 \<Rightarrow> u64 \<Rightarrow> u8 \<Rightarrow> CompactInstr" where
  "compact_new_float eff dst src imm mode =
     (compact_new eff dst src imm mode)
       \<lparr> c_dst := register_byte_offset dst 16, c_src := register_byte_offset src 16 \<rparr>"

text \<open>\<open>None\<close> is \<open>unreachable!()\<close>.\<close>

definition memory_mask :: "u8 \<Rightarrow> u32 option" where
  "memory_mask mode =
     (if mode = MEM_L1 then Some (ucast SCRATCHPAD_L1_MASK)
      else if mode = MEM_L2 then Some (ucast SCRATCHPAD_L2_MASK)
      else if mode = MEM_L3 then Some (ucast SCRATCHPAD_L3_MASK)
      else None)"

definition compact_new_memory :: "CEffect \<Rightarrow> u8 \<Rightarrow> u8 \<Rightarrow> u64 \<Rightarrow> u8 \<Rightarrow> CompactInstr option" where
  "compact_new_memory eff dst src imm mode =
     do { m \<leftarrow> memory_mask mode; Some ((compact_new eff dst src imm mode)\<lparr> c_memory_mask := m \<rparr>) }"

section \<open>The decoder\<close>

definition is_zero_or_power_of_two :: "u64 \<Rightarrow> bool" where
  "is_zero_or_power_of_two v \<longleftrightarrow> v AND (v - 1) = 0"

definition decode_reg_or_imm :: "CEffect \<Rightarrow> CEffect \<Rightarrow> u8 \<Rightarrow> u8 \<Rightarrow> u32 \<Rightarrow> CompactInstr" where
  "decode_reg_or_imm register_effect immediate_effect dst src imm_32 =
     (if dst = src then compact_new immediate_effect dst NO_REG (u64_from_i32_imm imm_32) 0
      else compact_new register_effect dst src 0 0)"

definition decode_memory ::
  "CEffect \<Rightarrow> u8 \<Rightarrow> u8 \<Rightarrow> u32 \<Rightarrow> u8 \<Rightarrow> bool \<Rightarrow> CompactInstr option" where
  "decode_memory eff dst address_reg imm_32 modifier same_register =
     (if same_register
      then compact_new_memory eff dst NO_REG (ucast imm_32 AND SCRATCHPAD_L3_MASK) MEM_L3
      else let mode = (if modifier AND 3 = 0 then MEM_L2 else MEM_L1)
           in compact_new_memory eff dst address_reg (u64_from_i32_imm imm_32) mode)"

definition decode_float_memory ::
  "CEffect \<Rightarrow> u8 \<Rightarrow> u8 \<Rightarrow> u32 \<Rightarrow> u8 \<Rightarrow> bool \<Rightarrow> CompactInstr option" where
  "decode_float_memory eff dst address_reg imm_32 modifier same_register =
     do { instr \<leftarrow> decode_memory eff dst address_reg imm_32 modifier same_register;
          Some (instr\<lparr> c_dst := register_byte_offset dst 16 \<rparr>) }"

text \<open>The fields of the instruction word: arithmetic shifts of the signed word, then a mask or a
  truncation.\<close>

definition raw_op :: "u64 \<Rightarrow> nat" where "raw_op raw = unat (raw AND 0xff)"
definition raw_dst :: "u64 \<Rightarrow> nat" where "raw_dst raw = unat (signed_drop_bit 8 raw AND 0xff)"
definition raw_src :: "u64 \<Rightarrow> nat" where "raw_src raw = unat (signed_drop_bit 16 raw AND 0xff)"
definition raw_modifier :: "u64 \<Rightarrow> u8" where "raw_modifier raw = ucast (signed_drop_bit 24 raw AND 0xff)"
definition raw_imm32 :: "u64 \<Rightarrow> u32" where "raw_imm32 raw = ucast (signed_drop_bit 32 raw)"

text \<open>The branches of the decoder from \<open>FSWAP_R\<close> on.\<close>

definition sp1_decode_float_control :: "u64 \<Rightarrow> int \<Rightarrow> int list \<Rightarrow> (CompactInstr \<times> int list) option" where
  "sp1_decode_float_control raw index usage =
     (let opc = raw_op raw; dst = raw_dst raw; src = raw_src raw;
          modifier = raw_modifier raw; imm_32 = raw_imm32 raw;
          dst_r = of_nat (dst mod MAX_REG); src_r = of_nat (src mod MAX_REG);
          dst_f = of_nat (dst mod MAX_FLOAT_REG); src_f = of_nat (src mod MAX_FLOAT_REG)
      in if opc < 0x7c
         then Some (compact_new_float (if dst_r \<ge> of_nat MAX_FLOAT_REG then Sp1_fswap_e else Sp1_fswap_f)
                   (dst_r mod of_nat MAX_FLOAT_REG) NO_REG 0 0, usage)
         else if opc < 0x8c
         then Some (compact_new_float Sp1_fadd_r dst_f src_f 0 0, usage)
         else if opc < 0x91
         then map_option (\<lambda>c. (c, usage)) (decode_float_memory Sp1_fadd_m dst_f src_r imm_32 modifier False)
         else if opc < 0xa1
         then Some (compact_new_float Sp1_fsub_r dst_f src_f 0 0, usage)
         else if opc < 0xa6
         then map_option (\<lambda>c. (c, usage)) (decode_float_memory Sp1_fsub_m dst_f src_r imm_32 modifier False)
         else if opc < 0xac
         then Some (compact_new_float Sp1_fscal_r dst_f NO_REG 0 0, usage)
         else if opc < 0xcc
         then Some (compact_new_float Sp1_fmul_r dst_f src_f 0 0, usage)
         else if opc < 0xd0
         then map_option (\<lambda>c. (c, usage)) (decode_float_memory Sp1_fdiv_m dst_f src_r imm_32 modifier False)
         else if opc < 0xd6
         then Some (compact_new_float Sp1_fsqrt_r dst_f NO_REG 0 0, usage)
         else if opc < 0xef
         then (let condition_shift = drop_bit 4 modifier + of_nat CONDITION_OFFSET;
                increment = u64_from_i32_imm imm_32 OR push_bit (unat condition_shift) 1;
                increment = increment AND NOT (push_bit (unat (condition_shift - 1)) 1)
            in Some ((compact_new Sp1_cbranch dst_r NO_REG increment condition_shift)
                       \<lparr> c_target := usage ! unat dst_r \<rparr>, replicate MAX_REG index))
         else if opc < 0xf0
         then Some (compact_new Sp1_cfround NO_REG src_r (ucast (imm_32 AND 63)) 0, usage)
         else if opc < 0x100
         then (let cnd = drop_bit 4 modifier;
                mode = (if cnd \<ge> STORE_L3_CONDITION then MEM_L3
                        else if modifier AND 3 = 0 then MEM_L2 else MEM_L1)
            in map_option (\<lambda>c. (c, usage))
                 (compact_new_memory Sp1_istore dst_r src_r (u64_from_i32_imm imm_32) mode))
         else Some (compact_new Sp1_nop NO_REG NO_REG 0 0, usage))"

definition sp1_decode_instruction :: "u64 \<Rightarrow> int \<Rightarrow> int list \<Rightarrow> (CompactInstr \<times> int list) option" where
  "sp1_decode_instruction raw index usage =
     (let opc = raw_op raw; dst = raw_dst raw; src = raw_src raw;
          modifier = raw_modifier raw; imm_32 = raw_imm32 raw;
          dst_r = of_nat (dst mod MAX_REG); src_r = of_nat (src mod MAX_REG);
          used = usage[unat dst_r := index]
      in if opc < 0x10
         then Some (compact_new Sp1_iadd_rs dst_r src_r (if dst_r = 5 then u64_from_i32_imm imm_32 else 0)
                   (drop_bit 2 modifier AND 3), used)
         else if opc < 0x17
         then map_option (\<lambda>c. (c, used)) (decode_memory Sp1_iadd_m dst_r src_r imm_32 modifier (dst_r = src_r))
         else if opc < 0x27
         then Some (decode_reg_or_imm Sp1_isub_r Sp1_isub_imm dst_r src_r imm_32, used)
         else if opc < 0x2e
         then map_option (\<lambda>c. (c, used)) (decode_memory Sp1_isub_m dst_r src_r imm_32 modifier (dst_r = src_r))
         else if opc < 0x3e
         then Some (decode_reg_or_imm Sp1_imul_r Sp1_imul_imm dst_r src_r imm_32, used)
         else if opc < 0x42
         then map_option (\<lambda>c. (c, used)) (decode_memory Sp1_imul_m dst_r src_r imm_32 modifier (dst_r = src_r))
         else if opc < 0x46
         then Some (compact_new Sp1_imulh_r dst_r src_r 0 0, used)
         else if opc < 0x47
         then map_option (\<lambda>c. (c, used)) (decode_memory Sp1_imulh_m dst_r src_r imm_32 modifier (dst_r = src_r))
         else if opc < 0x4b
         then Some (compact_new Sp1_ismulh_r dst_r src_r 0 0, used)
         else if opc < 0x4c
         then map_option (\<lambda>c. (c, used)) (decode_memory Sp1_ismulh_m dst_r src_r imm_32 modifier (dst_r = src_r))
         else if opc < 0x54
         then (let divisor = ucast imm_32
            in if is_zero_or_power_of_two divisor
               then Some (compact_new Sp1_imul_rcp dst_r NO_REG 0 0, usage)
               else do { reciprocal \<leftarrow> randomx_reciprocal divisor;
                         Some (compact_new Sp1_imul_rcp dst_r NO_REG reciprocal 0, used) })
         else if opc < 0x56
         then Some (compact_new Sp1_ineg_r dst_r NO_REG 0 0, used)
         else if opc < 0x65
         then Some (decode_reg_or_imm Sp1_ixor_r Sp1_ixor_imm dst_r src_r imm_32, used)
         else if opc < 0x6a
         then map_option (\<lambda>c. (c, used)) (decode_memory Sp1_ixor_m dst_r src_r imm_32 modifier (dst_r = src_r))
         else if opc < 0x72
         then Some (decode_reg_or_imm Sp1_iror_r Sp1_iror_imm dst_r src_r (imm_32 AND 63), used)
         else if opc < 0x74
         then Some (decode_reg_or_imm Sp1_irol_r Sp1_irol_imm dst_r src_r (imm_32 AND 63), used)
         else if opc < 0x78
         then (if src_r = dst_r then Some (compact_new Sp1_nop NO_REG NO_REG 0 0, usage)
            else Some (compact_new Sp1_iswap_r dst_r src_r 0 0, usage[unat dst_r := index, unat src_r := index]))
         else sp1_decode_float_control raw index usage)"

record CompactProgram =
  cp_entropy :: "u64 list"
  cp_instructions :: "CompactInstr list"

primrec sp1_decode_words :: "u64 list \<Rightarrow> int \<Rightarrow> int list \<Rightarrow> CompactInstr list option" where
  "sp1_decode_words [] i usage = Some []"
| "sp1_decode_words (w # ws) i usage =
     do { (instr, usage) \<leftarrow> sp1_decode_instruction w i usage;
          instrs \<leftarrow> sp1_decode_words ws (i + 1) usage;
          Some (instr # instrs) }"

definition sp1_from_bytes :: "m128i list \<Rightarrow> CompactProgram option" where
  "sp1_from_bytes bytes =
     (if length bytes \<noteq> 136 then None
      else do { instructions \<leftarrow> sp1_decode_words (concat (map m128i_halves (drop 8 bytes))) 0
                  (replicate MAX_REG (-1));
                if int (length instructions) \<noteq> RANDOMX_PROGRAM_SIZE then None
                else Some \<lparr> cp_entropy = concat (map m128i_halves (take 8 bytes)),
                            cp_instructions = instructions \<rparr> })"

section \<open>Unchecked accessors\<close>

definition sp1_r :: "Vm \<Rightarrow> u8 \<Rightarrow> u64 option" where
  "sp1_r vm byte_offset = map_option ((!) (reg_r (reg vm))) (offset_index 8 (reg_r (reg vm)) byte_offset)"

definition sp1_set_r :: "Vm \<Rightarrow> u8 \<Rightarrow> u64 \<Rightarrow> Vm option" where
  "sp1_set_r vm byte_offset v =
     map_option (\<lambda>i. upd_r ((reg_r (reg vm))[i := v]) vm) (offset_index 8 (reg_r (reg vm)) byte_offset)"

definition sp1_f :: "Vm \<Rightarrow> u8 \<Rightarrow> m128d option" where
  "sp1_f vm byte_offset = map_option ((!) (reg_f (reg vm))) (offset_index 16 (reg_f (reg vm)) byte_offset)"

definition sp1_set_f :: "Vm \<Rightarrow> u8 \<Rightarrow> m128d \<Rightarrow> Vm option" where
  "sp1_set_f vm byte_offset v =
     map_option (\<lambda>i. upd_f ((reg_f (reg vm))[i := v]) vm) (offset_index 16 (reg_f (reg vm)) byte_offset)"

definition sp1_e :: "Vm \<Rightarrow> u8 \<Rightarrow> m128d option" where
  "sp1_e vm byte_offset = map_option ((!) (reg_e (reg vm))) (offset_index 16 (reg_e (reg vm)) byte_offset)"

definition sp1_set_e :: "Vm \<Rightarrow> u8 \<Rightarrow> m128d \<Rightarrow> Vm option" where
  "sp1_set_e vm byte_offset v =
     map_option (\<lambda>i. upd_e ((reg_e (reg vm))[i := v]) vm) (offset_index 16 (reg_e (reg vm)) byte_offset)"

definition sp1_a :: "Vm \<Rightarrow> u8 \<Rightarrow> m128d option" where
  "sp1_a vm byte_offset = map_option ((!) (reg_a (reg vm))) (offset_index 16 (reg_a (reg vm)) byte_offset)"

definition lanes :: "m128d \<Rightarrow> u64 \<times> u64" where
  "lanes v = (let (high, low) = as_u64 v in (low, high))"

definition from_lanes :: "u64 \<times> u64 \<Rightarrow> m128d" where
  "from_lanes v = m128d_from_u64 (snd v) (fst v)"

definition sp1_rounding_mode :: "Vm \<Rightarrow> RoundingMode option" where
  "sp1_rounding_mode vm = from_valid_fprc (get_rounding_mode vm)"

definition scratchpad_src_offset :: "Vm \<Rightarrow> CompactInstr \<Rightarrow> nat option" where
  "scratchpad_src_offset vm instr =
     do { address \<leftarrow> (if c_src instr = NO_REG then Some (c_imm instr)
                      else do { v \<leftarrow> sp1_r vm (c_src instr); Some (v + c_imm instr) });
          Some (unat (address AND ucast (c_memory_mask instr))) }"

definition scratchpad_dst_offset :: "Vm \<Rightarrow> CompactInstr \<Rightarrow> nat option" where
  "scratchpad_dst_offset vm instr =
     do { v \<leftarrow> sp1_r vm (c_dst instr);
          Some (unat ((v + c_imm instr) AND ucast (c_memory_mask instr))) }"

definition scratch :: "Vm \<Rightarrow> nat \<Rightarrow> u64 option" where
  "scratch vm index = (if index < length (scratchpad vm) then Some (scratchpad vm ! index) else None)"

definition set_scratch :: "Vm \<Rightarrow> nat \<Rightarrow> u64 \<Rightarrow> Vm option" where
  "set_scratch vm index v =
     (if index < length (scratchpad vm) then Some (vm\<lparr> scratchpad := (scratchpad vm)[index := v] \<rparr>) else None)"

definition scratch_at_offset :: "Vm \<Rightarrow> nat \<Rightarrow> u64 option" where
  "scratch_at_offset vm byte_offset =
     (if byte_offset mod 8 = 0 \<and> byte_offset + 8 \<le> length (scratchpad vm) * 8
      then Some (scratchpad vm ! (byte_offset div 8)) else None)"

definition set_scratch_at_offset :: "Vm \<Rightarrow> nat \<Rightarrow> u64 \<Rightarrow> Vm option" where
  "set_scratch_at_offset vm byte_offset v =
     (if byte_offset mod 8 = 0 \<and> byte_offset + 8 \<le> length (scratchpad vm) * 8
      then Some (vm\<lparr> scratchpad := (scratchpad vm)[byte_offset div 8 := v] \<rparr>) else None)"

definition scratch_src :: "Vm \<Rightarrow> CompactInstr \<Rightarrow> u64 option" where
  "scratch_src vm instr = do { off \<leftarrow> scratchpad_src_offset vm instr; scratch_at_offset vm off }"

definition sp1_mask_register_exponent_mantissa :: "Vm \<Rightarrow> m128d \<Rightarrow> m128d option" where
  "sp1_mask_register_exponent_mantissa vm v =
     do { m1 \<leftarrow> arr_get (e_mask (config vm)) 1;
          m0 \<leftarrow> arr_get (e_mask (config vm)) 0;
          let mantissa_mask = m128d_from_u64 DYNAMIC_MANTISSA_MASK DYNAMIC_MANTISSA_MASK;
          let exponent_mask = m128d_from_u64 m1 m0;
          Some ((v AND mantissa_mask) OR exponent_mask) }"

section \<open>The effects\<close>

definition c_exec_iadd_rs :: "CompactInstr \<Rightarrow> Vm \<Rightarrow> Vm option" where
  "c_exec_iadd_rs instr vm =
     do { src \<leftarrow> sp1_r vm (c_src instr);
          let addend = push_bit (unat (c_mode instr)) src + c_imm instr;
          dst \<leftarrow> sp1_r vm (c_dst instr);
          sp1_set_r vm (c_dst instr) (dst + addend) }"

definition c_exec_iadd_m :: "CompactInstr \<Rightarrow> Vm \<Rightarrow> Vm option" where
  "c_exec_iadd_m instr vm =
     do { source \<leftarrow> scratch_src vm instr;
          dst \<leftarrow> sp1_r vm (c_dst instr);
          sp1_set_r vm (c_dst instr) (dst + source) }"

definition c_exec_isub_r :: "CompactInstr \<Rightarrow> Vm \<Rightarrow> Vm option" where
  "c_exec_isub_r instr vm =
     do { dst \<leftarrow> sp1_r vm (c_dst instr);
          source \<leftarrow> sp1_r vm (c_src instr);
          sp1_set_r vm (c_dst instr) (dst - source) }"

definition c_exec_isub_imm :: "CompactInstr \<Rightarrow> Vm \<Rightarrow> Vm option" where
  "c_exec_isub_imm instr vm =
     do { dst \<leftarrow> sp1_r vm (c_dst instr);
          sp1_set_r vm (c_dst instr) (dst - c_imm instr) }"

definition c_exec_isub_m :: "CompactInstr \<Rightarrow> Vm \<Rightarrow> Vm option" where
  "c_exec_isub_m instr vm =
     do { source \<leftarrow> scratch_src vm instr;
          dst \<leftarrow> sp1_r vm (c_dst instr);
          sp1_set_r vm (c_dst instr) (dst - source) }"

definition c_exec_imul_r :: "CompactInstr \<Rightarrow> Vm \<Rightarrow> Vm option" where
  "c_exec_imul_r instr vm =
     do { dst \<leftarrow> sp1_r vm (c_dst instr);
          source \<leftarrow> sp1_r vm (c_src instr);
          sp1_set_r vm (c_dst instr) (dst * source) }"

definition c_exec_imul_imm :: "CompactInstr \<Rightarrow> Vm \<Rightarrow> Vm option" where
  "c_exec_imul_imm instr vm =
     do { dst \<leftarrow> sp1_r vm (c_dst instr);
          sp1_set_r vm (c_dst instr) (dst * c_imm instr) }"

definition c_exec_imul_m :: "CompactInstr \<Rightarrow> Vm \<Rightarrow> Vm option" where
  "c_exec_imul_m instr vm =
     do { source \<leftarrow> scratch_src vm instr;
          dst \<leftarrow> sp1_r vm (c_dst instr);
          sp1_set_r vm (c_dst instr) (dst * source) }"

definition c_exec_imulh_r :: "CompactInstr \<Rightarrow> Vm \<Rightarrow> Vm option" where
  "c_exec_imulh_r instr vm =
     do { dst \<leftarrow> sp1_r vm (c_dst instr);
          source \<leftarrow> sp1_r vm (c_src instr);
          sp1_set_r vm (c_dst instr) (mulh source dst) }"

definition c_exec_imulh_m :: "CompactInstr \<Rightarrow> Vm \<Rightarrow> Vm option" where
  "c_exec_imulh_m instr vm =
     do { source \<leftarrow> scratch_src vm instr;
          dst \<leftarrow> sp1_r vm (c_dst instr);
          sp1_set_r vm (c_dst instr) (mulh source dst) }"

definition c_exec_ismulh_r :: "CompactInstr \<Rightarrow> Vm \<Rightarrow> Vm option" where
  "c_exec_ismulh_r instr vm =
     do { dst \<leftarrow> sp1_r vm (c_dst instr);
          source \<leftarrow> sp1_r vm (c_src instr);
          sp1_set_r vm (c_dst instr) (smulh source dst) }"

definition c_exec_ismulh_m :: "CompactInstr \<Rightarrow> Vm \<Rightarrow> Vm option" where
  "c_exec_ismulh_m instr vm =
     do { source \<leftarrow> scratch_src vm instr;
          dst \<leftarrow> sp1_r vm (c_dst instr);
          sp1_set_r vm (c_dst instr) (smulh source dst) }"

definition c_exec_imul_rcp :: "CompactInstr \<Rightarrow> Vm \<Rightarrow> Vm option" where
  "c_exec_imul_rcp instr vm =
     (if c_imm instr \<noteq> 0
      then do { dst \<leftarrow> sp1_r vm (c_dst instr); sp1_set_r vm (c_dst instr) (dst * c_imm instr) }
      else Some vm)"

definition c_exec_ineg_r :: "CompactInstr \<Rightarrow> Vm \<Rightarrow> Vm option" where
  "c_exec_ineg_r instr vm =
     do { dst \<leftarrow> sp1_r vm (c_dst instr);
          sp1_set_r vm (c_dst instr) (NOT dst + 1) }"

definition c_exec_ixor_r :: "CompactInstr \<Rightarrow> Vm \<Rightarrow> Vm option" where
  "c_exec_ixor_r instr vm =
     do { dst \<leftarrow> sp1_r vm (c_dst instr);
          source \<leftarrow> sp1_r vm (c_src instr);
          sp1_set_r vm (c_dst instr) (dst XOR source) }"

definition c_exec_ixor_imm :: "CompactInstr \<Rightarrow> Vm \<Rightarrow> Vm option" where
  "c_exec_ixor_imm instr vm =
     do { dst \<leftarrow> sp1_r vm (c_dst instr);
          sp1_set_r vm (c_dst instr) (dst XOR c_imm instr) }"

definition c_exec_ixor_m :: "CompactInstr \<Rightarrow> Vm \<Rightarrow> Vm option" where
  "c_exec_ixor_m instr vm =
     do { source \<leftarrow> scratch_src vm instr;
          dst \<leftarrow> sp1_r vm (c_dst instr);
          sp1_set_r vm (c_dst instr) (dst XOR source) }"

definition c_exec_iror_r :: "CompactInstr \<Rightarrow> Vm \<Rightarrow> Vm option" where
  "c_exec_iror_r instr vm =
     do { dst \<leftarrow> sp1_r vm (c_dst instr);
          source \<leftarrow> sp1_r vm (c_src instr);
          sp1_set_r vm (c_dst instr) (word_rotr (unat (source AND 0xffffff)) dst) }"

definition c_exec_iror_imm :: "CompactInstr \<Rightarrow> Vm \<Rightarrow> Vm option" where
  "c_exec_iror_imm instr vm =
     do { dst \<leftarrow> sp1_r vm (c_dst instr);
          sp1_set_r vm (c_dst instr) (word_rotr (unat (ucast (c_imm instr) :: u32)) dst) }"

definition c_exec_irol_r :: "CompactInstr \<Rightarrow> Vm \<Rightarrow> Vm option" where
  "c_exec_irol_r instr vm =
     do { dst \<leftarrow> sp1_r vm (c_dst instr);
          source \<leftarrow> sp1_r vm (c_src instr);
          sp1_set_r vm (c_dst instr) (word_rotl (unat (source AND 0xffffff)) dst) }"

definition c_exec_irol_imm :: "CompactInstr \<Rightarrow> Vm \<Rightarrow> Vm option" where
  "c_exec_irol_imm instr vm =
     do { dst \<leftarrow> sp1_r vm (c_dst instr);
          sp1_set_r vm (c_dst instr) (word_rotl (unat (ucast (c_imm instr) :: u32)) dst) }"

definition c_exec_iswap_r :: "CompactInstr \<Rightarrow> Vm \<Rightarrow> Vm option" where
  "c_exec_iswap_r instr vm =
     do { source \<leftarrow> sp1_r vm (c_src instr);
          destination \<leftarrow> sp1_r vm (c_dst instr);
          vm \<leftarrow> sp1_set_r vm (c_dst instr) source;
          sp1_set_r vm (c_src instr) destination }"

definition c_exec_fswap_f :: "CompactInstr \<Rightarrow> Vm \<Rightarrow> Vm option" where
  "c_exec_fswap_f instr vm =
     do { v \<leftarrow> sp1_f vm (c_dst instr); sp1_set_f vm (c_dst instr) (shuffle_1 v v) }"

definition c_exec_fswap_e :: "CompactInstr \<Rightarrow> Vm \<Rightarrow> Vm option" where
  "c_exec_fswap_e instr vm =
     do { v \<leftarrow> sp1_e vm (c_dst instr); sp1_set_e vm (c_dst instr) (shuffle_1 v v) }"

definition c_exec_fadd_r :: "CompactInstr \<Rightarrow> Vm \<Rightarrow> Vm option" where
  "c_exec_fadd_r instr vm =
     do { destination \<leftarrow> sp1_f vm (c_dst instr);
          source \<leftarrow> sp1_a vm (c_src instr);
          mode \<leftarrow> sp1_rounding_mode vm;
          let result = (if mode = Nearest then m128d_add (vm_mode vm) destination source
                        else from_lanes (add2 (lanes destination) (lanes source) mode));
          sp1_set_f vm (c_dst instr) result }"

definition c_exec_fadd_m :: "CompactInstr \<Rightarrow> Vm \<Rightarrow> Vm option" where
  "c_exec_fadd_m instr vm =
     do { w \<leftarrow> scratch_src vm instr;
          let source = lower_to_m128d (from_u64 0 w);
          destination \<leftarrow> sp1_f vm (c_dst instr);
          mode \<leftarrow> sp1_rounding_mode vm;
          let result = (if mode = Nearest then m128d_add (vm_mode vm) destination source
                        else from_lanes (add2 (lanes destination) (lanes source) mode));
          sp1_set_f vm (c_dst instr) result }"

definition c_exec_fsub_r :: "CompactInstr \<Rightarrow> Vm \<Rightarrow> Vm option" where
  "c_exec_fsub_r instr vm =
     do { destination \<leftarrow> sp1_f vm (c_dst instr);
          source \<leftarrow> sp1_a vm (c_src instr);
          mode \<leftarrow> sp1_rounding_mode vm;
          let result = (if mode = Nearest then m128d_sub (vm_mode vm) destination source
                        else from_lanes (sub2 (lanes destination) (lanes source) mode));
          sp1_set_f vm (c_dst instr) result }"

definition c_exec_fsub_m :: "CompactInstr \<Rightarrow> Vm \<Rightarrow> Vm option" where
  "c_exec_fsub_m instr vm =
     do { w \<leftarrow> scratch_src vm instr;
          let source = lower_to_m128d (from_u64 0 w);
          destination \<leftarrow> sp1_f vm (c_dst instr);
          mode \<leftarrow> sp1_rounding_mode vm;
          let result = (if mode = Nearest then m128d_sub (vm_mode vm) destination source
                        else from_lanes (sub2 (lanes destination) (lanes source) mode));
          sp1_set_f vm (c_dst instr) result }"

definition c_exec_fscal_r :: "CompactInstr \<Rightarrow> Vm \<Rightarrow> Vm option" where
  "c_exec_fscal_r instr vm =
     do { v \<leftarrow> sp1_f vm (c_dst instr);
          let scale_mask = m128d_from_u64 0x80f0000000000000 0x80f0000000000000;
          sp1_set_f vm (c_dst instr) (v XOR scale_mask) }"

definition c_exec_fmul_r :: "CompactInstr \<Rightarrow> Vm \<Rightarrow> Vm option" where
  "c_exec_fmul_r instr vm =
     do { destination \<leftarrow> sp1_e vm (c_dst instr);
          source \<leftarrow> sp1_a vm (c_src instr);
          mode \<leftarrow> sp1_rounding_mode vm;
          let result = (if mode = Nearest then m128d_mul (vm_mode vm) destination source
                        else from_lanes (mul2 (lanes destination) (lanes source) mode));
          sp1_set_e vm (c_dst instr) result }"

definition c_exec_fdiv_m :: "CompactInstr \<Rightarrow> Vm \<Rightarrow> Vm option" where
  "c_exec_fdiv_m instr vm =
     do { w \<leftarrow> scratch_src vm instr;
          source \<leftarrow> sp1_mask_register_exponent_mantissa vm (lower_to_m128d (from_u64 0 w));
          destination \<leftarrow> sp1_e vm (c_dst instr);
          mode \<leftarrow> sp1_rounding_mode vm;
          let result = (if mode = Nearest then m128d_div (vm_mode vm) destination source
                        else from_lanes (div2 (lanes destination) (lanes source) mode));
          sp1_set_e vm (c_dst instr) result }"

definition c_exec_fsqrt_r :: "CompactInstr \<Rightarrow> Vm \<Rightarrow> Vm option" where
  "c_exec_fsqrt_r instr vm =
     do { destination \<leftarrow> sp1_e vm (c_dst instr);
          mode \<leftarrow> sp1_rounding_mode vm;
          let result = (if mode = Nearest then m128d_sqrt (vm_mode vm) destination
                        else from_lanes (sqrt2 (lanes destination) mode));
          sp1_set_e vm (c_dst instr) result }"

definition c_exec_cbranch :: "CompactInstr \<Rightarrow> Vm \<Rightarrow> Vm option" where
  "c_exec_cbranch instr vm =
     do { v \<leftarrow> sp1_r vm (c_dst instr);
          let destination = v + c_imm instr;
          vm \<leftarrow> sp1_set_r vm (c_dst instr) destination;
          if destination AND push_bit (unat (c_mode instr)) CONDITION_MASK = 0
          then Some (vm\<lparr> vm_pc := c_target instr \<rparr>)
          else Some vm }"

definition c_exec_cfround :: "CompactInstr \<Rightarrow> Vm \<Rightarrow> Vm option" where
  "c_exec_cfround instr vm =
     do { v \<leftarrow> sp1_r vm (c_src instr);
          set_rounding_mode (ucast (word_rotr (unat (ucast (c_imm instr) :: u32)) v AND 3)) vm }"

definition c_exec_istore :: "CompactInstr \<Rightarrow> Vm \<Rightarrow> Vm option" where
  "c_exec_istore instr vm =
     do { byte_offset \<leftarrow> scratchpad_dst_offset vm instr;
          v \<leftarrow> sp1_r vm (c_src instr);
          set_scratch_at_offset vm byte_offset v }"

text \<open>The call through the function pointer.\<close>

fun c_run_effect :: "CEffect \<Rightarrow> CompactInstr \<Rightarrow> Vm \<Rightarrow> Vm option" where
  "c_run_effect Sp1_nop instr vm = Some vm"
| "c_run_effect Sp1_iadd_rs instr vm = c_exec_iadd_rs instr vm"
| "c_run_effect Sp1_iadd_m instr vm = c_exec_iadd_m instr vm"
| "c_run_effect Sp1_isub_r instr vm = c_exec_isub_r instr vm"
| "c_run_effect Sp1_isub_imm instr vm = c_exec_isub_imm instr vm"
| "c_run_effect Sp1_isub_m instr vm = c_exec_isub_m instr vm"
| "c_run_effect Sp1_imul_r instr vm = c_exec_imul_r instr vm"
| "c_run_effect Sp1_imul_imm instr vm = c_exec_imul_imm instr vm"
| "c_run_effect Sp1_imul_m instr vm = c_exec_imul_m instr vm"
| "c_run_effect Sp1_imulh_r instr vm = c_exec_imulh_r instr vm"
| "c_run_effect Sp1_imulh_m instr vm = c_exec_imulh_m instr vm"
| "c_run_effect Sp1_ismulh_r instr vm = c_exec_ismulh_r instr vm"
| "c_run_effect Sp1_ismulh_m instr vm = c_exec_ismulh_m instr vm"
| "c_run_effect Sp1_imul_rcp instr vm = c_exec_imul_rcp instr vm"
| "c_run_effect Sp1_ineg_r instr vm = c_exec_ineg_r instr vm"
| "c_run_effect Sp1_ixor_r instr vm = c_exec_ixor_r instr vm"
| "c_run_effect Sp1_ixor_imm instr vm = c_exec_ixor_imm instr vm"
| "c_run_effect Sp1_ixor_m instr vm = c_exec_ixor_m instr vm"
| "c_run_effect Sp1_iror_r instr vm = c_exec_iror_r instr vm"
| "c_run_effect Sp1_iror_imm instr vm = c_exec_iror_imm instr vm"
| "c_run_effect Sp1_irol_r instr vm = c_exec_irol_r instr vm"
| "c_run_effect Sp1_irol_imm instr vm = c_exec_irol_imm instr vm"
| "c_run_effect Sp1_iswap_r instr vm = c_exec_iswap_r instr vm"
| "c_run_effect Sp1_fswap_f instr vm = c_exec_fswap_f instr vm"
| "c_run_effect Sp1_fswap_e instr vm = c_exec_fswap_e instr vm"
| "c_run_effect Sp1_fadd_r instr vm = c_exec_fadd_r instr vm"
| "c_run_effect Sp1_fadd_m instr vm = c_exec_fadd_m instr vm"
| "c_run_effect Sp1_fsub_r instr vm = c_exec_fsub_r instr vm"
| "c_run_effect Sp1_fsub_m instr vm = c_exec_fsub_m instr vm"
| "c_run_effect Sp1_fscal_r instr vm = c_exec_fscal_r instr vm"
| "c_run_effect Sp1_fmul_r instr vm = c_exec_fmul_r instr vm"
| "c_run_effect Sp1_fdiv_m instr vm = c_exec_fdiv_m instr vm"
| "c_run_effect Sp1_fsqrt_r instr vm = c_exec_fsqrt_r instr vm"
| "c_run_effect Sp1_cbranch instr vm = c_exec_cbranch instr vm"
| "c_run_effect Sp1_cfround instr vm = c_exec_cfround instr vm"
| "c_run_effect Sp1_istore instr vm = c_exec_istore instr vm"

definition c_execute :: "CompactInstr \<Rightarrow> Vm \<Rightarrow> Vm option" where
  "c_execute instr vm = c_run_effect (c_effect instr) instr vm"

section \<open>Program set-up\<close>

definition sp1_small_positive_float_bit :: "u64 \<Rightarrow> u64" where
  "sp1_small_positive_float_bit entropy =
     (let exponent = drop_bit 59 entropy;
          mantissa = entropy AND MANTISSA_MASK;
          exponent = exponent + EXPONENT_BIAS;
          exponent = exponent AND EXPONENT_MASK
      in push_bit MANTISSA_SIZE exponent OR mantissa)"

definition sp1_static_exponent :: "u64 \<Rightarrow> u64" where
  "sp1_static_exponent entropy =
     (let exponent = EXPONENT_BITS OR
            push_bit DYNAMIC_EXPONENT_BITS (drop_bit (64 - STATIC_EXPONENT_BITS) entropy)
      in push_bit MANTISSA_SIZE exponent)"

definition sp1_float_mask :: "u64 \<Rightarrow> u64" where
  "sp1_float_mask entropy =
     (let mask22bit = push_bit 22 1 - 1 in (entropy AND mask22bit) OR sp1_static_exponent entropy)"

text \<open>The argument has the type \<open>[u64; 16]\<close>; a list of another length stands for no value of it.\<close>

definition sp1_init_vm :: "u64 list \<Rightarrow> Vm \<Rightarrow> Vm option" where
  "sp1_init_vm en vm =
     (if length en \<noteq> 16 then None
      else Some (vm\<lparr>
        reg := (reg vm)\<lparr>
          reg_r := replicate MAX_REG 0,
          reg_a :=
            [m128d_from_u64 (sp1_small_positive_float_bit (en ! 1)) (sp1_small_positive_float_bit (en ! 0)),
             m128d_from_u64 (sp1_small_positive_float_bit (en ! 3)) (sp1_small_positive_float_bit (en ! 2)),
             m128d_from_u64 (sp1_small_positive_float_bit (en ! 5)) (sp1_small_positive_float_bit (en ! 4)),
             m128d_from_u64 (sp1_small_positive_float_bit (en ! 7)) (sp1_small_positive_float_bit (en ! 6))] \<rparr>,
        mem_reg := \<lparr> mx = ucast (ucast (en ! 10) :: u32),
                     ma = ucast (ucast (en ! 8 AND CACHE_LINE_ALIGN_MASK) :: u32) \<rparr>,
        config := \<lparr> e_mask = [sp1_float_mask (en ! 14), sp1_float_mask (en ! 15)],
                    read_reg = [unat (en ! 12 AND 1), 2 + unat (drop_bit 1 (en ! 12) AND 1),
                                4 + unat (drop_bit 2 (en ! 12) AND 1),
                                6 + unat (drop_bit 3 (en ! 12) AND 1)] \<rparr>,
        dataset_offset := (en ! 13 mod (DATASET_EXTRA_ITEMS + 1)) * CACHE_LINE_SIZE \<rparr>))"

section \<open>The iteration\<close>

definition sp1_addresses :: "u8 list \<Rightarrow> u32 \<times> u32 \<Rightarrow> Vm \<Rightarrow> (u32 \<times> u32) option" where
  "sp1_addresses rr = (\<lambda>(sp_addr_0, sp_addr_1) vm.
     do { v0 \<leftarrow> sp1_r vm (rr ! 0);
          v1 \<leftarrow> sp1_r vm (rr ! 1);
          let sp_mix = v0 XOR v1;
          let sp_addr_0 = sp_addr_0 XOR ucast sp_mix;
          let sp_addr_0 = drop_bit 3 (sp_addr_0 AND SCRATCHPAD_L3_MASK_U32);
          let sp_addr_1 = sp_addr_1 XOR ucast (drop_bit 32 sp_mix);
          let sp_addr_1 = drop_bit 3 (sp_addr_1 AND SCRATCHPAD_L3_MASK_U32);
          Some (sp_addr_0, sp_addr_1) })"

definition sp1_load_r :: "nat \<Rightarrow> nat \<Rightarrow> Vm \<Rightarrow> Vm option" where
  "sp1_load_r addr0 i vm =
     do { w \<leftarrow> scratch vm (addr0 + i);
          v \<leftarrow> arr_get (reg_r (reg vm)) i;
          xs \<leftarrow> arr_set (reg_r (reg vm)) i (v XOR w);
          Some (upd_r xs vm) }"

definition sp1_load_f :: "nat \<Rightarrow> nat \<Rightarrow> Vm \<Rightarrow> Vm option" where
  "sp1_load_f addr1 i vm =
     do { w \<leftarrow> scratch vm (addr1 + i);
          xs \<leftarrow> arr_set (reg_f (reg vm)) i (lower_to_m128d (from_u64 0 w));
          Some (upd_f xs vm) }"

definition sp1_load_e :: "nat \<Rightarrow> nat \<Rightarrow> Vm \<Rightarrow> Vm option" where
  "sp1_load_e addr1 i vm =
     do { w \<leftarrow> scratch vm (addr1 + i + MAX_FLOAT_REG);
          v \<leftarrow> sp1_mask_register_exponent_mantissa vm (lower_to_m128d (from_u64 0 w));
          xs \<leftarrow> arr_set (reg_e (reg vm)) i v;
          Some (upd_e xs vm) }"

definition sp1_load_registers :: "nat \<Rightarrow> nat \<Rightarrow> Vm \<Rightarrow> Vm option" where
  "sp1_load_registers addr0 addr1 vm =
     do { vm \<leftarrow> foldl_option (sp1_load_r addr0) [0..<MAX_REG] vm;
          vm \<leftarrow> foldl_option (sp1_load_f addr1) [0..<MAX_FLOAT_REG] vm;
          foldl_option (sp1_load_e addr1) [0..<MAX_FLOAT_REG] vm }"

text \<open>Fetch without a bounds check, execute, advance.\<close>

definition sp1_step :: "CompactInstr list \<Rightarrow> Vm \<Rightarrow> Vm option" where
  "sp1_step prog vm =
     (if 0 \<le> vm_pc vm \<and> nat (vm_pc vm) < length prog
      then do { vm \<leftarrow> c_execute (prog ! nat (vm_pc vm)) vm;
                Some (vm\<lparr> vm_pc := vm_pc vm + 1 \<rparr>) }
      else None)"

partial_function (option) sp1_loop :: "CompactInstr list \<Rightarrow> Vm \<Rightarrow> Vm option" where
  "sp1_loop prog vm =
     (if vm_pc vm < RANDOMX_PROGRAM_SIZE
      then Option.bind (sp1_step prog vm) (sp1_loop prog)
      else Some vm)"

definition sp1_store_r :: "nat \<Rightarrow> nat \<Rightarrow> Vm \<Rightarrow> Vm option" where
  "sp1_store_r addr1 i vm =
     do { v \<leftarrow> arr_get (reg_r (reg vm)) i; set_scratch vm (addr1 + i) v }"

definition sp1_mix_f :: "nat \<Rightarrow> Vm \<Rightarrow> Vm option" where
  "sp1_mix_f i vm =
     do { vf \<leftarrow> arr_get (reg_f (reg vm)) i;
          ve \<leftarrow> arr_get (reg_e (reg vm)) i;
          xs \<leftarrow> arr_set (reg_f (reg vm)) i (vf XOR ve);
          Some (upd_f xs vm) }"

definition sp1_store_f :: "nat \<Rightarrow> nat \<Rightarrow> Vm \<Rightarrow> Vm option" where
  "sp1_store_f addr0 i vm =
     do { vf \<leftarrow> arr_get (reg_f (reg vm)) i;
          let (high, low) = as_u64 vf;
          let ix = addr0 + 2 * i;
          vm \<leftarrow> set_scratch vm ix low;
          set_scratch vm (ix + 1) high }"

definition sp1_store_registers :: "nat \<Rightarrow> nat \<Rightarrow> Vm \<Rightarrow> Vm option" where
  "sp1_store_registers addr0 addr1 vm =
     do { vm \<leftarrow> foldl_option (sp1_store_r addr1) [0..<MAX_REG] vm;
          vm \<leftarrow> foldl_option sp1_mix_f [0..<MAX_FLOAT_REG] vm;
          foldl_option (sp1_store_f addr0) [0..<MAX_FLOAT_REG] vm }"

text \<open>The registers \<open>mx\<close> and \<open>ma\<close> are local variables of \<open>run\<close>, written back at its end.\<close>

definition sp1_iteration ::
  "CompactInstr list \<Rightarrow> u8 list \<Rightarrow> u64 \<Rightarrow> u32 \<times> u32 \<Rightarrow> u64 \<times> u64 \<times> Vm \<Rightarrow> (u64 \<times> u64 \<times> Vm) option" where
  "sp1_iteration prog rr offset sp = (\<lambda>(vmx, vma, vm).
     do { (sp_addr_0, sp_addr_1) \<leftarrow> sp1_addresses rr sp vm;
          vm \<leftarrow> sp1_load_registers (unat sp_addr_0) (unat sp_addr_1) vm;
          vm \<leftarrow> sp1_loop prog (vm\<lparr> vm_pc := 0 \<rparr>);
          v2 \<leftarrow> sp1_r vm (rr ! 2);
          v3 \<leftarrow> sp1_r vm (rr ! 3);
          let vmx = (vmx XOR (v2 XOR v3)) AND CACHE_LINE_ALIGN_MASK;
          xs \<leftarrow> dataset_read (mem vm) (offset + vma) (reg_r (reg vm));
          vm \<leftarrow> sp1_store_registers (unat sp_addr_0) (unat sp_addr_1) (upd_r xs vm);
          Some (vma, vmx, vm) })"

primrec sp1_iterations ::
  "CompactInstr list \<Rightarrow> u8 list \<Rightarrow> u64 \<Rightarrow> nat \<Rightarrow> u32 \<times> u32 \<Rightarrow> u64 \<times> u64 \<times> Vm \<Rightarrow> (u64 \<times> u64 \<times> Vm) option" where
  "sp1_iterations prog rr offset 0 sp st = Some st"
| "sp1_iterations prog rr offset (Suc n) sp st =
     do { st \<leftarrow> sp1_iteration prog rr offset sp st; sp1_iterations prog rr offset n (0, 0) st }"

definition sp1_run :: "seed \<Rightarrow> Vm \<Rightarrow> Vm option" where
  "sp1_run sd vm =
     do { program \<leftarrow> sp1_from_bytes (gen_program_aes_4rx4 sd 136);
          vm \<leftarrow> sp1_init_vm (cp_entropy program) vm;
          let vmx = mx (mem_reg vm);
          let vma = ma (mem_reg vm);
          let rr = map (\<lambda>i. register_byte_offset (of_nat i) 8) (read_reg (config vm));
          (vmx, vma, vm) \<leftarrow> sp1_iterations (cp_instructions program) rr (dataset_offset vm)
             RANDOMX_PROGRAM_ITERATIONS (ucast vmx, ucast vma) (vmx, vma, vm);
          Some (vm\<lparr> mem_reg := \<lparr> mx = vmx, ma = vma \<rparr> \<rparr>) }"

section \<open>The hash\<close>

definition sp1_hash_to_m128i_array :: "u8 list \<Rightarrow> seed option" where
  "sp1_hash_to_m128i_array bytes =
     do { i1 \<leftarrow> from_u8 (take 16 bytes);
          i2 \<leftarrow> from_u8 (take 16 (drop 16 bytes));
          i3 \<leftarrow> from_u8 (take 16 (drop 32 bytes));
          i4 \<leftarrow> from_u8 (take 16 (drop 48 bytes));
          Some (i1, i2, i3, i4) }"

primrec sp1_run_programs ::
  "(nat \<Rightarrow> u8 list \<Rightarrow> u8 list) \<Rightarrow> nat \<Rightarrow> seed \<Rightarrow> Vm \<Rightarrow> (seed \<times> Vm) option" where
  "sp1_run_programs hash 0 next_seed vm = Some (next_seed, vm)"
| "sp1_run_programs hash (Suc n) next_seed vm =
     do { vm \<leftarrow> sp1_run next_seed vm;
          sd \<leftarrow> sp1_hash_to_m128i_array (hash 64 (to_bytes (reg vm)));
          sp1_run_programs hash n sd vm }"

definition calculate_hash_impl ::
  "(nat \<Rightarrow> u8 list \<Rightarrow> u8 list) \<Rightarrow> u8 list \<Rightarrow> Vm \<Rightarrow> (u8 list \<times> Vm) option" where
  "calculate_hash_impl hash input vm =
     (let guard = capture vm in
      if length (scratchpad vm) \<noteq> SCRATCHPAD_SIZE then None
      else do { sd \<leftarrow> sp1_hash_to_m128i_array (hash 64 input);
                (next_seed, vm) \<leftarrow> init_scratchpad sd vm;
                let vm = reset_rounding_mode vm;
                (next_seed, vm) \<leftarrow> sp1_run_programs hash (RANDOMX_PROGRAM_COUNT - 1) next_seed vm;
                vm \<leftarrow> sp1_run next_seed vm;
                (h0, h1, h2, h3) \<leftarrow> hash_aes_1rx4 (scratchpad vm);
                let vm = upd_a [as_m128d h0, as_m128d h1, as_m128d h2, as_m128d h3] vm;
                Some (hash RANDOMX_HASH_SIZE (to_bytes (reg vm)), guard_drop guard vm) })"

text \<open>The public entry point, on a target with control register \<open>env\<close>; the copy of the digest
  panics unless it has 32 bytes.\<close>

definition sp1_hash :: "(nat \<Rightarrow> u8 list \<Rightarrow> u8 list) \<Rightarrow> FpEnv \<Rightarrow> u8 list \<Rightarrow> u8 list \<Rightarrow> u8 list option" where
  "sp1_hash hash env key blob =
     do { memory \<leftarrow> light hash key;
          (digest, vm) \<leftarrow> calculate_hash_impl hash blob (new_vm memory env);
          if length digest = RANDOMX_HASH_SIZE then Some digest else None }"

end
