(* ===== verification/Lockstep.thy ===== *)
theory Lockstep
  imports Compact VmSafety Registers
begin

text \<open>
  The compact machine of \<open>randomx-sp1/src/lib.rs\<close> against the reference machine of
  \<open>randomx-core/src/vm.rs\<close>. The two decoders produce matching instructions from every word
  (\<open>instr_rel\<close>): predecoded byte offsets name the operand registers, predecoded immediates and
  masks are those the reference computes at execution. On matching instructions every unchecked
  access of the compact machine is aligned and in bounds, and the integer and control instructions
  compute the state the reference computes.
\<close>

section \<open>Unchecked register access\<close>

interpretation sp1_int: offset_registers sp1_r sp1_set_r "\<lambda>vm. reg_r (reg vm)" "\<lambda>vm xs. upd_r xs vm" 8
  by unfold_locales (simp_all add: sp1_r_def sp1_set_r_def offset_index_reg_offset)

interpretation sp1_flt: offset_registers sp1_f sp1_set_f "\<lambda>vm. reg_f (reg vm)" "\<lambda>vm xs. upd_f xs vm" 16
  by unfold_locales (simp_all add: sp1_f_def sp1_set_f_def offset_index_reg_offset)

interpretation sp1_exp: offset_registers sp1_e sp1_set_e "\<lambda>vm. reg_e (reg vm)" "\<lambda>vm xs. upd_e xs vm" 16
  by unfold_locales (simp_all add: sp1_e_def sp1_set_e_def offset_index_reg_offset)

lemma sp1_access [fault_simps]:
  assumes "vm_ok vm"
  shows "d < 8 \<Longrightarrow> sp1_r vm (reg_offset 8 d) = Some (reg_r (reg vm) ! d)"
    "d < 8 \<Longrightarrow> sp1_set_r vm (reg_offset 8 d) v = Some (upd_r ((reg_r (reg vm))[d := v]) vm)"
    "d < 4 \<Longrightarrow> sp1_f vm (reg_offset 16 d) = Some (reg_f (reg vm) ! d)"
    "d < 4 \<Longrightarrow> sp1_set_f vm (reg_offset 16 d) w = Some (upd_f ((reg_f (reg vm))[d := w]) vm)"
    "d < 4 \<Longrightarrow> sp1_e vm (reg_offset 16 d) = Some (reg_e (reg vm) ! d)"
    "d < 4 \<Longrightarrow> sp1_set_e vm (reg_offset 16 d) w = Some (upd_e ((reg_e (reg vm))[d := w]) vm)"
    "d < 4 \<Longrightarrow> sp1_a vm (reg_offset 16 d) = Some (reg_a (reg vm) ! d)"
  using assms
  by (simp_all add: vm_ok_def sp1_int.read_at sp1_int.write_at sp1_flt.read_at sp1_flt.write_at
      sp1_exp.read_at sp1_exp.write_at sp1_a_def offset_index_reg_offset)

section \<open>Matching instructions\<close>

abbreviation dst_r :: "Instr \<Rightarrow> CompactInstr \<Rightarrow> bool" where
  "dst_r ins c \<equiv> c_dst c = reg_offset 8 (reg_ix (i_dst ins))"
abbreviation src_r :: "Instr \<Rightarrow> CompactInstr \<Rightarrow> bool" where
  "src_r ins c \<equiv> c_src c = reg_offset 8 (reg_ix (i_src ins))"
abbreviation dst_v :: "Instr \<Rightarrow> CompactInstr \<Rightarrow> bool" where
  "dst_v ins c \<equiv> c_dst c = reg_offset 16 (reg_ix (i_dst ins))"
abbreviation src_v :: "Instr \<Rightarrow> CompactInstr \<Rightarrow> bool" where
  "src_v ins c \<equiv> c_src c = reg_offset 16 (reg_ix (i_src ins))"

text \<open>A register or an immediate.\<close>

definition alu_rel :: "CEffect \<Rightarrow> CEffect \<Rightarrow> Instr \<Rightarrow> CompactInstr \<Rightarrow> bool" where
  "alu_rel reg_eff imm_eff ins c \<longleftrightarrow> dst_r ins c \<and>
     (if i_src ins = Store_NONE then c_effect c = imm_eff \<and> c_imm c = u64_from_i32_imm (the (i_imm ins))
      else c_effect c = reg_eff \<and> src_r ins c)"

definition rot_rel :: "CEffect \<Rightarrow> CEffect \<Rightarrow> Instr \<Rightarrow> CompactInstr \<Rightarrow> bool" where
  "rot_rel reg_eff imm_eff ins c \<longleftrightarrow> alu_rel reg_eff imm_eff ins c \<and>
     (i_src ins = Store_NONE \<longrightarrow> unat (the (i_imm ins)) < 64)"

text \<open>A memory operand: address register, displacement and mask.\<close>

fun mem_rel :: "Store \<Rightarrow> u32 \<Rightarrow> CompactInstr \<Rightarrow> bool" where
  "mem_rel (Store_L1 d) imm c =
     (c_src c = reg_offset 8 (reg_ix d) \<and> c_imm c = u64_from_i32_imm imm \<and> c_memory_mask c = ucast SCRATCHPAD_L1_MASK)"
| "mem_rel (Store_L2 d) imm c =
     (c_src c = reg_offset 8 (reg_ix d) \<and> c_imm c = u64_from_i32_imm imm \<and> c_memory_mask c = ucast SCRATCHPAD_L2_MASK)"
| "mem_rel (Store_L3 d) imm c =
     (c_src c = NO_REG \<and> c_imm c AND SCRATCHPAD_L3_MASK = u64_from_i32_imm imm AND SCRATCHPAD_L3_MASK \<and>
      c_memory_mask c = ucast SCRATCHPAD_L3_MASK)"
| "mem_rel _ imm c = False"

abbreviation load_rel :: "CEffect \<Rightarrow> Instr \<Rightarrow> CompactInstr \<Rightarrow> bool" where
  "load_rel eff ins c \<equiv> c_effect c = eff \<and> mem_rel (i_src ins) (the (i_imm ins)) c"

fun store_rel :: "Store \<Rightarrow> u32 \<Rightarrow> CompactInstr \<Rightarrow> bool" where
  "store_rel (Store_L1 d) imm c =
     (c_dst c = reg_offset 8 (reg_ix d) \<and> c_imm c = u64_from_i32_imm imm \<and> c_memory_mask c = ucast SCRATCHPAD_L1_MASK)"
| "store_rel (Store_L2 d) imm c =
     (c_dst c = reg_offset 8 (reg_ix d) \<and> c_imm c = u64_from_i32_imm imm \<and> c_memory_mask c = ucast SCRATCHPAD_L2_MASK)"
| "store_rel (Store_L3 d) imm c =
     (c_dst c = reg_offset 8 (reg_ix d) \<and> c_imm c = u64_from_i32_imm imm \<and> c_memory_mask c = ucast SCRATCHPAD_L3_MASK)"
| "store_rel _ imm c = False"

fun effect_rel :: "Effect \<Rightarrow> Instr \<Rightarrow> CompactInstr \<Rightarrow> bool" where
  "effect_rel Vm_nop ins c = (c_effect c = Sp1_nop)"
| "effect_rel Vm_exec_iadd_rs ins c =
     (c_effect c = Sp1_iadd_rs \<and> dst_r ins c \<and> src_r ins c \<and> i_mode ins = Mode_Shft (c_mode c) \<and>
      c_imm c = (case i_imm ins of Some imm \<Rightarrow> u64_from_i32_imm imm | None \<Rightarrow> 0))"
| "effect_rel Vm_exec_iadd_m ins c = (load_rel Sp1_iadd_m ins c \<and> dst_r ins c)"
| "effect_rel Vm_exec_isub_r ins c = alu_rel Sp1_isub_r Sp1_isub_imm ins c"
| "effect_rel Vm_exec_isub_m ins c = (load_rel Sp1_isub_m ins c \<and> dst_r ins c)"
| "effect_rel Vm_exec_imul_r ins c = alu_rel Sp1_imul_r Sp1_imul_imm ins c"
| "effect_rel Vm_exec_imul_m ins c = (load_rel Sp1_imul_m ins c \<and> dst_r ins c)"
| "effect_rel Vm_exec_imulh_r ins c = (c_effect c = Sp1_imulh_r \<and> dst_r ins c \<and> src_r ins c)"
| "effect_rel Vm_exec_imulh_m ins c = (load_rel Sp1_imulh_m ins c \<and> dst_r ins c)"
| "effect_rel Vm_exec_ismulh_r ins c = (c_effect c = Sp1_ismulh_r \<and> dst_r ins c \<and> src_r ins c)"
| "effect_rel Vm_exec_ismulh_m ins c = (load_rel Sp1_ismulh_m ins c \<and> dst_r ins c)"
| "effect_rel Vm_exec_imul_rcp ins c =
     (c_effect c = Sp1_imul_rcp \<and> dst_r ins c \<and> c_imm c = i_reciprocal ins)"
| "effect_rel Vm_exec_ineg_r ins c = (c_effect c = Sp1_ineg_r \<and> dst_r ins c)"
| "effect_rel Vm_exec_ixor_r ins c = alu_rel Sp1_ixor_r Sp1_ixor_imm ins c"
| "effect_rel Vm_exec_ixor_m ins c = (load_rel Sp1_ixor_m ins c \<and> dst_r ins c)"
| "effect_rel Vm_exec_iror_r ins c = rot_rel Sp1_iror_r Sp1_iror_imm ins c"
| "effect_rel Vm_exec_irol_r ins c = rot_rel Sp1_irol_r Sp1_irol_imm ins c"
| "effect_rel Vm_exec_iswap_r ins c = (c_effect c = Sp1_iswap_r \<and> dst_r ins c \<and> src_r ins c)"
| "effect_rel Vm_exec_fswap_r ins c =
     (c_effect c = (if is_E (i_dst ins) then Sp1_fswap_e else Sp1_fswap_f) \<and> dst_v ins c)"
| "effect_rel Vm_exec_fadd_r ins c = (c_effect c = Sp1_fadd_r \<and> dst_v ins c \<and> src_v ins c)"
| "effect_rel Vm_exec_fadd_m ins c = (load_rel Sp1_fadd_m ins c \<and> dst_v ins c)"
| "effect_rel Vm_exec_fsub_r ins c = (c_effect c = Sp1_fsub_r \<and> dst_v ins c \<and> src_v ins c)"
| "effect_rel Vm_exec_fsub_m ins c = (load_rel Sp1_fsub_m ins c \<and> dst_v ins c)"
| "effect_rel Vm_exec_fscal_r ins c = (c_effect c = Sp1_fscal_r \<and> dst_v ins c)"
| "effect_rel Vm_exec_fmul_r ins c = (c_effect c = Sp1_fmul_r \<and> dst_v ins c \<and> src_v ins c)"
| "effect_rel Vm_exec_fdiv_m ins c = (load_rel Sp1_fdiv_m ins c \<and> dst_v ins c)"
| "effect_rel Vm_exec_fsqrt_r ins c = (c_effect c = Sp1_fsqrt_r \<and> dst_v ins c)"
| "effect_rel Vm_exec_cbranch ins c =
     (c_effect c = Sp1_cbranch \<and>
      instr_branch ins = Some (reg_ix (i_dst ins), c_imm c, unat (c_mode c), c_target c) \<and> dst_r ins c)"
| "effect_rel Vm_exec_cfround ins c =
     (c_effect c = Sp1_cfround \<and> src_r ins c \<and> unat (the (i_imm ins)) < 64 \<and> c_imm c = ucast (the (i_imm ins)))"
| "effect_rel Vm_exec_istore ins c =
     (c_effect c = Sp1_istore \<and> store_rel (i_dst ins) (the (i_imm ins)) c \<and> src_r ins c)"

definition instr_rel :: "Instr \<Rightarrow> CompactInstr \<Rightarrow> bool" where
  "instr_rel ins c \<longleftrightarrow> effect_rel (i_effect ins) ins c"

section \<open>The decoders agree\<close>

lemma byte_mask: "(0xff :: u64) = mask 8" "(0xff00 :: u64) = push_bit 8 (mask 8)"
  "(0xff0000 :: u64) = push_bit 16 (mask 8)" "(0xff000000 :: u64) = push_bit 24 (mask 8)"
  "(0xffffffff00000000 :: u64) = push_bit 32 (mask 32)"
  by (simp_all add: mask_eq_decr_exp)

lemma raw_fields:
  "raw_op w = ins_op w" "raw_dst w = ins_dst w" "raw_src w = ins_src w" "raw_modifier w = ins_modi w"
  "raw_imm32 w = ins_imm w"
proof -
  have "signed_drop_bit 8 w AND 0xff = drop_bit 8 (w AND 0xff00)"
    "signed_drop_bit 16 w AND 0xff = drop_bit 16 (w AND 0xff0000)"
    unfolding byte_mask by (intro bit_word_eqI; auto simp: bit_simps min_def)+
  then show "raw_op w = ins_op w" "raw_dst w = ins_dst w" "raw_src w = ins_src w"
    by (simp_all add: raw_op_def ins_op_def raw_dst_def ins_dst_def raw_src_def ins_src_def)
  show "raw_modifier w = ins_modi w" "raw_imm32 w = ins_imm w"
    unfolding raw_modifier_def ins_modi_def raw_imm32_def ins_imm_def byte_mask
    by (intro bit_word_eqI; auto simp: bit_simps min_def)+
qed

lemma small_u8: "d < 255 \<Longrightarrow> of_nat d \<noteq> (255 :: u8)"
  by (simp add: word_unat_eq_iff unat_of_nat)

lemma offset_of_index:
  "d < 8 \<Longrightarrow> register_byte_offset (of_nat d) 8 = reg_offset 8 d"
  "d < 8 \<Longrightarrow> register_byte_offset (of_nat d) 16 = reg_offset 16 d"
  using small_u8 [of d] by (simp_all add: register_byte_offset_def reg_offset_def NO_REG_def)

lemma of_nat_u8_eq: "a < 256 \<Longrightarrow> b < 256 \<Longrightarrow> (of_nat a :: u8) = of_nat b \<longleftrightarrow> a = b"
  by (simp add: word_unat_eq_iff unat_of_nat)

lemma unat_u8_small: "a < 256 \<Longrightarrow> unat (of_nat a :: u8) = a"
  by (simp add: unat_of_nat)

lemma no_reg_offset [simp]: "register_byte_offset NO_REG k = NO_REG"
  by (simp add: register_byte_offset_def)

lemma compact_new_fields [simp]:
  "c_effect (compact_new eff d s imm m) = eff" "c_imm (compact_new eff d s imm m) = imm"
  "c_dst (compact_new eff d s imm m) = register_byte_offset d 8"
  "c_src (compact_new eff d s imm m) = register_byte_offset s 8"
  "c_mode (compact_new eff d s imm m) = m"
  "c_effect (compact_new_float eff d s imm m) = eff" "c_imm (compact_new_float eff d s imm m) = imm"
  "c_dst (compact_new_float eff d s imm m) = register_byte_offset d 16"
  "c_src (compact_new_float eff d s imm m) = register_byte_offset s 16"
  by (simp_all add: compact_new_def compact_new_float_def)

lemma reg_ix_regs [simp]:
  "reg_ix (r_reg n) = n mod 8" "reg_ix (f_reg n) = n mod 4" "reg_ix (e_reg n) = n mod 4" "reg_ix (a_reg n) = n mod 4"
  "n < 4 \<Longrightarrow> reg_ix (f_reg_ix n) = n" "n < 4 \<Longrightarrow> reg_ix (e_reg_ix n) = n"
  by (simp_all add: r_reg_def f_reg_def e_reg_def a_reg_def f_reg_ix_def e_reg_ix_def MAX_REG_def MAX_FLOAT_REG_def)

lemma r_reg_inject: "r_reg a = r_reg b \<longleftrightarrow> a mod 8 = b mod 8"
  by (simp add: r_reg_def MAX_REG_def)

lemma alu_rel_decode:
  "alu_rel re ie (new_instr opc (r_reg d) (r_reg s) imm m eff)
     (decode_reg_or_imm re ie (of_nat (d mod 8)) (of_nat (s mod 8)) imm)"
  by (auto simp: alu_rel_def decode_reg_or_imm_def r_reg_inject of_nat_u8_eq offset_of_index)

lemma rot_rel_decode:
  "rot_rel re ie (new_instr opc (r_reg d) (r_reg s) (imm AND 63) m eff)
     (decode_reg_or_imm re ie (of_nat (d mod 8)) (of_nat (s mod 8)) (imm AND 63))"
proof -
  have "unat (imm AND 63) < 64" using word_and_le1 [of imm 63] by (simp add: word_le_nat_alt)
  then show ?thesis by (simp add: rot_rel_def alu_rel_decode)
qed

lemma mod_4_and: "(m :: u8) mod 4 = m AND 3"
proof -
  have "m AND mask 2 = take_bit 2 m" by (simp add: take_bit_eq_mask)
  also have "\<dots> = m mod 4" by (simp add: take_bit_eq_mod)
  finally show ?thesis by (simp add: mask_eq_decr_exp)
qed

lemma l3_mask_imm: "ucast (imm AND ucast SCRATCHPAD_L3_MASK :: u32) AND SCRATCHPAD_L3_MASK =
    ucast imm AND SCRATCHPAD_L3_MASK"
  for imm :: u32
proof -
  have "SCRATCHPAD_L3_MASK = push_bit 3 (mask 18)" by (simp add: SCRATCHPAD_L3_MASK_def mask_eq_decr_exp)
  then show ?thesis by (intro bit_word_eqI) (auto simp: bit_simps dest: bit_imp_le_length)
qed

lemma load_rel_decode:
  "\<exists>c. decode_memory ce (of_nat (d mod 8)) (of_nat (s mod 8)) imm modi (of_nat (d mod 8) = (of_nat (s mod 8) :: u8)) = Some c \<and>
     load_rel ce (new_lcache_instr opc (r_reg d) s imm modi eff) c \<and> dst_r (new_lcache_instr opc (r_reg d) s imm modi eff) c"
proof -
  have small: "u64_from_i32_imm (imm AND ucast SCRATCHPAD_L3_MASK) = ucast (imm AND ucast SCRATCHPAD_L3_MASK :: u32)"
  proof -
    have "imm AND ucast SCRATCHPAD_L3_MASK \<le> ucast SCRATCHPAD_L3_MASK" by (rule word_and_le1)
    also have "\<dots> \<le> INT32_MAX" by (simp add: SCRATCHPAD_L3_MASK_def INT32_MAX_def)
    finally have "\<not> INT32_MAX < imm AND ucast SCRATCHPAD_L3_MASK" by simp
    then show ?thesis by (simp add: u64_from_i32_imm_def)
  qed
  show ?thesis
    using small l3_mask_imm [of imm]
    by (auto simp: decode_memory_def compact_new_memory_def memory_mask_def r_reg_inject of_nat_u8_eq
        offset_of_index l12_cache_def mod_mem_u8_def mod_4_and MEM_L1_def MEM_L2_def MEM_L3_def Let_def)
qed

lemma load_rel_decode_float:
  assumes "r_reg s \<noteq> fd" "n < 8" "reg_ix fd = n"
  shows "\<exists>c. decode_float_memory ce (of_nat n) (of_nat (s mod 8)) imm modi False = Some c \<and>
     load_rel ce (new_lcache_instr opc fd s imm modi eff) c \<and> dst_v (new_lcache_instr opc fd s imm modi eff) c"
  using assms
  by (auto simp: decode_float_memory_def decode_memory_def compact_new_memory_def memory_mask_def
      offset_of_index l12_cache_def mod_mem_u8_def mod_4_and MEM_L1_def MEM_L2_def Let_def)

lemma store_rel_decode:
  "\<exists>c. compact_new_memory Sp1_istore (of_nat (d mod 8)) (of_nat (s mod 8)) (u64_from_i32_imm imm)
       (if drop_bit 4 modi \<ge> STORE_L3_CONDITION then MEM_L3 else if modi AND 3 = 0 then MEM_L2 else MEM_L1) = Some c \<and>
     c_effect c = Sp1_istore \<and> store_rel (l_cache d modi) imm c \<and> c_src c = reg_offset 8 (s mod 8)"
  by (auto simp: compact_new_memory_def memory_mask_def offset_of_index l_cache_def mod_mem_u8_def
      mod_cond_u8_def mod_4_and MEM_L1_def MEM_L2_def MEM_L3_def Let_def)

lemma cond_shift_u8:
  "unat (drop_bit 4 modi + of_nat CONDITION_OFFSET) = unat (drop_bit 4 modi) + 8"
  "unat (drop_bit 4 modi + of_nat CONDITION_OFFSET - 1) = unat (drop_bit 4 modi) + 7"
  for modi :: u8
proof -
  have u: "unat (drop_bit 4 modi) < 16"
    using unat_lt_u8 [of modi] by (simp add: unat_drop_bit div_less_iff_less_mult)
  show "unat (drop_bit 4 modi + of_nat CONDITION_OFFSET) = unat (drop_bit 4 modi) + 8"
    using u by (subst unat_add_lem [THEN iffD1]) (simp_all add: CONDITION_OFFSET_def)
  have "drop_bit 4 modi + of_nat CONDITION_OFFSET - 1 = drop_bit 4 modi + 7"
    by (simp add: CONDITION_OFFSET_def)
  then show "unat (drop_bit 4 modi + of_nat CONDITION_OFFSET - 1) = unat (drop_bit 4 modi) + 7"
    using u by (simp add: unat_add_lem [THEN iffD1])
qed

lemma float_half_u8:
  "of_nat 4 \<le> (of_nat (d mod 8) :: u8) \<longleftrightarrow> 4 \<le> d mod 8"
  "(of_nat (d mod 8) :: u8) mod of_nat 4 = of_nat (d mod 8 mod 4)"
proof -
  have "d mod 8 < 256" by (rule order_less_trans [of _ 8]) simp_all
  then show "of_nat 4 \<le> (of_nat (d mod 8) :: u8) \<longleftrightarrow> 4 \<le> d mod 8"
    "(of_nat (d mod 8) :: u8) mod of_nat 4 = of_nat (d mod 8 mod 4)"
    by (simp_all add: word_le_nat_alt unat_of_nat word_unat_eq_iff unat_mod)
qed

text \<open>The instruction forms of the two decoders, matched one by one.\<close>

named_theorems decode_rel

lemma float_form_rel [decode_rel]:
  "n < 4 \<Longrightarrow> instr_rel (new_instr FSWAP_R (e_reg_ix n) Store_NONE imm Mode_None Vm_exec_fswap_r)
     (compact_new_float Sp1_fswap_e (of_nat n) NO_REG 0 0)"
  "n < 4 \<Longrightarrow> instr_rel (new_instr FSWAP_R (f_reg_ix n) Store_NONE imm Mode_None Vm_exec_fswap_r)
     (compact_new_float Sp1_fswap_f (of_nat n) NO_REG 0 0)"
  "instr_rel (new_instr FADD_R (f_reg d) (a_reg s) imm Mode_None Vm_exec_fadd_r)
     (compact_new_float Sp1_fadd_r (of_nat (d mod 4)) (of_nat (s mod 4)) 0 0)"
  "instr_rel (new_instr FSUB_R (f_reg d) (a_reg s) imm Mode_None Vm_exec_fsub_r)
     (compact_new_float Sp1_fsub_r (of_nat (d mod 4)) (of_nat (s mod 4)) 0 0)"
  "instr_rel (new_instr FSCAL_R (f_reg d) Store_NONE imm Mode_None Vm_exec_fscal_r)
     (compact_new_float Sp1_fscal_r (of_nat (d mod 4)) NO_REG 0 0)"
  "instr_rel (new_instr FMUL_R (e_reg d) (a_reg s) imm Mode_None Vm_exec_fmul_r)
     (compact_new_float Sp1_fmul_r (of_nat (d mod 4)) (of_nat (s mod 4)) 0 0)"
  "instr_rel (new_instr FSQRT_R (e_reg d) Store_NONE imm Mode_None Vm_exec_fsqrt_r)
     (compact_new_float Sp1_fsqrt_r (of_nat (d mod 4)) NO_REG 0 0)"
  by (auto simp: instr_rel_def offset_of_index order_less_trans [of _ 4] f_reg_ix_def)

lemma float_memory_form_rel [decode_rel]:
  "\<exists>c. decode_float_memory Sp1_fadd_m (of_nat (d mod 4)) (of_nat (s mod 8)) imm modi False = Some c \<and>
     instr_rel (new_lcache_instr FADD_M (f_reg d) s imm modi Vm_exec_fadd_m) c"
  "\<exists>c. decode_float_memory Sp1_fsub_m (of_nat (d mod 4)) (of_nat (s mod 8)) imm modi False = Some c \<and>
     instr_rel (new_lcache_instr FSUB_M (f_reg d) s imm modi Vm_exec_fsub_m) c"
  "\<exists>c. decode_float_memory Sp1_fdiv_m (of_nat (d mod 4)) (of_nat (s mod 8)) imm modi False = Some c \<and>
     instr_rel (new_lcache_instr FDIV_M (e_reg d) s imm modi Vm_exec_fdiv_m) c"
  using load_rel_decode_float [of s "f_reg d" "d mod 4"] load_rel_decode_float [of s "e_reg d" "d mod 4"]
  by (simp_all only: instr_rel_def effect_rel.simps new_lcache_instr_fields reg_ix_regs reg_not_none
      not_False_eq_True simp_thms order_less_trans [OF mod_less_divisor])

lemma control_form_rel [decode_rel]:
  "instr_rel (plain_instr CBRANCH (r_reg d) Store_NONE (Some imm) (mod_cond modi) (Some t) Vm_exec_cbranch)
     ((compact_new Sp1_cbranch (of_nat (d mod 8)) NO_REG
        ((u64_from_i32_imm imm OR push_bit (unat (drop_bit 4 modi + of_nat CONDITION_OFFSET)) 1)
         AND NOT (push_bit (unat (drop_bit 4 modi + of_nat CONDITION_OFFSET - 1)) 1))
        (drop_bit 4 modi + of_nat CONDITION_OFFSET))\<lparr> c_target := t \<rparr>)"
  "instr_rel (plain_instr CFROUND Store_NONE (r_reg s) (Some (imm AND 63)) Mode_None None Vm_exec_cfround)
     (compact_new Sp1_cfround NO_REG (of_nat (s mod 8)) (ucast (imm AND 63)) 0)"
  "\<exists>c. compact_new_memory Sp1_istore (of_nat (d mod 8)) (of_nat (s mod 8)) (u64_from_i32_imm imm)
       (if drop_bit 4 modi \<ge> STORE_L3_CONDITION then MEM_L3 else if modi AND 3 = 0 then MEM_L2 else MEM_L1) = Some c \<and>
     instr_rel (plain_instr ISTORE (l_cache d modi) (r_reg s) (Some imm) Mode_None None Vm_exec_istore) c"
  "instr_rel (new_instr NOP Store_NONE Store_NONE imm Mode_None Vm_nop) (compact_new Sp1_nop NO_REG NO_REG 0 0)"
proof -
  show "instr_rel (plain_instr CBRANCH (r_reg d) Store_NONE (Some imm) (mod_cond modi) (Some t) Vm_exec_cbranch)
     ((compact_new Sp1_cbranch (of_nat (d mod 8)) NO_REG
        ((u64_from_i32_imm imm OR push_bit (unat (drop_bit 4 modi + of_nat CONDITION_OFFSET)) 1)
         AND NOT (push_bit (unat (drop_bit 4 modi + of_nat CONDITION_OFFSET - 1)) 1))
        (drop_bit 4 modi + of_nat CONDITION_OFFSET))\<lparr> c_target := t \<rparr>)"
    by (simp add: instr_rel_def branch_instr cond_shift_u8 offset_of_index branch_inc_def)
       (simp add: add.commute)
  have "unat (imm AND 63) < 64" using word_and_le1 [of imm 63] by (simp add: word_le_nat_alt)
  then show "instr_rel (plain_instr CFROUND Store_NONE (r_reg s) (Some (imm AND 63)) Mode_None None Vm_exec_cfround)
     (compact_new Sp1_cfround NO_REG (of_nat (s mod 8)) (ucast (imm AND 63)) 0)"
    by (simp add: instr_rel_def offset_of_index)
  show "\<exists>c. compact_new_memory Sp1_istore (of_nat (d mod 8)) (of_nat (s mod 8)) (u64_from_i32_imm imm)
       (if drop_bit 4 modi \<ge> STORE_L3_CONDITION then MEM_L3 else if modi AND 3 = 0 then MEM_L2 else MEM_L1) = Some c \<and>
     instr_rel (plain_instr ISTORE (l_cache d modi) (r_reg s) (Some imm) Mode_None None Vm_exec_istore) c"
    using store_rel_decode [of d s imm modi] by (simp add: instr_rel_def)
  show "instr_rel (new_instr NOP Store_NONE Store_NONE imm Mode_None Vm_nop) (compact_new Sp1_nop NO_REG NO_REG 0 0)"
    by (simp add: instr_rel_def)
qed

lemma alu_form_rel [decode_rel]:
  "instr_rel (new_instr ISUB_R (r_reg d) (r_reg s) imm Mode_None Vm_exec_isub_r)
     (decode_reg_or_imm Sp1_isub_r Sp1_isub_imm (of_nat (d mod 8)) (of_nat (s mod 8)) imm)"
  "instr_rel (new_instr IMUL_R (r_reg d) (r_reg s) imm Mode_None Vm_exec_imul_r)
     (decode_reg_or_imm Sp1_imul_r Sp1_imul_imm (of_nat (d mod 8)) (of_nat (s mod 8)) imm)"
  "instr_rel (new_instr IXOR_R (r_reg d) (r_reg s) imm Mode_None Vm_exec_ixor_r)
     (decode_reg_or_imm Sp1_ixor_r Sp1_ixor_imm (of_nat (d mod 8)) (of_nat (s mod 8)) imm)"
  "instr_rel (new_instr IROR_R (r_reg d) (r_reg s) (imm AND 63) Mode_None Vm_exec_iror_r)
     (decode_reg_or_imm Sp1_iror_r Sp1_iror_imm (of_nat (d mod 8)) (of_nat (s mod 8)) (imm AND 63))"
  "instr_rel (new_instr IROL_R (r_reg d) (r_reg s) (imm AND 63) Mode_None Vm_exec_irol_r)
     (decode_reg_or_imm Sp1_irol_r Sp1_irol_imm (of_nat (d mod 8)) (of_nat (s mod 8)) (imm AND 63))"
  "instr_rel (new_instr INEG_R (r_reg d) Store_NONE imm Mode_None Vm_exec_ineg_r)
     (compact_new Sp1_ineg_r (of_nat (d mod 8)) NO_REG 0 0)"
  "instr_rel (plain_instr IMULH_R (r_reg d) (r_reg s) None Mode_None None Vm_exec_imulh_r)
     (compact_new Sp1_imulh_r (of_nat (d mod 8)) (of_nat (s mod 8)) 0 0)"
  "instr_rel (plain_instr ISMULH_R (r_reg d) (r_reg s) None Mode_None None Vm_exec_ismulh_r)
     (compact_new Sp1_ismulh_r (of_nat (d mod 8)) (of_nat (s mod 8)) 0 0)"
  "instr_rel (plain_instr ISWAP_R (r_reg d) (r_reg s) None Mode_None None Vm_exec_iswap_r)
     (compact_new Sp1_iswap_r (of_nat (d mod 8)) (of_nat (s mod 8)) 0 0)"
  "instr_rel ((new_imm_instr IMUL_RCP (r_reg d) imm Mode_None Vm_exec_imul_rcp)\<lparr> i_unsigned_imm := True \<rparr>)
     (compact_new Sp1_imul_rcp (of_nat (d mod 8)) NO_REG 0 0)"
  "instr_rel ((new_imm_instr IMUL_RCP (r_reg d) imm Mode_None Vm_exec_imul_rcp)
       \<lparr> i_unsigned_imm := True, i_reciprocal := rcp \<rparr>)
     (compact_new Sp1_imul_rcp (of_nat (d mod 8)) NO_REG rcp 0)"
  by (simp_all add: instr_rel_def alu_rel_decode rot_rel_decode offset_of_index)

lemma index_eqs:
  "(of_nat (d mod 8) :: u8) = of_nat (s mod 8) \<longleftrightarrow> d mod 8 = s mod 8"
  "(of_nat (d mod 8) :: u8) = 5 \<longleftrightarrow> d mod 8 = 5"
  "r_reg d = REG_NEEDS_DISPLACEMENT \<longleftrightarrow> d mod 8 = 5"
proof -
  have small: "n mod 8 < 256" for n :: nat by (rule order_less_trans [of _ 8]) simp_all
  show "(of_nat (d mod 8) :: u8) = of_nat (s mod 8) \<longleftrightarrow> d mod 8 = s mod 8"
    by (rule of_nat_u8_eq [OF small small])
  show "(of_nat (d mod 8) :: u8) = 5 \<longleftrightarrow> d mod 8 = 5"
    using of_nat_u8_eq [OF small, of 5] by simp
  show "r_reg d = REG_NEEDS_DISPLACEMENT \<longleftrightarrow> d mod 8 = 5"
    by (auto simp: REG_NEEDS_DISPLACEMENT_def REG_NEEDS_DISPLACEMENT_IX_def r_reg_eq)
qed

lemma iadd_rs_form_rel [decode_rel]:
  "instr_rel (plain_instr IADD_RS (r_reg d) (r_reg s) (if d mod 8 = 5 then Some imm else None)
       (mod_shft modi) None Vm_exec_iadd_rs)
     (compact_new Sp1_iadd_rs (of_nat (d mod 8)) (of_nat (s mod 8))
       (if d mod 8 = 5 then u64_from_i32_imm imm else 0) (drop_bit 2 modi AND 3))"
  by (auto simp: instr_rel_def offset_of_index mod_shft_def mod_4_and simp del: of_nat_numeral)

lemma memory_form_rel [decode_rel]:
  "\<exists>c. decode_memory Sp1_iadd_m (of_nat (d mod 8)) (of_nat (s mod 8)) imm modi (d mod 8 = s mod 8) = Some c \<and>
     instr_rel (new_lcache_instr IADD_M (r_reg d) s imm modi Vm_exec_iadd_m) c"
  "\<exists>c. decode_memory Sp1_isub_m (of_nat (d mod 8)) (of_nat (s mod 8)) imm modi (d mod 8 = s mod 8) = Some c \<and>
     instr_rel (new_lcache_instr ISUB_M (r_reg d) s imm modi Vm_exec_isub_m) c"
  "\<exists>c. decode_memory Sp1_imul_m (of_nat (d mod 8)) (of_nat (s mod 8)) imm modi (d mod 8 = s mod 8) = Some c \<and>
     instr_rel (new_lcache_instr IMUL_M (r_reg d) s imm modi Vm_exec_imul_m) c"
  "\<exists>c. decode_memory Sp1_imulh_m (of_nat (d mod 8)) (of_nat (s mod 8)) imm modi (d mod 8 = s mod 8) = Some c \<and>
     instr_rel (new_lcache_instr IMULH_M (r_reg d) s imm modi Vm_exec_imulh_m) c"
  "\<exists>c. decode_memory Sp1_ismulh_m (of_nat (d mod 8)) (of_nat (s mod 8)) imm modi (d mod 8 = s mod 8) = Some c \<and>
     instr_rel (new_lcache_instr ISMULH_M (r_reg d) s imm modi Vm_exec_ismulh_m) c"
  "\<exists>c. decode_memory Sp1_ixor_m (of_nat (d mod 8)) (of_nat (s mod 8)) imm modi (d mod 8 = s mod 8) = Some c \<and>
     instr_rel (new_lcache_instr IXOR_M (r_reg d) s imm modi Vm_exec_ixor_m) c"
  using load_rel_decode [of _ d s imm modi]
  by (simp_all only: instr_rel_def effect_rel.simps new_lcache_instr_fields index_eqs)

lemma u8_index [simp]: "unat (of_nat (d mod 8) :: u8) = d mod 8"
  by (rule unat_u8_small) (simp add: order_less_trans [of _ 8])

text \<open>Matching results of the decoders, branch by branch.\<close>

definition decode_match :: "(Instr \<times> int list) option \<Rightarrow> (CompactInstr \<times> int list) option \<Rightarrow> bool" where
  "decode_match r c \<longleftrightarrow>
     (\<forall>ins usage. r = Some (ins, usage) \<longrightarrow> (\<exists>ci. c = Some (ci, usage) \<and> instr_rel ins ci))"

lemma match_if:
  "(b \<Longrightarrow> decode_match r c) \<Longrightarrow> (\<not> b \<Longrightarrow> decode_match r' c') \<Longrightarrow>
     decode_match (if b then r else r') (if b then c else c')"
  by simp

lemma match_Some: "instr_rel ins c \<Longrightarrow> decode_match (Some (ins, u)) (Some (c, u))"
  by (simp add: decode_match_def)

lemma match_map:
  "\<exists>c. x = Some c \<and> instr_rel ins c \<Longrightarrow> decode_match (Some (ins, u)) (map_option (\<lambda>c. (c, u)) x)"
  by (auto simp: decode_match_def)

lemma match_reciprocal:
  "decode_match
     (do { r \<leftarrow> randomx_reciprocal v;
           Some ((new_imm_instr IMUL_RCP (r_reg d) imm Mode_None Vm_exec_imul_rcp)
                   \<lparr> i_unsigned_imm := True, i_reciprocal := r \<rparr>, u) })
     (do { r \<leftarrow> randomx_reciprocal v; Some (compact_new Sp1_imul_rcp (of_nat (d mod 8)) NO_REG r 0, u) })"
  by (cases "randomx_reciprocal v") (simp_all add: decode_match_def decode_rel)

lemma match_swap:
  "decode_match
     (if s mod 8 \<noteq> d mod 8
      then Some (plain_instr ISWAP_R (r_reg d) (r_reg s) None Mode_None None Vm_exec_iswap_r, u)
      else Some (new_instr NOP Store_NONE Store_NONE imm Mode_None Vm_nop, u'))
     (if s mod 8 = d mod 8 then Some (compact_new Sp1_nop NO_REG NO_REG 0 0, u')
      else Some (compact_new Sp1_iswap_r (of_nat (d mod 8)) (of_nat (s mod 8)) 0 0, u))"
  by (simp add: decode_match_def decode_rel)

lemma match_float_swap:
  "decode_match
     (if 4 \<le> d mod 8
      then Some (new_instr FSWAP_R (e_reg_ix (d mod 8 mod 4)) Store_NONE imm Mode_None Vm_exec_fswap_r, u)
      else Some (new_instr FSWAP_R (f_reg_ix (d mod 8 mod 4)) Store_NONE imm Mode_None Vm_exec_fswap_r, u))
     (Some (compact_new_float (if 4 \<le> d mod 8 then Sp1_fswap_e else Sp1_fswap_f) (of_nat (d mod 8 mod 4)) NO_REG 0 0, u))"
  using float_form_rel(1,2) [of "d mod 8 mod 4" imm] by (auto simp: decode_match_def)

lemmas match_intros = match_if match_float_swap match_swap match_reciprocal match_map match_Some

lemma decode_float_control_match:
  "decode_match (decode_float_control w i usage) (sp1_decode_float_control w i usage)"
  unfolding decode_float_control_def sp1_decode_float_control_def raw_fields Let_def MAX_REG_def MAX_FLOAT_REG_def
    float_half_u8 opcode_bound.simps u8_index
  by (intro match_intros decode_rel)

lemma decode_lockstep:
  "decode_match (decode_instruction w i usage) (sp1_decode_instruction w i usage)"
  unfolding decode_instruction_def decode_integer_rest_def sp1_decode_instruction_def raw_fields Let_def
    MAX_REG_def is_zero_or_power_of_2_def is_zero_or_power_of_two_def index_eqs opcode_bound.simps u8_index
  by (intro match_intros decode_rel decode_float_control_match)

lemma decode_words_lockstep:
  "decode_words ws i usage = Some (is, usage') \<Longrightarrow>
     \<exists>cs. sp1_decode_words ws i usage = Some cs \<and> list_all2 instr_rel is cs"
proof (induction ws arbitrary: i usage "is")
  case (Cons w ws)
  then obtain ins u1 rest where d: "decode_instruction w i usage = Some (ins, u1)"
    "decode_words ws (i + 1) u1 = Some (rest, usage')" "is = ins # rest"
    by (auto simp: bind_eq_Some_conv)
  obtain c where "sp1_decode_instruction w i usage = Some (c, u1)" "instr_rel ins c"
    using decode_lockstep [of w i usage] d(1) by (auto simp: decode_match_def)
  moreover obtain cs where "sp1_decode_words ws (i + 1) u1 = Some cs" "list_all2 instr_rel rest cs"
    using Cons.IH [OF d(2)] by blast
  ultimately show ?case using d(3) by simp
qed simp

text \<open>Both program decoders succeed on a generated buffer, with the same entropy and matching
  instructions.\<close>

lemma from_bytes_lockstep:
  assumes "length bytes = 136"
  shows "\<exists>prog cprog. from_bytes bytes = Some prog \<and> sp1_from_bytes bytes = Some cprog \<and>
    cp_entropy cprog = p_entropy prog \<and> list_all2 instr_rel (p_program prog) (cp_instructions cprog) \<and>
    length (p_program prog) = 256 \<and> length (p_entropy prog) = 16 \<and> prog_ok (p_program prog)"
proof -
  obtain prog where prog: "from_bytes bytes = Some prog" "length (p_program prog) = 256"
    "length (p_entropy prog) = 16" "prog_ok (p_program prog)"
    using from_bytes_ok [OF assms] by blast
  then obtain u where "decode_words (concat (map m128i_halves (drop 8 bytes))) 0 (replicate MAX_REG (-1)) =
      Some (p_program prog, u)" "p_entropy prog = concat (map m128i_halves (take 8 bytes))"
    using assms by (auto simp: from_bytes_def bind_eq_Some_conv)
  then show ?thesis
    using prog assms decode_words_lockstep
    by (fastforce simp: sp1_from_bytes_def RANDOMX_PROGRAM_SIZE_def list_all2_lengthD [symmetric])
qed

section \<open>Integer and control instructions\<close>

lemma mask_cast:
  "ucast (ucast SCRATCHPAD_L1_MASK :: u32) = SCRATCHPAD_L1_MASK"
  "ucast (ucast SCRATCHPAD_L2_MASK :: u32) = SCRATCHPAD_L2_MASK"
  "ucast (ucast SCRATCHPAD_L3_MASK :: u32) = SCRATCHPAD_L3_MASK"
  by (simp_all add: SCRATCHPAD_L1_MASK_def SCRATCHPAD_L2_MASK_def SCRATCHPAD_L3_MASK_def)

lemma mask_aligned:
  assumes "m \<in> {SCRATCHPAD_L1_MASK, SCRATCHPAD_L2_MASK, SCRATCHPAD_L3_MASK}"
  shows "unat (x AND m) mod 8 = 0"
proof -
  have "x AND m AND mask 3 = 0"
    using assms by (auto simp: SCRATCHPAD_L1_MASK_def SCRATCHPAD_L2_MASK_def SCRATCHPAD_L3_MASK_def
        mask_eq_decr_exp)
  then have "take_bit 3 (x AND m) = 0" by (simp add: take_bit_eq_mask and.assoc)
  then have "take_bit 3 (unat (x AND m)) = 0" by (simp flip: unsigned_take_bit_eq)
  then show ?thesis by (simp add: take_bit_eq_mod)
qed

lemma scratch_at_masked:
  assumes "vm_ok vm" "m \<in> {SCRATCHPAD_L1_MASK, SCRATCHPAD_L2_MASK, SCRATCHPAD_L3_MASK}"
  shows "scratch_at_offset vm (unat (x AND m)) = Some (scratchpad vm ! (unat (x AND m) div 8))"
    "set_scratch_at_offset vm (unat (x AND m)) v =
       Some (vm\<lparr> scratchpad := (scratchpad vm)[unat (x AND m) div 8 := v] \<rparr>)"
proof -
  have "unat (x AND m) div 8 < 262144" using assms(2) masked_index by auto
  moreover have "unat (x AND m) = 8 * (unat (x AND m) div 8)" using mask_aligned [OF assms(2), of x] by presburger
  ultimately have "unat (x AND m) + 8 \<le> 262144 * 8" by linarith
  then show "scratch_at_offset vm (unat (x AND m)) = Some (scratchpad vm ! (unat (x AND m) div 8))"
    "set_scratch_at_offset vm (unat (x AND m)) v =
       Some (vm\<lparr> scratchpad := (scratchpad vm)[unat (x AND m) div 8 := v] \<rparr>)"
    using assms(1) mask_aligned [OF assms(2), of x]
    by (simp_all add: scratch_at_offset_def set_scratch_at_offset_def vm_ok_def)
qed

lemma NO_REG_offset: "d < 8 \<Longrightarrow> reg_offset 8 d \<noteq> NO_REG"
  using small_u8 [of "8 * d"] by (simp add: reg_offset_def NO_REG_def)

text \<open>The memory operand of matching instructions is the same word.\<close>

lemma scratch_src_rel:
  assumes "vm_ok vm" "mem_src ins" "mem_rel (i_src ins) (the (i_imm ins)) c"
  shows "scratch_src vm c = scratchpad_src vm ins"
  using assms masked_index
  by (cases "i_src ins")
     (auto simp: scratch_src_def scratchpad_src_def scratchpad_src_offset_def scratchpad_src_ix_def mem_src_def
       sp1_access NO_REG_offset mask_cast scratch_at_masked vm_ok_def [of vm] dest!: kind_cases)

lemmas c_exec_defs =
  c_exec_iadd_rs_def c_exec_iadd_m_def c_exec_isub_r_def c_exec_isub_imm_def c_exec_isub_m_def
  c_exec_imul_r_def c_exec_imul_imm_def c_exec_imul_m_def c_exec_imulh_r_def c_exec_imulh_m_def
  c_exec_ismulh_r_def c_exec_ismulh_m_def c_exec_imul_rcp_def c_exec_ineg_r_def c_exec_ixor_r_def
  c_exec_ixor_imm_def c_exec_ixor_m_def c_exec_iror_r_def c_exec_iror_imm_def c_exec_irol_r_def
  c_exec_irol_imm_def c_exec_iswap_r_def c_exec_fswap_f_def c_exec_fswap_e_def c_exec_fscal_r_def

text \<open>The instructions that round a floating-point result.\<close>

definition rounds :: "Effect \<Rightarrow> bool" where
  "rounds eff \<longleftrightarrow> eff \<in> {Vm_exec_fadd_r, Vm_exec_fadd_m, Vm_exec_fsub_r, Vm_exec_fsub_m, Vm_exec_fmul_r,
     Vm_exec_fdiv_m, Vm_exec_fsqrt_r}"

lemma rot_amount:
  fixes imm :: u32
  assumes "unat imm < 64"
  shows "unat (scast imm AND 0xFFFFFF :: u64) = unat imm" "unat (ucast (scast imm :: u64) :: u32) = unat imm"
    "unat (ucast (ucast imm :: u64) :: u32) = unat imm"
proof -
  have "\<not> INT32_MAX < imm" using assms by (simp add: INT32_MAX_def word_less_nat_alt)
  then have c: "(scast imm :: u64) = ucast imm"
    by (simp add: u64_from_i32_imm_def flip: u64_from_i32_imm_scast)
  have u: "unat (ucast imm :: u64) = unat imm"
    using assms by (simp add: unsigned_ucast_eq take_bit_nat_eq_self)
  then have "unat (ucast imm AND mask 24 :: u64) = unat imm"
    using assms by (simp add: take_bit_eq_mask [symmetric] unsigned_take_bit_eq take_bit_nat_eq_self)
  then show "unat (scast imm AND 0xFFFFFF :: u64) = unat imm" by (simp add: mask_eq_decr_exp c)
  have "(ucast (ucast imm :: u64) :: u32) = imm" by (rule bit_word_eqI) (auto simp: bit_simps)
  then show "unat (ucast (scast imm :: u64) :: u32) = unat imm" "unat (ucast (ucast imm :: u64) :: u32) = unat imm"
    by (simp_all add: c)
qed

lemma cbranch_lockstep:
  assumes "vm_ok vm" "instr_ok ins" "instr_rel ins c" "i_effect ins = Vm_exec_cbranch"
  shows "c_execute c vm = instr_execute ins vm"
proof -
  obtain d inc shift t where b: "instr_branch ins = Some (d, inc, shift, t)" "d < 8"
    "instr_execute ins vm =
      Some ((upd_r ((reg_r (reg vm))[d := reg_r (reg vm) ! d + inc]) vm)
        \<lparr> vm_pc := if branch_taken shift (reg_r (reg vm) ! d + inc) then t else vm_pc vm \<rparr>)"
    using cbranch_ok [OF assms(1,2,4)] by blast
  have "CONDITION_MASK = 255" by (simp add: CONDITION_MASK_def CONDITION_OFFSET_def)
  then show ?thesis
    using b assms(1,3,4)
    by (auto simp: instr_rel_def c_execute_def c_exec_cbranch_def sp1_access branch_taken_def Let_def)
qed

lemma cfround_lockstep:
  assumes "vm_ok vm" "instr_ok ins" "instr_rel ins c" "i_effect ins = Vm_exec_cfround"
  shows "c_execute c vm = instr_execute ins vm"
proof -
  have "x mod 4 = x AND 3" for x :: u64
  proof -
    have "x AND mask 2 = take_bit 2 x" by (simp add: take_bit_eq_mask)
    also have "\<dots> = x mod 4" by (simp add: take_bit_eq_mod)
    finally show ?thesis by (simp add: mask_eq_decr_exp)
  qed
  then show ?thesis
    using assms
    by (auto simp: instr_rel_def instr_ok_def c_execute_def c_exec_cfround_def instr_execute_def exec_cfround_def
        reg_access sp1_access reg_ix_bound rot_amount)
qed

lemma istore_lockstep:
  assumes "vm_ok vm" "instr_ok ins" "instr_rel ins c" "i_effect ins = Vm_exec_istore"
  shows "c_execute c vm = instr_execute ins vm"
  using assms masked_index
  by (cases "i_dst ins")
     (auto simp: instr_rel_def instr_ok_def c_execute_def c_exec_istore_def instr_execute_def exec_istore_def
       scratchpad_dst_offset_def scratchpad_dst_ix_def reg_access sp1_access reg_ix_bound mask_cast scratch_at_masked
       vm_ok_def [of vm] dest!: kind_cases)

lemma iswap_lockstep:
  assumes "vm_ok vm" "instr_ok ins" "instr_rel ins c" "i_effect ins = Vm_exec_iswap_r"
  shows "c_execute c vm = instr_execute ins vm"
proof -
  have "vm_ok (upd_r ((reg_r (reg vm))[k := v]) vm)" for k v using assms(1) by (simp add: vm_ok_def)
  then show ?thesis
    using assms
    by (auto simp: instr_rel_def instr_ok_def c_execute_def c_exec_iswap_r_def instr_execute_def exec_iswap_r_def
        reg_access sp1_access reg_ix_bound)
qed

lemma alu_lockstep:
  assumes "vm_ok vm" "instr_ok ins" "instr_rel ins c"
    "i_effect ins \<in> {Vm_exec_isub_r, Vm_exec_imul_r, Vm_exec_ixor_r, Vm_exec_iror_r, Vm_exec_irol_r}"
  shows "c_execute c vm = instr_execute ins vm"
proof (cases "i_src ins = Store_NONE")
  case True
  then show ?thesis
    using assms
    by (auto simp: instr_rel_def instr_ok_def c_execute_def instr_execute_def exec_defs c_exec_defs alu_rel_def
        rot_rel_def reg_access sp1_access reg_ix_bound imm_or_r_ok rot_amount u64_from_i32_imm_scast)
next
  case False
  then have "r_or_imm ins \<Longrightarrow> is_R (i_src ins)" by (simp add: r_or_imm_def)
  then show ?thesis
    using False assms
    by (auto simp: instr_rel_def instr_ok_def c_execute_def instr_execute_def exec_defs c_exec_defs alu_rel_def
        rot_rel_def reg_access sp1_access reg_ix_bound imm_or_r_ok)
qed

lemma exec_lockstep:
  assumes "vm_ok vm" "instr_ok ins" "instr_rel ins c" "\<not> rounds (i_effect ins)"
  shows "c_execute c vm = instr_execute ins vm"
proof -
  consider (special) "i_effect ins \<in> {Vm_exec_cbranch, Vm_exec_cfround, Vm_exec_istore, Vm_exec_iswap_r,
      Vm_exec_isub_r, Vm_exec_imul_r, Vm_exec_ixor_r, Vm_exec_iror_r, Vm_exec_irol_r}"
    | (plain) "i_effect ins \<notin> {Vm_exec_cbranch, Vm_exec_cfround, Vm_exec_istore, Vm_exec_iswap_r,
      Vm_exec_isub_r, Vm_exec_imul_r, Vm_exec_ixor_r, Vm_exec_iror_r, Vm_exec_irol_r}" by blast
  then show ?thesis
  proof cases
    case special
    then show ?thesis
      using assms cbranch_lockstep cfround_lockstep istore_lockstep iswap_lockstep alu_lockstep by auto
  next
    case plain
    then show ?thesis
      using assms unfolding rounds_def instr_rel_def instr_ok_def c_execute_def instr_execute_def
      by (cases "i_effect ins")
         (auto simp: exec_defs c_exec_defs reg_access sp1_access reg_ix_bound scratch_src_rel scratchpad_src_ok
           Let_def split: option.split if_split_asm)
  qed
qed

section \<open>Instructions that round\<close>

lemma lanes_from_lanes:
  "lanes v = (snd (as_f64 v), fst (as_f64 v))" "from_lanes p = from_f64 (snd p) (fst p)"
  by (simp_all add: lanes_def from_lanes_def as_u64_def m128d_from_u64_def case_prod_beta)

text \<open>Both lanes of a vector satisfy a predicate; two vectors satisfy a relation lane by lane.\<close>

definition both :: "(u64 \<Rightarrow> bool) \<Rightarrow> m128d \<Rightarrow> bool" where
  "both P v \<longleftrightarrow> P (fst (as_f64 v)) \<and> P (snd (as_f64 v))"

text \<open>The domains of the register groups: additive registers hold no NaN, multiplicative registers
  neither NaN nor a negative number, the constant registers and the divisors are positive and finite.\<close>

definition f_num :: "u64 \<Rightarrow> bool" where "f_num a \<longleftrightarrow> \<not> f64_nan a"
definition e_num :: "u64 \<Rightarrow> bool" where "e_num a \<longleftrightarrow> \<not> f64_nan a \<and> \<not> f64_neg a"
definition a_num :: "u64 \<Rightarrow> bool" where "a_num a \<longleftrightarrow> f64_finite a \<and> \<not> f64_neg a \<and> f64_idx a \<noteq> 0"

lemma num_imp: "a_num x \<Longrightarrow> f_num x" "e_num x \<Longrightarrow> f_num x"
  by (simp_all add: a_num_def e_num_def f_num_def)

lemma f64_add_commute: "f64_add mode a b = f64_add mode b a"
proof -
  have "a = b" if "f64_inf a" "f64_inf b" "f64_neg a = f64_neg b"
    using that mk_f64_idx_neg [of a] mk_f64_idx_neg [of b] by simp
  then show ?thesis by (auto simp: f64_add_def Let_def add.commute)
qed

lemma f64_mul_commute: "f64_mul mode a b = f64_mul mode b a"
  by (cases "f64_neg a"; cases "f64_neg b") (auto simp: f64_mul_def Let_def mult.commute)

text \<open>The compact machine selects the mode of the reference machine.\<close>

lemma sp1_mode:
  assumes "vm_ok vm"
  shows "sp1_rounding_mode vm = Some (from_fprc (get_rounding_mode vm))"
proof -
  have "unat (get_rounding_mode vm) < 4"
    using assms by (simp add: vm_ok_def get_rounding_mode_def unsigned_ucast_eq take_bit_nat_eq_self)
  then show ?thesis by (simp add: sp1_rounding_mode_def from_valid_fprc_agrees)
qed

text \<open>The vector operations of the compact machine without a control register: nearest natively,
  the other modes by softfp.\<close>

lemma softfp_vector_ops:
  "both f_num x \<Longrightarrow> both f_num y \<Longrightarrow>
     (if mode = Nearest then m128d_add Nearest x y else from_lanes (add2 (lanes x) (lanes y) mode)) = m128d_add mode x y"
  "both f_num x \<Longrightarrow> both f_num y \<Longrightarrow>
     (if mode = Nearest then m128d_sub Nearest x y else from_lanes (sub2 (lanes x) (lanes y) mode)) = m128d_sub mode x y"
  "both e_num x \<Longrightarrow> both a_num y \<Longrightarrow>
     (if mode = Nearest then m128d_mul Nearest x y else from_lanes (mul2 (lanes x) (lanes y) mode)) = m128d_mul mode x y"
  "both e_num x \<Longrightarrow> both a_num y \<Longrightarrow>
     (if mode = Nearest then m128d_div Nearest x y else from_lanes (div2 (lanes x) (lanes y) mode)) = m128d_div mode x y"
  "both e_num x \<Longrightarrow>
     (if mode = Nearest then m128d_sqrt Nearest x else from_lanes (sqrt2 (lanes x) mode)) = m128d_sqrt mode x"
  by (auto simp: both_def f_num_def e_num_def a_num_def m128d_add_def m128d_sub_def m128d_mul_def m128d_div_def
      m128d_sqrt_def lanes_from_lanes case_prod_beta Let_def add.op2_ieee sub.op2_ieee mul.op2_ieee div.op2_ieee sqrt2_ieee
      no_nan_def div_domain_def)

lemma m128d_commute: "m128d_add mode x y = m128d_add mode y x" "m128d_mul mode x y = m128d_mul mode y x"
  by (simp_all add: m128d_add_def m128d_mul_def case_prod_beta f64_add_commute [of mode "fst (as_f64 x)"]
      f64_add_commute [of mode "snd (as_f64 x)"] f64_mul_commute [of mode "fst (as_f64 x)"]
      f64_mul_commute [of mode "snd (as_f64 x)"])

end
