(* ===== verification/FloatDomain.thy ===== *)
theory FloatDomain
  imports Lockstep
begin

text \<open>
  The values the floating-point registers hold. The constant registers and the divisors of
  \<open>FDIV_M\<close> are positive, finite and not zero, because \<open>small_positive_float_bit\<close> and
  \<open>float_mask\<close> fix their sign and exponent; the multiplicative registers are never NaN and never
  negative, because multiplication and division by such numbers and square roots keep this. On
  these domains the instructions that round agree between the two machines.
\<close>

section \<open>Positive finite constants\<close>

lemma a_num_range: "0 < unat w \<Longrightarrow> unat w < inf_index \<Longrightarrow> a_num w"
  using inf_index_lt by (simp add: a_num_def f64_idx_def f64_neg_def)

lemma a_num_exponent:
  assumes "0 < unat (drop_bit 52 w)" "unat (drop_bit 52 w) < 0x7ff"
  shows "a_num w"
proof (rule a_num_range)
  have d: "unat (drop_bit 52 w) = unat w div 2 ^ 52" by (simp add: unat_drop_bit)
  then show "0 < unat w" using assms(1) by (intro gr0I) simp
  show "unat w < inf_index" using assms(2) d by (simp add: inf_index_def div_less_iff_less_mult)
qed

lemma small_positive_float_exponent:
  "unat (drop_bit 52 (small_positive_float_bit x)) = unat (drop_bit 59 x) + 1023" "unat (drop_bit 59 x) < 32"
proof -
  define k where "k = drop_bit 59 x"
  have k: "unat k < 32"
    using unat_lt_u64 [of x] by (simp add: k_def unat_drop_bit div_less_iff_less_mult)
  have masks: "EXPONENT_MASK = mask 11" "MANTISSA_MASK = mask 52"
    by (simp_all add: EXPONENT_MASK_def EXPONENT_SIZE_def MANTISSA_MASK_def MANTISSA_SIZE_def mask_eq_decr_exp)
  have "drop_bit 52 (small_positive_float_bit x) = (k + 1023) AND mask 11"
    unfolding small_positive_float_bit_def k_def Let_def EXPONENT_BIAS_def masks MANTISSA_SIZE_def
    by (rule bit_word_eqI) (auto simp: bit_simps)
  moreover have "unat (k + 1023) = unat k + 1023" using k by (subst unat_add_lem [THEN iffD1]) simp_all
  then have "unat ((k + 1023) AND mask 11) = unat k + 1023"
    using k by (simp add: take_bit_eq_mask [symmetric] unsigned_take_bit_eq take_bit_nat_eq_self)
  ultimately show "unat (drop_bit 52 (small_positive_float_bit x)) = unat (drop_bit 59 x) + 1023" by (simp add: k_def)
  show "unat (drop_bit 59 x) < 32" using k by (simp add: k_def)
qed

lemma small_positive_float_a_num: "a_num (small_positive_float_bit x)"
  using small_positive_float_exponent [of x] by (intro a_num_exponent) simp_all

lemma masked_a_num: "a_num ((w AND DYNAMIC_MANTISSA_MASK) OR float_mask x)"
proof (rule a_num_range)
  let ?m = "(w AND DYNAMIC_MANTISSA_MASK) OR float_mask x"
  have mask56: "DYNAMIC_MANTISSA_MASK = mask 56"
    by (simp add: DYNAMIC_MANTISSA_MASK_def MANTISSA_SIZE_def DYNAMIC_EXPONENT_BITS_def mask_eq_decr_exp)
  have fm: "float_mask x = (x AND mask 22) OR push_bit 52 (push_bit 8 (mask 2) OR push_bit 4 (drop_bit 60 x))"
    by (simp add: float_mask_def static_exponent_def EXPONENT_BITS_def DYNAMIC_EXPONENT_BITS_def
        STATIC_EXPONENT_BITS_def MANTISSA_SIZE_def mask_eq_decr_exp)
  have "bit ?m 60" unfolding fm mask56 by (simp add: bit_simps)
  then have "?m \<noteq> 0" by (metis bit_0_eq bot_apply bot_bool_def)
  then show "0 < unat ?m" by (simp add: unat_gt_0)
  have "take_bit 62 ?m = ?m"
    unfolding fm mask56 by (rule bit_word_eqI) (auto simp: bit_simps dest: bit_imp_le_length)
  then have "unat ?m < 2 ^ 62" by (metis take_bit_nat_less_exp unsigned_take_bit_eq)
  then show "unat ?m < inf_index" by (simp add: inf_index_def)
qed

section \<open>Closure of the domains\<close>

lemma num_mk:
  "m \<le> inf_index \<Longrightarrow> f_num (mk_f64 neg m)" "m \<le> inf_index \<Longrightarrow> e_num (mk_f64 False m)"
  using inf_index_lt by (simp_all add: f_num_def e_num_def order_le_less_trans)

lemma f64_of_i32_f_num: "f_num (f64_of_i32 i)"
  by (simp add: f64_of_i32_def num_mk round_mag_le_inf)

lemma e_num_closed:
  "e_num x \<Longrightarrow> a_num y \<Longrightarrow> e_num (f64_mul mode x y)"
  "e_num x \<Longrightarrow> a_num y \<Longrightarrow> e_num (f64_div mode x y)"
  "e_num x \<Longrightarrow> e_num (f64_sqrt mode x)"
  using num_mk(2) [OF round_mag_le_inf] num_mk(2) [of inf_index] num_mk(2) [of 0]
  by (auto simp: f64_mul_def f64_div_def f64_sqrt_def Let_def e_num_def [of x] a_num_def [of y])

section \<open>Registers\<close>

lemma as_f64_bitwise:
  "as_f64 (v AND w) = (fst (as_f64 v) AND fst (as_f64 w), snd (as_f64 v) AND snd (as_f64 w))"
  "as_f64 (v OR w) = (fst (as_f64 v) OR fst (as_f64 w), snd (as_f64 v) OR snd (as_f64 w))"
  by (auto simp: as_f64_def intro!: bit_word_eqI simp: bit_simps)

text \<open>The exponent masks make every masked operand positive and finite, as those of \<open>float_mask\<close> do;
  the constant and the multiplicative registers are in their domains.\<close>

definition config_ok :: "Vm \<Rightarrow> bool" where
  "config_ok vm \<longleftrightarrow> (\<forall>m \<in> set (e_mask (config vm)). \<forall>w. a_num ((w AND DYNAMIC_MANTISSA_MASK) OR m)) \<and>
     (\<forall>v \<in> set (reg_a (reg vm)). both a_num v)"

definition e_ok :: "Vm \<Rightarrow> bool" where
  "e_ok vm \<longleftrightarrow> (\<forall>v \<in> set (reg_e (reg vm)). both e_num v)"

definition f_ok :: "Vm \<Rightarrow> bool" where
  "f_ok vm \<longleftrightarrow> (\<forall>v \<in> set (reg_f (reg vm)). both f_num v)"

lemma both_masked:
  assumes "vm_ok vm" "config_ok vm" "mask_register_exponent_mantissa vm v = Some w"
  shows "both a_num w"
proof -
  have "e_mask (config vm) ! 1 \<in> set (e_mask (config vm))" "e_mask (config vm) ! 0 \<in> set (e_mask (config vm))"
    using assms(1) by (simp_all add: vm_ok_def)
  then have "a_num ((w AND DYNAMIC_MANTISSA_MASK) OR e_mask (config vm) ! 1)"
    "a_num ((w AND DYNAMIC_MANTISSA_MASK) OR e_mask (config vm) ! 0)" for w
    using assms(2) by (simp_all add: config_ok_def)
  then show ?thesis
    using assms(3)
    by (auto simp: mask_exponent_ok [OF assms(1)] both_def as_f64_bitwise m128d_from_u64_def)
qed

lemma both_lower: "both f_num (lower_to_m128d v)"
  by (simp add: both_def lower_to_m128d_def Let_def f64_of_i32_f_num)

lemma both_mono: "both P v \<Longrightarrow> (\<And>x. P x \<Longrightarrow> Q x) \<Longrightarrow> both Q v"
  by (simp add: both_def)

lemma both_shuffle: "both P v \<Longrightarrow> both P (shuffle_1 v v)"
  by (simp add: both_def shuffle_1_def case_prod_beta Let_def)

lemma both_e_closed:
  "both e_num x \<Longrightarrow> both a_num y \<Longrightarrow> both e_num (m128d_mul mode x y)"
  "both e_num x \<Longrightarrow> both a_num y \<Longrightarrow> both e_num (m128d_div mode x y)"
  "both e_num x \<Longrightarrow> both e_num (m128d_sqrt mode x)"
  by (simp_all add: both_def m128d_mul_def m128d_div_def m128d_sqrt_def case_prod_beta e_num_closed)

text \<open>The domains of the operands of an instruction.\<close>

lemma reg_domains:
  assumes "vm_ok vm" "config_ok vm" "e_ok vm"
  shows "is_E s \<Longrightarrow> both e_num (reg_e (reg vm) ! reg_ix s)" "is_A s \<Longrightarrow> both a_num (reg_a (reg vm) ! reg_ix s)"
    "is_F s \<Longrightarrow> f_ok vm \<Longrightarrow> both f_num (reg_f (reg vm) ! reg_ix s)"
  using assms reg_ix_bound by (auto simp: vm_ok_def config_ok_def e_ok_def f_ok_def)

section \<open>Equivalence of one instruction\<close>

text \<open>The state of the guest machine: no control register, and its own memory registers.\<close>

definition guest :: "MemoryRegister \<Rightarrow> Vm \<Rightarrow> Vm" where
  "guest m vm = vm\<lparr> fp_env := No_env, mem_reg := m \<rparr>"

lemma guest_fields [simp]:
  "reg (guest m vm) = reg vm" "scratchpad (guest m vm) = scratchpad vm" "vm_pc (guest m vm) = vm_pc vm"
  "config (guest m vm) = config vm" "mem (guest m vm) = mem vm" "dataset_offset (guest m vm) = dataset_offset vm"
  "rounding_mode (guest m vm) = rounding_mode vm" "fp_env (guest m vm) = No_env" "mem_reg (guest m vm) = m"
  "get_rounding_mode (guest m vm) = get_rounding_mode vm" "vm_ok (guest m vm) = vm_ok vm"
  by (simp_all add: guest_def get_rounding_mode_def vm_ok_def)

lemma guest_upd:
  "(guest m vm)\<lparr> reg := r \<rparr> = guest m (vm\<lparr> reg := r \<rparr>)"
  "(guest m vm)\<lparr> scratchpad := pad \<rparr> = guest m (vm\<lparr> scratchpad := pad \<rparr>)"
  "(guest m vm)\<lparr> vm_pc := t \<rparr> = guest m (vm\<lparr> vm_pc := t \<rparr>)"
  "(guest m vm)\<lparr> mem_reg := m' \<rparr> = guest m' vm"
  by (simp_all add: guest_def)

text \<open>The state of the host: its control register holds the mode of the machine.\<close>

definition host_ok :: "Vm \<Rightarrow> bool" where
  "host_ok vm \<longleftrightarrow> vm_ok vm \<and> env_sync vm \<and> fp_env vm \<noteq> No_env"

lemma host_mode: "host_ok vm \<Longrightarrow> vm_mode vm = from_fprc (get_rounding_mode vm)"
  by (auto simp: host_ok_def env_sync_def)

lemmas c_float_defs = c_exec_fadd_r_def c_exec_fadd_m_def c_exec_fsub_r_def c_exec_fsub_m_def c_exec_fmul_r_def
  c_exec_fdiv_m_def c_exec_fsqrt_r_def

lemma sp1_mask_eq: "sp1_mask_register_exponent_mantissa vm v = mask_register_exponent_mantissa vm v"
  by (simp add: sp1_mask_register_exponent_mantissa_def mask_register_exponent_mantissa_def)

lemma scratch_guest [simp]:
  "scratch_src (guest m vm) c = scratch_src vm c" "sp1_rounding_mode (guest m vm) = sp1_rounding_mode vm"
  "mask_register_exponent_mantissa (guest m vm) v = mask_register_exponent_mantissa vm v"
  by (simp_all add: scratch_src_def scratchpad_src_offset_def scratch_at_offset_def sp1_r_def
      sp1_rounding_mode_def mask_register_exponent_mantissa_def cong: if_cong split del: if_split)

lemma rounds_lockstep:
  assumes "host_ok vm" "config_ok vm" "e_ok vm" "f_ok vm" "instr_ok ins" "instr_rel ins c" "rounds (i_effect ins)"
  shows "c_execute c (guest m vm) = map_option (guest m) (instr_execute ins vm)"
proof -
  have vm: "vm_ok vm" "vm_ok (guest m vm)" using assms(1) by (simp_all add: host_ok_def)
  have a: "is_A s \<Longrightarrow> both f_num (reg_a (reg vm) ! reg_ix s)" for s
    using reg_domains(2) [OF vm(1) assms(2,3)] num_imp(1) by (auto intro: both_mono)
  have d: "both a_num ((v AND m128d_from_u64 DYNAMIC_MANTISSA_MASK DYNAMIC_MANTISSA_MASK)
           OR m128d_from_u64 (e_mask (config vm) ! 1) (e_mask (config vm) ! 0))" for v
    using both_masked [OF vm(1) assms(2)] mask_exponent_ok [OF vm(1)] by blast
  show ?thesis
    using assms(5-7) vm a d reg_domains [OF vm(1) assms(2,3)] both_lower assms(4)
    unfolding rounds_def instr_rel_def instr_ok_def c_execute_def instr_execute_def
    by (auto simp: exec_defs c_float_defs reg_access sp1_access reg_ix_bound scratch_src_rel scratchpad_src_ok
        sp1_mode sp1_mask_eq mask_exponent_ok host_mode [OF assms(1)] Let_def guest_upd
        softfp_vector_ops m128d_commute [of _ "reg_a (reg vm) ! _"]
        cong: if_cong split del: if_split)
qed

lemma reads_guest [simp]:
  "read_r (guest m vm) s = read_r vm s" "read_float_reg (guest m vm) s = read_float_reg vm s"
  "read_f (guest m vm) s = read_f vm s" "imm_or_r (guest m vm) ins = imm_or_r vm ins"
  "scratchpad_src_ix (guest m vm) ins = scratchpad_src_ix vm ins"
  "scratchpad_dst_ix (guest m vm) ins = scratchpad_dst_ix vm ins"
  "scratchpad_src (guest m vm) ins = scratchpad_src vm ins"
proof -
  show r: "read_r (guest m vm) s = read_r vm s" for s by (cases s) simp_all
  show "read_float_reg (guest m vm) s = read_float_reg vm s" "read_f (guest m vm) s = read_f vm s"
    by (cases s; simp)+
  show "imm_or_r (guest m vm) ins = imm_or_r vm ins" by (simp add: imm_or_r_def r)
  show "scratchpad_src_ix (guest m vm) ins = scratchpad_src_ix vm ins"
    "scratchpad_dst_ix (guest m vm) ins = scratchpad_dst_ix vm ins"
    by (simp_all add: scratchpad_src_ix_def scratchpad_dst_ix_def r cong: Store.case_cong)
  then show "scratchpad_src (guest m vm) ins = scratchpad_src vm ins" by (simp add: scratchpad_src_def)
qed

lemma writes_guest [simp]:
  "write_r s v (guest m vm) = map_option (guest m) (write_r s v vm)"
  "write_f s w (guest m vm) = map_option (guest m) (write_f s w vm)"
  "write_float_reg s w (guest m vm) = map_option (guest m) (write_float_reg s w vm)"
  by (cases s; simp add: arr_set_def guest_upd)+

lemma set_rounding_mode_guest [simp]:
  "set_rounding_mode mode (guest m vm) = map_option (guest m) (set_rounding_mode mode vm)"
  by (simp add: set_rounding_mode_def guest_def)

lemma map_option_bind_guest: "map_option f (Option.bind x g) = Option.bind x (\<lambda>y. map_option f (g y))"
  by (cases x) simp_all

lemma bind_map_option: "Option.bind (map_option f x) g = Option.bind x (\<lambda>y. g (f y))"
  by (cases x) simp_all

lemma exec_guest:
  assumes "\<not> rounds (i_effect ins)"
  shows "instr_execute ins (guest m vm) = map_option (guest m) (instr_execute ins vm)"
  using assms unfolding rounds_def instr_execute_def
  by (cases "i_effect ins")
     (simp_all add: exec_defs exec_iswap_r_def exec_istore_def exec_cfround_def Let_def map_option_bind_guest
       bind_map_option guest_upd if_distrib [of "map_option (guest m)"] cong: if_cong)

lemma instruction_lockstep:
  assumes "host_ok vm" "config_ok vm" "e_ok vm" "f_ok vm" "instr_ok ins" "instr_rel ins c"
  shows "c_execute c (guest m vm) = map_option (guest m) (instr_execute ins vm)"
proof (cases "rounds (i_effect ins)")
  case True
  then show ?thesis using rounds_lockstep assms by blast
next
  case False
  then show ?thesis
    using exec_lockstep [of "guest m vm" ins c] exec_guest [OF False] assms by (simp add: host_ok_def)
qed

section \<open>The multiplicative registers keep their domain\<close>

lemma e_ok_upd:
  "e_ok vm \<Longrightarrow> both e_num w \<Longrightarrow> e_ok (upd_e ((reg_e (reg vm))[d := w]) vm)"
  "e_ok vm \<Longrightarrow> e_ok (upd_r rs vm)" "e_ok vm \<Longrightarrow> e_ok (upd_f fs vm)"
  "e_ok vm \<Longrightarrow> e_ok (vm\<lparr> scratchpad := pad \<rparr>)" "e_ok vm \<Longrightarrow> e_ok (vm\<lparr> vm_pc := t \<rparr>)"
  using set_update_subset_insert [of "reg_e (reg vm)" d w] by (auto simp: e_ok_def)

lemma write_r_frame: "write_r s v vm = Some vm' \<Longrightarrow> \<exists>xs. vm' = upd_r xs vm"
  by (cases s) (auto simp: bind_eq_Some_conv)

lemma exec_e_ok:
  assumes "vm_ok vm" "config_ok vm" "e_ok vm" "instr_ok ins" "instr_execute ins vm = Some vm'"
  shows "e_ok vm'"
proof -
  have d: "both a_num ((v AND m128d_from_u64 DYNAMIC_MANTISSA_MASK DYNAMIC_MANTISSA_MASK)
           OR m128d_from_u64 (e_mask (config vm) ! 1) (e_mask (config vm) ! 0))" for v
    using both_masked [OF assms(1,2)] mask_exponent_ok [OF assms(1)] by blast
  have swap: "exec_iswap_r ins vm = Some vm' \<Longrightarrow> e_ok vm'" "exec_istore ins vm = Some vm' \<Longrightarrow> e_ok vm'"
    "exec_cfround ins vm = Some vm' \<Longrightarrow> e_ok vm'" "exec_cbranch ins vm = Some vm' \<Longrightarrow> e_ok vm'"
    using assms(3)
    by (auto simp: exec_iswap_r_def exec_istore_def exec_cfround_def exec_cbranch_def set_rounding_mode_def
        bind_eq_Some_conv Let_def e_ok_def split: if_split_asm dest!: write_r_frame)
  show ?thesis
    using assms(4,5) assms(1,3) d reg_domains [OF assms(1-3)]
    unfolding instr_ok_def instr_execute_def
    by (cases "i_effect ins")
       (auto simp: exec_defs fault_simps Let_def swap split: if_split_asm
        intro!: e_ok_upd both_e_closed both_shuffle
        simp: m128d_commute(2) [of _ "reg_a (reg vm) ! _"])
qed

end
