(* ===== verification/FloatLevel.thy ===== *)
theory FloatLevel
  imports FloatDomain
begin

text \<open>
  How large an additive register can get within one iteration, also with \<open>FSCAL_R\<close>. A number is
  followed by its index (the bit pattern without the sign, which increases with the magnitude).
  Below the \<open>plateau\<close> \<open>2 ^ 97\<close> an addition stays at or below it, and from there on an operand of at most
  \<open>2 ^ 33\<close> moves the index by at most one. \<open>FSCAL_R\<close> complements the low four exponent bits, that is,
  it mirrors the index within its block of 16 exponents. So an index above the plateau is
  \<open>2 ^ 52 * N + M\<close> for a small \<open>M\<close>, additions change only \<open>M\<close>, and a mirror image moves \<open>N\<close> one
  step along the order \<open>0, 15, 2, 13, 4, \<dots>, 1, 16\<close> of its block, in which \<open>climb N\<close> is its place.
  After \<open>k\<close> instructions \<open>climb N\<close> is at most \<open>1120 + k\<close>, which for the 768 instructions of an
  iteration keeps the exponent below that of infinity.
\<close>

section \<open>Levels\<close>

text \<open>The index of \<open>2 ^ 33\<close>, which bounds the operands that are added and subtracted.\<close>

definition f_limit :: nat where
  "f_limit = 0x420 * 2 ^ 52"

definition plateau :: nat where
  "plateau = 1120 * 2 ^ 52"

text \<open>The place of an exponent in the order in which scaling visits its block.\<close>

definition climb :: "int \<Rightarrow> int" where
  "climb N = (if even N then N else 32 * (N div 16) + 16 - N)"

definition f_level :: "nat \<Rightarrow> nat \<Rightarrow> bool" where
  "f_level k i \<longleftrightarrow> i < plateau \<or>
     (\<exists>N M. int i = 2 ^ 52 * N + M \<and> \<bar>M\<bar> \<le> int k \<and> 1120 \<le> N \<and> climb N \<le> 1120 + int k)"

lemma climb_ge: "N \<le> climb N + 14"
  by (auto simp: climb_def elim!: oddE)

lemma climb_block: "0 \<le> r \<Longrightarrow> r \<le> 16 \<Longrightarrow> climb (16 * b + r) = (if even r then 16 * b + r else 16 * b + 16 - r)"
  by (cases "r = 16") (auto simp: climb_def)

lemma climb_flip:
  "climb (16 * (N div 16) + 15 - N mod 16) \<le> climb N + 1"
  "climb (16 * ((N - 1) div 16) + 16 - (N - 1) mod 16) \<le> climb N + 1"
proof -
  have *: "0 \<le> m mod 16" "m mod 16 < 16" "16 * (m div 16) + m mod 16 = m" for m :: int by simp_all
  show "climb (16 * (N div 16) + 15 - N mod 16) \<le> climb N + 1"
    using climb_block [of "15 - N mod 16" "N div 16"] climb_block [of "N mod 16" "N div 16"] * [of N]
    by (auto simp: algebra_simps split: if_split_asm)
  show "climb (16 * ((N - 1) div 16) + 16 - (N - 1) mod 16) \<le> climb N + 1"
    using climb_block [of "16 - (N - 1) mod 16" "(N - 1) div 16"]
      climb_block [of "(N - 1) mod 16 + 1" "(N - 1) div 16"] * [of "N - 1"]
    by (auto simp: algebra_simps split: if_split_asm)
qed

lemma f_level_mono: "f_level j i \<Longrightarrow> j \<le> k \<Longrightarrow> f_level k i"
  unfolding f_level_def by (meson add_left_mono of_nat_mono order_trans)

lemma f_level_finite:
  assumes "f_level k i" "k \<le> 768"
  shows "Suc i < inf_index"
proof (cases "i < plateau")
  case False
  then obtain N M where i: "int i = 2 ^ 52 * N + M" "\<bar>M\<bar> \<le> int k" "climb N \<le> 1120 + int k"
    using assms(1) by (auto simp: f_level_def)
  have "N \<le> 1902" "M \<le> 768" using climb_ge [of N] i(2,3) assms(2) by linarith+
  then have "int i \<le> 2 ^ 52 * 1902 + 768" using i(1) by simp
  then show ?thesis by (simp add: inf_index_def)
qed (simp add: plateau_def inf_index_def)

lemma f_levelI:
  "int i = 2 ^ 52 * N + M \<Longrightarrow> 1120 \<le> N \<Longrightarrow> \<bar>M\<bar> \<le> int k \<Longrightarrow> climb N \<le> 1120 + int k \<Longrightarrow> f_level k i"
  unfolding f_level_def by blast

lemma f_level_near:
  assumes "f_level k i" "plateau \<le> i" "j = i \<or> j = Suc i \<or> Suc j = i"
  shows "f_level (Suc k) j"
proof -
  obtain N M where i: "int i = 2 ^ 52 * N + M" "\<bar>M\<bar> \<le> int k" "1120 \<le> N" "climb N \<le> 1120 + int k"
    using assms(1,2) by (auto simp: f_level_def)
  have "int j = 2 ^ 52 * N + (M + (int j - int i))" using i(1) by simp
  moreover have "\<bar>M + (int j - int i)\<bar> \<le> int (Suc k)" using i(2) assms(3) by auto
  moreover have "climb N \<le> 1120 + int (Suc k)" using i(4) by simp
  ultimately show ?thesis using i(3) by (blast intro: f_levelI)
qed

lemma f_level_plateau: "f_level k plateau"
  unfolding f_level_def
  by (intro disjI2 exI [of _ 1120] exI [of _ 0]) (simp add: plateau_def climb_def)

text \<open>\<open>FSCAL_R\<close> on the index.\<close>

definition flip_index :: "nat \<Rightarrow> nat" where
  "flip_index i = (let n = i div 2 ^ 52 in (16 * (n div 16) + 15 - n mod 16) * 2 ^ 52 + i mod 2 ^ 52)"

lemma flip_block: "flip_index i div 2 ^ 56 = i div 2 ^ 56"
proof -
  have "flip_index i div 2 ^ 52 = 16 * (i div 2 ^ 52 div 16) + 15 - i div 2 ^ 52 mod 16"
    by (simp add: flip_index_def Let_def)
  moreover have "(16 * (n div 16) + 15 - n mod 16) div 16 = n div 16" for n :: nat
  proof -
    have "16 * (n div 16) + 15 - n mod 16 = 15 - n mod 16 + 16 * (n div 16)" by simp
    then show ?thesis by (simp only: div_mult_self2) simp
  qed
  ultimately have "flip_index i div 2 ^ 52 div 16 = i div 2 ^ 52 div 16" by (simp only:)
  then show ?thesis by (simp add: div_mult2_eq [symmetric])
qed

lemma flip_below: "flip_index i < plateau \<longleftrightarrow> i < plateau"
proof -
  have "j < plateau \<longleftrightarrow> j div 2 ^ 56 < 70" for j
    by (simp add: plateau_def div_less_iff_less_mult)
  then show ?thesis by (simp only: flip_block)
qed

lemma int_mirror: "int (16 * (q div 16) + 15 - q mod 16) = 16 * (int q div 16) + 15 - int q mod 16"
proof -
  have "q mod 16 \<le> 16 * (q div 16) + 15" by (rule order_trans [of _ 15]) simp_all
  then show ?thesis by (simp add: of_nat_diff zdiv_int zmod_int)
qed

lemma f_level_flip:
  assumes "f_level k i" "k \<le> 768"
  shows "f_level (Suc k) (flip_index i)"
proof (cases "i < plateau")
  case True
  then show ?thesis using flip_below by (simp add: f_level_def)
next
  case False
  then obtain N M where i: "int i = 2 ^ 52 * N + M" "\<bar>M\<bar> \<le> int k" "1120 \<le> N" "climb N \<le> 1120 + int k"
    using assms(1) by (auto simp: f_level_def)
  have M: "\<bar>M\<bar> < 2 ^ 52" using i(2) assms(2) by simp
  have flip: "int (flip_index i) = 2 ^ 52 * (16 * (n div 16) + 15 - n mod 16) + m"
    if "int i = 2 ^ 52 * n + m" "0 \<le> m" "m < 2 ^ 52" for n m
  proof -
    have "int (i div 2 ^ 52) = n" "int (i mod 2 ^ 52) = m" using that by (simp_all add: zdiv_int zmod_int)
    then show ?thesis by (simp only: flip_index_def Let_def of_nat_add of_nat_mult int_mirror) simp
  qed
  show ?thesis
  proof (cases "0 \<le> M")
    case True
    then have "int (flip_index i) = 2 ^ 52 * (16 * (N div 16) + 15 - N mod 16) + M"
      using i(1) True M by (intro flip) simp_all
    moreover have "1120 \<le> 16 * (N div 16) + 15 - N mod 16"
      using zdiv_mono1 [OF i(3), of 16] pos_mod_bound [of 16 N] by simp
    ultimately show ?thesis by (rule f_levelI) (use i(2,4) climb_flip(1) [of N] in linarith)+
  next
    case neg: False
    have "plateau \<le> i" using False by simp
    then have "1121 \<le> N" using i(1,3) neg by (simp add: plateau_def)
    have "int (flip_index i) = 2 ^ 52 * (16 * ((N - 1) div 16) + 15 - (N - 1) mod 16) + (2 ^ 52 + M)"
      using i(1) neg M by (intro flip) (simp_all add: right_diff_distrib)
    then have "int (flip_index i) = 2 ^ 52 * (16 * ((N - 1) div 16) + 16 - (N - 1) mod 16) + M"
      by (simp add: algebra_simps)
    moreover have "1120 \<le> 16 * ((N - 1) div 16) + 16 - (N - 1) mod 16"
      using zdiv_mono1 [of 1120 "N - 1" 16] pos_mod_bound [of 16 "N - 1"] \<open>1121 \<le> N\<close> by simp
    ultimately show ?thesis by (rule f_levelI) (use i(2,4) climb_flip(2) [of N] in linarith)+
  qed
qed

section \<open>Scaling\<close>

lemma xor_15: "n XOR 15 = 16 * (n div 16) + 15 - n mod (16::nat)"
proof -
  have hi: "(n XOR 15) div 16 = n div 16" using drop_bit_xor [of 4 n 15] by (simp add: drop_bit_eq_div)
  have "\<forall>m \<in> set [0..<16]. m XOR 15 = 15 - (m :: nat)" by code_simp
  then have "(n mod 16) XOR 15 = 15 - n mod 16" by simp
  then have lo: "(n XOR 15) mod 16 = 15 - n mod 16" using take_bit_xor [of 4 n 15] by (simp add: take_bit_eq_mod)
  have "n XOR 15 = (n XOR 15) div 16 * 16 + (n XOR 15) mod 16" by (rule div_mult_mod_eq [symmetric])
  also have "\<dots> = n div 16 * 16 + (15 - n mod 16)" by (simp only: hi lo)
  also have "\<dots> = 16 * (n div 16) + 15 - n mod 16" using mod_less_divisor [of 16 n] by linarith
  finally show ?thesis .
qed

lemma xor_nibble: "i XOR push_bit 52 15 = flip_index i"
proof -
  let ?x = "i XOR push_bit 52 (15::nat)"
  have "?x div 2 ^ 52 = i div 2 ^ 52 XOR 15" using drop_bit_xor [of 52 i "push_bit 52 15"] by (simp add: drop_bit_eq_div)
  moreover have "?x mod 2 ^ 52 = i mod 2 ^ 52" using take_bit_xor [of 52 i "push_bit 52 15"]
    by (simp add: take_bit_eq_mod)
  moreover have "?x = ?x div 2 ^ 52 * 2 ^ 52 + ?x mod 2 ^ 52" by simp
  ultimately show ?thesis by (simp only: flip_index_def Let_def xor_15)
qed

lemma f64_idx_scale: "f64_idx (w XOR 0x80F0000000000000) = flip_index (f64_idx w)"
proof -
  have "f64_idx (w XOR 0x80F0000000000000) = take_bit 63 (unat w XOR unat (0x80F0000000000000 :: u64))"
    by (simp only: f64_idx_def take_bit_eq_mod unsigned_xor_eq)
  also have "\<dots> = take_bit 63 (unat w) XOR take_bit 63 (unat (0x80F0000000000000 :: u64))"
    by (rule take_bit_xor)
  also have "take_bit 63 (unat (0x80F0000000000000 :: u64)) = push_bit 52 15"
    by (simp add: push_bit_eq_mult take_bit_eq_mod)
  finally show ?thesis by (simp only: xor_nibble f64_idx_def take_bit_eq_mod)
qed

section \<open>Addition\<close>

lemma mval_limit: "mval f_limit = 2 ^ 52 * 2 ^ 0x41f"
  using mval_exp_frac [of 0 "0x420"] by (simp add: f_limit_def)

lemma f_limit_finite: "f_limit < inf_index"
  by (simp add: f_limit_def inf_index_def)

lemma round_mag_ge_index:
  assumes "k < inf_index" "mval k \<le> N"
  shows "k \<le> round_mag mode neg 1 N 1"
proof -
  have "k \<le> round_down_index 1 N 1"
  proof (rule ccontr)
    assume "\<not> k \<le> round_down_index 1 N 1"
    then have le: "Suc (round_down_index 1 N 1) \<le> k" by simp
    then have "N < mval (Suc (round_down_index 1 N 1))"
      using round_down_index_bounds(3) [of 1 N 1] assms(1) by simp
    moreover have "mval (Suc (round_down_index 1 N 1)) \<le> mval k" using le by simp
    ultimately show False using assms(2) by linarith
  qed
  then show ?thesis using round_mag_cases [of mode neg 1 N 1] by auto
qed

lemma mval_gap:
  assumes "plateau \<le> Suc i"
  shows "mval i + mval f_limit \<le> mval (Suc i)"
proof (rule mval_Suc_cases [of i])
  fix e c assume ce: "mval i = c * 2 ^ e" "mval (Suc i) = Suc c * 2 ^ e" "c < 2 ^ 53"
  have "2 ^ 53 * 2 ^ 1118 = (2 ^ 52 * 2 ^ 1119 :: nat)" by (simp only: power_add [symmetric]) simp
  also have "\<dots> = mval plateau" using mval_exp_frac [of 0 1120] by (simp add: plateau_def)
  also have "\<dots> \<le> Suc c * 2 ^ e" using assms ce(2) mval_le_iff [of plateau "Suc i"] by simp
  also have "\<dots> \<le> 2 ^ 53 * 2 ^ e" using ce(3) by (intro mult_right_mono) auto
  finally have "2 ^ 1118 \<le> (2 ^ e :: nat)" by (simp only: mult_le_cancel1) simp
  moreover have "mval f_limit \<le> 2 ^ 1118"
    unfolding mval_limit power_add [symmetric] by (rule power_increasing) simp_all
  ultimately have "mval f_limit \<le> 2 ^ e" by (rule order_trans [rotated])
  then show ?thesis using ce(1,2) by simp
qed

lemma f64_add_level:
  assumes "f_level k (f64_idx a)" "f64_idx b \<le> f_limit" "k \<le> 768"
  shows "f_level (Suc k) (f64_idx (f64_add mode a b))"
proof -
  let ?i = "f64_idx a" and ?b = "mval (f64_idx b)" and ?s = "f64_sval a + f64_sval b"
  let ?N = "nat \<bar>?s\<bar>" and ?r = "f64_idx (f64_add mode a b)"
  have fin: "f64_finite a" "f64_finite b"
    using f_level_finite [OF assms(1,3)] assms(2) f_limit_finite by linarith+
  have N: "?N \<le> mval ?i + ?b" "mval ?i \<le> ?N + ?b" by (auto simp: f64_sval_def)
  have b: "?b \<le> mval f_limit" using assms(2) by simp
  have r: "?r = (if ?s = 0 then 0 else round_mag mode (?s < 0) 1 ?N 1)"
    using fin round_mag_lt [of 1] by (auto simp: f64_add_def Let_def)
  have plateau_pos: "0 < plateau" "plateau < inf_index" by (simp_all add: plateau_def inf_index_def)
  show ?thesis
  proof (cases "?i < plateau")
    case True
    have "mval ?i \<le> mval (plateau - 1)" using True by simp
    moreover have "mval (plateau - 1) + mval f_limit \<le> mval plateau" using mval_gap [of "plateau - 1"] plateau_pos(1) by simp
    ultimately have "?N \<le> mval plateau" using N(1) b by linarith
    then have "?r \<le> plateau" using r plateau_pos(2) round_mag_le_index [of plateau ?N] by (simp split: if_split)
    then consider "?r < plateau" | "?r = plateau" by linarith
    then show ?thesis
    proof cases
      case 1
      then show ?thesis by (simp add: f_level_def)
    next
      case 2
      then show ?thesis by (simp only: f_level_plateau)
    qed
  next
    case False
    have pred: "Suc (?i - 1) = ?i" using False plateau_pos by simp
    have "mval ?i + mval f_limit \<le> mval (Suc ?i)" using mval_gap [of ?i] False by simp
    then have hi: "?N \<le> mval (Suc ?i)" using N(1) b by linarith
    have "mval (?i - 1) + mval f_limit \<le> mval ?i" using mval_gap [of "?i - 1"] False pred by simp
    then have lo: "mval (?i - 1) \<le> ?N" using N(2) b by linarith
    have fin: "Suc ?i < inf_index" by (rule f_level_finite [OF assms(1,3)])
    have "?r \<le> Suc ?i" using r hi round_mag_le_index [OF fin, of ?N] by simp
    moreover have "?i - 1 \<le> ?r" using r lo fin round_mag_ge_index [of "?i - 1" ?N] by (auto split: if_split_asm)
    ultimately show ?thesis using f_level_near [OF assms(1), of ?r] False pred by linarith
  qed
qed

lemma f64_sub_level:
  assumes "f_level k (f64_idx a)" "f64_idx b \<le> f_limit" "k \<le> 768"
  shows "f_level (Suc k) (f64_idx (f64_sub mode a b))"
  using f64_add_level [of k a "f64_negate b"] assms by (simp add: f64_sub_def)

lemma f64_of_i32_limit: "f64_idx (f64_of_i32 i) \<le> f_limit"
proof -
  have "nat \<bar>sint i\<bar> \<le> 2 ^ 31" using sint_ge [of i] sint_lt [of i] by simp
  then have "nat \<bar>sint i\<bar> * f64_one \<le> 2 ^ 31 * f64_one" by (rule mult_right_mono) simp
  also have "\<dots> \<le> mval f_limit" unfolding mval_limit f64_one_def power_add [symmetric] by (rule power_increasing) simp_all
  finally have "round_mag Nearest neg 1 (nat \<bar>sint i\<bar> * f64_one) 1 \<le> f_limit" for neg
    using f_limit_finite by (intro round_mag_le_index) simp_all
  then show ?thesis using round_mag_lt [of 1] by (simp add: f64_of_i32_def)
qed

lemma small_positive_float_limit: "f64_idx (small_positive_float_bit x) \<le> f_limit"
proof -
  have "unat (drop_bit 52 (small_positive_float_bit x)) < 0x420" using small_positive_float_exponent [of x] by linarith
  then have "unat (small_positive_float_bit x) < f_limit"
    by (simp add: unat_drop_bit f_limit_def div_less_iff_less_mult)
  moreover have "f64_idx (small_positive_float_bit x) \<le> unat (small_positive_float_bit x)" by (simp add: f64_idx_def)
  ultimately show ?thesis by linarith
qed

lemma f_limit_level: "i \<le> f_limit \<Longrightarrow> f_level k i"
  by (simp add: f_level_def f_limit_def plateau_def)

end
