(* ===== verification/CompactSafety.thy ===== *)
theory CompactSafety
  imports FloatDomain
begin

text \<open>
  Safety of the compact machine, for every floating-point value. Every unchecked access is aligned
  and in bounds (an access outside is \<open>None\<close>), the instruction loop obeys the same bound as the
  reference loop because \<open>branch_machine\<close> has a second interpretation, and the public hash
  returns for every key and input.
\<close>

section \<open>Every decoded instruction runs\<close>

lemma c_exec_ok:
  assumes vm: "vm_ok vm" and ok: "instr_ok ins" and rel: "instr_rel ins c" and nb: "i_effect ins \<noteq> Vm_exec_cbranch"
  shows "\<exists>vm'. c_execute c vm = Some vm' \<and> step_ok ins vm vm'"
proof (cases "rounds (i_effect ins)")
  case False
  then show ?thesis using exec_lockstep [OF vm ok rel False] exec_ok [OF vm ok nb] by simp
next
  case True
  then show ?thesis
    using ok rel vm unfolding rounds_def instr_rel_def instr_ok_def c_execute_def
    by (auto simp: c_float_defs sp1_access reg_ix_bound scratch_src_rel scratchpad_src_ok sp1_mode sp1_mask_eq
        mask_exponent_ok Let_def intro!: step_ok_upd split del: if_split)
qed

section \<open>The instruction loop\<close>

text \<open>A program in both forms: matching instructions, so the branch structure is that of the
  reference program.\<close>

definition pair_ok :: "Instr list \<times> CompactInstr list \<Rightarrow> Vm \<Rightarrow> bool" where
  "pair_ok p vm \<longleftrightarrow> machine_ok (fst p) vm \<and> list_all2 instr_rel (fst p) (snd p)"

lemma pair_instr:
  assumes "pair_ok p vm" "q < 256"
  shows "vm_ok vm" "instr_ok (fst p ! q)" "instr_rel (fst p ! q) (snd p ! q)" "length (snd p) = 256"
  using assms machine_instr by (auto simp: pair_ok_def machine_ok_def list_all2_lengthD list_all2_nthD
      dest: list_all2_lengthD)

lemma sp1_step_at:
  assumes "pair_ok p vm" "vm_pc vm = int q" "q < 256"
  shows "sp1_step (snd p) vm =
    Option.bind (c_execute (snd p ! q) vm) (\<lambda>vm. Some (vm\<lparr> vm_pc := vm_pc vm + 1 \<rparr>))"
  using assms pair_instr(4) [OF assms(1,3)] by (simp add: sp1_step_def)

interpretation sp1: branch_machine pair_ok "\<lambda>p. sp1_step (snd p)" vm_pc "\<lambda>vm d. reg_r (reg vm) ! d"
  "\<lambda>p q. instr_branch (fst p ! q)" "\<lambda>p q. instr_writes (fst p ! q)"
proof unfold_locales
  fix p :: "Instr list \<times> CompactInstr list" and vm q
  assume a: "pair_ok p vm" "vm_pc vm = int q" "q < 256" "instr_branch (fst p ! q) = None"
  note ok = pair_instr [OF a(1,3)]
  have "i_effect (fst p ! q) \<noteq> Vm_exec_cbranch" using instr_branch_iff [OF ok(2)] a(4) by simp
  then obtain vm' where "c_execute (snd p ! q) vm = Some vm'" "step_ok (fst p ! q) vm vm'"
    using c_exec_ok [OF ok(1-3)] by blast
  then show "\<exists>s'. sp1_step (snd p) vm = Some s' \<and> pair_ok p s' \<and> vm_pc s' = int q + 1 \<and>
      (\<forall>d. d \<notin> instr_writes (fst p ! q) \<longrightarrow> reg_r (reg s') ! d = reg_r (reg vm) ! d)"
    using sp1_step_at [OF a(1-3)] a by (simp add: step_ok_def pair_ok_def machine_ok_def)
next
  fix p :: "Instr list \<times> CompactInstr list" and vm q d inc shift t
  assume a: "pair_ok p vm" "vm_pc vm = int q" "q < 256" "instr_branch (fst p ! q) = Some (d, inc, shift, t)"
  note ok = pair_instr [OF a(1,3)]
  have br: "i_effect (fst p ! q) = Vm_exec_cbranch" using instr_branch_iff [OF ok(2)] a(4) by auto
  then have "d < 8" "c_execute (snd p ! q) vm =
      Some ((upd_r ((reg_r (reg vm))[d := reg_r (reg vm) ! d + inc]) vm)
        \<lparr> vm_pc := if branch_taken shift (reg_r (reg vm) ! d + inc) then t else vm_pc vm \<rparr>)"
    using cbranch_ok [OF ok(1,2) br] cbranch_lockstep [OF ok(1-3) br] a(4) by auto
  then show "\<exists>s'. sp1_step (snd p) vm = Some s' \<and> pair_ok p s' \<and>
      reg_r (reg s') ! d = reg_r (reg vm) ! d + inc \<and>
      vm_pc s' = (if branch_taken shift (reg_r (reg vm) ! d + inc) then t + 1 else int q + 1)"
    using sp1_step_at [OF a(1-3)] a by (simp add: pair_ok_def machine_ok_def vm_ok_def)
next
  fix p :: "Instr list \<times> CompactInstr list" and vm q d inc shift t
  assume "pair_ok p vm" "q < 256" "instr_branch (fst p ! q) = Some (d, inc, shift, t)"
  then show "branch_increment shift inc \<and> -1 \<le> t \<and> t < int q \<and>
      (\<forall>i. t < int i \<and> i < q \<longrightarrow> instr_branch (fst p ! i) = None \<and> d \<notin> instr_writes (fst p ! i))"
    by (fastforce simp: pair_ok_def machine_ok_def prog_ok_def branch_ok_def)
qed

lemma sp1_loop_runs:
  "runs (sp1_step prog) (\<lambda>vm. vm_pc vm < 256) n vm vm' \<Longrightarrow> sp1_loop prog vm = Some vm'"
  by (rule runs_loop [where loop = "sp1_loop prog"])
     (assumption, subst sp1_loop.simps, simp add: RANDOMX_PROGRAM_SIZE_def)

lemma sp1_step_good:
  assumes "pair_ok p vm" "0 \<le> vm_pc vm" "vm_pc vm < 256" "sp1_step (snd p) vm = Some vm'"
  shows "pair_ok p vm' \<and> 0 \<le> vm_pc vm' \<and> vm_frame vm vm' \<and> (env_sync vm \<longrightarrow> env_sync vm')"
proof -
  define q where "q = nat (vm_pc vm)"
  have q: "vm_pc vm = int q" "q < 256" using assms(2,3) by (simp_all add: q_def)
  note ok = pair_instr [OF assms(1) q(2)]
  have "vm_frame vm vm' \<and> (env_sync vm \<longrightarrow> env_sync vm')"
  proof (cases "i_effect (fst p ! q) = Vm_exec_cbranch")
    case True
    then show ?thesis
      using cbranch_ok [OF ok(1,2) True] cbranch_lockstep [OF ok(1-3) True] sp1_step_at [OF assms(1) q] assms(4)
      by (auto simp: vm_frame_def env_sync_def get_rounding_mode_def)
  next
    case False
    then show ?thesis
      using c_exec_ok [OF ok(1-3) False] sp1_step_at [OF assms(1) q] assms(4)
      by (auto simp: step_ok_def vm_frame_def env_sync_def get_rounding_mode_def)
  qed
  then show ?thesis using sp1.step_keeps_ok [OF assms] by blast
qed

lemma sp1_loop_ok:
  assumes "pair_ok p vm" "vm_pc vm = 0" "vm_good vm"
  shows "\<exists>n vm'. runs (sp1_step (snd p)) (\<lambda>vm. vm_pc vm < 256) n vm vm' \<and> n \<le> 768 \<and>
    sp1_loop (snd p) vm = Some vm' \<and> vm_good vm' \<and> vm_frame vm vm'"
proof -
  obtain n vm' where run: "runs (sp1_step (snd p)) (\<lambda>vm. vm_pc vm < 256) n vm vm'" "n \<le> 768"
    using sp1.loop_bound [OF assms(1,2)] by blast
  let ?P = "\<lambda>s. pair_ok p s \<and> 0 \<le> vm_pc s \<and> vm_frame vm s \<and> env_sync s"
  have "?P vm'"
  proof (rule runs_invariant [OF run(1)])
    show "?P vm" using assms by (simp add: vm_frame_def vm_good_def)
  next
    fix s s1
    assume "vm_pc s < 256" "?P s" "sp1_step (snd p) s = Some s1"
    then show "?P s1" using sp1_step_good [of p s s1] by (auto simp: vm_frame_def)
  qed
  then show ?thesis
    using run sp1_loop_runs [OF run(1)] assms(3)
    by (auto simp: vm_good_def pair_ok_def machine_ok_def vm_frame_def)
qed

section \<open>The parts of an iteration are those of the reference machine\<close>

lemma scratch_arr: "scratch vm i = arr_get (scratchpad vm) i"
  "set_scratch vm i v = Option.bind (arr_set (scratchpad vm) i v) (\<lambda>pad. Some (vm\<lparr> scratchpad := pad \<rparr>))"
  by (simp_all add: scratch_def set_scratch_def arr_get_def arr_set_def)

lemma sp1_load_eq: "sp1_load_registers a0 a1 vm = load_registers a0 a1 vm"
proof -
  have "sp1_load_r = load_r" "sp1_load_f = load_f" "sp1_load_e = load_e"
    by (intro ext; simp add: sp1_load_r_def load_r_def sp1_load_f_def load_f_def sp1_load_e_def load_e_def
        scratch_arr sp1_mask_eq)+
  then show ?thesis by (simp add: sp1_load_registers_def load_registers_def)
qed

lemma sp1_store_eq: "sp1_store_registers a0 a1 vm = store_registers a0 a1 vm"
proof -
  have "sp1_store_r = store_r" "sp1_mix_f = mix_f" "sp1_store_f = store_f"
    by (intro ext; simp add: sp1_store_r_def store_r_def sp1_mix_f_def mix_f_def sp1_store_f_def store_f_def
        scratch_arr case_prod_beta Let_def)+
  then show ?thesis by (simp add: sp1_store_registers_def store_registers_def)
qed

text \<open>The predecoded offsets of the read registers.\<close>

definition read_offsets :: "Vm \<Rightarrow> u8 list" where
  "read_offsets vm = map (\<lambda>i. register_byte_offset (of_nat i) 8) (read_reg (config vm))"

lemma read_offset_access:
  assumes "vm_ok vm" "i < 4"
  shows "sp1_r vm (read_offsets vm ! i) = Some (reg_r (reg vm) ! (read_reg (config vm) ! i))"
    "arr_get (reg_r (reg vm)) (read_reg (config vm) ! i) = Some (reg_r (reg vm) ! (read_reg (config vm) ! i))"
    "arr_get (read_reg (config vm)) i = Some (read_reg (config vm) ! i)"
proof -
  have "read_reg (config vm) ! i < 8" "length (read_reg (config vm)) = 4" "length (reg_r (reg vm)) = 8"
    using assms by (simp_all add: vm_ok_def)
  then show "sp1_r vm (read_offsets vm ! i) = Some (reg_r (reg vm) ! (read_reg (config vm) ! i))"
    "arr_get (reg_r (reg vm)) (read_reg (config vm) ! i) = Some (reg_r (reg vm) ! (read_reg (config vm) ! i))"
    "arr_get (read_reg (config vm)) i = Some (read_reg (config vm) ! i)"
    using assms by (simp_all add: read_offsets_def offset_of_index sp1_access)
qed

lemma sp1_addresses_eq:
  assumes "vm_ok vm"
  shows "sp1_addresses (read_offsets vm) sp vm = sp_addresses sp vm"
proof -
  have "w div 8 = drop_bit 3 w" for w :: u32 by (simp add: drop_bit_eq_div)
  then show ?thesis
    using read_offset_access [OF assms, of 0] read_offset_access [OF assms, of 1]
    by (simp add: sp1_addresses_def sp_addresses_def case_prod_beta Let_def)
qed

text \<open>Loading and storing registers keeps everything but the registers and the scratchpad.\<close>

definition vm_kept :: "Vm \<Rightarrow> Vm \<Rightarrow> bool" where
  "vm_kept vm vm' \<longleftrightarrow> config vm' = config vm \<and> mem vm' = mem vm \<and> dataset_offset vm' = dataset_offset vm \<and>
     mem_reg vm' = mem_reg vm \<and> reg_a (reg vm') = reg_a (reg vm) \<and> rounding_mode vm' = rounding_mode vm \<and>
     fp_env vm' = fp_env vm"

lemma vm_kept_refl: "vm_kept vm vm" and vm_kept_trans: "vm_kept vm vm1 \<Longrightarrow> vm_kept vm1 vm2 \<Longrightarrow> vm_kept vm vm2"
  by (simp_all add: vm_kept_def)

lemma foldl_option_kept:
  assumes "\<And>x s s'. f x s = Some s' \<Longrightarrow> vm_kept s s'" "foldl_option f xs s = Some s'"
  shows "vm_kept s s'"
  using assms(2)
proof (induction xs arbitrary: s)
  case (Cons x xs)
  then obtain s1 where "f x s = Some s1" "foldl_option f xs s1 = Some s'" by (auto simp: bind_eq_Some_conv)
  then show ?case using assms(1) Cons.IH vm_kept_trans by blast
qed (simp add: vm_kept_refl)

lemma load_step_kept:
  "load_r a i vm = Some vm' \<Longrightarrow> vm_kept vm vm'" "load_f a i vm = Some vm' \<Longrightarrow> vm_kept vm vm'"
  "load_e a i vm = Some vm' \<Longrightarrow> vm_kept vm vm'" "store_r a i vm = Some vm' \<Longrightarrow> vm_kept vm vm'"
  "mix_f i vm = Some vm' \<Longrightarrow> vm_kept vm vm'" "store_f a i vm = Some vm' \<Longrightarrow> vm_kept vm vm'"
  by (auto simp: load_r_def load_f_def load_e_def store_r_def mix_f_def store_f_def bind_eq_Some_conv
      vm_kept_def case_prod_beta)

lemma registers_kept:
  "load_registers a0 a1 vm = Some vm' \<Longrightarrow> vm_kept vm vm'" "store_registers a0 a1 vm = Some vm' \<Longrightarrow> vm_kept vm vm'"
proof -
  have k: "foldl_option (load_r a) xs s = Some s' \<Longrightarrow> vm_kept s s'" "foldl_option (load_f a) xs s = Some s' \<Longrightarrow> vm_kept s s'"
    "foldl_option (load_e a) xs s = Some s' \<Longrightarrow> vm_kept s s'" "foldl_option (store_r a) xs s = Some s' \<Longrightarrow> vm_kept s s'"
    "foldl_option mix_f xs s = Some s' \<Longrightarrow> vm_kept s s'" "foldl_option (store_f a) xs s = Some s' \<Longrightarrow> vm_kept s s'"
    for a xs s s'
    by (erule foldl_option_kept [rotated], erule load_step_kept)+
  show "load_registers a0 a1 vm = Some vm' \<Longrightarrow> vm_kept vm vm'"
    unfolding load_registers_def bind_eq_Some_conv by (metis k(1-3) vm_kept_trans)
  show "store_registers a0 a1 vm = Some vm' \<Longrightarrow> vm_kept vm vm'"
    unfolding store_registers_def bind_eq_Some_conv by (metis k(4-6) vm_kept_trans)
qed

section \<open>Iterations, programs and the hash\<close>

lemma sp1_iteration_ok:
  assumes "length prog = 256" "prog_ok prog" "list_all2 instr_rel prog cprog" "vm_good vm"
  shows "\<exists>vmx' vma' vm'. sp1_iteration cprog (read_offsets vm) offset sp (vmx, vma, vm) = Some (vmx', vma', vm') \<and>
    vm_good vm' \<and> config vm' = config vm"
proof -
  obtain a0 a1 where a: "sp_addresses sp vm = Some (a0, a1)" "unat a0 + 8 \<le> 262144" "unat a1 + 8 \<le> 262144"
    using sp_addresses_ok [OF assms(4)] by blast
  obtain vm1 where vm1: "load_registers (unat a0) (unat a1) vm = Some vm1" "vm_good vm1"
    using load_registers_ok [OF assms(4) a(2,3)] by blast
  obtain vm2 where vm2: "sp1_loop cprog (vm1\<lparr> vm_pc := 0 \<rparr>) = Some vm2" "vm_good vm2"
      "vm_frame (vm1\<lparr> vm_pc := 0 \<rparr>) vm2"
    using sp1_loop_ok [of "(prog, cprog)" "vm1\<lparr> vm_pc := 0 \<rparr>"] vm_good_upd(6) [OF vm1(2)] assms(1-3)
    by (auto simp: pair_ok_def machine_ok_def vm_good_def)
  have cfg: "config vm2 = config vm"
    using vm2(3) registers_kept(1) [OF vm1(1)] by (simp add: vm_frame_def vm_kept_def)
  then have rd: "\<exists>v. sp1_r vm2 (read_offsets vm ! i) = Some v" if "i < 4" for i
    using read_offset_access(1) [OF vm_good_sizes(6) [OF vm2(2)] that] by (simp add: read_offsets_def)
  have addr: "sp1_addresses (read_offsets vm) sp vm = Some (a0, a1)"
    using a(1) by (simp add: sp1_addresses_eq [OF vm_good_sizes(6) [OF assms(4)]])
  obtain xs where xs: "dataset_read (mem vm2) (offset + vma) (reg_r (reg vm2)) = Some xs" "length xs = 8"
    using ds.dsread_returns vm2(2) vm_good_sizes [OF vm2(2)] unfolding vm_good_def by blast
  obtain vm3 where vm3: "store_registers (unat a0) (unat a1) (upd_r xs vm2) = Some vm3" "vm_good vm3"
    using store_registers_ok [OF vm_good_upd(1) [OF vm2(2) xs(2)] a(2,3)] by blast
  have "config vm3 = config vm" using registers_kept(2) [OF vm3(1)] cfg by (simp add: vm_kept_def)
  then show ?thesis
    using vm1(1) vm2(1) xs(1) vm3 addr rd [of 2] rd [of 3]
    by (auto simp: sp1_iteration_def sp1_load_eq sp1_store_eq Let_def)
qed

lemma sp1_iterations_ok:
  assumes "length prog = 256" "prog_ok prog" "list_all2 instr_rel prog cprog" "vm_good vm"
  shows "\<exists>vmx' vma' vm'. sp1_iterations cprog (read_offsets vm) offset n sp (vmx, vma, vm) = Some (vmx', vma', vm') \<and>
    vm_good vm'"
  using assms(4)
proof (induction n arbitrary: vm sp vmx vma)
  case (Suc n)
  obtain vmx1 vma1 vm1 where i: "sp1_iteration cprog (read_offsets vm) offset sp (vmx, vma, vm) = Some (vmx1, vma1, vm1)"
    "vm_good vm1" "config vm1 = config vm"
    using sp1_iteration_ok [OF assms(1-3) Suc.prems] by blast
  have "read_offsets vm = read_offsets vm1" using i(3) by (simp add: read_offsets_def)
  then show ?case using i(1,2) Suc.IH [OF i(2)] by simp
qed simp

lemma sp1_init_eq: "length en = 16 \<Longrightarrow> sp1_init_vm en vm = init_vm en vm"
proof -
  have "sp1_small_positive_float_bit = small_positive_float_bit" "sp1_float_mask = float_mask"
    by (simp_all add: fun_eq_iff sp1_small_positive_float_bit_def small_positive_float_bit_def sp1_float_mask_def
        float_mask_def sp1_static_exponent_def static_exponent_def Let_def)
  then show "length en = 16 \<Longrightarrow> sp1_init_vm en vm = init_vm en vm"
    by (simp add: sp1_init_vm_def init_vm_def)
qed

lemma sp1_run_ok:
  assumes "vm_good vm"
  shows "\<exists>vm'. sp1_run sd vm = Some vm' \<and> vm_good vm'"
proof -
  have "length (gen_program_aes_4rx4 sd 136) = 136" by (simp add: length_gen_program_aes_4rx4)
  then obtain prog :: Program and cprog where prog: "sp1_from_bytes (gen_program_aes_4rx4 sd 136) = Some cprog"
    "cp_entropy cprog = p_entropy prog" "list_all2 instr_rel (p_program prog) (cp_instructions cprog)"
    "length (p_program prog) = 256" "length (p_entropy prog) = 16" "prog_ok (p_program prog)"
    using from_bytes_lockstep by blast
  obtain vm1 where vm1: "init_vm (p_entropy prog) vm = Some vm1" "vm_good vm1"
    using init_vm_ok [OF prog(5) assms] by blast
  obtain vmx vma vm2 where "sp1_iterations (cp_instructions cprog) (read_offsets vm1) (dataset_offset vm1)
      RANDOMX_PROGRAM_ITERATIONS (ucast (mx (mem_reg vm1)), ucast (ma (mem_reg vm1)))
      (mx (mem_reg vm1), ma (mem_reg vm1), vm1) = Some (vmx, vma, vm2)" "vm_good vm2"
    using sp1_iterations_ok [OF prog(4,6,3) vm1(2)] by blast
  then show ?thesis
    using prog vm1(1) vm_good_upd(7)
    by (simp add: sp1_run_def sp1_init_eq Let_def read_offsets_def)
qed

lemma sp1_seed_eq: "sp1_hash_to_m128i_array bytes = hash_to_m128i_array bytes"
  by (simp add: sp1_hash_to_m128i_array_def hash_to_m128i_array_def)

lemma sp1_run_programs_ok:
  assumes "digest_length hash" "vm_good vm"
  shows "\<exists>sd' vm'. sp1_run_programs hash n sd vm = Some (sd', vm') \<and> vm_good vm'"
  using assms(2)
proof (induction n arbitrary: sd vm)
  case 0
  then show ?case by (intro exI [of _ sd] exI [of _ vm]) simp
next
  case (Suc n)
  obtain vm1 where vm1: "sp1_run sd vm = Some vm1" "vm_good vm1" using sp1_run_ok [OF Suc.prems] by blast
  have "length (hash 64 (to_bytes (reg vm1))) = 64" using assms(1) by (simp add: digest_length_def)
  then obtain sd1 where "sp1_hash_to_m128i_array (hash 64 (to_bytes (reg vm1))) = Some sd1"
    using hash_to_seed_ok sp1_seed_eq by metis
  then show ?case using vm1(1) Suc.IH [OF vm1(2), of sd1] by simp
qed

lemma init_scratchpad_returns:
  assumes "vm_ok vm"
  shows "\<exists>sd1 pad. init_scratchpad sd vm = Some (sd1, vm\<lparr> scratchpad := pad \<rparr>) \<and> length pad = 262144"
proof -
  obtain pad sd1 where f: "fill_u64_loop 32768 sd = (pad, sd1)" by (rule prod.exhaust)
  then have "length pad = 262144" using length_fill_loops(1) [of 32768 sd] by simp
  then show ?thesis
    using f assms
    by (intro exI [of _ sd1] exI [of _ pad]) (simp add: init_scratchpad_def fill_aes_1rx4_u64_def vm_ok_def)
qed

lemma calculate_hash_impl_ok:
  assumes "digest_length hash" "vm_ok vm" "vm_memory_ok (mem vm)"
  shows "\<exists>digest vm'. calculate_hash_impl hash input vm = Some (digest, vm') \<and> length digest = 32 \<and>
    vm_ok vm' \<and> fp_env vm' = fp_env vm"
proof -
  have "length (hash 64 input) = 64" using assms(1) by (simp add: digest_length_def)
  then obtain sd where sd: "sp1_hash_to_m128i_array (hash 64 input) = Some sd"
    using hash_to_seed_ok sp1_seed_eq by metis
  obtain sd1 pad where vm1: "init_scratchpad sd vm = Some (sd1, vm\<lparr> scratchpad := pad \<rparr>)" "length pad = 262144"
    using init_scratchpad_returns [OF assms(2)] by blast
  then have "vm_good (reset_rounding_mode (vm\<lparr> scratchpad := pad \<rparr>))"
    using assms(2,3) by (intro reset_rounding_mode_ok) (simp_all add: vm_ok_def)
  then obtain sd2 vm2 where vm2: "sp1_run_programs hash (RANDOMX_PROGRAM_COUNT - 1) sd1
      (reset_rounding_mode (vm\<lparr> scratchpad := pad \<rparr>)) = Some (sd2, vm2)" "vm_good vm2"
    using sp1_run_programs_ok [OF assms(1)] by blast
  obtain vm3 where vm3: "sp1_run sd2 vm2 = Some vm3" "vm_good vm3" using sp1_run_ok [OF vm2(2)] by blast
  obtain h0 h1 h2 h3 where h: "hash_aes_1rx4 (scratchpad vm3) = Some (h0, h1, h2, h3)"
    using vm_good_sizes(4) [OF vm3(2)] by (simp add: hash_aes_1rx4_def Let_def) (metis surj_pair)
  have "vm_ok (upd_a [as_m128d h0, as_m128d h1, as_m128d h2, as_m128d h3] vm3)"
    using vm3(2) by (simp add: vm_good_def vm_ok_def)
  moreover have "length (hash RANDOMX_HASH_SIZE x) = 32" for x
    using assms(1) by (simp add: digest_length_def RANDOMX_HASH_SIZE_def)
  moreover have "length (scratchpad vm) = SCRATCHPAD_SIZE" using assms(2) by (simp add: vm_ok_def SCRATCHPAD_SIZE_def)
  ultimately show ?thesis
    using sd vm1(1) vm2(1) vm3(1) h
    by (simp add: calculate_hash_impl_def Let_def vm_ok_sync_irrelevant)
qed

section \<open>Properties\<close>

text \<open>C5: The public entry point \<open>hash\<close> returns a digest of 32 bytes for every key and every input:
  the cache is built, all loops end, no assertion fails and no unchecked access of the register file,
  the scratchpad, the program or the cache is out of bounds.\<close>

theorem sp1_hash_total:
  assumes "digest_length hash" "rejection_ends (hash 64)"
  shows "\<exists>digest. sp1_hash hash env key blob = Some digest \<and> length digest = 32"
proof -
  obtain m where "new_initialised hash key = Some m" "seed_memory_ok m"
    using new_initialised_ok [OF assms] by blast
  then have m: "light hash key = Some \<lparr> seed_memory = m \<rparr>" "vm_memory_ok \<lparr> seed_memory = m \<rparr>"
    by (simp_all add: light_def vm_memory_ok_def)
  then have "vm_memory_ok (mem (new_vm \<lparr> seed_memory = m \<rparr> env))" by (simp add: new_vm_def)
  then show ?thesis
    using calculate_hash_impl_ok [OF assms(1) new_vm_ok, of "\<lparr> seed_memory = m \<rparr>" env blob] m(1)
    by (auto simp: sp1_hash_def RANDOMX_HASH_SIZE_def)
qed

theorem sp1_hash_total_witness:
  "\<exists>digest. sp1_hash (\<lambda>n x. replicate n 7) No_env [1, 2] [3] = Some digest \<and> length digest = 32"
  using sp1_hash_total [OF const_digest] by blast

text \<open>\<open>calculate_hash_impl\<close> returns on every machine whose scratchpad has the asserted size and
  restores the control register of the host; a scratchpad of any other size fails the assertion.\<close>

theorem calculate_hash_impl_total:
  assumes "digest_length hash" "vm_memory_ok (mem vm)" "vm_ok (vm\<lparr> scratchpad := replicate SCRATCHPAD_SIZE 0 \<rparr>)"
  shows "if length (scratchpad vm) = SCRATCHPAD_SIZE
    then \<exists>digest vm'. calculate_hash_impl hash input vm = Some (digest, vm') \<and> length digest = 32 \<and>
           vm_ok vm' \<and> fp_env vm' = fp_env vm
    else calculate_hash_impl hash input vm = None"
proof (cases "length (scratchpad vm) = SCRATCHPAD_SIZE")
  case True
  then have "vm_ok vm" using assms(3) by (simp add: vm_ok_def SCRATCHPAD_SIZE_def)
  then show ?thesis using calculate_hash_impl_ok [OF assms(1) _ assms(2)] True by simp
qed (simp add: calculate_hash_impl_def)

theorem calculate_hash_impl_total_witness:
  "(\<exists>digest vm'. calculate_hash_impl zero_digest [5] (new_vm VmMemory_no_memory (Mxcsr 0x1f80)) = Some (digest, vm') \<and>
      fp_env vm' = Mxcsr 0x1f80) \<and>
   calculate_hash_impl zero_digest [5] ((new_vm VmMemory_no_memory No_env)\<lparr> scratchpad := [1] \<rparr>) = None"
proof -
  have m: "vm_memory_ok VmMemory_no_memory"
    using no_memory_ok by (simp add: vm_memory_ok_def VmMemory_no_memory_def)
  have a: "vm_ok ((new_vm VmMemory_no_memory env)\<lparr> scratchpad := replicate SCRATCHPAD_SIZE 0 \<rparr>)" for env
    using new_vm_ok [of VmMemory_no_memory env] by (simp add: new_vm_def)
  show ?thesis
    using calculate_hash_impl_total [OF zero_digest_length _ a [of "Mxcsr 0x1f80"], of "[5]"] m
      calculate_hash_impl_total [OF zero_digest_length, of "(new_vm VmMemory_no_memory No_env)\<lparr> scratchpad := [1] \<rparr>" "[5]"]
      a [of No_env]
    by (auto simp: new_vm_def SCRATCHPAD_SIZE_def)
qed

text \<open>The instruction loop of the compact machine ends after at most 768 instructions from every
  state, with every fetch inside the program and every operand access inside its array.\<close>

theorem compact_loop_bound:
  assumes "sp1_from_bytes bytes = Some cprog" "vm_ok vm" "vm_pc vm = 0"
  shows "\<exists>n vm'. runs (sp1_step (cp_instructions cprog)) (\<lambda>vm. vm_pc vm < RANDOMX_PROGRAM_SIZE) n vm vm' \<and>
    n \<le> 768 \<and> sp1_loop (cp_instructions cprog) vm = Some vm' \<and> vm_ok vm'"
proof -
  have "length bytes = 136" using assms(1) by (simp add: sp1_from_bytes_def split: if_split_asm)
  then obtain prog :: Program where "pair_ok (p_program prog, cp_instructions cprog) vm"
    using from_bytes_lockstep [of bytes] assms(1,2) by (auto simp: pair_ok_def machine_ok_def)
  from sp1.loop_bound [OF this assms(3)] show ?thesis
    using sp1_loop_runs by (auto simp: RANDOMX_PROGRAM_SIZE_def pair_ok_def machine_ok_def)
qed

theorem compact_loop_bound_witness:
  "\<exists>cprog n vm'. sp1_from_bytes (replicate 136 0xD7) = Some cprog \<and> n \<le> 768 \<and>
     runs (sp1_step (cp_instructions cprog)) (\<lambda>vm. vm_pc vm < RANDOMX_PROGRAM_SIZE) n
       (new_vm VmMemory_no_memory No_env) vm'"
proof -
  obtain cprog where "sp1_from_bytes (replicate 136 0xD7) = Some cprog"
    using from_bytes_lockstep [of "replicate 136 0xD7"] by auto
  from compact_loop_bound [OF this new_vm_ok, of VmMemory_no_memory No_env] this show ?thesis
    by (auto simp: new_vm_def)
qed

end
