(* ===== verification/FloatBound.thy ===== *)
theory FloatBound
  imports CompactSafety FloatLevel
begin

text \<open>
  The additive registers of a running program. Loading puts at most \<open>2 ^ 33\<close> into them, and one instruction
  raises the level of each (\<open>f_level\<close>) by at most one, because the operands of additions and
  subtractions come from constant registers and converted integers. An iteration executes at most
  768 instructions, so no additive register becomes infinite or a NaN.
\<close>

section \<open>One instruction\<close>

definition f_below :: "nat \<Rightarrow> Vm \<Rightarrow> bool" where
  "f_below k vm \<longleftrightarrow> (\<forall>v \<in> set (reg_f (reg vm)). both (\<lambda>x. f_level k (f64_idx x)) v)"

definition a_below :: "Vm \<Rightarrow> bool" where
  "a_below vm \<longleftrightarrow> (\<forall>v \<in> set (reg_a (reg vm)). both (\<lambda>x. f64_idx x \<le> f_limit) v)"

lemma f_below_mono: "f_below j vm \<Longrightarrow> j \<le> k \<Longrightarrow> f_below k vm"
  unfolding f_below_def by (blast intro: both_mono f_level_mono)

lemma f_below_finite: "f_below k vm \<Longrightarrow> k \<le> 768 \<Longrightarrow> v \<in> set (reg_f (reg vm)) \<Longrightarrow> both f64_finite v"
  using f_level_finite [of k] unfolding f_below_def by (fastforce intro: both_mono)

lemma f_below_num: "f_below k vm \<Longrightarrow> k \<le> 768 \<Longrightarrow> f_ok vm"
  using f_level_finite [of k] unfolding f_below_def f_ok_def f_num_def by (fastforce intro: both_mono)

lemma f_below_upd:
  "f_below k vm \<Longrightarrow> both (\<lambda>x. f_level k (f64_idx x)) w \<Longrightarrow> f_below k (upd_f ((reg_f (reg vm))[d := w]) vm)"
  "f_below k vm \<Longrightarrow> f_below k (upd_r rs vm)" "f_below k vm \<Longrightarrow> f_below k (upd_e es vm)"
  "f_below k vm \<Longrightarrow> f_below k (vm\<lparr> scratchpad := pad \<rparr>)" "f_below k vm \<Longrightarrow> f_below k (vm\<lparr> vm_pc := t \<rparr>)"
  using set_update_subset_insert [of "reg_f (reg vm)" d w] by (auto simp: f_below_def)

lemma as_f64_xor: "as_f64 (v XOR w) = (fst (as_f64 v) XOR fst (as_f64 w), snd (as_f64 v) XOR snd (as_f64 w))"
  by (auto simp: as_f64_def intro!: bit_word_eqI simp: bit_simps)

lemma both_level:
  assumes "both (\<lambda>x. f_level k (f64_idx x)) v" "k \<le> 768"
  shows "both (\<lambda>x. f64_idx x \<le> f_limit) w \<Longrightarrow> both (\<lambda>x. f_level (Suc k) (f64_idx x)) (m128d_add mode v w)"
    "both (\<lambda>x. f64_idx x \<le> f_limit) w \<Longrightarrow> both (\<lambda>x. f_level (Suc k) (f64_idx x)) (m128d_sub mode v w)"
    "both (\<lambda>x. f_level (Suc k) (f64_idx x)) (v XOR m128d_from_u64 0x80F0000000000000 0x80F0000000000000)"
  using assms f64_add_level f64_sub_level f_level_flip
  by (simp_all add: both_def m128d_add_def m128d_sub_def case_prod_beta as_f64_xor m128d_from_u64_def f64_idx_scale)

lemma lower_limit: "both (\<lambda>x. f64_idx x \<le> f_limit) (lower_to_m128d v)"
  by (simp add: both_def lower_to_m128d_def Let_def f64_of_i32_limit)

lemma lower_level: "both (\<lambda>x. f_level k (f64_idx x)) (lower_to_m128d v)"
  by (rule both_mono [OF lower_limit]) (rule f_limit_level)

lemma exec_f_below:
  assumes "vm_ok vm" "a_below vm" "f_below k vm" "k < 768" "instr_ok ins"
    "instr_execute ins vm = Some vm'"
  shows "f_below (Suc k) vm'"
proof -
  have up: "f_below (Suc k) vm" using f_below_mono assms(3) by simp
  have F: "is_F s \<Longrightarrow> both (\<lambda>x. f_level k (f64_idx x)) (reg_f (reg vm) ! reg_ix s)"
    "is_F s \<Longrightarrow> both (\<lambda>x. f_level (Suc k) (f64_idx x)) (reg_f (reg vm) ! reg_ix s)"
    "is_A s \<Longrightarrow> both (\<lambda>x. f64_idx x \<le> f_limit) (reg_a (reg vm) ! reg_ix s)" for s
    using assms(1-3) up reg_ix_bound by (auto simp: vm_ok_def f_below_def a_below_def)
  have other: "exec_iswap_r ins vm = Some vm' \<Longrightarrow> f_below (Suc k) vm'" "exec_istore ins vm = Some vm' \<Longrightarrow> f_below (Suc k) vm'"
    "exec_cfround ins vm = Some vm' \<Longrightarrow> f_below (Suc k) vm'" "exec_cbranch ins vm = Some vm' \<Longrightarrow> f_below (Suc k) vm'"
    using up
    by (auto simp: exec_iswap_r_def exec_istore_def exec_cfround_def exec_cbranch_def set_rounding_mode_def
        bind_eq_Some_conv Let_def f_below_def split: if_split_asm dest!: write_r_frame)
  show ?thesis
    using assms(5,6) assms(1,4) up F lower_limit
    unfolding instr_ok_def instr_execute_def
    by (cases "i_effect ins")
       (auto simp: exec_defs fault_simps Let_def other split: if_split_asm
        intro!: f_below_upd both_level both_shuffle
        simp: m128d_commute(1) [of _ "reg_a (reg vm) ! _"])
qed

section \<open>Loading\<close>

text \<open>Loading puts the additive registers below the limit.\<close>

lemma load_f_below:
  assumes "vm_good vm" "foldl_option (load_f a) [0..<MAX_FLOAT_REG] vm = Some vm'" "a + 8 \<le> 262144"
  shows "f_below 0 vm' \<and> vm_good vm'"
proof -
  let ?P = "\<lambda>k s. vm_good s \<and> (\<forall>i < k. both (\<lambda>x. f_level 0 (f64_idx x)) (reg_f (reg s) ! i))"
  have "\<exists>s. foldl_option (load_f a) [0..<MAX_FLOAT_REG] vm = Some s \<and> ?P MAX_FLOAT_REG s"
  proof (rule foldl_option_upt)
    fix k s assume k: "k < MAX_FLOAT_REG" and P: "?P k s"
    then obtain s1 where s1: "load_f a k s = Some s1" "vm_good s1"
      using load_steps_ok(2) [of s a k] assms(3) by (auto simp: MAX_FLOAT_REG_def)
    have "both (\<lambda>x. f_level 0 (f64_idx x)) (reg_f (reg s1) ! i)" if "i < Suc k" for i
      using s1(1) P that lower_level vm_good_sizes(2) [of s] k
      by (cases "i = k") (auto simp: load_f_def bind_eq_Some_conv MAX_FLOAT_REG_def)
    then show "\<exists>s'. load_f a k s = Some s' \<and> ?P (Suc k) s'" using s1 by blast
  qed (use assms in simp_all)
  then have P: "?P 4 vm'" using assms(2) by (simp add: MAX_FLOAT_REG_def)
  then show ?thesis using vm_good_sizes(2) [of vm'] by (auto simp: f_below_def in_set_conv_nth)
qed

lemma load_e_keeps_f:
  "foldl_option (load_e a) xs vm = Some vm' \<Longrightarrow> reg_f (reg vm') = reg_f (reg vm)"
proof (induction xs arbitrary: vm)
  case (Cons x xs)
  then obtain vm1 where "load_e a x vm = Some vm1" "foldl_option (load_e a) xs vm1 = Some vm'"
    by (auto simp: bind_eq_Some_conv)
  moreover from this(1) have "reg_f (reg vm1) = reg_f (reg vm)" by (auto simp: load_e_def bind_eq_Some_conv)
  ultimately show ?case using Cons.IH by simp
qed simp

lemma load_registers_below:
  assumes "vm_good vm" "load_registers a0 a1 vm = Some vm'" "a0 + 8 \<le> 262144" "a1 + 8 \<le> 262144"
  shows "f_below 0 vm'"
proof -
  obtain vm1 where vm1: "foldl_option (load_r a0) [0..<MAX_REG] vm = Some vm1" "vm_good vm1"
    using foldl_option_keeps [where P = vm_good, OF assms(1), of "[0..<MAX_REG]" "load_r a0"] load_steps_ok(1) assms(3)
    by (auto simp: MAX_REG_def)
  obtain vm2 where vm2: "foldl_option (load_f a1) [0..<MAX_FLOAT_REG] vm1 = Some vm2"
    "foldl_option (load_e a1) [0..<MAX_FLOAT_REG] vm2 = Some vm'"
    using assms(2) vm1(1) by (auto simp: load_registers_def bind_eq_Some_conv)
  have "f_below 0 vm2" using load_f_below [OF vm1(2) vm2(1) assms(4)] by blast
  then show ?thesis using load_e_keeps_f [OF vm2(2)] by (simp add: f_below_def)
qed

lemma init_a_below: "init_vm en vm = Some vm1 \<Longrightarrow> a_below vm1"
  using small_positive_float_limit
  by (auto simp: init_vm_def a_below_def both_def m128d_from_u64_def split: if_split_asm)

section \<open>The states of an instruction loop\<close>

inductive loop_visits :: "Instr list \<Rightarrow> Vm \<Rightarrow> Vm \<Rightarrow> bool" for prog where
  visit_here: "loop_visits prog vm vm"
| visit_step: "vm_pc vm < RANDOMX_PROGRAM_SIZE \<Longrightarrow> exec_step prog vm = Some vm1 \<Longrightarrow>
    loop_visits prog vm1 s \<Longrightarrow> loop_visits prog vm s"

inductive_cases loop_visits_cases: "loop_visits prog vm s"

definition bound_inv :: "Instr list \<Rightarrow> nat \<Rightarrow> Vm \<Rightarrow> bool" where
  "bound_inv prog k vm \<longleftrightarrow> machine_ok prog vm \<and> 0 \<le> vm_pc vm \<and> a_below vm \<and> f_below k vm"

lemma bound_inv_step:
  assumes "bound_inv prog k vm" "k < 768" "vm_pc vm < 256" "exec_step prog vm = Some vm1"
  shows "bound_inv prog (Suc k) vm1"
proof -
  define q where "q = nat (vm_pc vm)"
  have q: "vm_pc vm = int q" "q < 256" using assms(1,3) by (simp_all add: q_def bound_inv_def)
  have m: "machine_ok prog vm" "a_below vm" "f_below k vm" using assms(1) by (simp_all add: bound_inv_def)
  have ok: "vm_ok vm" "instr_ok (prog ! q)"
    using m q machine_instr by (auto simp: machine_ok_def)
  obtain vm2 where vm2: "instr_execute (prog ! q) vm = Some vm2" "vm1 = vm2\<lparr> vm_pc := vm_pc vm2 + 1 \<rparr>"
    using assms(4) exec_step_at [OF m(1) q] by (auto simp: bind_eq_Some_conv)
  have "f_below (Suc k) vm2" by (rule exec_f_below [OF ok(1) m(2,3) assms(2) ok(2) vm2(1)])
  then show ?thesis
    using exec_step_good [OF m(1) _ assms(3,4)] assms(1) vm2(2)
    by (auto simp: bound_inv_def f_below_def a_below_def vm_frame_def)
qed

lemma visits_below:
  assumes "runs (exec_step prog) (\<lambda>vm. vm_pc vm < 256) n vm vm'" "bound_inv prog k vm"
    "k + n \<le> 768" "loop_visits prog vm s"
  shows "f_below 768 s"
  using assms
proof (induction arbitrary: k rule: runs.induct)
  case (runs_done vm)
  have "s = vm" using runs_done.prems(3) runs_done.hyps by (auto simp: RANDOMX_PROGRAM_SIZE_def elim: loop_visits_cases)
  then show ?case using runs_done.prems f_below_mono [of k vm 768] by (simp add: bound_inv_def)
next
  case (runs_step vm vm1 n vm')
  from runs_step.prems(3) show ?case
  proof cases
    case visit_here
    then show ?thesis using runs_step.prems f_below_mono [of k vm 768] by (simp add: bound_inv_def)
  next
    case (visit_step vm2)
    have "bound_inv prog (Suc k) vm1"
      using bound_inv_step [OF runs_step.prems(1) _ runs_step.hyps(1,2)] runs_step.prems(2) by simp
    then show ?thesis using runs_step.IH [of "Suc k"] runs_step visit_step by simp
  qed
qed

lemma runs_visits:
  "runs (exec_step prog) (\<lambda>vm. vm_pc vm < 256) n vm vm' \<Longrightarrow> loop_visits prog vm vm'"
  by (induction rule: runs.induct) (auto simp: RANDOMX_PROGRAM_SIZE_def intro: loop_visits.intros)

end
