(* ===== verification/Equivalence.thy ===== *)
theory Equivalence
  imports FloatBound
begin

text \<open>
  The compact machine computes what the reference machine computes. The reference runs on a host
  whose control register selects the rounding mode, the compact machine on the guest, which has
  none and uses softfp for the directed modes. The states agree after every instruction, iteration
  and program, and so do the digests. No condition on the floating-point values is left: the domains
  of the multiplicative and constant registers are invariants, and the level of the additive
  registers (\<open>FloatBound\<close>) rises by one per instruction, from a load to at most 768 instructions
  later, so that they stay finite.
\<close>

section \<open>The instruction loop\<close>

text \<open>The floating-point state after \<open>k\<close> instructions.\<close>

definition float_inv :: "nat \<Rightarrow> Vm \<Rightarrow> bool" where
  "float_inv k vm \<longleftrightarrow> host_ok vm \<and> config_ok vm \<and> e_ok vm \<and> a_below vm \<and> f_below k vm"

lemma float_inv_f_ok: "float_inv k vm \<Longrightarrow> k \<le> 768 \<Longrightarrow> f_ok vm"
  unfolding float_inv_def using f_below_num by blast

lemma step_lockstep:
  assumes "machine_ok prog vm" "list_all2 instr_rel prog cprog" "0 \<le> vm_pc vm" "vm_pc vm < 256"
    "float_inv k vm" "k < 768" "exec_step prog vm = Some vm1"
  shows "sp1_step cprog (guest m vm) = Some (guest m vm1)" "float_inv (Suc k) vm1"
proof -
  define q where "q = nat (vm_pc vm)"
  have q: "vm_pc vm = int q" "q < 256" using assms(3,4) by (simp_all add: q_def)
  have ok: "vm_ok vm" "instr_ok (prog ! q)" using assms q machine_instr by (auto simp: machine_ok_def)
  have len: "length prog = 256" "length cprog = 256"
    using assms(1) list_all2_lengthD [OF assms(2)] by (simp_all add: machine_ok_def)
  then have rel: "instr_rel (prog ! q) (cprog ! q)" using list_all2_nthD [OF assms(2)] q(2) by simp
  obtain vm2 where vm2: "instr_execute (prog ! q) vm = Some vm2" "vm1 = vm2\<lparr> vm_pc := vm_pc vm2 + 1 \<rparr>"
    using assms(7) exec_step_at [OF assms(1) q] by (auto simp: bind_eq_Some_conv)
  have "c_execute (cprog ! q) (guest m vm) = Some (guest m vm2)"
    using instruction_lockstep [OF _ _ _ float_inv_f_ok [OF assms(5)] ok(2) rel] assms(5,6) vm2(1)
    by (simp add: float_inv_def)
  then show "sp1_step cprog (guest m vm) = Some (guest m vm1)"
    using q len vm2(2) by (simp add: sp1_step_def guest_upd)
  have "e_ok vm2"
    using exec_e_ok [OF ok(1) _ _ ok(2) vm2(1)] assms(5) by (simp add: float_inv_def)
  moreover have "f_below (Suc k) vm2"
    using exec_f_below [OF ok(1) _ _ assms(6) ok(2) vm2(1)] assms(5) by (simp add: float_inv_def)
  ultimately have "e_ok vm1" "f_below (Suc k) vm1" using vm2(2) by (simp_all add: e_ok_def f_below_def)
  moreover have "machine_ok prog vm1" "vm_frame vm vm1" "env_sync vm \<longrightarrow> env_sync vm1"
    using exec_step_good [OF assms(1,3,4,7)] by blast+
  ultimately show "float_inv (Suc k) vm1"
    using assms(5) by (simp add: float_inv_def host_ok_def config_ok_def a_below_def machine_ok_def vm_frame_def)
qed

lemma loop_lockstep:
  assumes "runs (exec_step prog) (\<lambda>vm. vm_pc vm < 256) n vm vm'" "machine_ok prog vm" "list_all2 instr_rel prog cprog"
    "0 \<le> vm_pc vm" "float_inv k vm" "k + n \<le> 768"
  shows "runs (sp1_step cprog) (\<lambda>vm. vm_pc vm < 256) n (guest m vm) (guest m vm') \<and> float_inv (k + n) vm'"
  using assms
proof (induction arbitrary: k rule: runs.induct)
  case (runs_done vm)
  then show ?case by (auto intro: runs.intros)
next
  case (runs_step vm vm1 n vm')
  have k: "k < 768" "Suc k + n \<le> 768" using runs_step.prems(5) by simp_all
  note st = step_lockstep [OF runs_step.prems(1,2,3) runs_step.hyps(1) runs_step.prems(4) k(1) runs_step.hyps(2)]
  have "runs (sp1_step cprog) (\<lambda>vm. vm_pc vm < 256) n (guest m vm1) (guest m vm') \<and> float_inv (Suc k + n) vm'"
    using runs_step.IH [of "Suc k"] runs_step.prems(2) st(2) k(2)
      exec_step_good [OF runs_step.prems(1,3) runs_step.hyps(1,2)] by blast
  then show ?case using runs_step.hyps(1) st(1) by (auto intro: runs.intros)
qed

section \<open>Iterations\<close>

text \<open>The parts of an iteration do not depend on what the guest lacks.\<close>

lemmas foldl_option_guest = foldl_option_commute [where h = "guest m" for m]

lemma parts_guest:
  "load_r a i (guest m vm) = map_option (guest m) (load_r a i vm)"
  "load_f a i (guest m vm) = map_option (guest m) (load_f a i vm)"
  "load_e a i (guest m vm) = map_option (guest m) (load_e a i vm)"
  "store_r a i (guest m vm) = map_option (guest m) (store_r a i vm)"
  "mix_f i (guest m vm) = map_option (guest m) (mix_f i vm)"
  "store_f a i (guest m vm) = map_option (guest m) (store_f a i vm)"
  by (simp_all add: load_r_def load_f_def load_e_def store_r_def mix_f_def store_f_def map_option_bind_guest
      guest_upd case_prod_beta)

lemma registers_guest:
  "load_registers a0 a1 (guest m vm) = map_option (guest m) (load_registers a0 a1 vm)"
  "store_registers a0 a1 (guest m vm) = map_option (guest m) (store_registers a0 a1 vm)"
  by (simp_all add: load_registers_def store_registers_def foldl_option_guest parts_guest bind_map_option
      map_option_bind_guest)

lemma addresses_guest: "sp_addresses sp (guest m vm) = sp_addresses sp vm"
  by (simp add: sp_addresses_def case_prod_beta)

text \<open>The state between instructions: a good machine on a host, with the masks and constants of a
  program.\<close>

definition host_good :: "Vm \<Rightarrow> bool" where
  "host_good vm \<longleftrightarrow> vm_good vm \<and> fp_env vm \<noteq> No_env \<and> config_ok vm \<and> a_below vm"

lemma host_good_kept: "host_good vm \<Longrightarrow> vm_kept vm vm' \<Longrightarrow> vm_good vm' \<Longrightarrow> host_good vm'"
  by (simp add: host_good_def vm_kept_def config_ok_def a_below_def)

lemma masked_e_num: "vm_ok vm \<Longrightarrow> config_ok vm \<Longrightarrow> mask_register_exponent_mantissa vm v = Some w \<Longrightarrow> both e_num w"
  by (rule both_mono [OF both_masked]) (auto simp: a_num_def e_num_def)

text \<open>Loading puts every multiplicative register into its domain.\<close>

lemma load_e_domain:
  assumes "vm_good vm" "config_ok vm" "foldl_option (load_e a) [0..<MAX_FLOAT_REG] vm = Some vm'" "a + 8 \<le> 262144"
  shows "e_ok vm'"
proof -
  let ?P = "\<lambda>k s. vm_good s \<and> config_ok s \<and> (\<forall>i < k. both e_num (reg_e (reg s) ! i))"
  have "\<exists>s. foldl_option (load_e a) [0..<MAX_FLOAT_REG] vm = Some s \<and> ?P MAX_FLOAT_REG s"
  proof (rule foldl_option_upt)
    fix k s assume k: "k < MAX_FLOAT_REG" and P: "?P k s"
    then obtain s1 where s1: "load_e a k s = Some s1" "vm_good s1"
      using load_steps_ok(3) [of s a k] assms(4) by (auto simp: MAX_FLOAT_REG_def)
    then have "config_ok s1" using load_step_kept(3) [OF s1(1)] P by (simp add: vm_kept_def config_ok_def)
    moreover have "both e_num (reg_e (reg s1) ! i)" if "i < Suc k" for i
      using s1(1) P that masked_e_num [of s] vm_good_sizes(3) [of s] k vm_good_sizes(6) [of s]
      by (cases "i = k") (auto simp: load_e_def bind_eq_Some_conv MAX_FLOAT_REG_def)
    ultimately show "\<exists>s'. load_e a k s = Some s' \<and> ?P (Suc k) s'" using s1 by blast
  qed (use assms in simp_all)
  then have P: "?P 4 vm'" using assms(3) by (simp add: MAX_FLOAT_REG_def)
  then show ?thesis using vm_good_sizes(3) [of vm'] by (auto simp: e_ok_def in_set_conv_nth)
qed

lemma load_registers_domain:
  assumes "host_good vm" "load_registers a0 a1 vm = Some vm'" "a0 + 8 \<le> 262144" "a1 + 8 \<le> 262144"
  shows "host_good vm'" "e_ok vm'"
proof -
  have good: "vm_good vm" using assms(1) by (simp add: host_good_def)
  have "vm_good vm'" using load_registers_ok [OF good assms(3,4)] assms(2) by simp
  then show "host_good vm'" using host_good_kept [OF assms(1) registers_kept(1) [OF assms(2)]] by blast
  obtain vm1 where vm1: "foldl_option (load_r a0) [0..<MAX_REG] vm = Some vm1" "vm_good vm1"
    using foldl_option_keeps [where P = vm_good, OF good, of "[0..<MAX_REG]" "load_r a0"] load_steps_ok(1) assms(3)
    by (auto simp: MAX_REG_def)
  obtain vm2 where vm2: "foldl_option (load_f a1) [0..<MAX_FLOAT_REG] vm1 = Some vm2" "vm_good vm2"
    using foldl_option_keeps [where P = vm_good, OF vm1(2), of "[0..<MAX_FLOAT_REG]" "load_f a1"] load_steps_ok(2) assms(4)
    by (auto simp: MAX_FLOAT_REG_def)
  have "vm_kept vm vm2"
    using foldl_option_kept [OF _ vm1(1)] foldl_option_kept [OF _ vm2(1)] load_step_kept(1,2) vm_kept_trans by blast
  then have "config_ok vm2" using assms(1) by (simp add: host_good_def vm_kept_def config_ok_def)
  then show "e_ok vm'"
    using load_e_domain [OF vm2(2) _ _ assms(4)] assms(2) vm1(1) vm2(1) by (simp add: load_registers_def)
qed

text \<open>The iteration in two halves: addresses, registers and the instruction loop; dataset access and
  write-back.\<close>

lemma iteration_front_lockstep:
  assumes prog: "length prog = 256" "prog_ok prog" "list_all2 instr_rel prog cprog"
    and vm: "host_good vm"
  shows "\<exists>a0 a1 vm1 vm2. sp_addresses sp vm = Some (a0, a1) \<and> unat a0 + 8 \<le> 262144 \<and> unat a1 + 8 \<le> 262144 \<and>
    load_registers (unat a0) (unat a1) vm = Some vm1 \<and> exec_loop prog (vm1\<lparr> vm_pc := 0 \<rparr>) = Some vm2 \<and>
    sp1_loop cprog ((guest m vm1)\<lparr> vm_pc := 0 \<rparr>) = Some (guest m vm2) \<and> host_good vm2 \<and>
    config vm2 = config vm \<and> dataset_offset vm2 = dataset_offset vm \<and> mem_reg vm2 = mem_reg vm"
proof -
  have good: "vm_good vm" using vm by (simp add: host_good_def)
  obtain a0 a1 where a: "sp_addresses sp vm = Some (a0, a1)" "unat a0 + 8 \<le> 262144" "unat a1 + 8 \<le> 262144"
    using sp_addresses_ok [OF good] by blast
  obtain vm1 where vm1: "load_registers (unat a0) (unat a1) vm = Some vm1"
    using load_registers_ok [OF good a(2,3)] by blast
  let ?vm1 = "vm1\<lparr> vm_pc := 0 \<rparr>"
  have h1: "host_good vm1" "e_ok vm1" using load_registers_domain [OF vm vm1 a(2,3)] by blast+
  then have inv: "float_inv 0 ?vm1" "vm_good ?vm1" "machine_ok prog ?vm1"
    using prog(1,2) vm_good_upd(6) [of vm1 0] load_registers_below [OF good vm1 a(2,3)]
    by (simp_all add: float_inv_def host_good_def host_ok_def vm_good_def config_ok_def e_ok_def a_below_def
        f_below_def machine_ok_def)
  obtain n vm2 where vm2: "runs (exec_step prog) (\<lambda>vm. vm_pc vm < 256) n ?vm1 vm2" "n \<le> 768"
    "exec_loop prog ?vm1 = Some vm2" "vm_good vm2" "vm_frame ?vm1 vm2"
    using exec_loop_ok [OF inv(3) _ inv(2)] by auto
  have "runs (sp1_step cprog) (\<lambda>vm. vm_pc vm < 256) n (guest m ?vm1) (guest m vm2)"
    using loop_lockstep [OF vm2(1) inv(3) prog(3) _ inv(1)] vm2(2) by simp
  then have "sp1_loop cprog ((guest m vm1)\<lparr> vm_pc := 0 \<rparr>) = Some (guest m vm2)"
    using sp1_loop_runs by (simp add: guest_upd)
  moreover have "config vm2 = config vm" "dataset_offset vm2 = dataset_offset vm" "mem_reg vm2 = mem_reg vm"
    using vm2(5) registers_kept(1) [OF vm1] by (simp_all add: vm_frame_def vm_kept_def)
  moreover have "host_good vm2" using h1(1) vm2(4,5) by (simp add: host_good_def vm_frame_def config_ok_def a_below_def)
  ultimately show ?thesis using a vm1 vm2(3) by blast
qed

lemma iteration_back_lockstep:
  assumes "host_good vm" "a0 + 8 \<le> 262144" "a1 + 8 \<le> 262144"
  shows "\<exists>xs vm1 vm'. dataset_step vm = Some vm1 \<and> store_registers a0 a1 vm1 = Some vm' \<and> host_good vm' \<and>
    config vm' = config vm \<and> dataset_offset vm' = dataset_offset vm \<and>
    dataset_read (mem vm) (dataset_offset vm + ma (mem_reg vm)) (reg_r (reg vm)) = Some xs \<and>
    mem_reg vm' = \<lparr> mx = ma (mem_reg vm), ma = (mx (mem_reg vm) XOR (reg_r (reg vm) ! (read_reg (config vm) ! 2) XOR
      reg_r (reg vm) ! (read_reg (config vm) ! 3))) AND CACHE_LINE_ALIGN_MASK \<rparr> \<and>
    sp1_store_registers a0 a1 (upd_r xs (guest m vm)) = Some (guest m vm')"
proof -
  have good: "vm_good vm" "vm_ok vm" using assms(1) by (simp_all add: host_good_def vm_good_def)
  obtain xs where xs: "dataset_read (mem vm) (dataset_offset vm + ma (mem_reg vm)) (reg_r (reg vm)) = Some xs"
    "length xs = 8"
    using ds.dsread_returns good(1) vm_good_sizes [OF good(1)] unfolding vm_good_def by blast
  let ?m = "\<lparr> mx = ma (mem_reg vm), ma = (mx (mem_reg vm) XOR (reg_r (reg vm) ! (read_reg (config vm) ! 2) XOR
      reg_r (reg vm) ! (read_reg (config vm) ! 3))) AND CACHE_LINE_ALIGN_MASK \<rparr>"
  let ?vm1 = "upd_r xs (vm\<lparr> mem_reg := ?m \<rparr>)"
  have ds: "dataset_step vm = Some ?vm1"
    using xs(1) read_offset_access(2,3) [OF good(2), of 2] read_offset_access(2,3) [OF good(2), of 3]
    by (simp add: dataset_step_def Let_def)
  have "vm_good ?vm1" using vm_good_upd(1) [OF vm_good_upd(7) [OF good(1)] xs(2)] by simp
  then obtain vm' where vm': "store_registers a0 a1 ?vm1 = Some vm'" "vm_good vm'"
    using store_registers_ok [OF _ assms(2,3)] by blast
  have k: "vm_kept ?vm1 vm'" using registers_kept(2) [OF vm'(1)] .
  have e: "upd_r xs (guest m vm) = guest m ?vm1" by (simp add: guest_def)
  have "sp1_store_registers a0 a1 (upd_r xs (guest m vm)) = Some (guest m vm')"
    unfolding e sp1_store_eq registers_guest by (simp only: vm'(1) option.map)
  moreover have "host_good vm'" "config vm' = config vm" "dataset_offset vm' = dataset_offset vm" "mem_reg vm' = ?m"
    using assms(1) k vm'(2) by (simp_all add: host_good_def vm_kept_def config_ok_def a_below_def)
  ultimately show ?thesis using ds vm'(1) xs(1) by blast
qed

lemma iteration_lockstep:
  assumes "length prog = 256" "prog_ok prog" "list_all2 instr_rel prog cprog" "host_good vm"
  shows "\<exists>vm'. run_iteration prog sp vm = Some vm' \<and> host_good vm' \<and> config vm' = config vm \<and>
    dataset_offset vm' = dataset_offset vm \<and>
    sp1_iteration cprog (read_offsets vm) (dataset_offset vm) sp (mx (mem_reg vm), ma (mem_reg vm), guest m vm) =
      Some (mx (mem_reg vm'), ma (mem_reg vm'), guest m vm')"
proof -
  have ok: "vm_ok (guest m vm)" using assms(4) by (simp add: host_good_def vm_good_def)
  obtain a0 a1 vm1 vm2 where f: "sp_addresses sp vm = Some (a0, a1)" "unat a0 + 8 \<le> 262144" "unat a1 + 8 \<le> 262144"
    "load_registers (unat a0) (unat a1) vm = Some vm1" "exec_loop prog (vm1\<lparr> vm_pc := 0 \<rparr>) = Some vm2"
    "sp1_loop cprog ((guest m vm1)\<lparr> vm_pc := 0 \<rparr>) = Some (guest m vm2)" "host_good vm2"
    "config vm2 = config vm" "dataset_offset vm2 = dataset_offset vm" "mem_reg vm2 = mem_reg vm"
    using iteration_front_lockstep [OF assms] by blast
  obtain xs vm3 vm' where b: "dataset_step vm2 = Some vm3" "store_registers (unat a0) (unat a1) vm3 = Some vm'"
    "host_good vm'" "config vm' = config vm2" "dataset_offset vm' = dataset_offset vm2"
    "dataset_read (mem vm2) (dataset_offset vm2 + ma (mem_reg vm2)) (reg_r (reg vm2)) = Some xs"
    "mem_reg vm' = \<lparr> mx = ma (mem_reg vm2), ma = (mx (mem_reg vm2) XOR (reg_r (reg vm2) ! (read_reg (config vm2) ! 2) XOR
      reg_r (reg vm2) ! (read_reg (config vm2) ! 3))) AND CACHE_LINE_ALIGN_MASK \<rparr>"
    "sp1_store_registers (unat a0) (unat a1) (upd_r xs (guest m vm2)) = Some (guest m vm')"
    using iteration_back_lockstep [OF f(7) f(2,3)] by blast
  have offs: "read_offsets vm = read_offsets (guest m vm2)" "read_offsets vm = read_offsets (guest m vm)"
    using f(8) by (simp_all add: read_offsets_def)
  have adr: "sp1_addresses (read_offsets vm) sp (guest m vm) = Some (a0, a1)"
    unfolding offs(2) using sp1_addresses_eq [OF ok] f(1) by (simp add: addresses_guest)
  have ok2: "vm_ok (guest m vm2)" using f(7) by (simp add: host_good_def vm_good_def)
  have rd: "sp1_r (guest m vm2) (read_offsets vm ! i) = Some (reg_r (reg vm2) ! (read_reg (config vm2) ! i))" if "i < 4" for i
    unfolding offs(1) using read_offset_access(1) [OF ok2 that] by simp
  have "sp1_iteration cprog (read_offsets vm) (dataset_offset vm) sp (mx (mem_reg vm), ma (mem_reg vm), guest m vm) =
      Some (mx (mem_reg vm'), ma (mem_reg vm'), guest m vm')"
    using adr f(4,6,8-10) rd [of 2] rd [of 3] b(6,7,8)
    by (simp add: sp1_iteration_def sp1_load_eq registers_guest Let_def)
  moreover have "run_iteration prog sp vm = Some vm'" using f(1,4,5) b(1,2) by (simp add: run_iteration_def)
  ultimately show ?thesis using b(3-5) f(8,9) by auto
qed

lemma iterations_lockstep:
  assumes "length prog = 256" "prog_ok prog" "list_all2 instr_rel prog cprog" "host_good vm"
  shows "\<exists>vm'. run_iterations prog n sp vm = Some vm' \<and> host_good vm' \<and>
    sp1_iterations cprog (read_offsets vm) (dataset_offset vm) n sp (mx (mem_reg vm), ma (mem_reg vm), guest m vm) =
      Some (mx (mem_reg vm'), ma (mem_reg vm'), guest m vm')"
  using assms(4)
proof (induction n arbitrary: vm sp)
  case (Suc n)
  obtain vm1 where vm1: "run_iteration prog sp vm = Some vm1" "host_good vm1" "config vm1 = config vm"
    "dataset_offset vm1 = dataset_offset vm"
    "sp1_iteration cprog (read_offsets vm) (dataset_offset vm) sp (mx (mem_reg vm), ma (mem_reg vm), guest m vm) =
      Some (mx (mem_reg vm1), ma (mem_reg vm1), guest m vm1)"
    using iteration_lockstep [OF assms(1-3) Suc.prems] by blast
  from Suc.IH [OF vm1(2)] show ?case using vm1 by (simp add: read_offsets_def)
qed simp

section \<open>Programs and the hash\<close>

lemma init_lockstep:
  assumes "length en = 16" "vm_good vm" "fp_env vm \<noteq> No_env"
  shows "\<exists>vm1. init_vm en vm = Some vm1 \<and> host_good vm1 \<and> sp1_init_vm en (guest m vm) = Some (guest (mem_reg vm1) vm1)"
proof -
  obtain vm1 where vm1: "init_vm en vm = Some vm1" "vm_good vm1" using init_vm_ok [OF assms(1,2)] by blast
  then have "fp_env vm1 \<noteq> No_env" using assms by (auto simp: init_vm_def)
  moreover have "config_ok vm1"
    using vm1(1) assms(1) small_positive_float_a_num masked_a_num
    by (auto simp: init_vm_def config_ok_def both_def m128d_from_u64_def)
  moreover have "sp1_init_vm en (guest m vm) = Some (guest (mem_reg vm1) vm1)"
    using vm1(1) assms(1) by (auto simp: sp1_init_eq init_vm_def guest_def)
  ultimately show ?thesis using vm1 init_a_below by (simp add: host_good_def)
qed

lemma run_lockstep:
  assumes "vm_good vm" "fp_env vm \<noteq> No_env"
  shows "\<exists>vm'. run sd vm = Some vm' \<and> vm_good vm' \<and> fp_env vm' \<noteq> No_env \<and>
    sp1_run sd (guest m vm) = Some (guest (mem_reg vm') vm')"
proof -
  have "length (gen_program_aes_4rx4 sd 136) = 136" by (simp add: length_gen_program_aes_4rx4)
  then obtain prog :: Program and cprog where prog: "from_bytes (gen_program_aes_4rx4 sd 136) = Some prog"
    "sp1_from_bytes (gen_program_aes_4rx4 sd 136) = Some cprog"
    "cp_entropy cprog = p_entropy prog" "list_all2 instr_rel (p_program prog) (cp_instructions cprog)"
    "length (p_program prog) = 256" "length (p_entropy prog) = 16" "prog_ok (p_program prog)"
    using from_bytes_lockstep by blast
  obtain vm1 where vm1: "init_vm (p_entropy prog) vm = Some vm1" "host_good vm1"
    "sp1_init_vm (p_entropy prog) (guest m vm) = Some (guest (mem_reg vm1) vm1)"
    using init_lockstep [OF prog(6) assms(1,2)] by blast
  let ?sp = "(ucast (mx (mem_reg vm1)), ucast (ma (mem_reg vm1))) :: u32 \<times> u32"
  obtain vm' where vm': "run_iterations (p_program prog) RANDOMX_PROGRAM_ITERATIONS ?sp vm1 = Some vm'" "host_good vm'"
    "sp1_iterations (cp_instructions cprog) (read_offsets vm1) (dataset_offset vm1) RANDOMX_PROGRAM_ITERATIONS ?sp
       (mx (mem_reg vm1), ma (mem_reg vm1), guest (mem_reg vm1) vm1) =
     Some (mx (mem_reg vm'), ma (mem_reg vm'), guest (mem_reg vm1) vm')"
    using iterations_lockstep [OF prog(5,7,4) vm1(2)] by blast
  have "\<lparr> mx = mx (mem_reg vm'), ma = ma (mem_reg vm') \<rparr> = mem_reg vm'" by simp
  then have "sp1_run sd (guest m vm) = Some (guest (mem_reg vm') vm')"
    using prog(2,3) vm1(3) vm'(3) by (simp add: sp1_run_def Let_def read_offsets_def guest_upd)
  moreover have "run sd vm = Some vm'" using prog(1) vm1(1) vm'(1) by (simp add: run_def)
  ultimately show ?thesis using vm'(2) by (auto simp: host_good_def)
qed

lemma run_programs_lockstep:
  assumes "digest_length hash" "vm_good vm" "fp_env vm \<noteq> No_env"
  shows "\<exists>sd' vm' m'. run_programs hash n sd vm = Some (sd', vm') \<and> vm_good vm' \<and> fp_env vm' \<noteq> No_env \<and>
    sp1_run_programs hash n sd (guest m vm) = Some (sd', guest m' vm')"
  using assms(2,3)
proof (induction n arbitrary: sd vm m)
  case 0
  then show ?case by (intro exI [of _ sd] exI [of _ vm] exI [of _ m]) simp
next
  case (Suc n)
  obtain vm1 where vm1: "run sd vm = Some vm1" "vm_good vm1" "fp_env vm1 \<noteq> No_env"
    "sp1_run sd (guest m vm) = Some (guest (mem_reg vm1) vm1)"
    using run_lockstep [OF Suc.prems] by blast
  have "length (hash 64 (to_bytes (reg vm1))) = 64" using assms(1) by (simp add: digest_length_def)
  then obtain sd1 where sd1: "hash_to_m128i_array (hash 64 (to_bytes (reg vm1))) = Some sd1"
    using hash_to_seed_ok by blast
  from Suc.IH [OF vm1(2,3)] show ?case using vm1(1,4) sd1 by (simp add: sp1_seed_eq)
qed

lemma init_scratchpad_guest:
  "init_scratchpad sd (guest m vm) = map_option (\<lambda>(s, v). (s, guest m v)) (init_scratchpad sd vm)"
  by (cases "fill_aes_1rx4_u64 sd (length (scratchpad vm))")
     (auto simp: init_scratchpad_def guest_upd split: prod.split)

lemma hash_lockstep:
  assumes "digest_length hash" "vm_ok vm" "vm_memory_ok (mem vm)" "fp_env vm \<noteq> No_env"
  shows "\<exists>digest vm1 vm2. calculate_hash hash input vm = Some (digest, vm1) \<and>
    calculate_hash_impl hash input (guest m vm) = Some (digest, vm2) \<and> length digest = 32"
proof -
  have "length (hash 64 input) = 64" using assms(1) by (simp add: digest_length_def)
  then obtain sd where sd: "hash_to_m128i_array (hash 64 input) = Some sd" using hash_to_seed_ok by blast
  obtain sd1 pad where pad: "init_scratchpad sd vm = Some (sd1, vm\<lparr> scratchpad := pad \<rparr>)" "length pad = 262144"
    using init_scratchpad_returns [OF assms(2)] by blast
  let ?vm = "reset_rounding_mode (vm\<lparr> scratchpad := pad \<rparr>)"
  have "vm_ok (vm\<lparr> scratchpad := pad \<rparr>)" using assms(2) pad(2) by (simp add: vm_ok_def)
  then have good: "vm_good ?vm" "fp_env ?vm \<noteq> No_env"
    using assms(3,4) reset_rounding_mode_ok by (simp, simp add: reset_rounding_mode_def)
  have gpad: "init_scratchpad sd (guest m vm) = Some (sd1, guest m (vm\<lparr> scratchpad := pad \<rparr>))"
    using pad(1) by (simp add: init_scratchpad_guest)
  have greset: "reset_rounding_mode (guest m v) = guest m (reset_rounding_mode v)" for v
    by (simp add: reset_rounding_mode_def guest_def)
  obtain sd2 vm2 m2 where vm2: "run_programs hash (RANDOMX_PROGRAM_COUNT - 1) sd1 ?vm = Some (sd2, vm2)"
    "vm_good vm2" "fp_env vm2 \<noteq> No_env"
    "sp1_run_programs hash (RANDOMX_PROGRAM_COUNT - 1) sd1 (guest m ?vm) = Some (sd2, guest m2 vm2)"
    using run_programs_lockstep [OF assms(1) good] by blast
  obtain vm3 where vm3: "run sd2 vm2 = Some vm3" "vm_good vm3" "sp1_run sd2 (guest m2 vm2) = Some (guest (mem_reg vm3) vm3)"
    using run_lockstep [OF vm2(2,3)] by blast
  obtain h0 h1 h2 h3 where h: "hash_aes_1rx4 (scratchpad vm3) = Some (h0, h1, h2, h3)"
    using vm_good_sizes(4) [OF vm3(2)] by (simp add: hash_aes_1rx4_def Let_def) (metis surj_pair)
  have "length (hash RANDOMX_HASH_SIZE x) = 32" for x
    using assms(1) by (simp add: digest_length_def RANDOMX_HASH_SIZE_def)
  moreover have "length (scratchpad vm) = SCRATCHPAD_SIZE" using assms(2) by (simp add: vm_ok_def SCRATCHPAD_SIZE_def)
  ultimately show ?thesis
    using sd pad(1) gpad greset vm2(1,4) vm3(1,3) h
    by (simp add: calculate_hash_def calculate_hash_impl_def sp1_seed_eq Let_def)
qed

section \<open>Properties\<close>

text \<open>C4: The compact machine on the guest and the reference machine on a host return the same digest
  for the same hash function, memory, machine state and input.\<close>

theorem compact_hash_agrees:
  assumes "digest_length hash" "vm_ok vm" "vm_memory_ok (mem vm)" "fp_env vm \<noteq> No_env"
  shows "\<exists>digest vm1 vm2. calculate_hash hash input vm = Some (digest, vm1) \<and>
    calculate_hash_impl hash input (vm\<lparr> fp_env := No_env \<rparr>) = Some (digest, vm2) \<and> length digest = 32"
proof -
  have g: "guest (mem_reg vm) vm = vm\<lparr> fp_env := No_env \<rparr>" by (simp add: guest_def)
  show ?thesis by (rule hash_lockstep [OF assms, of input "mem_reg vm", unfolded g])
qed

theorem compact_hash_agrees_witness:
  "\<exists>digest vm1 vm2. calculate_hash zero_digest [1, 2, 3] (new_vm VmMemory_no_memory (Mxcsr 0x1f80)) = Some (digest, vm1) \<and>
     calculate_hash_impl zero_digest [1, 2, 3] ((new_vm VmMemory_no_memory (Mxcsr 0x1f80))\<lparr> fp_env := No_env \<rparr>) =
       Some (digest, vm2) \<and> length digest = 32"
proof (rule compact_hash_agrees [OF zero_digest_length new_vm_ok])
  show "vm_memory_ok (mem (new_vm VmMemory_no_memory (Mxcsr 0x1f80)))"
    using no_memory_ok by (simp add: new_vm_def vm_memory_ok_def VmMemory_no_memory_def)
qed (simp add: new_vm_def)

text \<open>C17: The two machines agree after every number of iterations of every program, from every start
  state and on every scratchpad: registers, scratchpad, rounding mode and memory registers are
  equal, with no condition on the floating-point values.\<close>

theorem iterations_agree:
  assumes "length bytes = 136" "vm_good vm" "fp_env vm \<noteq> No_env"
  shows "\<exists>prog cprog vm1 vm'. from_bytes bytes = Some prog \<and> sp1_from_bytes bytes = Some cprog \<and>
    init_vm (p_entropy prog) vm = Some vm1 \<and>
    sp1_init_vm (cp_entropy cprog) (vm\<lparr> fp_env := No_env \<rparr>) = Some (vm1\<lparr> fp_env := No_env \<rparr>) \<and>
    run_iterations (p_program prog) n sp vm1 = Some vm' \<and>
    sp1_iterations (cp_instructions cprog) (read_offsets vm1) (dataset_offset vm1) n sp
      (mx (mem_reg vm1), ma (mem_reg vm1), vm1\<lparr> fp_env := No_env \<rparr>) =
    Some (mx (mem_reg vm'), ma (mem_reg vm'), vm'\<lparr> fp_env := No_env, mem_reg := mem_reg vm1 \<rparr>)"
proof -
  obtain prog :: Program and cprog where prog: "from_bytes bytes = Some prog" "sp1_from_bytes bytes = Some cprog"
    "cp_entropy cprog = p_entropy prog" "list_all2 instr_rel (p_program prog) (cp_instructions cprog)"
    "length (p_program prog) = 256" "length (p_entropy prog) = 16" "prog_ok (p_program prog)"
    using from_bytes_lockstep [OF assms(1)] by blast
  obtain vm1 where vm1: "init_vm (p_entropy prog) vm = Some vm1" "host_good vm1"
    "sp1_init_vm (p_entropy prog) (guest (mem_reg vm) vm) = Some (guest (mem_reg vm1) vm1)"
    using init_lockstep [OF prog(6) assms(2,3)] by blast
  from iterations_lockstep [OF prog(5,7,4) vm1(2), where m = "mem_reg vm1"] obtain vm' where
    "run_iterations (p_program prog) n sp vm1 = Some vm'"
    "sp1_iterations (cp_instructions cprog) (read_offsets vm1) (dataset_offset vm1) n sp
      (mx (mem_reg vm1), ma (mem_reg vm1), guest (mem_reg vm1) vm1) =
     Some (mx (mem_reg vm'), ma (mem_reg vm'), guest (mem_reg vm1) vm')" by blast
  moreover have "guest (mem_reg v) v = v\<lparr> fp_env := No_env \<rparr>" for v by (simp add: guest_def)
  ultimately show ?thesis using prog(1-3) vm1(1,3) by (auto simp: guest_def)
qed

text \<open>The start state of the witnesses: a fresh host machine.\<close>

lemma fresh_host_good:
  "vm_good (reset_rounding_mode (new_vm VmMemory_no_memory (Mxcsr 0x1f80)))"
  "fp_env (reset_rounding_mode (new_vm VmMemory_no_memory (Mxcsr 0x1f80))) \<noteq> No_env"
proof -
  have "vm_memory_ok (mem (new_vm VmMemory_no_memory (Mxcsr 0x1f80)))"
    using no_memory_ok by (simp add: new_vm_def vm_memory_ok_def VmMemory_no_memory_def)
  then show "vm_good (reset_rounding_mode (new_vm VmMemory_no_memory (Mxcsr 0x1f80)))"
    by (rule reset_rounding_mode_ok [OF new_vm_ok])
qed (simp add: reset_rounding_mode_def new_vm_def)

theorem iterations_agree_witness:
  "\<exists>prog cprog vm1 vm'. from_bytes (replicate 136 0x80) = Some prog \<and> sp1_from_bytes (replicate 136 0x80) = Some cprog \<and>
     init_vm (p_entropy prog) (reset_rounding_mode (new_vm VmMemory_no_memory (Mxcsr 0x1f80))) = Some vm1 \<and>
     run_iterations (p_program prog) 2048 (0, 0) vm1 = Some vm' \<and>
     sp1_iterations (cp_instructions cprog) (read_offsets vm1) (dataset_offset vm1) 2048 (0, 0)
       (mx (mem_reg vm1), ma (mem_reg vm1), vm1\<lparr> fp_env := No_env \<rparr>) =
     Some (mx (mem_reg vm'), ma (mem_reg vm'), vm'\<lparr> fp_env := No_env, mem_reg := mem_reg vm1 \<rparr>)"
  using iterations_agree [OF _ fresh_host_good, of "replicate 136 0x80" 2048 "(0, 0)"] by (simp only: length_replicate) blast

text \<open>C18: No overflow. In every state between two instructions of every iteration of every program, all
  lanes of the additive registers are finite, whatever the scratchpad holds and however often
  \<open>FSCAL_R\<close> flips their exponents.\<close>

theorem additive_registers_finite:
  assumes "length bytes = 136" "from_bytes bytes = Some prog" "vm_good vm" "fp_env vm \<noteq> No_env"
    and "init_vm (p_entropy prog) vm = Some vm1" "run_iterations (p_program prog) n sp vm1 = Some vm2"
    and "sp_addresses sp' vm2 = Some (a0, a1)" "load_registers (unat a0) (unat a1) vm2 = Some vm3"
    and "loop_visits (p_program prog) (vm3\<lparr> vm_pc := 0 \<rparr>) s" "v \<in> set (reg_f (reg s))"
  shows "f64_finite (fst (as_f64 v)) \<and> f64_finite (snd (as_f64 v))"
proof -
  obtain cprog where prog: "list_all2 instr_rel (p_program prog) (cp_instructions cprog)"
    "sp1_from_bytes bytes = Some cprog" "length (p_program prog) = 256" "length (p_entropy prog) = 16" "prog_ok (p_program prog)"
    using from_bytes_lockstep [OF assms(1)] unfolding assms(2) option.inject by metis
  have "host_good vm1" using init_lockstep [OF prog(4) assms(3,4)] assms(5) by auto
  then have good2: "host_good vm2" using iterations_lockstep [OF prog(3,5,1), of vm1 n sp] assms(6) by auto
  have a: "unat a0 + 8 \<le> 262144" "unat a1 + 8 \<le> 262144"
    using sp_addresses_ok [of vm2 sp'] good2 assms(7) by (auto simp: host_good_def)
  have "host_good vm3" "f_below 0 vm3"
    using load_registers_domain(1) [OF good2 assms(8) a] load_registers_below [OF _ assms(8) a] good2
    by (auto simp: host_good_def)
  then have inv: "bound_inv (p_program prog) 0 (vm3\<lparr> vm_pc := 0 \<rparr>)"
    using prog(3,5) by (simp add: bound_inv_def machine_ok_def host_good_def vm_good_def f_below_def a_below_def)
  obtain k vm' where run: "runs (exec_step (p_program prog)) (\<lambda>vm. vm_pc vm < 256) k (vm3\<lparr> vm_pc := 0 \<rparr>) vm'" "k \<le> 768"
    using ref.loop_bound [of "p_program prog" "vm3\<lparr> vm_pc := 0 \<rparr>"] inv by (auto simp: bound_inv_def)
  have "f_below 768 s" using visits_below [OF run(1) inv _ assms(9)] run(2) by simp
  then show ?thesis using f_below_finite [of 768 s v] assms(10) by (simp add: both_def)
qed

theorem additive_registers_finite_witness:
  "\<exists>prog vm1 vm2 a0 a1 vm3 vm4. from_bytes (replicate 136 0x80) = Some prog \<and>
     init_vm (p_entropy prog) (reset_rounding_mode (new_vm VmMemory_no_memory (Mxcsr 0x1f80))) = Some vm1 \<and>
     run_iterations (p_program prog) 2047 (0, 0) vm1 = Some vm2 \<and> sp_addresses (0, 0) vm2 = Some (a0, a1) \<and>
     load_registers (unat a0) (unat a1) vm2 = Some vm3 \<and>
     exec_loop (p_program prog) (vm3\<lparr> vm_pc := 0 \<rparr>) = Some vm4 \<and>
     f64_finite (fst (as_f64 (reg_f (reg vm4) ! 3))) \<and> f64_finite (snd (as_f64 (reg_f (reg vm4) ! 3)))"
proof -
  let ?bytes = "replicate 136 (0x80 :: m128i)"
  have len: "length ?bytes = 136" by (rule length_replicate)
  obtain prog :: Program where prog: "from_bytes ?bytes = Some prog" "length (p_program prog) = 256"
    "length (p_entropy prog) = 16" "prog_ok (p_program prog)"
    using from_bytes_ok [OF len] by blast
  obtain vm1 where vm1: "init_vm (p_entropy prog) (reset_rounding_mode (new_vm VmMemory_no_memory (Mxcsr 0x1f80))) = Some vm1"
    "vm_good vm1"
    using init_vm_ok [OF prog(3) fresh_host_good(1)] by blast
  obtain vm2 where vm2: "run_iterations (p_program prog) 2047 (0, 0) vm1 = Some vm2" "vm_good vm2"
    using run_iterations_ok [OF prog(2,4) vm1(2)] by blast
  obtain a0 a1 where a: "sp_addresses (0, 0) vm2 = Some (a0, a1)" "unat a0 + 8 \<le> 262144" "unat a1 + 8 \<le> 262144"
    using sp_addresses_ok [OF vm2(2)] by blast
  obtain vm3 where vm3: "load_registers (unat a0) (unat a1) vm2 = Some vm3" "vm_good vm3"
    using load_registers_ok [OF vm2(2) a(2,3)] by blast
  have "machine_ok (p_program prog) (vm3\<lparr> vm_pc := 0 \<rparr>)" "vm_good (vm3\<lparr> vm_pc := 0 \<rparr>)"
    using prog(2,4) vm3(2) vm_good_upd(6) [OF vm3(2)] by (simp_all add: machine_ok_def vm_good_def)
  then obtain k vm4 where vm4: "runs (exec_step (p_program prog)) (\<lambda>vm. vm_pc vm < 256) k (vm3\<lparr> vm_pc := 0 \<rparr>) vm4"
    "exec_loop (p_program prog) (vm3\<lparr> vm_pc := 0 \<rparr>) = Some vm4" "vm_good vm4"
    using exec_loop_ok by fastforce
  have "reg_f (reg vm4) ! 3 \<in> set (reg_f (reg vm4))" using vm_good_sizes(2) [OF vm4(3)] by simp
  then show ?thesis
    using additive_registers_finite [OF len prog(1) fresh_host_good vm1(1) vm2(1) a(1) vm3(1) runs_visits [OF vm4(1)]]
      prog(1) vm1(1) vm2(1) a(1) vm3(1) vm4(2) by blast
qed

text \<open>C19: One instruction. Every word decodes in both machines, with the same register-usage table, and
  executing the two instructions from the same state gives the same state: integer, memory, branch
  and rounding-mode instructions always, floating-point instructions for every value of the
  constant, multiplicative and additive registers in their domains.\<close>

theorem compact_instruction_agrees:
  assumes "host_ok vm" "config_ok vm" "e_ok vm" "f_ok vm"
  shows "\<exists>ins c usage' vm'. decode_instruction w i usage = Some (ins, usage') \<and>
    sp1_decode_instruction w i usage = Some (c, usage') \<and> instr_execute ins vm = Some vm' \<and>
    c_execute c (vm\<lparr> fp_env := No_env \<rparr>) = Some (vm'\<lparr> fp_env := No_env \<rparr>)"
proof -
  obtain ins usage' where d: "decode_instruction w i usage = Some (ins, usage')" using decode_total by blast
  then obtain c where c: "sp1_decode_instruction w i usage = Some (c, usage')" "instr_rel ins c"
    using decode_lockstep [of w i usage] by (auto simp: decode_match_def)
  have ok: "vm_ok vm" "instr_ok ins" using assms(1) decode_instr_ok [OF d] by (simp_all add: host_ok_def)
  obtain vm' where vm': "instr_execute ins vm = Some vm'" "mem_reg vm' = mem_reg vm"
  proof (cases "i_effect ins = Vm_exec_cbranch")
    case True
    then show ?thesis using cbranch_ok [OF ok True] that by auto
  next
    case False
    then show ?thesis using exec_ok [OF ok False] that by (auto simp: step_ok_def vm_frame_def)
  qed
  have g: "guest (mem_reg vm) vm = vm\<lparr> fp_env := No_env \<rparr>" "guest (mem_reg vm) vm' = vm'\<lparr> fp_env := No_env \<rparr>"
    using vm'(2) by (simp_all add: guest_def flip: vm'(2))
  have "c_execute c (vm\<lparr> fp_env := No_env \<rparr>) = Some (vm'\<lparr> fp_env := No_env \<rparr>)"
    using instruction_lockstep [OF assms ok(2) c(2), of "mem_reg vm"] unfolding vm'(1) g option.map .
  then show ?thesis using d c(1) vm'(1) by blast
qed

text \<open>The domain conditions hold, for instance, in the state a program starts from.\<close>

lemma init_state_domain:
  assumes "init_vm (replicate 16 0) (new_vm VmMemory_no_memory (Mxcsr 0)) = Some vm"
  shows "host_ok vm" "config_ok vm" "e_ok vm" "f_ok vm"
proof -
  have "vm_good (new_vm VmMemory_no_memory (Mxcsr 0))"
    using new_vm_ok no_memory_ok
    by (auto simp: vm_good_def new_vm_def vm_memory_ok_def VmMemory_no_memory_def env_sync_def get_rounding_mode_def from_fprc_def)
  moreover have "fp_env (new_vm VmMemory_no_memory (Mxcsr 0)) \<noteq> No_env" by (simp add: new_vm_def)
  ultimately have "host_good vm"
    using init_lockstep [of "replicate 16 0" "new_vm VmMemory_no_memory (Mxcsr 0)"] assms by auto
  then show "host_ok vm" "config_ok vm" by (simp_all add: host_good_def vm_good_def host_ok_def)
  have "reg_e (reg vm) = replicate 4 m128d_zero" "reg_f (reg vm) = replicate 4 m128d_zero"
    using assms by (auto simp: init_vm_def new_vm_def new_register_def MAX_FLOAT_REG_def)
  then show "e_ok vm" "f_ok vm"
    by (simp_all add: e_ok_def f_ok_def both_def m128d_zero_def e_num_def f_num_def f64_idx_def f64_neg_def)
qed

theorem compact_instruction_agrees_witness:
  "\<exists>vm ins c usage' vm'. init_vm (replicate 16 0) (new_vm VmMemory_no_memory (Mxcsr 0)) = Some vm \<and>
     decode_instruction 0x80 3 (replicate 8 (-1)) = Some (ins, usage') \<and>
     sp1_decode_instruction 0x80 3 (replicate 8 (-1)) = Some (c, usage') \<and> instr_execute ins vm = Some vm' \<and>
     c_execute c (vm\<lparr> fp_env := No_env \<rparr>) = Some (vm'\<lparr> fp_env := No_env \<rparr>)"
proof -
  obtain vm where vm: "init_vm (replicate 16 0) (new_vm VmMemory_no_memory (Mxcsr 0)) = Some vm"
    by (simp add: init_vm_def)
  then show ?thesis
    using compact_instruction_agrees [OF init_state_domain [OF vm], of "0x80" 3 "replicate 8 (-1)"] by blast
qed

end
