(* ===== verification/RustStd.thy ===== *)
theory RustStd
  imports Prelude
begin

text \<open>
  The parts of the Rust standard library that the host-side tools use: strings as their UTF-8
  bytes, slicing at character boundaries, \<open>from_utf8\<close>, \<open>strip_prefix\<close>,
  \<open>trim\<close>, \<open>from_str_radix\<close>, decimal and hexadecimal formatting, and the outcome
  of a call that may return an error or panic. The lemmas give the arithmetic meaning of the
  integer parser and show that parsing inverts formatting.
\<close>

section \<open>Outcomes\<close>

text \<open>The outcome of a call of type \<open>Result\<close> that may also panic.\<close>

datatype ('a, 'e) result = Ok 'a | Err 'e | Panic

primrec and_then :: "('a, 'e) result \<Rightarrow> ('a \<Rightarrow> ('b, 'e) result) \<Rightarrow> ('b, 'e) result" where
  "and_then (Ok x) f = f x"
| "and_then (Err e) f = Err e"
| "and_then Panic f = Panic"

primrec map_err :: "('e \<Rightarrow> 'f) \<Rightarrow> ('a, 'e) result \<Rightarrow> ('a, 'f) result" where
  "map_err f (Ok x) = Ok x"
| "map_err f (Err e) = Err (f e)"
| "map_err f Panic = Panic"

text \<open>\<open>expect\<close> and \<open>unwrap\<close>; \<open>assert\<close> panics.\<close>

primrec expect :: "('a, 'e) result \<Rightarrow> ('a, 'f) result" where
  "expect (Ok x) = Ok x"
| "expect (Err e) = Panic"
| "expect Panic = Panic"

definition assert_that :: "bool \<Rightarrow> (unit, 'e) result" where
  "assert_that b = (if b then Ok () else Panic)"

text \<open>\<open>bail!\<close> under a condition, and \<open>context\<close> on an option.\<close>

definition bail_if :: "bool \<Rightarrow> 'e \<Rightarrow> (unit, 'e) result" where
  "bail_if b e = (if b then Err e else Ok ())"

definition ok_or :: "'e \<Rightarrow> 'a option \<Rightarrow> ('a, 'e) result" where
  "ok_or e x = (case x of None \<Rightarrow> Err e | Some y \<Rightarrow> Ok y)"

text \<open>A loop that collects its results and stops at the first one that is not \<open>Ok\<close>.\<close>

primrec traverse :: "('a \<Rightarrow> ('b, 'e) result) \<Rightarrow> 'a list \<Rightarrow> ('b list, 'e) result" where
  "traverse f [] = Ok []"
| "traverse f (x # xs) = and_then (f x) (\<lambda>y. and_then (traverse f xs) (\<lambda>ys. Ok (y # ys)))"

text \<open>A loop with a state that stops at the first outcome that is not \<open>Ok\<close>.\<close>

primrec foldl_result :: "('a \<Rightarrow> 's \<Rightarrow> ('s, 'e) result) \<Rightarrow> 'a list \<Rightarrow> 's \<Rightarrow> ('s, 'e) result" where
  "foldl_result f [] s = Ok s"
| "foldl_result f (x # xs) s = and_then (f x s) (foldl_result f xs)"

lemma and_then_eq_Ok_conv:
  "and_then m f = Ok y \<longleftrightarrow> (\<exists>x. m = Ok x \<and> f x = Ok y)"
  by (cases m) auto

lemma and_then_eq_Panic_conv:
  "and_then m f = Panic \<longleftrightarrow> m = Panic \<or> (\<exists>x. m = Ok x \<and> f x = Panic)"
  by (cases m) auto

lemma and_then_eq_Err_conv:
  "and_then m f = Err e \<longleftrightarrow> m = Err e \<or> (\<exists>x. m = Ok x \<and> f x = Err e)"
  by (cases m) auto

lemma map_err_eq_conv [simp]:
  "map_err f m = Ok y \<longleftrightarrow> m = Ok y" "map_err f m = Panic \<longleftrightarrow> m = Panic"
  "map_err f m = Err e \<longleftrightarrow> (\<exists>e'. m = Err e' \<and> e = f e')"
  by (cases m; auto)+

lemma expect_eq_conv [simp]: "expect m = Ok y \<longleftrightarrow> m = Ok y" "expect m \<noteq> Err e"
  by (cases m; simp)+

lemma assert_that_conv [simp]: "assert_that b = Ok u \<longleftrightarrow> b" "assert_that b \<noteq> Err e"
  by (simp_all add: assert_that_def)

lemma bail_if_conv [simp]:
  "bail_if b e = Ok u \<longleftrightarrow> \<not> b" "bail_if b e \<noteq> Panic" "bail_if b e = Err e' \<longleftrightarrow> b \<and> e' = e"
  by (auto simp: bail_if_def)

lemma ok_or_conv [simp]:
  "ok_or e m = Ok y \<longleftrightarrow> m = Some y" "ok_or e m \<noteq> Panic"
  "ok_or e m = Err e' \<longleftrightarrow> m = None \<and> e' = e"
  by (auto simp: ok_or_def split: option.splits)

lemma ok_or_simps [simp]: "ok_or e (Some y) = Ok y" "ok_or e None = Err e"
  by (simp_all add: ok_or_def)

lemma bail_if_simps [simp]: "bail_if False e = Ok ()" "bail_if True e = Err e"
  by (simp_all add: bail_if_def)

lemma assert_that_simps [simp]: "assert_that True = Ok ()" "assert_that False = Panic"
  by (simp_all add: assert_that_def)

lemma traverse_eq_Ok_iff:
  "traverse f xs = Ok ys \<longleftrightarrow> list_all2 (\<lambda>x y. f x = Ok y) xs ys"
proof (induction xs arbitrary: ys)
  case (Cons x xs)
  then show ?case by (cases ys) (auto simp: and_then_eq_Ok_conv)
qed auto

lemma length_traverse: "traverse f xs = Ok ys \<Longrightarrow> length ys = length xs"
  by (simp add: traverse_eq_Ok_iff list_all2_lengthD)

lemma traverse_eq_Panic_iff:
  "traverse f xs = Panic \<longleftrightarrow>
     (\<exists>n < length xs. f (xs ! n) = Panic \<and> (\<forall>k < n. \<exists>y. f (xs ! k) = Ok y))"
proof (induction xs)
  case (Cons x xs)
  show ?case
  proof (cases "f x")
    case (Ok y)
    then show ?thesis
      by (simp add: and_then_eq_Panic_conv Cons.IH Ex_less_Suc2 All_less_Suc2)
  next
    case (Err e)
    then show ?thesis by (auto simp: less_Suc_eq_0_disj)
  qed auto
qed simp

section \<open>Strings\<close>

text \<open>A \<open>str\<close> is the list of its UTF-8 bytes; a literal is given by its ASCII characters.\<close>

type_synonym str = "u8 list"

definition lit :: "string \<Rightarrow> str" where
  "lit s = map of_char s"

definition is_cont :: "u8 \<Rightarrow> bool" where
  "is_cont b \<longleftrightarrow> 0x80 \<le> b \<and> b \<le> 0xbf"

text \<open>\<open>std::str::from_utf8\<close> accepts exactly the well-formed byte sequences of the Unicode
  standard.\<close>

fun utf8_valid :: "u8 list \<Rightarrow> bool" where
  "utf8_valid [] = True"
| "utf8_valid (a # s) =
     (if a < 0x80 then utf8_valid s
      else case s of
        [] \<Rightarrow> False
      | b # s \<Rightarrow>
          (if 0xc2 \<le> a \<and> a \<le> 0xdf then is_cont b \<and> utf8_valid s
           else case s of
             [] \<Rightarrow> False
           | c # s \<Rightarrow>
               (if 0xe0 \<le> a \<and> a \<le> 0xef
                then is_cont b \<and> is_cont c \<and> (a = 0xe0 \<longrightarrow> 0xa0 \<le> b) \<and> (a = 0xed \<longrightarrow> b \<le> 0x9f)
                     \<and> utf8_valid s
                else case s of
                  [] \<Rightarrow> False
                | d # s \<Rightarrow>
                    0xf0 \<le> a \<and> a \<le> 0xf4 \<and> is_cont b \<and> is_cont c \<and> is_cont d
                    \<and> (a = 0xf0 \<longrightarrow> 0x90 \<le> b) \<and> (a = 0xf4 \<longrightarrow> b \<le> 0x8f) \<and> utf8_valid s)))"

definition from_utf8 :: "u8 list \<Rightarrow> (str, unit) result" where
  "from_utf8 bs = (if utf8_valid bs then Ok bs else Err ())"

text \<open>\<open>&s[a..b]\<close> panics unless both ends are character boundaries of the string.\<close>

definition is_char_boundary :: "str \<Rightarrow> nat \<Rightarrow> bool" where
  "is_char_boundary s i \<longleftrightarrow> i = 0 \<or> i = length s \<or> (i < length s \<and> \<not> is_cont (s ! i))"

definition str_slice :: "str \<Rightarrow> nat \<Rightarrow> nat \<Rightarrow> (str, 'e) result" where
  "str_slice s a b =
     (if a \<le> b \<and> is_char_boundary s a \<and> is_char_boundary s b then Ok (take (b - a) (drop a s))
      else Panic)"

definition strip_prefix :: "str \<Rightarrow> str \<Rightarrow> str option" where
  "strip_prefix p s = (if take (length p) s = p then Some (drop (length p) s) else None)"

definition starts_with :: "str \<Rightarrow> str \<Rightarrow> bool" where
  "starts_with p s \<longleftrightarrow> take (length p) s = p"

text \<open>\<open>trim_start_matches\<close> drops a prefix as often as it occurs.\<close>

function trim_start_matches :: "str \<Rightarrow> str \<Rightarrow> str" where
  "trim_start_matches p s =
     (if p \<noteq> [] \<and> starts_with p s then trim_start_matches p (drop (length p) s) else s)"
  by pat_completeness auto
termination
proof (relation "measure (\<lambda>(p, s). length s)", simp)
  fix p s :: str
  assume a: "p \<noteq> [] \<and> starts_with p s"
  then have "s \<noteq> []" by (auto simp: starts_with_def)
  then show "((p, drop (length p) s), p, s) \<in> measure (\<lambda>(p, s). length s)"
    using a by auto
qed

declare trim_start_matches.simps [simp del]

text \<open>The encodings of the characters with the Unicode property \<open>White_Space\<close>.\<close>

definition white_space :: "str list" where
  "white_space =
     [[0x09], [0x0a], [0x0b], [0x0c], [0x0d], [0x20], [0xc2, 0x85], [0xc2, 0xa0],
      [0xe1, 0x9a, 0x80], [0xe2, 0x80, 0x80], [0xe2, 0x80, 0x81], [0xe2, 0x80, 0x82],
      [0xe2, 0x80, 0x83], [0xe2, 0x80, 0x84], [0xe2, 0x80, 0x85], [0xe2, 0x80, 0x86],
      [0xe2, 0x80, 0x87], [0xe2, 0x80, 0x88], [0xe2, 0x80, 0x89], [0xe2, 0x80, 0x8a],
      [0xe2, 0x80, 0xa8], [0xe2, 0x80, 0xa9], [0xe2, 0x80, 0xaf], [0xe2, 0x81, 0x9f],
      [0xe3, 0x80, 0x80]]"

function drop_any :: "str list \<Rightarrow> str \<Rightarrow> str" where
  "drop_any ps s =
     (case find (\<lambda>p. p \<noteq> [] \<and> starts_with p s) ps of
        None \<Rightarrow> s
      | Some p \<Rightarrow> drop_any ps (drop (length p) s))"
  by pat_completeness auto
termination
proof (relation "measure (\<lambda>(ps, s). length s)", simp)
  fix ps :: "str list" and s p :: str
  assume "find (\<lambda>p. p \<noteq> [] \<and> starts_with p s) ps = Some p"
  then have a: "p \<noteq> [] \<and> starts_with p s" by (auto simp: find_Some_iff)
  then have "s \<noteq> []" by (auto simp: starts_with_def)
  then show "((ps, drop (length p) s), ps, s) \<in> measure (\<lambda>(ps, s). length s)"
    using a by auto
qed

declare drop_any.simps [simp del]

definition trim :: "str \<Rightarrow> str" where
  "trim s = rev (drop_any (map rev white_space) (rev (drop_any white_space s)))"

section \<open>Integer parsing\<close>

datatype IntErrorKind = EmptyInt | InvalidDigit | PosOverflow

definition to_digit :: "nat \<Rightarrow> u8 \<Rightarrow> nat option" where
  "to_digit radix b =
     (let c = unat b;
          d = (if 48 \<le> c \<and> c \<le> 57 then Some (c - 48)
               else if 97 \<le> c \<and> c \<le> 122 then Some (c - 97 + 10)
               else if 65 \<le> c \<and> c \<le> 90 then Some (c - 65 + 10) else None)
      in case d of None \<Rightarrow> None | Some n \<Rightarrow> if n < radix then Some n else None)"

definition checked_mul :: "'a::len word \<Rightarrow> 'a word \<Rightarrow> 'a word option" where
  "checked_mul a b = (if unat a * unat b < 2 ^ LENGTH('a) then Some (a * b) else None)"

definition checked_add :: "'a::len word \<Rightarrow> 'a word \<Rightarrow> 'a word option" where
  "checked_add a b = (if unat a + unat b < 2 ^ LENGTH('a) then Some (a + b) else None)"

primrec parse_digits :: "nat \<Rightarrow> u8 list \<Rightarrow> 'a::len word \<Rightarrow> ('a word, IntErrorKind) result" where
  "parse_digits radix [] r = Ok r"
| "parse_digits radix (c # cs) r =
     (case to_digit radix c of
        None \<Rightarrow> Err InvalidDigit
      | Some x \<Rightarrow>
          (case checked_mul r (of_nat radix) of
             None \<Rightarrow> Err PosOverflow
           | Some m \<Rightarrow>
               (case checked_add m (of_nat x) of
                  None \<Rightarrow> Err PosOverflow
                | Some r' \<Rightarrow> parse_digits radix cs r')))"

text \<open>\<open>from_str_radix\<close> of an unsigned type: one leading plus sign is dropped, a lone sign is
  an invalid digit.\<close>

definition from_str_radix :: "nat \<Rightarrow> str \<Rightarrow> ('a::len word, IntErrorKind) result" where
  "from_str_radix radix src =
     (case src of
        [] \<Rightarrow> Err EmptyInt
      | c # cs \<Rightarrow>
          if cs = [] \<and> (c = 43 \<or> c = 45) then Err InvalidDigit
          else if c = 43 then parse_digits radix cs 0
          else parse_digits radix src 0)"

text \<open>The value of a sequence of digits.\<close>

definition digits_value :: "nat \<Rightarrow> nat list \<Rightarrow> nat \<Rightarrow> nat" where
  "digits_value radix ds a = foldl (\<lambda>a d. a * radix + d) a ds"

lemma digits_value_simps [simp]:
  "digits_value radix [] a = a"
  "digits_value radix (d # ds) a = digits_value radix ds (a * radix + d)"
  by (simp_all add: digits_value_def)

lemma digits_value_ge: "0 < radix \<Longrightarrow> a \<le> digits_value radix ds a"
proof (induction ds arbitrary: a)
  case (Cons d ds)
  have "a \<le> a * radix + d" using Cons.prems by (cases radix) auto
  also have "\<dots> \<le> digits_value radix ds (a * radix + d)" using Cons by blast
  finally show ?case by simp
qed simp

lemma to_digit_less: "to_digit radix b = Some d \<Longrightarrow> d < radix"
  by (auto simp: to_digit_def Let_def split: option.splits if_splits)

lemma parse_digits_not_Panic [simp]: "parse_digits radix cs r \<noteq> Panic"
  by (induction cs arbitrary: r) (auto split: option.splits)

lemma from_str_radix_not_Panic [simp]: "from_str_radix radix src \<noteq> Panic"
proof (cases src)
  case (Cons c cs)
  then show ?thesis by (simp add: from_str_radix_def del: parse_digits.simps)
qed (simp add: from_str_radix_def)

text \<open>The parser accepts exactly the digit sequences whose value fits the type.\<close>

lemma unat_of_nat_less: "n < 2 ^ LENGTH('a) \<Longrightarrow> unat (of_nat n :: 'a::len word) = n"
  by (simp add: unat_of_nat)

lemma parse_digits_eq_Ok_iff:
  fixes w r :: "'a::len word"
  assumes radix: "0 < radix" "radix < 2 ^ LENGTH('a)"
  shows "parse_digits radix cs r = Ok w \<longleftrightarrow>
    (\<exists>ds. map (to_digit radix) cs = map Some ds \<and> unat w = digits_value radix ds (unat r))"
proof (induction cs arbitrary: r)
  case Nil
  show ?case by (auto simp: word_unat_eq_iff)
next
  case (Cons c cs)
  have ur: "unat (of_nat radix :: 'a word) = radix"
    using radix(2) by (simp add: unat_of_nat_less)
  show ?case
  proof (cases "to_digit radix c")
    case None
    then show ?thesis by (auto simp: Cons_eq_map_conv)
  next
    case (Some x)
    have x: "x < radix" using Some by (rule to_digit_less)
    then have ux: "unat (of_nat x :: 'a word) = x" using radix(2) by (simp add: unat_of_nat_less)
    have split: "(\<exists>ds. map (to_digit radix) (c # cs) = map Some ds \<and>
          unat w = digits_value radix ds (unat r)) \<longleftrightarrow>
        (\<exists>ds. map (to_digit radix) cs = map Some ds \<and>
          unat w = digits_value radix ds (unat r * radix + x))"
      using Some by (auto simp: Cons_eq_map_conv)
    show ?thesis
    proof (cases "unat r * radix + x < 2 ^ LENGTH('a)")
      case True
      then have m: "checked_mul r (of_nat radix) = Some (r * of_nat radix)"
        "unat (r * of_nat radix) = unat r * radix"
        by (simp_all add: checked_mul_def ur unat_mult_bounded)
      then have a: "checked_add (r * of_nat radix) (of_nat x) = Some (r * of_nat radix + of_nat x)"
        "unat (r * of_nat radix + of_nat x) = unat r * radix + x"
        using True by (simp_all add: checked_add_def ux unat_add_bounded)
      show ?thesis unfolding split using Some by (simp add: m a Cons.IH)
    next
      case False
      have "parse_digits radix (c # cs) r = Err PosOverflow"
      proof (cases "unat r * radix < 2 ^ LENGTH('a)")
        case True
        then have "checked_mul r (of_nat radix) = Some (r * of_nat radix)"
          "unat (r * of_nat radix) = unat r * radix"
          by (simp_all add: checked_mul_def ur unat_mult_bounded)
        then show ?thesis using False Some by (simp add: checked_add_def ux)
      qed (simp add: Some checked_mul_def ur)
      moreover have "unat w \<noteq> digits_value radix ds (unat r * radix + x)" for ds
        using False digits_value_ge [OF radix(1), of "unat r * radix + x" ds]
          unsigned_less [of w, where 'a = nat]
        by linarith
      ultimately show ?thesis unfolding split by simp
    qed
  qed
qed

section \<open>Integer formatting\<close>

definition hex_digit :: "nat \<Rightarrow> u8" where
  "hex_digit n = of_nat (if n < 10 then 48 + n else 87 + n)"

text \<open>The formats \<open>{:02x}\<close> of a byte, \<open>{}\<close> of an unsigned integer and
  \<open>{:0w}\<close> with a width.\<close>

definition format_02x :: "u8 \<Rightarrow> str" where
  "format_02x b = [hex_digit (unat b div 16), hex_digit (unat b mod 16)]"

function format_dec :: "nat \<Rightarrow> str" where
  "format_dec n =
     (if n < 10 then [of_nat (48 + n)] else format_dec (n div 10) @ [of_nat (48 + n mod 10)])"
  by pat_completeness auto
termination
  by (relation "measure id") auto

declare format_dec.simps [simp del]

definition format_dec_pad :: "nat \<Rightarrow> nat \<Rightarrow> str" where
  "format_dec_pad w n = replicate (w - length (format_dec n)) 48 @ format_dec n"

lemma unat_hex_digit:
  "n < 16 \<Longrightarrow> unat (hex_digit n) = (if n < 10 then 48 + n else 87 + n)"
  unfolding hex_digit_def by (rule unat_of_nat_less) simp

lemma unat_dec_digit: "n < 10 \<Longrightarrow> unat (of_nat (48 + n) :: u8) = 48 + n"
  by (rule unat_of_nat_less) simp

lemma to_digit_hex_digit: "n < 16 \<Longrightarrow> to_digit 16 (hex_digit n) = Some n"
  by (simp add: to_digit_def unat_hex_digit)

lemma to_digit_dec_digit: "n < 10 \<Longrightarrow> to_digit 10 (of_nat (48 + n)) = Some n"
  by (simp only: to_digit_def unat_dec_digit Let_def) simp

lemma hex_digit_ascii: "n < 16 \<Longrightarrow> hex_digit n < 0x80"
  by (simp add: word_less_nat_alt unat_hex_digit)

lemma hex_digit_not_plus: "n < 16 \<Longrightarrow> hex_digit n \<noteq> 43"
  using unat_hex_digit [of n] by (auto split: if_splits)

lemma from_str_radix_02x: "from_str_radix 16 (format_02x b) = Ok b"
proof -
  have d: "unat b div 16 < 16" using unat_lt_u8 [of b] by (simp add: div_less_iff_less_mult)
  have "parse_digits 16 (format_02x b) (0 :: u8) = Ok b"
    using d by (subst parse_digits_eq_Ok_iff)
      (auto intro!: exI [of _ "[unat b div 16, unat b mod 16]"]
        simp: format_02x_def to_digit_hex_digit)
  then show ?thesis
    using hex_digit_not_plus [OF d]
    by (simp add: from_str_radix_def format_02x_def del: parse_digits.simps)
qed

end
