(* ===== verification/Monero.thy ===== *)
theory Monero
  imports RustStd
begin

text \<open>
  Model of \<open>audit/src/monero.rs\<close>: hexadecimal decoding and encoding, the CryptoNote
  varint, the 64-bit difficulty test, the CryptoNote tree hash and the block hashing blob. A string
  is the list of its UTF-8 bytes, an error message is a constructor that carries the values it
  interpolates, and \<open>Panic\<close> is a failed assertion, \<open>expect\<close> or slice. Keccak-256
  (the \<open>tiny-keccak\<close> package) is the parameter \<open>keccak\<close>.
\<close>

section \<open>Data\<close>

definition HASH_BYTES :: nat where
  "HASH_BYTES = 32"

record RpcBlockRecord =
  height :: u64
  block_id :: str
  major_version :: u64
  minor_version :: u64
  timestamp :: u64
  prev_hash :: str
  nonce :: u32
  miner_tx_hash :: str
  tx_hashes :: "str list"
  wide_difficulty :: str

record MoneroBlockFixture =
  fx_height :: u64
  fx_block_id :: str
  fx_prev_hash :: str
  fx_timestamp :: u64
  fx_wide_difficulty :: str
  fx_hashing_blob :: str
  fx_pow_hash :: str

record MoneroBlockFixtures =
  fx_network :: str
  fx_rpc_endpoint :: str
  fx_seed_height :: u64
  fx_seed_hash :: str
  fx_blocks :: "MoneroBlockFixture list"

datatype monero_error =
    ExpectedHexCharacters nat nat
  | InvalidHexAtByte nat str
  | OddHexLength nat
  | InvalidDifficulty str

section \<open>Hexadecimal text\<close>

definition decode_hex :: "nat \<Rightarrow> str \<Rightarrow> (u8 list, monero_error) result" where
  "decode_hex N value =
     (if length value \<noteq> N * 2 then Err (ExpectedHexCharacters (N * 2) (length value))
      else traverse
        (\<lambda>index.
           let offset = index * 2
           in and_then (str_slice value offset (offset + 2))
                (\<lambda>digits. map_err (\<lambda>_. InvalidHexAtByte index value) (from_str_radix 16 digits)))
        [0..<N])"

definition decode_hex_vec :: "str \<Rightarrow> (u8 list, monero_error) result" where
  "decode_hex_vec value =
     (if length value mod 2 \<noteq> 0 then Err (OddHexLength (length value))
      else traverse
        (\<lambda>(index, pair).
           and_then (expect (from_utf8 pair))
             (\<lambda>pair. map_err (\<lambda>_. InvalidHexAtByte index value) (from_str_radix 16 pair)))
        (List.enumerate 0 (chunks_exact 2 value)))"

definition encode_hex :: "u8 list \<Rightarrow> str" where
  "encode_hex bytes = foldl (\<lambda>output byte. output @ format_02x byte) [] bytes"

section \<open>Hashing and difficulty\<close>

definition cn_fast_hash :: "(u8 list \<Rightarrow> u8 list) \<Rightarrow> u8 list \<Rightarrow> u8 list" where
  "cn_fast_hash keccak input = keccak input"

function append_varint :: "u64 \<Rightarrow> u8 list \<Rightarrow> u8 list" where
  "append_varint value output =
     (if value \<ge> 0x80 then append_varint (drop_bit 7 value) (output @ [ucast value OR 0x80])
      else output @ [ucast value])"
  by pat_completeness auto
termination
proof (relation "measure (\<lambda>(value, output). unat value)", simp)
  fix v :: u64 and out :: "u8 list"
  assume "v \<ge> 0x80"
  then show "((drop_bit 7 v, out @ [ucast v OR 0x80]), v, out) \<in> measure (\<lambda>(v, out). unat v)"
    by (simp add: unat_drop_bit word_le_nat_alt)
qed

declare append_varint.simps [simp del]

definition blob_object_hash :: "(u8 list \<Rightarrow> u8 list) \<Rightarrow> u8 list \<Rightarrow> u8 list" where
  "blob_object_hash keccak blob =
     (let serialized = append_varint (of_nat (length blob)) [];
          serialized = serialized @ blob
      in cn_fast_hash keccak serialized)"

definition meets_difficulty :: "u8 list \<Rightarrow> u64 \<Rightarrow> bool" where
  "meets_difficulty hash difficulty =
     (let carry = foldl
        (\<lambda>carry chunk.
           let limb = from_le_bytes chunk :: u64;
               product = (ucast limb :: u128) * ucast difficulty + carry
           in drop_bit 64 product)
        (0 :: u128) (chunks_exact 8 hash)
      in carry = 0)"

definition parse_wide_difficulty :: "str \<Rightarrow> (u64, monero_error) result" where
  "parse_wide_difficulty value =
     (let digits = (case strip_prefix (lit ''0x'') value of
                      Some d \<Rightarrow> d
                    | None \<Rightarrow> (case strip_prefix (lit ''0X'') value of
                                 Some d \<Rightarrow> d
                               | None \<Rightarrow> value))
      in map_err (\<lambda>_. InvalidDifficulty value) (from_str_radix 16 digits))"

text \<open>\<open>randomx_seed_height\<close> of \<open>audit/src/network_fixtures.rs\<close>.\<close>

definition randomx_seed_height :: "u64 \<Rightarrow> u64" where
  "randomx_seed_height block_height =
     (if block_height \<le> 2048 + 64 then 0 else (block_height - 64 - 1) AND NOT (2048 - 1))"

section \<open>The tree hash\<close>

definition hash_pair :: "(u8 list \<Rightarrow> u8 list) \<Rightarrow> u8 list \<Rightarrow> u8 list \<Rightarrow> u8 list" where
  "hash_pair keccak left right = cn_fast_hash keccak (left @ right)"

text \<open>The loop that finds the width of the first full level. It starts at one and doubles, so the
  first conjunct, which makes the recursion total, always holds.\<close>

function level_len_loop :: "nat \<Rightarrow> nat \<Rightarrow> nat" where
  "level_len_loop count level_len =
     (if 0 < level_len \<and> level_len * 2 < count then level_len_loop count (level_len * 2)
      else level_len)"
  by pat_completeness auto
termination
  by (relation "measure (\<lambda>(count, level_len). count - level_len)") auto

text \<open>The loop over \<open>level[direct..]\<close>: \<open>n\<close> destinations, each the hash of the next
  two sources. \<open>None\<close> is an index out of bounds.\<close>

primrec fill_level ::
    "(u8 list \<Rightarrow> u8 list) \<Rightarrow> u8 list list \<Rightarrow> nat \<Rightarrow> nat \<Rightarrow> (u8 list list \<times> nat) option" where
  "fill_level keccak hashes 0 source = Some ([], source)"
| "fill_level keccak hashes (Suc n) source =
     (if source + 1 < length hashes
      then map_option (\<lambda>(rest, end). (hash_pair keccak (hashes ! source) (hashes ! (source + 1)) # rest, end))
             (fill_level keccak hashes n (source + 2))
      else None)"

definition reduce_level ::
    "(u8 list \<Rightarrow> u8 list) \<Rightarrow> nat \<Rightarrow> u8 list list \<Rightarrow> u8 list list option" where
  "reduce_level keccak level_len level =
     foldl_option
       (\<lambda>destination level.
          if 2 * destination + 1 < length level
          then Some (level[destination :=
                 hash_pair keccak (level ! (2 * destination)) (level ! (2 * destination + 1))])
          else None)
       [0..<level_len] level"

function reduce_levels ::
    "(u8 list \<Rightarrow> u8 list) \<Rightarrow> nat \<Rightarrow> u8 list list \<Rightarrow> u8 list list option" where
  "reduce_levels keccak level_len level =
     (if level_len > 2
      then Option.bind (reduce_level keccak (level_len div 2) level)
             (reduce_levels keccak (level_len div 2))
      else Some level)"
  by pat_completeness auto
termination
  by (relation "measure (\<lambda>(keccak, level_len, level). level_len)") auto

declare level_len_loop.simps [simp del] reduce_levels.simps [simp del]

text \<open>\<open>None\<close> is a failed assertion or an index out of bounds.\<close>

definition tree_hash :: "(u8 list \<Rightarrow> u8 list) \<Rightarrow> u8 list list \<Rightarrow> u8 list option" where
  "tree_hash keccak hashes =
     (if hashes = [] then None
      else if length hashes = 1 then Some (hashes ! 0)
      else if length hashes = 2 then Some (hash_pair keccak (hashes ! 0) (hashes ! 1))
      else
        (let count = length hashes; level_len = level_len_loop count 1
         in if 2 * level_len < count then None
            else
              (let direct = 2 * level_len - count
               in if level_len < direct \<or> count < direct then None
                  else
                    Option.bind (fill_level keccak hashes (level_len - direct) direct)
                      (\<lambda>(pairs, source).
                         if source \<noteq> count then None
                         else
                           Option.bind (reduce_levels keccak level_len (take direct hashes @ pairs))
                             (\<lambda>level.
                                if 1 < length level
                                then Some (hash_pair keccak (level ! 0) (level ! 1))
                                else None)))))"

definition expect_option :: "'a option \<Rightarrow> ('a, 'e) result" where
  "expect_option x = (case x of None \<Rightarrow> Panic | Some y \<Rightarrow> Ok y)"

definition hashing_blob ::
    "(u8 list \<Rightarrow> u8 list) \<Rightarrow> RpcBlockRecord \<Rightarrow> (u8 list, monero_error) result" where
  "hashing_blob keccak block =
     and_then (decode_hex HASH_BYTES (miner_tx_hash block)) (\<lambda>miner.
     and_then (traverse (decode_hex HASH_BYTES) (tx_hashes block)) (\<lambda>txs.
       let txs = miner # txs;
           blob = append_varint (major_version block) [];
           blob = append_varint (minor_version block) blob;
           blob = append_varint (timestamp block) blob
       in and_then (decode_hex HASH_BYTES (prev_hash block)) (\<lambda>prev.
            let blob = blob @ prev;
                blob = blob @ to_le_bytes 4 (nonce block)
            in and_then (expect_option (tree_hash keccak txs)) (\<lambda>root.
                 let blob = blob @ root
                 in Ok (append_varint (of_nat (length txs)) blob)))))"

section \<open>Hexadecimal text: what is accepted\<close>

text \<open>The bytes that a pair of characters may stand for: two hexadecimal digits, or a plus sign
  and one digit, which \<open>from_str_radix\<close> reads as that digit.\<close>

definition hex_pair :: "u8 \<Rightarrow> u8 \<Rightarrow> u8 \<Rightarrow> bool" where
  "hex_pair a b v \<longleftrightarrow>
     (\<exists>h l. to_digit 16 a = Some h \<and> to_digit 16 b = Some l \<and> unat v = 16 * h + l)
     \<or> (a = 43 \<and> to_digit 16 b = Some (unat v))"

lemma to_digit_sign: "to_digit 16 43 = None" "to_digit 16 45 = None"
  by (simp_all add: to_digit_def)

lemma to_digit_not_cont: "to_digit 16 b = Some d \<Longrightarrow> \<not> is_cont b"
  by (auto simp: to_digit_def is_cont_def Let_def word_le_nat_alt split: if_splits option.splits)

lemma to_digit_ascii: "to_digit 16 b = Some d \<Longrightarrow> b < 0x80"
  by (auto simp: to_digit_def Let_def word_less_nat_alt split: if_splits option.splits)

lemma hex_pair_ascii: "hex_pair a b v \<Longrightarrow> a < 0x80 \<and> b < 0x80"
  by (auto simp: hex_pair_def dest: to_digit_ascii)

lemma ascii_not_cont: "b < 0x80 \<Longrightarrow> \<not> is_cont b"
  by (auto simp: is_cont_def dest: leD)

lemma parse_two_digits:
  "parse_digits 16 [a, b] (0 :: u8) = Ok v \<longleftrightarrow>
     (\<exists>h l. to_digit 16 a = Some h \<and> to_digit 16 b = Some l \<and> unat v = 16 * h + l)"
  by (subst parse_digits_eq_Ok_iff) (auto simp: Cons_eq_map_conv mult.commute)

lemma parse_one_digit:
  "parse_digits 16 [b] (0 :: u8) = Ok v \<longleftrightarrow> to_digit 16 b = Some (unat v)"
  by (subst parse_digits_eq_Ok_iff) (auto simp: Cons_eq_map_conv)

lemma from_str_radix_pair: "from_str_radix 16 [a, b] = Ok (v :: u8) \<longleftrightarrow> hex_pair a b v"
proof (cases "a = 43")
  case True
  then show ?thesis
    by (simp add: from_str_radix_def parse_one_digit hex_pair_def to_digit_sign
          del: parse_digits.simps)
next
  case False
  then show ?thesis
    by (simp add: from_str_radix_def parse_two_digits hex_pair_def del: parse_digits.simps)
qed

lemma take_2_drop:
  assumes "Suc i < length xs"
  shows "take 2 (drop i xs) = [xs ! i, xs ! Suc i]"
  using assms by (simp add: Cons_nth_drop_Suc [symmetric] numeral_2_eq_2)

lemma nth_chunks_exact:
  "0 < n \<Longrightarrow> i < length xs div n \<Longrightarrow> chunks_exact n xs ! i = take n (drop (i * n) xs)"
proof (induction n xs arbitrary: i rule: chunks_exact.induct)
  case (1 n xs)
  then have le: "n \<le> length xs" by (metis div_less less_nat_zero_code not_less)
  show ?case
  proof (cases i)
    case 0
    then show ?thesis using 1 le by (simp add: chunks_exact.simps [of n xs])
  next
    case (Suc j)
    then have "j < length (drop n xs) div n" using 1 le by (simp add: le_div_geq)
    then show ?thesis
      using 1 le Suc by (simp add: chunks_exact.simps [of n xs] add.commute)
  qed
qed

text \<open>Slicing succeeds where both ends are ASCII.\<close>

lemma str_slice_ascii:
  assumes "\<And>j. j < length value \<Longrightarrow> even j \<Longrightarrow> value ! j < 0x80"
    and "length value = N * 2" "i < N"
  shows "str_slice value (i * 2) (i * 2 + 2) = Ok [value ! (2 * i), value ! (2 * i + 1)]"
proof -
  have "is_char_boundary value (i * 2)"
    using assms(1) [of "i * 2"] assms(2,3) by (auto simp: is_char_boundary_def ascii_not_cont)
  moreover have "is_char_boundary value (i * 2 + 2)"
    using assms(1) [of "i * 2 + 2"] assms(2,3)
    by (cases "i * 2 + 2 = length value") (auto simp: is_char_boundary_def ascii_not_cont)
  moreover have "take 2 (drop (i * 2) value) = [value ! (i * 2), value ! Suc (i * 2)]"
    using assms(2,3) by (intro take_2_drop) auto
  ultimately show ?thesis by (simp add: str_slice_def mult.commute)
qed

lemma str_slice_pair:
  assumes "str_slice value (i * 2) (i * 2 + 2) = Ok s" "length value = N * 2" "i < N"
  shows "s = [value ! (2 * i), value ! (2 * i + 1)]"
proof -
  have "take 2 (drop (i * 2) value) = [value ! (i * 2), value ! Suc (i * 2)]"
    using assms(2,3) by (intro take_2_drop) auto
  then show ?thesis
    using assms(1) by (simp add: str_slice_def mult.commute split: if_splits)
qed

lemma even_ascii:
  assumes "\<And>i. i < N \<Longrightarrow> hex_pair (value ! (2 * i)) (value ! (2 * i + 1)) (bs ! i)"
    and "length value = N * 2" "j < length value" "even j"
  shows "value ! j < 0x80"
proof -
  obtain i where "j = 2 * i" using \<open>even j\<close> by blast
  then show ?thesis using assms(1) [of i] assms(2,3) hex_pair_ascii by auto
qed

lemma decode_hex_Ok_iff:
  "decode_hex N value = Ok bs \<longleftrightarrow>
     length value = N * 2 \<and> length bs = N
     \<and> list_all (\<lambda>i. hex_pair (value ! (2 * i)) (value ! (2 * i + 1)) (bs ! i)) [0..<N]"
proof (cases "length value = N * 2")
  case False
  then show ?thesis by (simp add: decode_hex_def)
next
  case len: True
  let ?f = "\<lambda>index. let offset = index * 2
              in and_then (str_slice value offset (offset + 2))
                   (\<lambda>digits. map_err (\<lambda>_. InvalidHexAtByte index value) (from_str_radix 16 digits))"
  have eq: "decode_hex N value = Ok bs \<longleftrightarrow>
      length bs = N \<and> (\<forall>i<N. ?f i = Ok (bs ! i))"
    using len by (auto simp: decode_hex_def traverse_eq_Ok_iff list_all2_conv_all_nth)
  have step: "hex_pair (value ! (2 * i)) (value ! (2 * i + 1)) v" if "?f i = Ok v" "i < N" for i v
  proof -
    from that(1) obtain s where "str_slice value (i * 2) (i * 2 + 2) = (Ok s :: (_, monero_error) result)"
      and s: "from_str_radix 16 s = Ok v"
      by (auto simp: Let_def and_then_eq_Ok_conv)
    then have "s = [value ! (2 * i), value ! (2 * i + 1)]"
      using str_slice_pair len that(2) by blast
    with s show ?thesis by (simp add: from_str_radix_pair)
  qed
  have conv: "?f i = Ok (bs ! i)"
    if "\<forall>i<N. hex_pair (value ! (2 * i)) (value ! (2 * i + 1)) (bs ! i)" "i < N" for i
  proof -
    have "str_slice value (i * 2) (i * 2 + 2) =
        (Ok [value ! (2 * i), value ! (2 * i + 1)] :: (_, monero_error) result)"
      using even_ascii [of N "value" bs] that len by (intro str_slice_ascii) auto
    then show ?thesis using that by (simp add: Let_def from_str_radix_pair)
  qed
  show ?thesis using len eq step conv by (auto simp: list_all_iff)
qed

text \<open>On a string of ASCII characters neither decoder panics.\<close>

lemma decode_hex_no_panic:
  assumes "list_all (\<lambda>b. b < 0x80) value"
  shows "decode_hex N value \<noteq> Panic"
proof
  assume p: "decode_hex N value = Panic"
  then have len: "length value = N * 2" by (auto simp: decode_hex_def split: if_splits)
  from p obtain i where i: "i < N" "str_slice value (i * 2) (i * 2 + 2) = (Panic :: (_, monero_error) result)"
    using len by (auto simp: decode_hex_def traverse_eq_Panic_iff Let_def and_then_eq_Panic_conv)
  have "str_slice value (i * 2) (i * 2 + 2) \<noteq> (Panic :: (_, monero_error) result)"
    using assms by (subst str_slice_ascii [OF _ len i(1)]) (simp_all add: list_all_length)
  with i show False by simp
qed

lemma chunks_exact_pairs:
  assumes "length value = N * 2" "i < N"
  shows "chunks_exact 2 value ! i = [value ! (2 * i), value ! (2 * i + 1)]"
proof -
  have "chunks_exact 2 value ! i = take 2 (drop (i * 2) value)"
    using assms by (intro nth_chunks_exact) auto
  also have "\<dots> = [value ! (i * 2), value ! Suc (i * 2)]"
    using assms by (intro take_2_drop) auto
  finally show ?thesis by (simp add: mult.commute)
qed

lemma from_utf8_ascii: "a < 0x80 \<Longrightarrow> b < 0x80 \<Longrightarrow> from_utf8 [a, b] = Ok [a, b]"
  by (simp add: from_utf8_def)

text \<open>The decoder for a slice accepts the same strings as the one for an array.\<close>

lemma decode_hex_vec_eq:
  "decode_hex_vec value = Ok bs \<longleftrightarrow> decode_hex (length value div 2) value = Ok bs"
proof (cases "even (length value)")
  case False
  then have "length value \<noteq> length value div 2 * 2" by (metis dvd_triv_right)
  then show ?thesis using False by (simp add: decode_hex_vec_def decode_hex_def odd_iff_mod_2_eq_one)
next
  case True
  define N where "N = length value div 2"
  have len: "length value = N * 2" using True by (simp add: N_def)
  have lc: "length (chunks_exact 2 value) = N" by (simp add: length_chunks_exact N_def)
  let ?f = "\<lambda>(index, pair). and_then (expect (from_utf8 pair))
       (\<lambda>pair. map_err (\<lambda>_. InvalidHexAtByte index value) (from_str_radix 16 pair))"
  have "decode_hex_vec value = Ok bs \<longleftrightarrow>
      length bs = N \<and> (\<forall>i<N. ?f (i, chunks_exact 2 value ! i) = Ok (bs ! i))"
    using True lc
    by (auto simp: decode_hex_vec_def traverse_eq_Ok_iff list_all2_conv_all_nth nth_enumerate_eq)
  also have "\<dots> \<longleftrightarrow> length bs = N \<and>
      (\<forall>i<N. hex_pair (value ! (2 * i)) (value ! (2 * i + 1)) (bs ! i))"
    by (auto simp: chunks_exact_pairs [OF len] and_then_eq_Ok_conv from_utf8_def
          from_str_radix_pair dest: hex_pair_ascii split: if_splits)
  finally show ?thesis
    using len by (simp add: decode_hex_Ok_iff N_def [symmetric] list_all_iff Ball_def)
qed

text \<open>C33: \<open>decode_hex\<close> returns \<open>Ok\<close> exactly for the strings of \<open>2 * N\<close>
  bytes in which every pair of characters denotes the corresponding output byte: two hexadecimal
  digits of either case, or (a leniency inherited from \<open>from_str_radix\<close>) a plus sign
  followed by one digit. Every other string is an \<open>Err\<close> or a panic.\<close>

theorem decode_hex_accepts:
  "decode_hex N value = Ok bs \<longleftrightarrow>
     length value = N * 2 \<and> length bs = N
     \<and> list_all (\<lambda>i. hex_pair (value ! (2 * i)) (value ! (2 * i + 1)) (bs ! i)) [0..<N]"
  by (rule decode_hex_Ok_iff)

text \<open>Two inputs on which the decoders, although they return a \<open>Result\<close>, panic: the euro
  sign followed by a zero, and an e with acute accent between two zeros.\<close>

lemma decode_hex_panics:
  "utf8_valid [0xe2, 0x82, 0xac, 0x30]" "decode_hex 2 [0xe2, 0x82, 0xac, 0x30] = Panic"
  by (simp_all add: decode_hex_def upt_rec str_slice_def is_char_boundary_def is_cont_def)

lemma decode_hex_vec_panics:
  "utf8_valid [0x30, 0xc3, 0xa9, 0x30]" "decode_hex_vec [0x30, 0xc3, 0xa9, 0x30] = Panic"
  by (simp_all add: decode_hex_vec_def chunks_exact.simps is_cont_def from_utf8_def)

text \<open>A string that is not hexadecimal and is decoded all the same.\<close>

lemma decode_hex_plus: "decode_hex 1 (lit ''+f'') = Ok [0x0f]"
  by (simp add: decode_hex_def upt_rec str_slice_def is_char_boundary_def is_cont_def lit_def
        from_str_radix_def to_digit_def checked_mul_def checked_add_def)

section \<open>Hexadecimal text: round trip\<close>

lemma encode_hex_eq: "encode_hex bs = concat (map format_02x bs)"
proof -
  have "foldl (\<lambda>out b. out @ format_02x b) acc bs = acc @ concat (map format_02x bs)" for acc
    by (induction bs arbitrary: acc) simp_all
  then show ?thesis by (simp add: encode_hex_def)
qed

lemma length_encode_hex [simp]: "length (encode_hex bs) = length bs * 2"
  by (induction bs) (simp_all add: encode_hex_eq format_02x_def)

lemma nth_encode_hex:
  "i < length bs \<Longrightarrow> encode_hex bs ! (2 * i) = hex_digit (unat (bs ! i) div 16)"
  "i < length bs \<Longrightarrow> encode_hex bs ! Suc (2 * i) = hex_digit (unat (bs ! i) mod 16)"
proof (induction bs arbitrary: i)
  case (Cons b bs)
  {
    case 1
    then show ?case using Cons by (cases i) (auto simp: encode_hex_eq format_02x_def)
  next
    case 2
    then show ?case using Cons by (cases i) (auto simp: encode_hex_eq format_02x_def)
  }
qed simp_all

lemma hex_pair_format: "hex_pair (hex_digit (unat b div 16)) (hex_digit (unat b mod 16)) b"
proof -
  have "unat b div 16 < 16" using unat_lt_u8 [of b] by (simp add: div_less_iff_less_mult)
  then show ?thesis by (simp add: hex_pair_def to_digit_hex_digit)
qed

lemma decode_hex_encode: "decode_hex (length bs) (encode_hex bs) = Ok bs"
  by (simp add: decode_hex_vec_eq decode_hex_Ok_iff list_all_iff nth_encode_hex
        hex_pair_format)

text \<open>C32: decoding inverts encoding: the lower-case text of any byte string is decoded to that
  byte string, by the slice decoder and by the array decoder of the matching length.\<close>

theorem hex_round_trip:
  "decode_hex_vec (encode_hex bs) = Ok bs \<and> decode_hex (length bs) (encode_hex bs) = Ok bs"
  by (simp add: decode_hex_vec_eq decode_hex_encode)

section \<open>Varints\<close>

text \<open>The reader of the CryptoNote format: seven bits per byte, least significant first, the top
  bit marks a continuation; it also returns the remaining bytes.\<close>

fun read_varint :: "u8 list \<Rightarrow> (nat \<times> u8 list) option" where
  "read_varint [] = None"
| "read_varint (b # bs) =
     (if b < 0x80 then Some (unat b, bs)
      else map_option (\<lambda>(v, rest). (unat b mod 128 + 128 * v, rest)) (read_varint bs))"

lemma bit_0x80: "bit (0x80 :: int) n \<longleftrightarrow> n = 7"
proof -
  have "(0x80 :: int) = 2 ^ 7" by simp
  then show ?thesis by (simp only: bit_exp_iff) auto
qed

lemma varint_byte: "unat (ucast (v :: u64) OR 0x80 :: u8) = unat v mod 128 + 128"
proof -
  have "(ucast v OR 0x80 :: u8) = (ucast v AND mask 7) + 0x80"
    by (subst disjunctive_add [of "ucast v AND mask 7 :: u8"])
       (auto simp: bit_and_iff bit_or_iff bit_mask_iff bit_unsigned_iff bit_0x80
          intro!: bit_word_eqI)
  moreover have "unat (ucast v AND mask 7 :: u8) = unat v mod 128"
    by (simp only: unat_and_mask_eq) (simp add: unsigned_ucast_eq take_bit_eq_mod mod_mod_cancel)
  ultimately show ?thesis by (simp add: unat_word_ariths)
qed

lemma append_varint_encodes:
  assumes "unat v < 128 ^ Suc n"
  shows "\<exists>enc. append_varint v out = out @ enc \<and> 1 \<le> length enc \<and> length enc \<le> Suc n
    \<and> (\<forall>rest. read_varint (enc @ rest) = Some (unat v, rest))"
  using assms
proof (induction n arbitrary: v out)
  case 0
  then show ?case
    by (subst append_varint.simps)
       (auto simp: word_le_nat_alt word_less_nat_alt unsigned_ucast_eq take_bit_nat_eq_self
          intro!: exI [of _ "[ucast v]"])
next
  case (Suc n)
  show ?case
  proof (cases "v \<ge> 0x80")
    case False
    then show ?thesis
      by (subst append_varint.simps)
         (auto simp: word_le_nat_alt word_less_nat_alt unsigned_ucast_eq take_bit_nat_eq_self
            intro!: exI [of _ "[ucast v]"])
  next
    case True
    have "unat (drop_bit 7 v) < 128 ^ Suc n"
      using Suc.prems by (simp add: unat_drop_bit div_less_iff_less_mult mult.commute)
    then obtain enc where enc: "append_varint (drop_bit 7 v) (out @ [ucast v OR 0x80]) =
          (out @ [ucast v OR 0x80]) @ enc"
        "1 \<le> length enc" "length enc \<le> Suc n"
        "\<forall>rest. read_varint (enc @ rest) = Some (unat (drop_bit 7 v), rest)"
      using Suc.IH by blast
    have "\<not> (ucast v OR 0x80 :: u8) < 0x80"
      by (simp add: word_less_nat_alt varint_byte)
    then have "read_varint (((ucast v OR 0x80) # enc) @ rest) = Some (unat v, rest)" for rest
      using enc(4) by (simp add: varint_byte unat_drop_bit)
    then show ?thesis
      using True enc by (subst append_varint.simps) (auto intro!: exI [of _ "(ucast v OR 0x80) # enc"])
  qed
qed

text \<open>C31: \<open>append_varint\<close> appends between one and ten bytes, leaves what was in the buffer,
  and the appended bytes are read back as the value, whatever follows them: the code is
  uniquely decodable.\<close>

theorem append_varint_round_trip:
  "\<exists>enc. append_varint v out = out @ enc \<and> length enc \<in> {1..10}
     \<and> (\<lambda>rest. read_varint (enc @ rest)) = (\<lambda>rest. Some (unat v, rest))"
proof -
  have "unat v < 128 ^ Suc 9" using unat_lt_u64 [of v] by simp
  then show ?thesis using append_varint_encodes [of v 9 out] by auto
qed

section \<open>The difficulty test\<close>

text \<open>The natural number that little-endian bytes denote.\<close>

primrec le_value :: "u8 list \<Rightarrow> nat" where
  "le_value [] = 0"
| "le_value (b # bs) = unat b + 256 * le_value bs"

lemma le_value_less: "le_value bs < 256 ^ length bs"
proof (induction bs)
  case (Cons b bs)
  have "unat b + 256 * le_value bs < 256 + 256 * le_value bs" by simp
  also have "\<dots> \<le> 256 * 256 ^ length bs" using Cons by (simp add: add_mult_distrib2 [symmetric, of 256 1, simplified])
  finally show ?case by simp
qed simp

lemma le_value_append: "le_value (xs @ ys) = le_value xs + 256 ^ length xs * le_value ys"
  by (induction xs) (simp_all add: algebra_simps)

lemma le_value_zeros: "le_value (replicate n 0) = 0"
  by (induction n) simp_all

lemma unat_from_le_bytes:
  "8 * length bs \<le> LENGTH('a::len) \<Longrightarrow> unat (from_le_bytes bs :: 'a word) = le_value bs"
proof (induction bs)
  case (Cons b bs)
  have IH: "unat (from_le_bytes bs :: 'a word) = le_value bs" using Cons by simp
  have "256 ^ length (b # bs) \<le> (2 :: nat) ^ LENGTH('a)"
    using Cons.prems power_increasing [of "8 * length (b # bs)" "LENGTH('a)" "2 :: nat"]
    by (simp add: power_mult power_add)
  then have bound: "le_value (b # bs) < 2 ^ LENGTH('a)"
    using le_value_less [of "b # bs"] by linarith
  have "from_le_bytes (b # bs) = (ucast b + push_bit 8 (from_le_bytes bs) :: 'a word)"
    by (simp, subst disjunctive_add [symmetric])
       (auto simp: bit_simps dest: bit_imp_le_length)
  moreover have "unat (push_bit 8 (from_le_bytes bs) :: 'a word) = le_value bs * 256"
    using bound by (subst unat_push_bit_bounded) (simp_all add: IH)
  moreover have "unat (ucast b :: 'a word) = unat b"
    using Cons.prems by (intro unat_ucast_widen) simp
  ultimately show ?case using bound by (simp add: unat_add_bounded)
qed simp

text \<open>The carry chain on natural numbers: the quotient of the product of all the limbs.\<close>

lemma carry_chain:
  "foldl (\<lambda>carry limb. (limb * d + carry) div B) 0 ls
     = foldr (\<lambda>l v. l + B * v) ls 0 * d div B ^ length ls" for B d :: nat
proof (induction ls rule: rev_induct)
  case (snoc l ls)
  have val: "foldr (\<lambda>l v. l + B * v) (ls @ [l]) 0 = foldr (\<lambda>l v. l + B * v) ls 0 + B ^ length ls * l"
    by (induction ls) (simp_all add: algebra_simps)
  show ?case
  proof (cases "B = 0")
    case False
    let ?v = "foldr (\<lambda>l v. l + B * v) ls 0"
    have "B ^ length (ls @ [l]) = B ^ length ls * B"
      "(?v + B ^ length ls * l) * d = ?v * d + B ^ length ls * (l * d)"
      by (simp_all add: algebra_simps)
    then have "(?v + B ^ length ls * l) * d div B ^ length (ls @ [l])
        = (?v * d + B ^ length ls * (l * d)) div B ^ length ls div B"
      by (simp only: div_mult2_eq)
    also have "\<dots> = (l * d + ?v * d div B ^ length ls) div B"
      using False by simp
    finally show ?thesis using snoc.IH by (simp add: val del: foldr_append)
  qed simp
qed simp

lemma carry_step:
  assumes "unat carry < 2 ^ 64"
  shows "unat (drop_bit 64 ((ucast (limb :: u64) :: u128) * ucast (d :: u64) + carry))
    = (unat limb * unat d + unat carry) div 2 ^ 64"
    and "(unat limb * unat d + unat carry) div 2 ^ 64 < 2 ^ 64"
proof -
  have "unat limb * unat d \<le> (2 ^ 64 - 1) * (2 ^ 64 - 1)"
    by (rule mult_mono) (use unat_lt_u64 [of limb] unat_lt_u64 [of d] in auto)
  then have b: "unat limb * unat d + unat carry < 2 ^ 64 * 2 ^ 64"
    using assms by simp
  then show "(unat limb * unat d + unat carry) div 2 ^ 64 < 2 ^ 64"
    by (simp add: div_less_iff_less_mult)
  have "unat ((ucast limb :: u128) * ucast d) = unat limb * unat d"
    using b by (simp add: unat_simps)
  then show "unat (drop_bit 64 ((ucast limb :: u128) * ucast d + carry))
    = (unat limb * unat d + unat carry) div 2 ^ 64"
    using b by (simp add: unat_drop_bit unat_add_bounded)
qed

lemma unat_carry_fold:
  assumes "list_all (\<lambda>c. length c = 8) chunks" "unat carry < 2 ^ 64"
  shows "unat (foldl (\<lambda>carry chunk. drop_bit 64 ((ucast (from_le_bytes chunk :: u64) :: u128)
            * ucast (d :: u64) + carry)) carry chunks)
    = foldl (\<lambda>carry limb. (limb * unat d + carry) div 2 ^ 64) (unat carry) (map le_value chunks)"
  using assms
proof (induction chunks arbitrary: carry)
  case (Cons c chunks)
  let ?carry = "drop_bit 64 ((ucast (from_le_bytes c :: u64) :: u128) * ucast d + carry)"
  have "unat (from_le_bytes c :: u64) = le_value c"
    using Cons.prems by (intro unat_from_le_bytes) simp
  then have "unat ?carry = (le_value c * unat d + unat carry) div 2 ^ 64" "unat ?carry < 2 ^ 64"
    using carry_step [OF Cons.prems(2), of "from_le_bytes c" d] by simp_all
  then show ?case using Cons.IH [of ?carry] Cons.prems by simp
qed simp

lemma le_value_concat:
  "list_all (\<lambda>c. length c = n) chunks \<Longrightarrow>
     le_value (concat chunks) = foldr (\<lambda>l v. l + 256 ^ n * v) (map le_value chunks) 0"
  by (induction chunks) (simp_all add: le_value_append)

lemma meets_difficulty_iff:
  assumes "length hash = 32"
  shows "meets_difficulty hash difficulty \<longleftrightarrow> le_value hash * unat difficulty < 2 ^ 256"
proof -
  let ?chunks = "chunks_exact 8 hash"
  have len: "list_all (\<lambda>c. length c = 8) ?chunks" "length ?chunks = 4"
    using assms length_chunks_exact_elem [of _ 8 hash]
    by (auto simp: list_all_iff length_chunks_exact)
  have "chunks_rest 8 hash = []"
    using assms length_chunks_rest [of 8 hash] by simp
  then have hash: "concat ?chunks = hash"
    using concat_chunks_exact [of 8 hash] by simp
  have "meets_difficulty hash difficulty \<longleftrightarrow>
      foldl (\<lambda>carry limb. (limb * unat difficulty + carry) div 2 ^ 64) 0 (map le_value ?chunks) = 0"
    using unat_carry_fold [OF len(1), of 0 difficulty]
    by (simp add: meets_difficulty_def Let_def word_unat_eq_iff)
  also have "\<dots> \<longleftrightarrow> le_value hash * unat difficulty div (2 ^ 64) ^ 4 = 0"
    using le_value_concat [OF len(1)] by (simp add: carry_chain hash len(2))
  finally show ?thesis by (simp add: div_eq_0_iff flip: power_mult)
qed

text \<open>C30: \<open>meets_difficulty\<close> decides, for every 32-byte hash and every 64-bit difficulty,
  whether the product of the little-endian hash value and the difficulty is below \<open>2 ^ 256\<close>:
  the 128-bit carry chain computes the exact product.\<close>

theorem meets_difficulty_correct:
  assumes "length hash = 32"
  shows "meets_difficulty hash difficulty \<longleftrightarrow> le_value hash * unat difficulty < 2 ^ 256"
  using assms by (rule meets_difficulty_iff)

theorem meets_difficulty_correct_witness:
  "meets_difficulty (replicate 31 0 @ [0x80]) 1
     \<and> le_value (replicate 31 0 @ [0x80]) * unat (1 :: u64) < 2 ^ 256
     \<and> \<not> meets_difficulty (replicate 31 0 @ [0x80]) 2"
proof -
  have v: "le_value (replicate 31 0 @ [0x80]) = 2 ^ 255"
    by (simp add: le_value_append le_value_zeros)
  show ?thesis
    using meets_difficulty_correct [of "replicate 31 0 @ [0x80]" 1]
      meets_difficulty_correct [of "replicate 31 0 @ [0x80]" 2]
    by (simp add: v)
qed

section \<open>Parsing a difficulty\<close>

text \<open>A difficulty printed in hexadecimal, with or without its prefix, is parsed back.\<close>

lemma parse_wide_difficulty_never_panics: "parse_wide_difficulty s \<noteq> Panic"
  by (simp add: parse_wide_difficulty_def Let_def)

end
