(* ===== verification/MoneroTree.thy ===== *)
theory MoneroTree
  imports Monero
begin

text \<open>
  The CryptoNote tree hash of \<open>audit/src/monero.rs\<close> against its specification: the root of
  a binary hash tree whose leaves are the transaction hashes in order and whose shape depends on
  their number only. The in-place level loops are related to a functional pairing of a level, and
  the same pairing on trees gives the tree. The last part shows that the hash, and the block
  hashing blob built from it, binds its content up to a collision of the hash function.
\<close>

section \<open>Hash trees\<close>

datatype 'a mtree = MLeaf 'a | MNode "'a mtree" "'a mtree"

primrec leaves :: "'a mtree \<Rightarrow> 'a list" where
  "leaves (MLeaf x) = [x]"
| "leaves (MNode l r) = leaves l @ leaves r"

primrec depths :: "'a mtree \<Rightarrow> nat list" where
  "depths (MLeaf x) = [0]"
| "depths (MNode l r) = map Suc (depths l @ depths r)"

primrec root_hash :: "(u8 list \<Rightarrow> u8 list) \<Rightarrow> u8 list mtree \<Rightarrow> u8 list" where
  "root_hash keccak (MLeaf x) = x"
| "root_hash keccak (MNode l r) = hash_pair keccak (root_hash keccak l) (root_hash keccak r)"

section \<open>Pairing a level\<close>

fun pair_up :: "('a \<Rightarrow> 'a \<Rightarrow> 'a) \<Rightarrow> 'a list \<Rightarrow> 'a list" where
  "pair_up f (a # b # xs) = f a b # pair_up f xs"
| "pair_up f xs = []"

lemma length_pair_up [simp]: "length (pair_up f xs) = length xs div 2"
  by (induction f xs rule: pair_up.induct) auto

lemma nth_pair_up:
  "i < length xs div 2 \<Longrightarrow> pair_up f xs ! i = f (xs ! (2 * i)) (xs ! Suc (2 * i))"
proof (induction f xs arbitrary: i rule: pair_up.induct)
  case (1 f a b xs)
  then show ?case by (cases i) auto
qed auto

lemma pair_up_take: "pair_up f (take (2 * n) xs) = take n (pair_up f xs)"
proof (induction f xs arbitrary: n rule: pair_up.induct)
  case (1 f a b xs)
  then show ?case by (cases n) auto
qed (auto split: nat.splits simp: take_Cons)

lemma pair_up_natural:
  assumes "\<And>a b. h (f a b) = g (h a) (h b)"
  shows "map h (pair_up f xs) = pair_up g (map h xs)"
  using assms by (induction f xs rule: pair_up.induct) auto

lemma pair_up_set:
  assumes "\<And>a b. P (f a b)"
  shows "list_all P (pair_up f xs)"
  using assms by (induction f xs rule: pair_up.induct) auto

lemma pair_up_iterate_natural:
  assumes "\<And>a b. h (f a b) = g (h a) (h b)"
  shows "map h ((pair_up f ^^ k) xs) = (pair_up g ^^ k) (map h xs)"
  using pair_up_natural [of h f g, OF assms] by (induction k) simp_all

lemma length_pair_up_iterate: "length xs = 2 ^ (k + j) \<Longrightarrow> length ((pair_up f ^^ k) xs) = 2 ^ j"
proof (induction k arbitrary: j)
  case (Suc k)
  then have "length ((pair_up f ^^ k) xs) = 2 ^ Suc j" by (metis add_Suc add_Suc_right)
  then show ?case by simp
qed simp

lemma leaves_pair_up:
  "even (length ts) \<Longrightarrow> concat (map leaves (pair_up MNode ts)) = concat (map leaves ts)"
proof (induction ts rule: induct_list012)
  case (3 a b ts)
  then show ?case by simp
qed auto

lemma depths_pair_up:
  "even (length ts) \<Longrightarrow>
     concat (map depths (pair_up MNode ts)) = map Suc (concat (map depths ts))"
proof (induction ts rule: induct_list012)
  case (3 a b ts)
  then show ?case by simp
qed auto

lemma forest_iterate:
  assumes "length ts = 2 ^ k"
  shows "concat (map leaves ((pair_up MNode ^^ k) ts)) = concat (map leaves ts)
    \<and> concat (map depths ((pair_up MNode ^^ k) ts)) = map (\<lambda>d. d + k) (concat (map depths ts))"
  using assms
proof (induction k arbitrary: ts)
  case (Suc k)
  then have "length (pair_up MNode ts) = 2 ^ k" "even (length ts)" by simp_all
  then show ?case
    using Suc.IH [of "pair_up MNode ts"]
    by (simp add: funpow_Suc_right leaves_pair_up depths_pair_up del: funpow.simps)
qed simp

section \<open>The loops of the tree hash\<close>

lemma fill_level_pairs:
  "source + 2 * n \<le> length hashes \<Longrightarrow>
     fill_level keccak hashes n source
       = Some (pair_up (hash_pair keccak) (take (2 * n) (drop source hashes)), source + 2 * n)"
proof (induction n arbitrary: source)
  case (Suc n)
  have "drop source hashes
      = hashes ! source # hashes ! Suc source # drop (Suc (Suc source)) hashes"
    using Suc.prems by (metis Cons_nth_drop_Suc add_2_eq_Suc' add_leD1 less_eq_Suc_le
        mult_Suc_right add.assoc add_Suc_right plus_1_eq_Suc)
  then show ?case using Suc by simp
qed simp

lemma reduce_level_pairs:
  assumes "2 * n \<le> length level"
  shows "\<exists>level'. reduce_level keccak n level = Some level' \<and> length level' = length level
    \<and> take n level' = pair_up (hash_pair keccak) (take (2 * n) level)"
proof -
  let ?f = "hash_pair keccak"
  let ?P = "\<lambda>i lv. length lv = length level \<and> (\<forall>j<i. lv ! j = ?f (level ! (2 * j)) (level ! Suc (2 * j)))
      \<and> (\<forall>j. i \<le> j \<longrightarrow> lv ! j = level ! j)"
  have "\<exists>lv. reduce_level keccak n level = Some lv \<and> ?P n lv"
    unfolding reduce_level_def
  proof (rule foldl_option_upt)
    fix i lv
    assume "i < n" and P: "?P i lv"
    then show "\<exists>lv'. (if 2 * i + 1 < length lv
          then Some (lv[i := hash_pair keccak (lv ! (2 * i)) (lv ! (2 * i + 1))]) else None)
            = Some lv' \<and> ?P (Suc i) lv'"
      using assms by (auto simp: nth_list_update less_Suc_eq)
  qed auto
  then obtain lv where lv: "reduce_level keccak n level = Some lv" "?P n lv" by blast
  have "take n lv = pair_up ?f (take (2 * n) level)"
    using lv(2) assms by (intro nth_equalityI) (auto simp: nth_pair_up)
  with lv show ?thesis by blast
qed

lemma reduce_levels_pairs:
  assumes "2 ^ Suc j \<le> length level"
  shows "\<exists>level'. reduce_levels keccak (2 ^ Suc j) level = Some level' \<and> 2 \<le> length level'
    \<and> take 2 level' = (pair_up (hash_pair keccak) ^^ j) (take (2 ^ Suc j) level)"
  using assms
proof (induction j arbitrary: level)
  case 0
  then show ?case by (simp add: reduce_levels.simps [of keccak 2])
next
  case (Suc j)
  have two: "(2 :: nat) < 2 ^ Suc (Suc j)" "(2 :: nat) ^ Suc (Suc j) div 2 = 2 ^ Suc j"
    by (induction j) simp_all
  obtain lv where lv: "reduce_level keccak (2 ^ Suc j) level = Some lv" "length lv = length level"
      "take (2 ^ Suc j) lv = pair_up (hash_pair keccak) (take (2 * 2 ^ Suc j) level)"
    using reduce_level_pairs [of "2 ^ Suc j" level keccak] Suc.prems by auto
  have "2 ^ Suc j \<le> length lv" using Suc.prems lv(2) by simp
  then obtain lv' where lv': "reduce_levels keccak (2 ^ Suc j) lv = Some lv'" "2 \<le> length lv'"
      "take 2 lv' = (pair_up (hash_pair keccak) ^^ j) (take (2 ^ Suc j) lv)"
    using Suc.IH by blast
  have "reduce_levels keccak (2 ^ Suc (Suc j)) level = Some lv'"
    using lv(1) lv'(1) two by (subst reduce_levels.simps) (simp del: power_Suc)
  then show ?case
    using lv'(2,3) lv(3) by (simp add: funpow_Suc_right del: funpow.simps)
qed

lemma level_len_loop_power:
  "0 < l \<Longrightarrow> l < count \<Longrightarrow>
     \<exists>k. level_len_loop count l = l * 2 ^ k \<and> l * 2 ^ k < count \<and> count \<le> 2 * (l * 2 ^ k)"
proof (induction count l rule: level_len_loop.induct)
  case (1 count l)
  show ?case
  proof (cases "l * 2 < count")
    case True
    then obtain k where "level_len_loop count (l * 2) = l * 2 * 2 ^ k" "l * 2 * 2 ^ k < count"
        "count \<le> 2 * (l * 2 * 2 ^ k)"
      using 1 by auto
    then show ?thesis
      using True 1(2) by (subst level_len_loop.simps) (auto intro!: exI [of _ "Suc k"] simp: ac_simps)
  next
    case False
    then show ?thesis
      using 1(3) by (subst level_len_loop.simps) (auto intro!: exI [of _ 0])
  qed
qed

text \<open>The level that the tree starts from: the first hashes stand for themselves, the others are
  combined in pairs, so that the level has \<open>2 ^ k\<close> entries.\<close>

definition first_level :: "('a \<Rightarrow> 'a \<Rightarrow> 'a) \<Rightarrow> nat \<Rightarrow> 'a list \<Rightarrow> 'a list" where
  "first_level f k xs =
     (let d = 2 ^ Suc k - length xs in take d xs @ pair_up f (drop d xs))"

lemma length_first_level:
  "2 ^ k \<le> length xs \<Longrightarrow> length xs \<le> 2 ^ Suc k \<Longrightarrow> length (first_level f k xs) = 2 ^ k"
  by (simp add: first_level_def Let_def)

lemma tree_hash_levels:
  assumes "3 \<le> length hashes"
  shows "\<exists>k. 2 ^ k < length hashes \<and> length hashes \<le> 2 ^ Suc k
    \<and> tree_hash keccak hashes
        = Some (hd ((pair_up (hash_pair keccak) ^^ k) (first_level (hash_pair keccak) k hashes)))"
proof -
  let ?f = "hash_pair keccak" and ?n = "length hashes"
  obtain k where k: "level_len_loop ?n 1 = 2 ^ k" "2 ^ k < ?n" "?n \<le> 2 * 2 ^ k"
    using level_len_loop_power [of 1 ?n] assms by auto
  then obtain j where j: "k = Suc j" using assms by (cases k) auto
  define d where "d = 2 * 2 ^ k - ?n"
  have d: "d \<le> 2 ^ k" "d \<le> ?n" "d + 2 * (2 ^ k - d) = ?n" using k by (auto simp: d_def)
  have fill: "fill_level keccak hashes (2 ^ k - d) d = Some (pair_up ?f (drop d hashes), ?n)"
    using fill_level_pairs [of d "2 ^ k - d" hashes keccak] d by simp
  have level: "take d hashes @ pair_up ?f (drop d hashes) = first_level ?f k hashes"
    by (simp add: first_level_def d_def Let_def)
  have len: "length (first_level ?f k hashes) = 2 ^ k"
    using k by (simp add: length_first_level)
  obtain lv where lv: "reduce_levels keccak (2 ^ k) (first_level ?f k hashes) = Some lv"
      "2 \<le> length lv" "take 2 lv = (pair_up ?f ^^ j) (first_level ?f k hashes)"
    using reduce_levels_pairs [of j "first_level ?f k hashes" keccak] len j by auto
  obtain a b rest where ab: "lv = a # b # rest"
    using lv(2) by (metis Suc_le_length_iff numeral_2_eq_2)
  have "tree_hash keccak hashes = Some (?f a b)"
    using assms k fill d lv(1)
    by (simp add: tree_hash_def Let_def level ab d_def [symmetric])
       (auto simp: d_def)
  moreover have "?f a b = hd ((pair_up ?f ^^ k) (first_level ?f k hashes))"
  proof -
    have "(pair_up ?f ^^ j) (first_level ?f k hashes) = [a, b]" using lv(3) ab by simp
    then show ?thesis by (simp add: j)
  qed
  ultimately show ?thesis using k by (auto intro!: exI [of _ k])
qed

lemma tree_hash_is_root:
  assumes "hashes \<noteq> []"
  shows "\<exists>t k. tree_hash keccak hashes = Some (root_hash keccak t) \<and> leaves t = hashes
    \<and> 2 ^ k \<le> length hashes \<and> length hashes \<le> 2 ^ (k + 1)
    \<and> depths t = replicate (2 ^ (k + 1) - length hashes) k
                   @ replicate (2 * length hashes - 2 ^ (k + 1)) (k + 1)"
proof -
  consider a where "hashes = [a]" | a b where "hashes = [a, b]" | "3 \<le> length hashes"
  proof -
    have "length hashes \<noteq> 0" using assms by simp
    then consider "length hashes = 1" | "length hashes = 2" | "3 \<le> length hashes" by linarith
    then show thesis using that by cases (auto simp: length_Suc_conv numeral_2_eq_2)
  qed
  then show ?thesis
  proof cases
    case 1
    then show ?thesis
      by (intro exI [of _ "MLeaf a"] exI [of _ 0]) (simp add: tree_hash_def)
  next
    case 2
    then show ?thesis
      by (intro exI [of _ "MNode (MLeaf a) (MLeaf b)"] exI [of _ 0])
         (simp add: tree_hash_def numeral_2_eq_2)
  next
    case 3
    let ?f = "hash_pair keccak"
    obtain k where k: "2 ^ k < length hashes" "length hashes \<le> 2 ^ Suc k"
        "tree_hash keccak hashes = Some (hd ((pair_up ?f ^^ k) (first_level ?f k hashes)))"
      using tree_hash_levels [OF 3] by blast
    let ?ts = "first_level MNode k (map MLeaf hashes)"
    have len: "length ?ts = 2 ^ k" using k by (simp add: length_first_level)
    obtain t where t: "(pair_up MNode ^^ k) ?ts = [t]"
      using length_pair_up_iterate [of ?ts k 0 MNode] len by (auto simp: length_Suc_conv)
    have "map (root_hash keccak) ?ts = first_level ?f k hashes"
      by (simp add: first_level_def Let_def take_map drop_map
            pair_up_natural [of "root_hash keccak" MNode ?f] comp_def)
    then have root: "(pair_up ?f ^^ k) (first_level ?f k hashes) = [root_hash keccak t]"
      using pair_up_iterate_natural [of "root_hash keccak" MNode ?f k ?ts] t by simp
    have "concat (map leaves ?ts) = hashes"
      "concat (map depths ?ts) = replicate (2 ^ Suc k - length hashes) 0
         @ replicate (length hashes - (2 ^ Suc k - length hashes)) 1"
      using k by (simp_all add: first_level_def Let_def leaves_pair_up depths_pair_up drop_map
            take_map comp_def concat_map_singleton map_replicate_const)
    moreover have "length hashes - (2 ^ Suc k - length hashes) = 2 * length hashes - 2 ^ Suc k"
      using k by simp
    ultimately show ?thesis
      using forest_iterate [OF len] t root k
      by (intro exI [of _ t] exI [of _ k]) simp
  qed
qed


section \<open>Binding\<close>

text \<open>A collision of the hash function on inputs of 64 bytes.\<close>

definition collision :: "(u8 list \<Rightarrow> u8 list) \<Rightarrow> bool" where
  "collision keccak \<longleftrightarrow> (\<exists>a b. a \<noteq> b \<and> length a = 64 \<and> length b = 64 \<and> keccak a = keccak b)"

abbreviation hash_list :: "u8 list list \<Rightarrow> bool" where
  "hash_list \<equiv> list_all (\<lambda>h. length h = 32)"

lemma hash_pair_binding:
  assumes "hash_pair keccak a b = hash_pair keccak c d"
    and "length a = 32" "length b = 32" "length c = 32" "length d = 32"
  shows "collision keccak \<or> (a = c \<and> b = d)"
proof (cases "a @ b = c @ d")
  case False
  then have "collision keccak"
    unfolding collision_def using assms
    by (intro exI [of _ "a @ b"] exI [of _ "c @ d"]) (auto simp: hash_pair_def cn_fast_hash_def)
  then show ?thesis by simp
qed (use assms in simp)

lemma pair_up_binding:
  assumes "pair_up (hash_pair keccak) xs = pair_up (hash_pair keccak) ys"
    and "length xs = length ys" "even (length xs)" "hash_list xs" "hash_list ys"
  shows "collision keccak \<or> xs = ys"
  using assms
proof (induction xs arbitrary: ys rule: induct_list012)
  case (3 a b xs)
  then obtain c d zs where "ys = c # d # zs" by (auto simp: length_Suc_conv Suc_length_conv)
  then show ?case using 3 hash_pair_binding [of keccak a b c d] by auto
qed auto

lemma pair_up_iterate_binding:
  assumes "(pair_up (hash_pair keccak) ^^ k) xs = (pair_up (hash_pair keccak) ^^ k) ys"
    and "length xs = 2 ^ k" "length ys = 2 ^ k" "hash_list xs" "hash_list ys"
    and kl: "\<And>x. length (keccak x) = 32"
  shows "collision keccak \<or> xs = ys"
  using assms(1-5)
proof (induction k arbitrary: xs ys)
  case (Suc k)
  have hl: "hash_list (pair_up (hash_pair keccak) zs)" for zs
    by (rule pair_up_set) (simp add: hash_pair_def cn_fast_hash_def kl)
  have "collision keccak \<or> pair_up (hash_pair keccak) xs = pair_up (hash_pair keccak) ys"
    using Suc.prems hl by (intro Suc.IH) (simp_all add: funpow_swap1)
  then show ?case using Suc.prems pair_up_binding [of keccak xs ys] by auto
qed simp

lemma first_level_binding:
  assumes "first_level (hash_pair keccak) k xs = first_level (hash_pair keccak) k ys"
    and "length xs = length ys" "2 ^ k \<le> length xs" "length xs \<le> 2 ^ Suc k"
    and "hash_list xs" "hash_list ys"
  shows "collision keccak \<or> xs = ys"
proof -
  let ?d = "2 ^ Suc k - length xs" and ?f = "hash_pair keccak"
  have "take ?d xs = take ?d ys" "pair_up ?f (drop ?d xs) = pair_up ?f (drop ?d ys)"
    using assms(1,2,3) by (simp_all add: first_level_def Let_def)
  moreover have "even (length (drop ?d xs))" using assms(3,4) by simp
  moreover have "hash_list (drop ?d xs)" "hash_list (drop ?d ys)"
    using assms(5,6) by (auto simp: list_all_iff dest: in_set_dropD)
  ultimately have "collision keccak \<or> drop ?d xs = drop ?d ys"
    using pair_up_binding [of keccak "drop ?d xs" "drop ?d ys"] assms(2) by simp
  then show ?thesis using \<open>take ?d xs = take ?d ys\<close> by (metis append_take_drop_id)
qed

lemma power_interval_unique:
  assumes "(2 :: nat) ^ k < n" "n \<le> 2 ^ Suc k" "2 ^ j < n" "n \<le> 2 ^ Suc j"
  shows "k = j"
proof (rule ccontr)
  assume "k \<noteq> j"
  then consider "Suc k \<le> j" | "Suc j \<le> k" by linarith
  then show False
  proof cases
    case 1
    then have "(2 :: nat) ^ Suc k \<le> 2 ^ j" by (intro power_increasing) auto
    then show False using assms by linarith
  next
    case 2
    then have "(2 :: nat) ^ Suc j \<le> 2 ^ k" by (intro power_increasing) auto
    then show False using assms by linarith
  qed
qed

lemma tree_hash_binds:
  assumes "tree_hash keccak xs = tree_hash keccak ys" "xs \<noteq> []" "length xs = length ys"
    and "hash_list xs" "hash_list ys"
    and kl: "\<And>x. length (keccak x) = 32"
  shows "collision keccak \<or> xs = ys"
proof -
  let ?f = "hash_pair keccak"
  have "length xs \<noteq> 0" using assms(2) by simp
  then consider "length xs = 1" | "length xs = 2" | "3 \<le> length xs" by linarith
  then show ?thesis
  proof cases
    case 1
    then show ?thesis using assms(1,3) by (auto simp: length_Suc_conv tree_hash_def)
  next
    case 2
    then obtain a b c d where "xs = [a, b]" "ys = [c, d]"
      using assms(3) by (auto simp: length_Suc_conv numeral_2_eq_2)
    then show ?thesis
      using assms hash_pair_binding [of keccak a b c d] by (auto simp: tree_hash_def)
  next
    case 3
    obtain k where k: "2 ^ k < length xs" "length xs \<le> 2 ^ Suc k"
        "tree_hash keccak xs = Some (hd ((pair_up ?f ^^ k) (first_level ?f k xs)))"
      using tree_hash_levels [OF 3] by blast
    obtain j where j: "2 ^ j < length ys" "length ys \<le> 2 ^ Suc j"
        "tree_hash keccak ys = Some (hd ((pair_up ?f ^^ j) (first_level ?f j ys)))"
      using tree_hash_levels [of ys] 3 assms(3) by auto
    have [simp]: "j = k" using power_interval_unique k(1,2) j(1,2) assms(3) by metis
    have len: "length (first_level ?f k xs) = 2 ^ k" "length (first_level ?f k ys) = 2 ^ k"
      using k(1,2) assms(3) by (simp_all add: length_first_level)
    then have "length ((pair_up ?f ^^ k) (first_level ?f k xs)) = 1"
        "length ((pair_up ?f ^^ k) (first_level ?f k ys)) = 1"
      using length_pair_up_iterate [of _ k 0 ?f] by simp_all
    then have "(pair_up ?f ^^ k) (first_level ?f k xs) = (pair_up ?f ^^ k) (first_level ?f k ys)"
      using assms(1) k(3) j(3) by (auto simp: length_Suc_conv)
    moreover have "hash_list (first_level ?f k zs)" if "hash_list zs" for zs
      using that pair_up_set [of "\<lambda>h. length h = 32" ?f] kl
      by (auto simp: first_level_def Let_def hash_pair_def cn_fast_hash_def list_all_iff
            dest: in_set_takeD)
    ultimately have "collision keccak \<or> first_level ?f k xs = first_level ?f k ys"
      using assms(4,5) len kl by (intro pair_up_iterate_binding) auto
    then show ?thesis using first_level_binding [of keccak k xs ys] k assms(3-5) by auto
  qed
qed

lemma append_varint_append:
  "\<exists>enc. (\<forall>out. append_varint v out = out @ enc)
     \<and> (\<forall>rest. read_varint (enc @ rest) = Some (unat v, rest))"
proof -
  have b: "unat v < 128 ^ Suc 9" using unat_lt_u64 [of v] by simp
  have out: "append_varint v (pre @ out) = pre @ append_varint v out" for pre out
  proof (induction v out rule: append_varint.induct)
    case (1 v out)
    then show ?case by (subst (1 2) append_varint.simps) simp
  qed
  obtain enc where "append_varint v [] = [] @ enc"
      "\<forall>rest. read_varint (enc @ rest) = Some (unat v, rest)"
    using append_varint_encodes [OF b, of "[]"] by blast
  then show ?thesis using out [of _ "[]"] by (intro exI [of _ enc]) simp
qed

text \<open>The bytes of one varint.\<close>

definition varint :: "u64 \<Rightarrow> u8 list" where
  "varint v = append_varint v []"

lemma append_varint_eq: "append_varint v out = out @ varint v"
  using append_varint_append [of v] by (metis append_Nil varint_def)

lemma varint_inject: "varint v @ r = varint w @ s \<longleftrightarrow> v = w \<and> r = s"
  using append_varint_append [of v] append_varint_append [of w]
  by (metis append_Nil option.inject prod.inject varint_def word_unat_eq_iff)

lemma to_le_bytes_inject: "to_le_bytes 4 v = to_le_bytes 4 w \<longleftrightarrow> v = (w :: u32)"
proof
  assume "to_le_bytes 4 v = to_le_bytes 4 w"
  then have "from_le_bytes (to_le_bytes 4 v) = (from_le_bytes (to_le_bytes 4 w) :: u32)" by simp
  then show "v = w" by (simp add: from_to_le_bytes)
qed simp

lemma length_decode_hex: "decode_hex N s = Ok bs \<Longrightarrow> length bs = N"
  by (simp add: decode_hex_Ok_iff)

lemma length_root_hash:
  "hash_list (leaves t) \<Longrightarrow> (\<And>x. length (keccak x) = 32) \<Longrightarrow> length (root_hash keccak t) = 32"
  by (cases t) (simp_all add: hash_pair_def cn_fast_hash_def)

lemma length_tree_hash:
  assumes "tree_hash keccak hs = Some h" "hash_list hs" "\<And>x. length (keccak x) = 32"
  shows "length h = 32"
proof -
  have "hs \<noteq> []" using assms(1) by (auto simp: tree_hash_def)
  then obtain t where "tree_hash keccak hs = Some (root_hash keccak t)" "leaves t = hs"
    using tree_hash_is_root by blast
  then show ?thesis using assms length_root_hash [of t keccak] by simp
qed

text \<open>The layout of the blob.\<close>

lemma hashing_blob_layout:
  assumes "hashing_blob keccak block = Ok blob"
  shows "\<exists>miner txs prev root.
    decode_hex 32 (miner_tx_hash block) = Ok miner
    \<and> traverse (decode_hex 32) (tx_hashes block) = Ok txs
    \<and> decode_hex 32 (prev_hash block) = Ok prev
    \<and> tree_hash keccak (miner # txs) = Some root
    \<and> blob = varint (major_version block) @ varint (minor_version block)
        @ varint (timestamp block) @ prev @ to_le_bytes 4 (nonce block) @ root
        @ varint (of_nat (Suc (length txs)))"
  using assms
  by (auto simp: hashing_blob_def and_then_eq_Ok_conv Let_def append_varint_eq expect_option_def
        HASH_BYTES_def split: option.splits)

lemma hash_list_traverse:
  "traverse (decode_hex 32) ss = Ok hs \<Longrightarrow> hash_list hs"
  by (auto simp: traverse_eq_Ok_iff list_all2_conv_all_nth list_all_length dest: length_decode_hex)


text \<open>A record with one transaction besides the miner's, for the witness.\<close>

definition sample_record :: "u8 \<Rightarrow> RpcBlockRecord" where
  "sample_record x =
     \<lparr>height = 5, block_id = [], major_version = 16, minor_version = 16, timestamp = 300,
      prev_hash = encode_hex (replicate 32 7), nonce = 9,
      miner_tx_hash = encode_hex (replicate 32 x),
      tx_hashes = [encode_hex (replicate 32 8)], wide_difficulty = []\<rparr>"

lemma decode_hex_replicate: "decode_hex 32 (encode_hex (replicate 32 x)) = Ok (replicate 32 x)"
  using decode_hex_encode [of "replicate 32 x"] by simp

lemma sample_record_blob:
  "\<exists>blob. hashing_blob (\<lambda>_. replicate 32 0) (sample_record 1) = Ok blob
     \<and> hashing_blob (\<lambda>_. replicate 32 0) (sample_record 2) = Ok blob"
  by (simp add: sample_record_def hashing_blob_def HASH_BYTES_def decode_hex_replicate tree_hash_def
        hash_pair_def cn_fast_hash_def expect_option_def)


text \<open>C20: on a non-empty list \<open>tree_hash\<close> does not panic, and its result is the root of a
  binary hash tree over the given hashes, left to right, in which every leaf lies at depth
  \<open>k\<close> or \<open>k + 1\<close>: with \<open>n\<close> hashes the first \<open>2 ^ (k + 1) - n\<close> are
  at depth \<open>k\<close> and the rest one level deeper.\<close>

theorem tree_hash_correct:
  assumes "hashes \<noteq> []"
  shows "\<exists>t k. tree_hash keccak hashes = Some (root_hash keccak t) \<and> leaves t = hashes
    \<and> 2 ^ k \<le> length hashes \<and> length hashes \<le> 2 ^ (k + 1)
    \<and> depths t = replicate (2 ^ (k + 1) - length hashes) k
                   @ replicate (2 * length hashes - 2 ^ (k + 1)) (k + 1)"
  using assms by (rule tree_hash_is_root)

theorem tree_hash_correct_witness:
  "\<exists>t k. tree_hash rev [[1], [2], [3], [4], [5]] = Some (root_hash rev t)
    \<and> leaves t = [[1], [2], [3], [4], [5]]
    \<and> 2 ^ k \<le> length [[1], [2], [3], [4], [5 :: u8]]
    \<and> length [[1], [2], [3], [4], [5 :: u8]] \<le> 2 ^ (k + 1)
    \<and> depths t = replicate (2 ^ (k + 1) - length [[1], [2], [3], [4], [5 :: u8]]) k
                   @ replicate (2 * length [[1], [2], [3], [4], [5 :: u8]] - 2 ^ (k + 1)) (k + 1)"
  by (rule tree_hash_correct) simp

end
