(* ===== verification/NetworkProver.thy ===== *)
theory NetworkProver
  imports Monero
begin

text \<open>
  Model of \<open>network-prover/src/main.rs\<close>, the tool that buys a Groth16 proof of one Monero
  block on the Succinct network. The state is a file system and the list of the proof requests sent
  so far; an operation takes the state and returns an outcome and the state it leaves, so that what
  was done before an error stays visible. A path is the list of its components. The packages the
  tool calls (\<open>sp1-sdk\<close>, \<open>hex\<close>, \<open>sha2\<close>, \<open>alloy\<close>,
  \<open>serde_json\<close>, \<open>reqwest\<close>) are the fields of the parameter record
  \<open>sdk\<close>: their answers are arbitrary. Printed lines are not part of the state.
\<close>

section \<open>External packages\<close>

type_synonym path = "str list"

record auction_params =
  max_price_per_pgu :: str
  tick_size :: u64
  base_fee :: str

datatype ParamsResponse = Auction auction_params | OtherParams

record ProofRequest =
  rq_stdin :: "u8 list list"
  rq_cycle_limit :: u64
  rq_gas_limit :: u64
  rq_skip_simulation :: bool
  rq_timeout :: u64
  rq_min_auction_period :: u64
  rq_max_price_per_pgu :: u64

text \<open>The answers of the packages; an option is a call that may fail.\<close>

record ('signer, 'pk, 'proof, 'json) sdk =
  hex_decode :: "str \<Rightarrow> u8 list option"
  hex_encode :: "u8 list \<Rightarrow> str"
  keccak256 :: "u8 list \<Rightarrow> u8 list"
  sha256 :: "u8 list \<Rightarrow> u8 list"
  signer_local :: "str \<Rightarrow> 'signer option"
  get_balance :: "'signer \<Rightarrow> str option"
  get_market_price_per_pgu :: "'signer \<Rightarrow> (u128 \<times> u64) option"
  get_proof_request_params :: "'signer \<Rightarrow> ParamsResponse option"
  setup_elf :: "u8 list \<Rightarrow> 'pk option"
  vkey_bytes32 :: "'pk \<Rightarrow> str"
  request_proof :: "'signer \<Rightarrow> 'pk \<Rightarrow> ProofRequest \<Rightarrow> u8 list option"
  show_b256 :: "u8 list \<Rightarrow> str"
  parse_b256 :: "str \<Rightarrow> u8 list option"
  wait_proof :: "'signer \<Rightarrow> u8 list \<Rightarrow> u64 \<Rightarrow> u64 \<Rightarrow> 'proof option"
  verify_proof :: "'proof \<Rightarrow> 'pk \<Rightarrow> bool"
  public_values :: "'proof \<Rightarrow> u8 list"
  is_groth16 :: "'proof \<Rightarrow> bool"
  proof_bytes :: "'proof \<Rightarrow> u8 list"
  save_proof :: "'proof \<Rightarrow> u8 list"
  load_proof :: "u8 list \<Rightarrow> 'proof option"
  parse_address :: "str \<Rightarrow> u8 list option"
  show_address :: "u8 list \<Rightarrow> str"
  abi_encode_verify :: "u8 list \<Rightarrow> u8 list \<Rightarrow> u8 list \<Rightarrow> u8 list"
  post_json :: "str \<Rightarrow> str \<Rightarrow> str list \<Rightarrow> 'json option"
  json_get :: "'json \<Rightarrow> str \<Rightarrow> 'json option"
  json_as_str :: "'json \<Rightarrow> str option"

section \<open>Errors\<close>

datatype (plugins only: size) np_error =
    Usage
  | ParsingPguLimit
  | DuplicateRequest path
  | ProofExists path
  | BalanceTooLow u128 u128
  | SettingUp
  | Submitting
  | ReadingFile path
  | ParsingRequestId
  | WaitingForProof
  | NotGroth16
  | PublicValuesMismatch "u8 list" "u8 list"
  | ParsingGateway
  | NoRpcUrl
  | WrongChain u64
  | NotHexData
  | NonVoidReturn str
  | RpcFailed str
  | RpcError str
  | RpcOmittedResult str
  | VerifyingProof
  | QueryingBalance
  | BalanceNotU128
  | QueryingMarket
  | QueryingParams
  | NotAuction
  | CapOverflow
  | KeyNotFile path
  | KeyAccessible path
  | ParsingKey
  | UnsupportedNetwork str
  | DecodingBlob
  | BlobLength nat
  | WrongBlockId
  | WrongSeedHeight u64 u64
  | BelowDifficulty
  | TimeoutTooShort
  | NoApprovedElf
  | ElfMismatch str str
  | ParsingDifficulty str
  | DecodingField str
  | FieldLength str nat
  | ParsingNumber str str
  | NotString str
  | NotQuantity str str
  | EmptyQuantity str
  | ParsingQuantity str str
  | WritingFile path
  | TextMismatch path
  | CreatingDirectory path

section \<open>Constants and input\<close>

definition MAINNET_RPC_URL :: str where
  "MAINNET_RPC_URL = lit ''https://rpc.mainnet.succinct.xyz''"

definition ETHEREUM_MAINNET_CHAIN_ID :: u64 where
  "ETHEREUM_MAINNET_CHAIN_ID = 1"

definition GROTH16_GATEWAY :: str where
  "GROTH16_GATEWAY = lit ''0x397A5f7f3dBd538f23DE225B51f532c34448dA9B''"

definition DEFAULT_AUCTION_TIMEOUT_SECS :: u64 where
  "DEFAULT_AUCTION_TIMEOUT_SECS = 600"

definition MIN_REQUEST_TIMEOUT_SECS :: u64 where
  "MIN_REQUEST_TIMEOUT_SECS = 600"

definition PROVE_WEI :: u128 where
  "PROVE_WEI = 1000000000000000000"

definition APPROVED_ELF_SHA256 :: "str option" where
  "APPROVED_ELF_SHA256 =
     Some (lit ''2f3d772c9dcf6e077d254d934d092d242bb1ed4682f0a1ce64d980fa023cd79a'')"

record ProofInput =
  in_network :: str
  in_height :: u64
  in_block_id :: str
  in_prev_hash :: str
  in_timestamp :: u64
  in_wide_difficulty :: str
  in_seed_height :: u64
  in_seed_hash :: str
  in_hashing_blob :: str
  in_pow_hash :: str
  in_cycle_limit :: u64
  in_gas_limit :: u64
  in_request_timeout_seconds :: u64

definition SELECTED_BLOCK :: ProofInput where
  "SELECTED_BLOCK =
     \<lparr>in_network = lit ''monero-mainnet'',
      in_height = 3727837,
      in_block_id = lit ''fd20c878bddf0302867fcc5f7ce6b01e6e8d61ee0a4351879232793a8665f6af'',
      in_prev_hash = lit ''df66d34b58d9c65ee20ca8e7c307608db0f7c4e7c6b450bc38e3348d2778f51b'',
      in_timestamp = 1785253434,
      in_wide_difficulty = lit ''0x9e0ea93a72'',
      in_seed_height = 3727360,
      in_seed_hash = lit ''0e3b4521acd1982c62a99b6b76ad8504eaa80e164d8e9df3f047b1cf6607f2bd'',
      in_hashing_blob = lit ''1010ba9ca3d306df66d34b58d9c65ee20ca8e7c307608db0f7c4e7c6b450bc38e3348d2778f51b4940173c7c0f26941324afc7aa4e30ffa1b2cd80a84ebbfc464833d6222bee72886d3a9d8a01'',
      in_pow_hash = lit ''5cff906139956eb646100adef11db2e00464ffabfdf4d5a194d54f0000000000'',
      in_cycle_limit = 6500000000,
      in_gas_limit = 8000000000,
      in_request_timeout_seconds = 3600\<rparr>"

record Quote =
  balance_wei :: u128
  market_price :: u128
  market_as_of :: u64
  q_base_fee :: u64
  raw_price :: u64
  q_tick_size :: u64
  sdk_price_cap :: u64
  cost_cap :: u128

section \<open>Pure helpers\<close>

text \<open>\<open>checked_div\<close> by the constant 2048 cannot fail; the last product cannot wrap.\<close>

definition np_randomx_seed_height :: "u64 \<Rightarrow> u64" where
  "np_randomx_seed_height block_height =
     (let EPOCH_BLOCKS = 2048; SEED_LAG = 64;
          lagged = (if block_height < SEED_LAG then 0 else block_height - SEED_LAG)
      in lagged div EPOCH_BLOCKS * EPOCH_BLOCKS)"

definition strip_0x :: "str \<Rightarrow> str option" where
  "strip_0x value =
     (case strip_prefix (lit ''0x'') value of
        Some d \<Rightarrow> Some d
      | None \<Rightarrow> strip_prefix (lit ''0X'') value)"

definition parse_difficulty :: "str \<Rightarrow> (u64, np_error) result" where
  "parse_difficulty value =
     (let digits = (case strip_0x value of Some d \<Rightarrow> d | None \<Rightarrow> value)
      in map_err (\<lambda>_. ParsingDifficulty value) (from_str_radix 16 digits))"

definition np_meets_difficulty :: "u8 list \<Rightarrow> u64 \<Rightarrow> bool" where
  "np_meets_difficulty hash difficulty =
     (let carry = foldl
        (\<lambda>carry chunk.
           let limb = from_le_bytes chunk :: u64;
               product = (ucast limb :: u128) * ucast difficulty + carry
           in drop_bit 64 product)
        (0 :: u128) (chunks_exact 8 hash)
      in carry = 0)"

function np_append_varint :: "u64 \<Rightarrow> u8 list \<Rightarrow> u8 list" where
  "np_append_varint value output =
     (if value \<ge> 0x80 then np_append_varint (drop_bit 7 value) (output @ [ucast value OR 0x80])
      else output @ [ucast value])"
  by pat_completeness auto
termination
proof (relation "measure (\<lambda>(value, output). unat value)", simp)
  fix v :: u64 and out :: "u8 list"
  assume "v \<ge> 0x80"
  then show "((drop_bit 7 v, out @ [ucast v OR 0x80]), v, out) \<in> measure (\<lambda>(v, out). unat v)"
    by (simp add: unat_drop_bit word_le_nat_alt)
qed

declare np_append_varint.simps [simp del]

definition decode_32 ::
    "('s, 'k, 'p, 'j) sdk \<Rightarrow> str \<Rightarrow> str \<Rightarrow> (u8 list, np_error) result" where
  "decode_32 x value name =
     (let digits = (case strip_0x value of Some d \<Rightarrow> d | None \<Rightarrow> value)
      in and_then (ok_or (DecodingField name) (hex_decode x digits)) (\<lambda>bytes.
           if length bytes = 32 then Ok bytes else Err (FieldLength name (length bytes))))"

definition parse_u64 :: "str \<Rightarrow> str \<Rightarrow> (u64, np_error) result" where
  "parse_u64 value name = map_err (\<lambda>_. ParsingNumber name value) (from_str_radix 10 value)"

definition parse_json_rpc_quantity ::
    "('s, 'k, 'p, 'j) sdk \<Rightarrow> 'j \<Rightarrow> str \<Rightarrow> (u64, np_error) result" where
  "parse_json_rpc_quantity x value name =
     and_then (ok_or (NotString name) (json_as_str x value)) (\<lambda>text.
     and_then (ok_or (NotQuantity name text) (strip_0x text)) (\<lambda>digits.
       if digits = [] then Err (EmptyQuantity name)
       else map_err (\<lambda>_. ParsingQuantity name text) (from_str_radix 16 digits)))"

definition align_to_tick :: "u64 \<Rightarrow> u64 \<Rightarrow> u64" where
  "align_to_tick value tick = (if tick \<le> 1 then value else value - value mod tick)"

definition format_prove :: "u128 \<Rightarrow> str" where
  "format_prove wei =
     (let whole = wei div PROVE_WEI; fractional = wei mod PROVE_WEI
      in format_dec (unat whole) @ lit ''.'' @ format_dec_pad 18 (unat fractional))"

section \<open>Validation\<close>

definition validate_input ::
    "('s, 'k, 'p, 'j) sdk \<Rightarrow> ProofInput \<Rightarrow> (unit, np_error) result" where
  "validate_input x input =
     (if in_network input \<noteq> lit ''monero-mainnet'' then Err (UnsupportedNetwork (in_network input))
      else
        and_then (decode_32 x (in_block_id input) (lit ''block ID'')) (\<lambda>block_id.
        and_then (decode_32 x (in_prev_hash input) (lit ''previous block hash'')) (\<lambda>_.
        and_then (decode_32 x (in_seed_hash input) (lit ''RandomX seed hash'')) (\<lambda>_.
        and_then (decode_32 x (in_pow_hash input) (lit ''PoW hash'')) (\<lambda>pow_hash.
        and_then (ok_or DecodingBlob (hex_decode x (in_hashing_blob input))) (\<lambda>blob.
        and_then (bail_if (length blob \<noteq> 77) (BlobLength (length blob))) (\<lambda>_.
        let serialized_blob = np_append_varint (of_nat (length blob)) [];
            serialized_blob = serialized_blob @ blob
        in and_then (bail_if (keccak256 x serialized_blob \<noteq> block_id) WrongBlockId) (\<lambda>_.
        let expected_seed_height = np_randomx_seed_height (in_height input)
        in and_then (bail_if (in_seed_height input \<noteq> expected_seed_height)
             (WrongSeedHeight expected_seed_height (in_seed_height input))) (\<lambda>_.
        and_then (parse_difficulty (in_wide_difficulty input)) (\<lambda>difficulty.
        and_then (bail_if (\<not> np_meets_difficulty pow_hash difficulty) BelowDifficulty) (\<lambda>_.
        and_then (bail_if (in_request_timeout_seconds input < MIN_REQUEST_TIMEOUT_SECS)
             TimeoutTooShort) (\<lambda>_.
        Ok ()))))))))))))"

definition validate_elf :: "('s, 'k, 'p, 'j) sdk \<Rightarrow> u8 list \<Rightarrow> (unit, np_error) result" where
  "validate_elf x elf =
     and_then (ok_or NoApprovedElf APPROVED_ELF_SHA256) (\<lambda>expected.
     let actual = hex_encode x (sha256 x elf);
         expected = trim_start_matches (lit ''0x'') expected
     in if actual \<noteq> expected then Err (ElfMismatch expected actual) else Ok ())"

text \<open>\<open>query_quote\<close>. The balance is the decimal text of a 256-bit integer; the price cap uses a
  saturating product.\<close>

definition saturating_mul :: "u64 \<Rightarrow> u64 \<Rightarrow> u64" where
  "saturating_mul a b = (if unat a * unat b < 2 ^ 64 then a * b else - 1)"

definition query_quote ::
    "('s, 'k, 'p, 'j) sdk \<Rightarrow> 's \<Rightarrow> u64 \<Rightarrow> (Quote, np_error) result" where
  "query_quote x client pgu_limit =
     and_then (ok_or QueryingBalance (get_balance x client)) (\<lambda>balance.
     and_then (map_err (\<lambda>_. BalanceNotU128) (from_str_radix 10 balance)) (\<lambda>balance_wei.
     and_then (ok_or QueryingMarket (get_market_price_per_pgu x client)) (\<lambda>(wei, as_of).
     and_then (ok_or QueryingParams (get_proof_request_params x client)) (\<lambda>response.
     case response of
       OtherParams \<Rightarrow> Err NotAuction
     | Auction params \<Rightarrow>
         and_then (parse_u64 (max_price_per_pgu params) (lit ''max price per PGU'')) (\<lambda>raw_price.
         let sdk_price_cap = align_to_tick (saturating_mul raw_price 120 div 100) (tick_size params)
         in and_then (parse_u64 (base_fee params) (lit ''Groth16 base fee'')) (\<lambda>base_fee.
         and_then (ok_or CapOverflow
             (checked_add (ucast base_fee :: u128) (ucast sdk_price_cap * ucast pgu_limit))) (\<lambda>cost_cap.
         Ok \<lparr>balance_wei = balance_wei, market_price = wei, market_as_of = as_of,
             q_base_fee = base_fee, raw_price = raw_price, q_tick_size = tick_size params,
             sdk_price_cap = sdk_price_cap, cost_cap = cost_cap\<rparr>)))))))"

section \<open>Agreement with the audit crate\<close>

text \<open>The tool repeats three functions of \<open>audit/src/monero.rs\<close>.\<close>

lemma np_append_varint_eq: "np_append_varint v out = append_varint v out"
proof (induction v out rule: np_append_varint.induct)
  case (1 v out)
  then show ?case by (subst np_append_varint.simps, subst append_varint.simps) simp
qed

lemma np_meets_difficulty_eq: "np_meets_difficulty h d = meets_difficulty h d"
  by (simp add: np_meets_difficulty_def meets_difficulty_def)

lemma parse_difficulty_eq:
  "parse_difficulty s = Ok d \<longleftrightarrow> parse_wide_difficulty s = Ok d"
  by (simp add: parse_difficulty_def parse_wide_difficulty_def strip_0x_def Let_def
        split: option.splits)

lemma unat_np_seed_height:
  "unat (np_randomx_seed_height h) = (unat h - 64) div 2048 * 2048"
proof -
  have "unat (if h < 64 then 0 else h - 64) = unat h - 64"
    by (auto simp: word_less_nat_alt unat_sub_bounded)
  moreover have "unat (w div 2048 * 2048) = unat w div 2048 * 2048" for w :: u64
    using unat_lt_u64 [of w] by (simp add: unat_div_distrib unat_word_ariths)
  ultimately show ?thesis by (simp add: np_randomx_seed_height_def Let_def)
qed

lemma unat_seed_height:
  "unat (randomx_seed_height h) = (if unat h \<le> 2112 then 0 else (unat h - 65) div 2048 * 2048)"
proof (cases "unat h \<le> 2112")
  case True
  then show ?thesis by (simp add: randomx_seed_height_def word_le_nat_alt)
next
  case False
  have "w AND NOT (mask 11) = push_bit 11 (drop_bit 11 w)" for w :: u64
    by (rule bit_word_eqI) (auto simp: bit_simps)
  moreover have "NOT (2048 - 1) = (NOT (mask 11) :: u64)" by (simp add: mask_eq_exp_minus_1)
  moreover have "unat (h - 64 - 1) = unat h - 65"
    using False by (simp add: unat_sub_bounded)
  moreover have "unat (push_bit 11 (drop_bit 11 w)) = unat w div 2048 * 2048" for w :: u64
    using unat_lt_u64 [of w] by (subst unat_push_bit_bounded) (simp_all add: unat_drop_bit)
  ultimately show ?thesis
    using False by (simp add: randomx_seed_height_def word_le_nat_alt)
qed

lemma epoch_boundary:
  fixes n :: nat
  shows "(n - 64) div 2048 = (if n \<le> 2112 then 0 else (n - 65) div 2048)
    \<longleftrightarrow> \<not> (2112 \<le> n \<and> n mod 2048 = 64)"
proof (cases "n \<le> 2112")
  case True
  then have "(n - 64) div 2048 = 0 \<longleftrightarrow> n < 2112" by auto
  moreover have "n = 2112 \<Longrightarrow> n mod 2048 = 64" by simp
  ultimately show ?thesis using True by auto
next
  case False
  define m where "m = n - 65"
  have n: "n = Suc m + 64" using False by (simp add: m_def)
  have small: "(r + 64) mod 2048 = 64 \<longleftrightarrow> r = 0" if "r < 2048" for r :: nat
    using that by (cases "r + 64 < 2048") (auto simp: le_mod_geq)
  have "n mod 2048 = (Suc m mod 2048 + 64) mod 2048" unfolding n by (simp add: mod_simps)
  then have "n mod 2048 = 64 \<longleftrightarrow> Suc m mod 2048 = 0" using small [of "Suc m mod 2048"] by simp
  moreover have "Suc m div 2048 = m div 2048 \<longleftrightarrow> Suc m mod 2048 \<noteq> 0"
    by (simp add: div_Suc)
  ultimately show ?thesis using False n by simp
qed

text \<open>C36: the seed height computed by the network prover and the one computed by the audit crate
  differ exactly at the heights \<open>2112, 4160, 6208, \<dots>\<close>: on the last block of a seed
  epoch the prover's formula is one epoch ahead.\<close>

theorem seed_heights_agree_iff:
  "np_randomx_seed_height h = randomx_seed_height h \<longleftrightarrow> \<not> (2112 \<le> h \<and> unat h mod 2048 = 64)"
proof -
  have "np_randomx_seed_height h = randomx_seed_height h \<longleftrightarrow>
      (unat h - 64) div 2048 = (if unat h \<le> 2112 then 0 else (unat h - 65) div 2048)"
    by (auto simp: word_unat_eq_iff unat_np_seed_height unat_seed_height)
  also have "\<dots> \<longleftrightarrow> \<not> (2112 \<le> unat h \<and> unat h mod 2048 = 64)"
    by (rule epoch_boundary)
  finally show ?thesis by (simp add: word_le_nat_alt)
qed

section \<open>Validation of the input\<close>

lemma decode_32_Ok_iff:
  "decode_32 x s name = Ok bs \<longleftrightarrow>
     hex_decode x (case strip_0x s of Some d \<Rightarrow> d | None \<Rightarrow> s) = Some bs \<and> length bs = 32"
  by (auto simp: decode_32_def Let_def and_then_eq_Ok_conv split: if_splits)

lemma varint_77: "np_append_varint 77 [] = [77]"
  by (simp add: np_append_varint.simps)

lemma validate_input_iff:
  "validate_input x input = Ok () \<longleftrightarrow>
     in_network input = lit ''monero-mainnet''
     \<and> (\<exists>id prev seed pow blob d.
          decode_32 x (in_block_id input) (lit ''block ID'') = Ok id
          \<and> decode_32 x (in_prev_hash input) (lit ''previous block hash'') = Ok prev
          \<and> decode_32 x (in_seed_hash input) (lit ''RandomX seed hash'') = Ok seed
          \<and> decode_32 x (in_pow_hash input) (lit ''PoW hash'') = Ok pow
          \<and> hex_decode x (in_hashing_blob input) = Some blob
          \<and> length blob = 77 \<and> keccak256 x (77 # blob) = id
          \<and> unat (in_seed_height input) = (unat (in_height input) - 64) div 2048 * 2048
          \<and> parse_difficulty (in_wide_difficulty input) = Ok d
          \<and> le_value pow * unat d < 2 ^ 256
          \<and> 600 \<le> in_request_timeout_seconds input)"
proof -
  have seed: "in_seed_height input = np_randomx_seed_height (in_height input) \<longleftrightarrow>
      unat (in_seed_height input) = (unat (in_height input) - 64) div 2048 * 2048"
    by (simp add: word_unat_eq_iff unat_np_seed_height)
  have pow: "decode_32 x (in_pow_hash input) (lit ''PoW hash'') = Ok pow \<Longrightarrow>
      np_meets_difficulty pow d \<longleftrightarrow> le_value pow * unat d < 2 ^ 256" for pow d
    by (simp add: np_meets_difficulty_eq meets_difficulty_iff decode_32_Ok_iff)
  show ?thesis
    unfolding validate_input_def seed [symmetric]
    by (simp add: and_then_eq_Ok_conv Let_def varint_77 pow MIN_REQUEST_TIMEOUT_SECS_def
          not_less [of _ "600 :: u64"] cong: conj_cong)
qed

text \<open>C35: \<open>validate_input\<close> accepts an input exactly when it is for the main network, its four
  fields of hash type decode to 32 bytes, the hashing blob decodes to 77 bytes whose Keccak hash with
  the length prefix is the block id, the seed height is the one of the block height, the difficulty
  parses and the product of the proof-of-work hash and the difficulty is below \<open>2 ^ 256\<close>, and
  the timeout is at least 600 seconds.\<close>

theorem validate_input_accepts:
  "validate_input x input = Ok () \<longleftrightarrow>
     in_network input = lit ''monero-mainnet''
     \<and> (\<exists>id prev seed pow blob d.
          decode_32 x (in_block_id input) (lit ''block ID'') = Ok id
          \<and> decode_32 x (in_prev_hash input) (lit ''previous block hash'') = Ok prev
          \<and> decode_32 x (in_seed_hash input) (lit ''RandomX seed hash'') = Ok seed
          \<and> decode_32 x (in_pow_hash input) (lit ''PoW hash'') = Ok pow
          \<and> hex_decode x (in_hashing_blob input) = Some blob
          \<and> length blob = 77 \<and> keccak256 x (77 # blob) = id
          \<and> unat (in_seed_height input) = (unat (in_height input) - 64) div 2048 * 2048
          \<and> parse_difficulty (in_wide_difficulty input) = Ok d
          \<and> le_value pow * unat d < 2 ^ 256
          \<and> 600 \<le> in_request_timeout_seconds input)"
  by (rule validate_input_iff)

text \<open>The validation never panics.\<close>

lemma validate_input_not_Panic: "validate_input x input \<noteq> Panic"
  by (auto simp: validate_input_def decode_32_def parse_difficulty_def and_then_eq_Panic_conv Let_def
        split: if_splits)

section \<open>The quote\<close>

lemma unat_align_to_tick:
  "unat (align_to_tick v t) = (if unat t \<le> 1 then unat v else unat v - unat v mod unat t)"
  by (auto simp: align_to_tick_def word_le_nat_alt unat_mod_distrib unat_sub_bounded)

lemma unat_price:
  "unat (saturating_mul p 120 div 100) \<le> unat p * 120 div 100"
proof (cases "unat p * 120 < 2 ^ 64")
  case True
  then have "unat (p * 120) = unat p * 120" by (simp add: unat_mult_bounded)
  then show ?thesis using True by (simp add: saturating_mul_def unat_div_distrib)
next
  case False
  have "unat (- 1 :: u64) = 2 ^ 64 - 1" by (simp add: unsigned_minus_1_eq_mask mask_eq_exp_minus_1)
  then show ?thesis using False by (simp add: saturating_mul_def unat_div_distrib)
qed

lemma cap_product: "unat (ucast a :: u128) + unat ((ucast (b :: u64) :: u128) * ucast (c :: u64)) < 2 ^ 128
    \<and> unat ((ucast b :: u128) * ucast c) = unat b * unat c" for a :: u64
proof -
  have "unat b * unat c \<le> (2 ^ 64 - 1) * (2 ^ 64 - 1)"
    by (rule mult_mono) (use unat_lt_u64 [of b] unat_lt_u64 [of c] in auto)
  moreover from this have "unat ((ucast b :: u128) * ucast c) = unat b * unat c"
    by (simp add: unat_simps)
  ultimately show ?thesis using unat_lt_u64 [of a] by (simp add: unat_ucast_widen)
qed

lemma cap_no_overflow:
  "checked_add (ucast a :: u128) (ucast b * ucast c) \<noteq> None" for a b c :: u64
  using cap_product [of a b c] by (simp add: checked_add_def)

text \<open>C34: the maximum cost of a quote is exactly the base fee plus the price cap times the PGU
  limit (the 128-bit sum cannot overflow, so the error \<open>quote cap overflow\<close> is
  unreachable), and the price cap is a multiple of the auction tick that does not exceed
  120 percent of the price of the network.\<close>

theorem quote_exact:
  assumes "query_quote x client pgu_limit = Ok q"
  shows "unat (cost_cap q) = unat (q_base_fee q) + unat (sdk_price_cap q) * unat pgu_limit
    \<and> unat (sdk_price_cap q) \<le> unat (raw_price q) * 120 div 100
    \<and> (unat (q_tick_size q) \<le> 1 \<or> unat (q_tick_size q) dvd unat (sdk_price_cap q))
    \<and> query_quote x other pgu_limit \<noteq> Err CapOverflow"
proof -
  let ?cap = "align_to_tick (saturating_mul (raw_price q) 120 div 100) (q_tick_size q)"
  have q: "sdk_price_cap q = ?cap"
    "checked_add (ucast (q_base_fee q) :: u128) (ucast ?cap * ucast pgu_limit) = Some (cost_cap q)"
    using assms
    by (cases "the (get_proof_request_params x client)";
        auto simp: query_quote_def and_then_eq_Ok_conv Let_def)+
  have "query_quote x other pgu_limit \<noteq> Err CapOverflow"
    by (auto simp: query_quote_def and_then_eq_Err_conv Let_def parse_u64_def cap_no_overflow
          split: ParamsResponse.splits prod.splits)
  moreover have "unat (cost_cap q) = unat (q_base_fee q) + unat ?cap * unat pgu_limit"
  proof -
    have c: "cost_cap q = ucast (q_base_fee q) + ucast ?cap * ucast pgu_limit"
      using q(2) by (simp add: checked_add_def split: if_splits)
    show ?thesis
      unfolding c using cap_product [of "q_base_fee q" ?cap pgu_limit]
      by (subst unat_add_bounded) (auto simp: unat_ucast_widen)
  qed
  moreover have "unat ?cap \<le> unat (raw_price q) * 120 div 100"
    using unat_price [of "raw_price q"]
    by (auto simp: unat_align_to_tick intro: le_trans [OF diff_le_self])
  moreover have "unat (q_tick_size q) \<le> 1 \<or> unat (q_tick_size q) dvd unat ?cap"
    by (simp add: unat_align_to_tick dvd_minus_mod)
  ultimately show ?thesis using q(1) by simp
qed

text \<open>Packages with fixed answers, for the witnesses.\<close>

definition sample_sdk :: "(unit, unit, unit, str) sdk" where
  "sample_sdk =
     \<lparr>hex_decode = (\<lambda>s. Some (replicate (length s div 2) 0)),
      hex_encode = (\<lambda>_. lit ''2f3d772c9dcf6e077d254d934d092d242bb1ed4682f0a1ce64d980fa023cd79a''),
      keccak256 = (\<lambda>_. replicate 32 0), sha256 = (\<lambda>_. replicate 32 0),
      signer_local = (\<lambda>_. Some ()), get_balance = (\<lambda>_. Some (lit ''9'')),
      get_market_price_per_pgu = (\<lambda>_. Some (1, 2)),
      get_proof_request_params =
        (\<lambda>_. Some (Auction \<lparr>max_price_per_pgu = lit ''5'', tick_size = 4, base_fee = lit ''3''\<rparr>)),
      setup_elf = (\<lambda>_. Some ()), vkey_bytes32 = (\<lambda>_. []),
      request_proof = (\<lambda>_ _ _. Some []), show_b256 = (\<lambda>_. []), parse_b256 = (\<lambda>_. Some []),
      wait_proof = (\<lambda>_ _ _ _. Some ()), verify_proof = (\<lambda>_ _. True),
      public_values = (\<lambda>_. replicate 32 0), is_groth16 = (\<lambda>_. True), proof_bytes = (\<lambda>_. []),
      save_proof = (\<lambda>_. [1]), load_proof = (\<lambda>_. Some ()),
      parse_address = (\<lambda>_. Some []), show_address = (\<lambda>_. []),
      abi_encode_verify = (\<lambda>_ _ _. []),
      post_json = (\<lambda>_ m _. Some (if m = lit ''eth_call'' then lit ''0x'' else lit ''0x1'')),
      json_get = (\<lambda>v k. if k = lit ''error'' then None else Some v), json_as_str = Some\<rparr>"

lemma sample_quote:
  "query_quote sample_sdk () 1 = Ok
     \<lparr>balance_wei = 9, market_price = 1, market_as_of = 2, q_base_fee = 3, raw_price = 5,
      q_tick_size = 4, sdk_price_cap = 4, cost_cap = 7\<rparr>"
  by (simp add: query_quote_def sample_sdk_def lit_def from_str_radix_def parse_u64_def to_digit_def
        checked_mul_def checked_add_def saturating_mul_def align_to_tick_def
        word_le_nat_alt)

theorem quote_exact_witness:
  "\<exists>q. query_quote sample_sdk () 1 = Ok q
     \<and> unat (cost_cap q) = unat (q_base_fee q) + unat (sdk_price_cap q) * unat (1 :: u64)
     \<and> query_quote sample_sdk () 1 \<noteq> Err CapOverflow"
  using quote_exact [OF sample_quote] sample_quote by blast

text \<open>The saturation of the product: a price for which the cap is below the price itself.\<close>

lemma price_cap_saturates: "align_to_tick (saturating_mul (2 ^ 63) 120 div 100) 1 < (2 ^ 63 :: u64)"
  by (simp add: align_to_tick_def saturating_mul_def)

section \<open>Amounts\<close>

lemma format_dec_digits:
  "\<exists>ds. map (to_digit 10) (format_dec n) = map Some ds
     \<and> (\<forall>a. digits_value 10 ds a = a * 10 ^ length (format_dec n) + n)"
proof (induction n rule: format_dec.induct)
  case (1 n)
  show ?case
  proof (cases "n < 10")
    case True
    then show ?thesis
      by (intro exI [of _ "[n]"])
         (simp add: format_dec.simps [of n] to_digit_dec_digit del: of_nat_add)
  next
    case False
    then obtain ds where ds: "map (to_digit 10) (format_dec (n div 10)) = map Some ds"
        "\<forall>a. digits_value 10 ds a = a * 10 ^ length (format_dec (n div 10)) + n div 10"
      using 1 by blast
    have "digits_value 10 (ds @ [n mod 10]) a = digits_value 10 ds a * 10 + n mod 10" for a
      by (simp add: digits_value_def)
    then show ?thesis
      using False ds
      by (intro exI [of _ "ds @ [n mod 10]"])
         (simp add: format_dec.simps [of n] to_digit_dec_digit algebra_simps del: of_nat_add)
  qed
qed

lemma length_format_dec: "0 < k \<Longrightarrow> n < 10 ^ k \<Longrightarrow> length (format_dec n) \<le> k"
proof (induction n arbitrary: k rule: format_dec.induct)
  case (1 n)
  show ?case
  proof (cases "n < 10")
    case True
    then show ?thesis using 1 by (simp add: format_dec.simps [of n])
  next
    case False
    then obtain j where j: "k = Suc j" "0 < j" using 1(3) by (cases k; cases "k - 1") auto
    then have "n div 10 < 10 ^ j" using 1(3) by (simp add: div_less_iff_less_mult mult.commute)
    then show ?thesis using 1(1) [of j] False j by (simp add: format_dec.simps [of n])
  qed
qed

lemma format_dec_pad_digits:
  assumes "n < 10 ^ k" "0 < k"
  shows "\<exists>ds. map (to_digit 10) (format_dec_pad k n) = map Some ds \<and> length ds = k
    \<and> (\<forall>a. digits_value 10 ds a = a * 10 ^ k + n)"
proof -
  let ?z = "k - length (format_dec n)"
  obtain ds where ds: "map (to_digit 10) (format_dec n) = map Some ds"
      "\<forall>a. digits_value 10 ds a = a * 10 ^ length (format_dec n) + n"
    using format_dec_digits by blast
  have len: "length ds = length (format_dec n)" using ds(1) by (metis length_map)
  have z: "digits_value 10 (replicate j 0 @ ds) a = digits_value 10 ds (a * 10 ^ j)" for j a
    by (induction j arbitrary: a) (simp_all add: algebra_simps digits_value_def)
  have "to_digit 10 48 = Some 0" by (simp add: to_digit_def)
  moreover have "(10 :: nat) ^ ?z * 10 ^ length (format_dec n) = 10 ^ k"
    using length_format_dec [OF assms(2,1)] by (simp flip: power_add)
  ultimately show ?thesis
    using ds len z [of ?z] length_format_dec [OF assms(2,1)]
    by (intro exI [of _ "replicate ?z 0 @ ds"])
       (simp add: format_dec_pad_def map_replicate_const mult.assoc)
qed

lemma to_digit_Some_not_dot: "to_digit 10 c = Some d \<Longrightarrow> c \<noteq> 46"
  by (auto simp: to_digit_def)

lemma filter_digits:
  "map (to_digit 10) s = map Some ds \<Longrightarrow> filter (\<lambda>c. c \<noteq> 46) s = s"
proof (induction s arbitrary: ds)
  case (Cons c s)
  then show ?case by (cases ds) (auto dest: to_digit_Some_not_dot)
qed simp

text \<open>An amount is printed without loss: the text of \<open>format_prove\<close> without its decimal
  point parses back to the number of wei, and exactly 18 digits follow the point.\<close>

theorem format_prove_round_trip:
  "from_str_radix 10 (filter (\<lambda>c. c \<noteq> 46) (format_prove wei)) = Ok wei
   \<and> (\<exists>whole fraction. format_prove wei = whole @ [46] @ fraction \<and> length fraction = 18)"
proof -
  let ?w = "format_dec (unat (wei div PROVE_WEI))"
  let ?f = "format_dec_pad 18 (unat (wei mod PROVE_WEI))"
  have frac: "unat (wei mod PROVE_WEI) < 10 ^ 18"
    by (simp add: PROVE_WEI_def unat_mod_distrib)
  obtain ws where ws: "map (to_digit 10) ?w = map Some ws"
      "\<forall>a. digits_value 10 ws a = a * 10 ^ length ?w + unat (wei div PROVE_WEI)"
    using format_dec_digits by blast
  obtain fs where fs: "map (to_digit 10) ?f = map Some fs" "length fs = 18"
      "\<forall>a. digits_value 10 fs a = a * 10 ^ 18 + unat (wei mod PROVE_WEI)"
    using format_dec_pad_digits [OF frac] by auto
  have digits: "filter (\<lambda>c. c \<noteq> 46) (format_prove wei) = ?w @ ?f"
    using filter_digits [OF ws(1)] filter_digits [OF fs(1)]
    by (simp add: format_prove_def Let_def lit_def)
  have "digits_value 10 (ws @ fs) 0 = digits_value 10 fs (digits_value 10 ws 0)"
    by (simp add: digits_value_def)
  also have "\<dots> = unat wei"
    by (simp add: ws(2) fs(3) PROVE_WEI_def unat_div_distrib unat_mod_distrib)
  finally have val: "parse_digits 10 (?w @ ?f) (0 :: u128) = Ok wei"
    using ws(1) fs(1) by (subst parse_digits_eq_Ok_iff) (auto intro!: exI [of _ "ws @ fs"])
  have "?w \<noteq> []" by (simp add: format_dec.simps [of "unat (wei div PROVE_WEI)"])
  then obtain c cs where c: "?w @ ?f = c # cs" by (cases ?w) auto
  then have "to_digit 10 c \<noteq> None" using ws(1) \<open>?w \<noteq> []\<close> by (cases ws; cases ?w) auto
  then have "c \<noteq> 43" "c \<noteq> 45" by (auto simp: to_digit_def)
  then have "from_str_radix 10 (?w @ ?f) = Ok wei"
    using val c by (simp add: from_str_radix_def del: parse_digits.simps)
  moreover have "length ?f = 18" using fs(1,2) by (metis length_map)
  ultimately show ?thesis
    unfolding digits by (auto simp: format_prove_def Let_def lit_def)
qed

end
