(* ===== verification/NetworkRun.thy ===== *)
theory NetworkRun
  imports NetworkProver
begin

text \<open>
  The commands of \<open>network-prover/src/main.rs\<close> that read and write files and talk to the
  network: \<open>account\<close>, \<open>prove\<close>, \<open>resume\<close> and \<open>evm-verify\<close>, with the
  file helpers they use. An operation maps a state to an outcome and the state it leaves. The
  lemmas use a weakest precondition with one postcondition for \<open>Ok\<close> and one for the other
  outcomes.
\<close>

section \<open>State\<close>

text \<open>A file has its permission bits and its content. The content of a path in
  \<open>denied\<close> cannot be read or written.\<close>

datatype entry = File u32 "u8 list" | Dir

record World =
  files :: "path \<Rightarrow> entry option"
  denied :: "path \<Rightarrow> bool"
  requests :: "ProofRequest list"

type_synonym 'a io = "World \<Rightarrow> ('a, np_error) result \<times> World"

definition pure_io :: "('a, np_error) result \<Rightarrow> 'a io" where
  "pure_io r w = (r, w)"

definition io_then :: "'a io \<Rightarrow> ('a \<Rightarrow> 'b io) \<Rightarrow> 'b io" where
  "io_then m f w =
     (case m w of (Ok x, w') \<Rightarrow> f x w' | (Err e, w') \<Rightarrow> (Err e, w') | (Panic, w') \<Rightarrow> (Panic, w'))"

text \<open>A decision that reads the state.\<close>

definition ask :: "(World \<Rightarrow> ('a, np_error) result) \<Rightarrow> 'a io" where
  "ask f w = (f w, w)"

section \<open>Files\<close>

definition path_exists :: "World \<Rightarrow> path \<Rightarrow> bool" where
  "path_exists w p \<longleftrightarrow> files w p \<noteq> None"

definition fs_read :: "path \<Rightarrow> u8 list io" where
  "fs_read p = ask (\<lambda>w. case files w p of
       Some (File mode content) \<Rightarrow> if denied w p then Err (ReadingFile p) else Ok content
     | _ \<Rightarrow> Err (ReadingFile p))"

definition read_to_string :: "path \<Rightarrow> str io" where
  "read_to_string p = io_then (fs_read p)
     (\<lambda>content. pure_io (if utf8_valid content then Ok content else Err (ReadingFile p)))"

text \<open>\<open>Path::new\<close>: the components, after a component for the root of an absolute path.\<close>

fun split_slash :: "str \<Rightarrow> str \<Rightarrow> str list" where
  "split_slash acc [] = [rev acc]"
| "split_slash acc (c # s) = (if c = 0x2f then rev acc # split_slash [] s else split_slash (c # acc) s)"

definition path_of :: "str \<Rightarrow> path" where
  "path_of s =
     (if take 1 s = [0x2f] then [[0x2f]] else [])
     @ filter (\<lambda>c. c \<noteq> [] \<and> c \<noteq> lit ''.'') (split_slash [] s)"

definition path_parent :: "path \<Rightarrow> path option" where
  "path_parent p = (if p = [] \<or> p = [[0x2f]] then None else Some (butlast p))"

definition create_dir :: "path \<Rightarrow> unit io" where
  "create_dir p w =
     (case files w p of
        Some Dir \<Rightarrow> (Ok (), w)
      | Some (File mode content) \<Rightarrow> (Err (CreatingDirectory p), w)
      | None \<Rightarrow> if denied w p then (Err (CreatingDirectory p), w)
                else (Ok (), w\<lparr>files := (files w)(p \<mapsto> Dir)\<rparr>))"

primrec create_dirs :: "path list \<Rightarrow> unit io" where
  "create_dirs [] = pure_io (Ok ())"
| "create_dirs (p # ps) = io_then (create_dir p) (\<lambda>_. create_dirs ps)"

definition create_dir_all :: "path \<Rightarrow> unit io" where
  "create_dir_all p = create_dirs (map (\<lambda>n. take n p) [1..<Suc (length p)])"

definition ensure_parent :: "path \<Rightarrow> unit io" where
  "ensure_parent p =
     (case path_parent p of
        None \<Rightarrow> pure_io (Ok ())
      | Some parent \<Rightarrow> if parent = [] then pure_io (Ok ()) else create_dir_all parent)"

definition fs_write :: "path \<Rightarrow> u8 list \<Rightarrow> unit io" where
  "fs_write p contents w =
     (if denied w p \<or> files w p = Some Dir then (Err (WritingFile p), w)
      else
        (let mode = (case files w p of Some (File mode _) \<Rightarrow> mode | _ \<Rightarrow> 420)
         in (Ok (), w\<lparr>files := (files w)(p \<mapsto> File mode contents)\<rparr>)))"

definition write_text :: "path \<Rightarrow> str \<Rightarrow> unit io" where
  "write_text p contents = io_then (ensure_parent p) (\<lambda>_. fs_write p contents)"

definition write_or_verify_text :: "path \<Rightarrow> str \<Rightarrow> unit io" where
  "write_or_verify_text p value w =
     (if path_exists w p
      then io_then (read_to_string p)
             (\<lambda>existing. pure_io (if trim existing \<noteq> value then Err (TextMismatch p) else Ok ())) w
      else write_text p (value @ [0x0a]) w)"

definition read_signer :: "('s, 'k, 'p, 'j) sdk \<Rightarrow> path \<Rightarrow> 's io" where
  "read_signer x p =
     io_then (ask (\<lambda>w. case files w p of
         None \<Rightarrow> Err (ReadingFile p)
       | Some Dir \<Rightarrow> Err (KeyNotFile p)
       | Some (File mode content) \<Rightarrow>
           if mode AND 0x3f \<noteq> 0 then Err (KeyAccessible p) else Ok ())) (\<lambda>_.
     io_then (read_to_string p) (\<lambda>private_key.
     pure_io (ok_or ParsingKey (signer_local x (trim private_key)))))"

section \<open>Commands\<close>

text \<open>The file mode mask is octal 077. In \<open>read_signer\<close> and below every failing step ends
  the command and leaves the state as it is at that point.\<close>

definition print_account :: "('s, 'k, 'p, 'j) sdk \<Rightarrow> path \<Rightarrow> u64 \<Rightarrow> unit io" where
  "print_account x key_path pgu_limit =
     io_then (read_signer x key_path) (\<lambda>signer.
     io_then (pure_io (query_quote x signer pgu_limit)) (\<lambda>quote.
     pure_io (Ok ())))"

definition verify_and_save ::
    "('s, 'k, 'p, 'j) sdk \<Rightarrow> 'k \<Rightarrow> 'p \<Rightarrow> u8 list \<Rightarrow> path \<Rightarrow> unit io" where
  "verify_and_save x pk proof_value expected proof_path =
     io_then (pure_io (bail_if (public_values x proof_value \<noteq> expected)
         (PublicValuesMismatch expected (public_values x proof_value)))) (\<lambda>_.
     io_then (pure_io (bail_if (\<not> verify_proof x proof_value pk) VerifyingProof)) (\<lambda>_.
     io_then (ensure_parent proof_path) (\<lambda>_.
     fs_write proof_path (save_proof x proof_value))))"

text \<open>The call \<open>request().await\<close>: the request is on its way whatever the answer.\<close>

definition submit_request ::
    "('s, 'k, 'p, 'j) sdk \<Rightarrow> 's \<Rightarrow> 'k \<Rightarrow> ProofRequest \<Rightarrow> u8 list io" where
  "submit_request x signer pk request w =
     (ok_or Submitting (request_proof x signer pk request),
      w\<lparr>requests := requests w @ [request]\<rparr>)"

text \<open>The expression that yields the request id: a new request, or the one saved before.\<close>

definition obtain_request_id ::
    "('s, 'k, 'p, 'j) sdk \<Rightarrow> bool \<Rightarrow> 's \<Rightarrow> 'k \<Rightarrow> ProofRequest \<Rightarrow> path \<Rightarrow> u8 list io" where
  "obtain_request_id x submit signer pk request request_id_path =
     (if submit
      then
        io_then (submit_request x signer pk request) (\<lambda>request_id.
        io_then (write_text request_id_path (show_b256 x request_id @ [0x0a])) (\<lambda>_.
        pure_io (Ok request_id)))
      else
        io_then (read_to_string request_id_path) (\<lambda>text.
        pure_io (ok_or ParsingRequestId (parse_b256 x (trim text)))))"

definition prove_or_resume ::
    "('s, 'k, 'p, 'j) sdk \<Rightarrow> bool \<Rightarrow> path \<Rightarrow> path \<Rightarrow> path \<Rightarrow> path \<Rightarrow> path \<Rightarrow> unit io" where
  "prove_or_resume x submit key_path elf_path request_id_path proof_path vkey_path =
     (let input = SELECTED_BLOCK in
      io_then (pure_io (validate_input x input)) (\<lambda>_.
      io_then (pure_io (decode_32 x (in_pow_hash input) (lit ''PoW hash''))) (\<lambda>expected.
      io_then (pure_io (decode_32 x (in_seed_hash input) (lit ''RandomX seed hash''))) (\<lambda>seed.
      io_then (pure_io (ok_or DecodingBlob (hex_decode x (in_hashing_blob input)))) (\<lambda>blob.
      io_then (fs_read elf_path) (\<lambda>elf.
      io_then (pure_io (validate_elf x elf)) (\<lambda>_.
      io_then (ask (\<lambda>w. bail_if (submit \<and> path_exists w request_id_path)
          (DuplicateRequest request_id_path))) (\<lambda>_.
      io_then (ask (\<lambda>w. bail_if (submit \<and> path_exists w proof_path) (ProofExists proof_path))) (\<lambda>_.
      io_then (read_signer x key_path) (\<lambda>signer.
      io_then (pure_io (query_quote x signer (in_gas_limit input))) (\<lambda>quote.
      io_then (pure_io (bail_if (submit \<and> balance_wei quote < cost_cap quote)
          (BalanceTooLow (balance_wei quote) (cost_cap quote)))) (\<lambda>_.
      io_then (pure_io (ok_or SettingUp (setup_elf x elf))) (\<lambda>pk.
      io_then (write_or_verify_text vkey_path (vkey_bytes32 x pk)) (\<lambda>_.
      io_then (obtain_request_id x submit signer pk
          \<lparr>rq_stdin = [seed, blob], rq_cycle_limit = in_cycle_limit input,
           rq_gas_limit = in_gas_limit input, rq_skip_simulation = True,
           rq_timeout = in_request_timeout_seconds input, rq_min_auction_period = 15,
           rq_max_price_per_pgu = sdk_price_cap quote\<rparr> request_id_path) (\<lambda>request_id.
      io_then (pure_io (ok_or WaitingForProof (wait_proof x signer request_id
          (in_request_timeout_seconds input) DEFAULT_AUCTION_TIMEOUT_SECS))) (\<lambda>proof_value.
      verify_and_save x pk proof_value expected proof_path))))))))))))))))"

section \<open>Verification on the EVM\<close>

text \<open>The parameters of a JSON-RPC call are given by the texts they are built from.\<close>

definition json_rpc ::
    "('s, 'k, 'p, 'j) sdk \<Rightarrow> str \<Rightarrow> str \<Rightarrow> str list \<Rightarrow> ('j, np_error) result" where
  "json_rpc x rpc_url rpc_method params =
     and_then (ok_or (RpcFailed rpc_method) (post_json x rpc_url rpc_method params)) (\<lambda>body.
     and_then (bail_if (json_get x body (lit ''error'') \<noteq> None) (RpcError rpc_method)) (\<lambda>_.
     ok_or (RpcOmittedResult rpc_method) (json_get x body (lit ''result''))))"

definition evm_verify ::
    "('s, 'k, 'p, 'j) sdk \<Rightarrow> str option \<Rightarrow> path \<Rightarrow> path \<Rightarrow> path \<Rightarrow> str \<Rightarrow> unit io" where
  "evm_verify x evm_rpc_url elf_path vkey_path proof_path gateway =
     (let input = SELECTED_BLOCK in
      io_then (pure_io (validate_input x input)) (\<lambda>_.
      io_then (fs_read elf_path) (\<lambda>elf.
      io_then (pure_io (validate_elf x elf)) (\<lambda>_.
      io_then (pure_io (decode_32 x (in_pow_hash input) (lit ''PoW hash''))) (\<lambda>expected.
      io_then (read_to_string vkey_path) (\<lambda>vkey_text.
      io_then (pure_io (decode_32 x (trim vkey_text) (lit ''program vkey''))) (\<lambda>vkey.
      io_then (fs_read proof_path) (\<lambda>saved.
      io_then (pure_io (ok_or (ReadingFile proof_path) (load_proof x saved))) (\<lambda>proof_value.
      io_then (pure_io (bail_if (\<not> is_groth16 x proof_value) NotGroth16)) (\<lambda>_.
      io_then (pure_io (bail_if (public_values x proof_value \<noteq> expected)
          (PublicValuesMismatch expected (public_values x proof_value)))) (\<lambda>_.
      io_then (pure_io (ok_or ParsingGateway (parse_address x gateway))) (\<lambda>gateway.
      let calldata = abi_encode_verify x vkey (public_values x proof_value) (proof_bytes x proof_value) in
      io_then (pure_io (ok_or NoRpcUrl evm_rpc_url)) (\<lambda>rpc_url.
      io_then (pure_io (json_rpc x rpc_url (lit ''eth_chainId'') [])) (\<lambda>chain_id.
      io_then (pure_io (parse_json_rpc_quantity x chain_id (lit ''chain ID''))) (\<lambda>chain_id.
      io_then (pure_io (bail_if (chain_id \<noteq> ETHEREUM_MAINNET_CHAIN_ID) (WrongChain chain_id))) (\<lambda>_.
      io_then (pure_io (json_rpc x rpc_url (lit ''eth_call'')
          [show_address x gateway, lit ''0x'' @ hex_encode x calldata, lit ''latest''])) (\<lambda>answer.
      io_then (pure_io (ok_or NotHexData (json_as_str x answer))) (\<lambda>return_data.
      pure_io (bail_if (return_data \<noteq> lit ''0x'') (NonVoidReturn return_data))))))))))))))))))))"

section \<open>The command line\<close>

definition ensure_no_more_args :: "str list \<Rightarrow> (unit, np_error) result" where
  "ensure_no_more_args args = bail_if (args \<noteq> []) Usage"

primrec next_arg :: "str list \<Rightarrow> (str \<times> str list, np_error) result" where
  "next_arg [] = Err Usage"
| "next_arg (a # args) = Ok (a, args)"

definition np_main :: "('s, 'k, 'p, 'j) sdk \<Rightarrow> str option \<Rightarrow> str list \<Rightarrow> unit io" where
  "np_main x evm_rpc_url args =
     io_then (pure_io (next_arg args)) (\<lambda>(command, args).
     if command = lit ''account'' then
       io_then (pure_io (next_arg args)) (\<lambda>(key_path, args).
       io_then (pure_io (case args of
           [] \<Rightarrow> Ok (in_gas_limit SELECTED_BLOCK)
         | v # _ \<Rightarrow> map_err (\<lambda>_. ParsingPguLimit) (from_str_radix 10 v))) (\<lambda>pgu_limit.
       io_then (pure_io (ensure_no_more_args (drop 1 args))) (\<lambda>_.
       print_account x (path_of key_path) pgu_limit)))
     else if command = lit ''prove'' \<or> command = lit ''resume'' then
       io_then (pure_io (next_arg args)) (\<lambda>(key_path, args).
       io_then (pure_io (next_arg args)) (\<lambda>(elf_path, args).
       io_then (pure_io (next_arg args)) (\<lambda>(request_id_path, args).
       io_then (pure_io (next_arg args)) (\<lambda>(proof_path, args).
       io_then (pure_io (next_arg args)) (\<lambda>(vkey_path, args).
       io_then (pure_io (ensure_no_more_args args)) (\<lambda>_.
       prove_or_resume x (command = lit ''prove'') (path_of key_path) (path_of elf_path)
         (path_of request_id_path) (path_of proof_path) (path_of vkey_path)))))))
     else if command = lit ''evm-verify'' then
       io_then (pure_io (next_arg args)) (\<lambda>(elf_path, args).
       io_then (pure_io (next_arg args)) (\<lambda>(vkey_path, args).
       io_then (pure_io (next_arg args)) (\<lambda>(proof_path, args).
       let gateway = (case args of [] \<Rightarrow> GROTH16_GATEWAY | g # _ \<Rightarrow> g) in
       io_then (pure_io (ensure_no_more_args (drop 1 args))) (\<lambda>_.
       evm_verify x evm_rpc_url (path_of elf_path) (path_of vkey_path) (path_of proof_path) gateway))))
     else pure_io (Err Usage))"

section \<open>Weakest preconditions\<close>

definition wp :: "'a io \<Rightarrow> ('a \<Rightarrow> World \<Rightarrow> bool) \<Rightarrow> (World \<Rightarrow> bool) \<Rightarrow> World \<Rightarrow> bool" where
  "wp m Q R w = (case m w of (Ok x, w') \<Rightarrow> Q x w' | (_, w') \<Rightarrow> R w')"

named_theorems wp_simps

lemma wp_io_then [wp_simps]: "wp (io_then m f) Q R w = wp m (\<lambda>x. wp (f x) Q R) R w"
  by (auto simp: wp_def io_then_def split: prod.splits result.splits)

lemma wp_pure_io [wp_simps]: "wp (pure_io r) Q R w = (case r of Ok x \<Rightarrow> Q x w | _ \<Rightarrow> R w)"
  by (auto simp: wp_def pure_io_def split: result.splits)

lemma wp_ask [wp_simps]: "wp (ask f) Q R w = (case f w of Ok x \<Rightarrow> Q x w | _ \<Rightarrow> R w)"
  by (auto simp: wp_def ask_def split: result.splits)

lemma wp_mono:
  "wp m Q R w \<Longrightarrow> (\<And>x v. Q x v \<Longrightarrow> Q' x v) \<Longrightarrow> (\<And>v. R v \<Longrightarrow> R' v) \<Longrightarrow> wp m Q' R' w"
  by (auto simp: wp_def split: prod.splits result.splits)

text \<open>Operations that send no request.\<close>

definition silent :: "'a io \<Rightarrow> bool" where
  "silent m \<longleftrightarrow> (\<forall>w. requests (snd (m w)) = requests w)"

lemma silent_pure_io [intro!]: "silent (pure_io r)"
  by (simp add: silent_def pure_io_def)

lemma silent_ask [intro!]: "silent (ask f)"
  by (simp add: silent_def ask_def)

lemma silent_io_then [intro!]: "silent m \<Longrightarrow> (\<And>x. silent (f x)) \<Longrightarrow> silent (io_then m f)"
  unfolding silent_def io_then_def
  by (auto split: prod.splits result.splits) (metis snd_conv)+

lemma silent_fs_read [intro!]: "silent (fs_read p)"
  by (auto simp: fs_read_def)

lemma silent_read_to_string [intro!]: "silent (read_to_string p)"
  by (auto simp: read_to_string_def)

lemma silent_create_dir [intro!]: "silent (create_dir p)"
  by (auto simp: silent_def create_dir_def split: option.splits entry.splits)

lemma silent_create_dirs [intro!]: "silent (create_dirs ps)"
  by (induction ps) auto

lemma silent_ensure_parent [intro!]: "silent (ensure_parent p)"
  by (auto simp: ensure_parent_def create_dir_all_def split: option.splits)

lemma silent_fs_write [intro!]: "silent (fs_write p c)"
  by (auto simp: silent_def fs_write_def Let_def)

lemma silent_write_text [intro!]: "silent (write_text p c)"
  by (auto simp: write_text_def)

lemma silent_write_or_verify_text [intro!]: "silent (write_or_verify_text p c)"
proof -
  have "silent (io_then (read_to_string p)
      (\<lambda>existing. pure_io (if trim existing \<noteq> c then Err (TextMismatch p) else Ok ())))"
    "silent (write_text p (c @ [0x0a]))"
    by auto
  then show ?thesis by (simp add: silent_def write_or_verify_text_def)
qed

lemma silent_read_signer [intro!]: "silent (read_signer x p)"
  by (auto simp: read_signer_def)

lemma silent_verify_and_save [intro!]: "silent (verify_and_save x pk q e p)"
  by (auto simp: verify_and_save_def)

lemma wp_then_silent:
  assumes "silent m" "\<And>v. requests v = requests w \<Longrightarrow> R v"
    and "\<And>x v. m w = (Ok x, v) \<Longrightarrow> requests v = requests w \<Longrightarrow> wp (f x) Q R v"
  shows "wp (io_then m f) Q R w"
proof (cases "m w")
  case (Pair r v)
  then have "requests v = requests w" using assms(1) by (metis silent_def snd_conv)
  then show ?thesis
    using assms(2,3) Pair by (cases r) (simp_all add: wp_io_then wp_def [of m])
qed

lemma wp_then_last:
  assumes "\<And>r v. m w = (r, v) \<Longrightarrow> G (requests v)" "\<And>x. silent (f x)"
  shows "wp (io_then m f) (\<lambda>_ v. G (requests v)) (\<lambda>v. G (requests v)) w"
  using assms unfolding wp_def io_then_def silent_def
  by (auto split: prod.splits result.splits) (metis snd_conv)+

lemma pure_io_Ok [simp]: "pure_io r w = (Ok x, v) \<longleftrightarrow> r = Ok x \<and> v = w"
  by (auto simp: pure_io_def)

lemma ask_Ok [simp]: "ask f w = (Ok x, v) \<longleftrightarrow> f w = Ok x \<and> v = w"
  by (auto simp: ask_def)

text \<open>Operations that only read leave the state as it is.\<close>

lemma fs_read_Ok [simp]: "fs_read p w = (Ok c, v) \<longleftrightarrow> v = w \<and> fst (fs_read p w) = Ok c"
  by (auto simp: fs_read_def ask_def)

lemma read_to_string_Ok [simp]:
  "read_to_string p w = (Ok c, v) \<longleftrightarrow> v = w \<and> fst (read_to_string p w) = Ok c"
  by (auto simp: read_to_string_def io_then_def ask_def pure_io_def fs_read_def
        split: prod.splits result.splits)

lemma read_signer_Ok [simp]:
  "read_signer x p w = (Ok c, v) \<longleftrightarrow> v = w \<and> fst (read_signer x p w) = Ok c"
  by (auto simp: read_signer_def read_to_string_def io_then_def ask_def pure_io_def fs_read_def
        split: prod.splits result.splits)

lemma obtain_request_id_requests:
  assumes "obtain_request_id x submit signer pk request p v = (r, v')"
  shows "requests v' = requests v \<or> (submit \<and> requests v' = requests v @ [request])"
proof (cases submit)
  case False
  then have "silent (obtain_request_id x submit signer pk request p)"
    by (auto simp: obtain_request_id_def)
  then show ?thesis using assms by (metis silent_def snd_conv)
next
  case True
  let ?v = "v\<lparr>requests := requests v @ [request]\<rparr>"
  have sil: "silent (io_then (write_text p c) (\<lambda>_. pure_io (Ok request_id)))" for c request_id
    by auto
  have "requests v' = requests ?v"
  proof (cases "request_proof x signer pk request")
    case None
    then show ?thesis
      using assms True
      by (auto simp: obtain_request_id_def io_then_def submit_request_def ok_or_def)
  next
    case (Some rid)
    then have "io_then (write_text p (show_b256 x rid @ [10])) (\<lambda>_. pure_io (Ok rid)) ?v = (r, v')"
      using assms True
      by (simp add: obtain_request_id_def io_then_def [of "submit_request x signer pk request"]
            submit_request_def ok_or_def)
    then show ?thesis using sil by (metis silent_def snd_conv)
  qed
  then show ?thesis using True by simp
qed

text \<open>The condition under which a request may be sent, and the request that is sent.\<close>

definition may_submit ::
    "('s, 'k, 'p, 'j) sdk \<Rightarrow> path \<Rightarrow> path \<Rightarrow> path \<Rightarrow> path \<Rightarrow> World \<Rightarrow> ProofRequest \<Rightarrow> bool" where
  "may_submit x key_path elf_path request_id_path proof_path w request \<longleftrightarrow>
     \<not> path_exists w request_id_path \<and> \<not> path_exists w proof_path
     \<and> validate_input x SELECTED_BLOCK = Ok ()
     \<and> (\<exists>elf. fs_read elf_path w = (Ok elf, w) \<and> validate_elf x elf = Ok ())
     \<and> (\<exists>signer quote.
          read_signer x key_path w = (Ok signer, w)
          \<and> query_quote x signer (in_gas_limit SELECTED_BLOCK) = Ok quote
          \<and> cost_cap quote \<le> balance_wei quote
          \<and> rq_max_price_per_pgu request = sdk_price_cap quote)
     \<and> rq_gas_limit request = in_gas_limit SELECTED_BLOCK
     \<and> (\<exists>seed blob. rq_stdin request = [seed, blob]
          \<and> decode_32 x (in_seed_hash SELECTED_BLOCK) (lit ''RandomX seed hash'') = Ok seed
          \<and> hex_decode x (in_hashing_blob SELECTED_BLOCK) = Some blob)"


text \<open>The last step of a run stores exactly the proof it verified.\<close>

lemma fs_write_Ok:
  "fs_write p c w = (Ok u, v) \<Longrightarrow> \<exists>mode. files v p = Some (File mode c)"
  by (auto simp: fs_write_def Let_def split: if_splits)

lemma io_then_Ok_conv:
  "io_then m f w = (Ok y, v) \<longleftrightarrow> (\<exists>a u. m w = (Ok a, u) \<and> f a u = (Ok y, v))"
  by (auto simp: io_then_def split: prod.splits result.splits)

lemma verify_and_save_Ok:
  assumes "verify_and_save x pk q expected p w = (Ok (), v)"
  shows "public_values x q = expected \<and> verify_proof x q pk
    \<and> (\<exists>mode. files v p = Some (File mode (save_proof x q)))"
  using assms by (auto simp: verify_and_save_def io_then_Ok_conv dest: fs_write_Ok)

text \<open>C23: when \<open>prove\<close> or \<open>resume\<close> ends without an error, the proof file holds a proof
  that the SDK verified for the program built from the approved ELF, and whose public values are
  the proof-of-work hash of the selected block.\<close>

theorem prove_ok_saves_verified:
  assumes "prove_or_resume x submit key_path elf_path request_id_path proof_path vkey_path w
             = (Ok (), w')"
  shows "\<exists>elf pk q mode.
     fs_read elf_path w = (Ok elf, w) \<and> validate_elf x elf = Ok () \<and> setup_elf x elf = Some pk
     \<and> decode_32 x (in_pow_hash SELECTED_BLOCK) (lit ''PoW hash'') = Ok (public_values x q)
     \<and> verify_proof x q pk \<and> files w' proof_path = Some (File mode (save_proof x q))"
proof -
  obtain elf pk q expected v where
      "fs_read elf_path w = (Ok elf, w)" "validate_elf x elf = Ok ()" "setup_elf x elf = Some pk"
      "decode_32 x (in_pow_hash SELECTED_BLOCK) (lit ''PoW hash'') = Ok expected"
      and save: "verify_and_save x pk q expected proof_path v = (Ok (), w')"
    using assms by (auto simp: prove_or_resume_def io_then_Ok_conv)
  then show ?thesis using verify_and_save_Ok [OF save] by auto
qed

text \<open>When \<open>evm-verify\<close> ends without an error, the stored proof is a Groth16 proof whose
  public values are the expected proof-of-work hash, the node answered that it serves chain 1, and
  the simulated verifier call with that proof returned the empty answer \<open>0x\<close>. No request
  is sent and no file is changed.\<close>

theorem evm_verify_ok:
  assumes "evm_verify x evm_rpc_url elf_path vkey_path proof_path gateway w = (Ok (), w')"
  shows "w' = w \<and> (\<exists>url saved q text vkey addr chain answer.
     evm_rpc_url = Some url
     \<and> read_to_string vkey_path w = (Ok text, w)
     \<and> decode_32 x (trim text) (lit ''program vkey'') = Ok vkey
     \<and> fs_read proof_path w = (Ok saved, w) \<and> load_proof x saved = Some q \<and> is_groth16 x q
     \<and> decode_32 x (in_pow_hash SELECTED_BLOCK) (lit ''PoW hash'') = Ok (public_values x q)
     \<and> json_rpc x url (lit ''eth_chainId'') [] = Ok chain
     \<and> parse_json_rpc_quantity x chain (lit ''chain ID'') = Ok 1
     \<and> parse_address x gateway = Some addr
     \<and> json_rpc x url (lit ''eth_call'')
          [show_address x addr,
           lit ''0x'' @ hex_encode x (abi_encode_verify x vkey (public_values x q) (proof_bytes x q)),
           lit ''latest''] = Ok answer
     \<and> json_as_str x answer = Some (lit ''0x''))"
  using assms
  by (auto simp: evm_verify_def io_then_Ok_conv Let_def ETHEREUM_MAINNET_CHAIN_ID_def)

section \<open>Witnesses\<close>

text \<open>A state with an ELF, a private key file and a saved proof.\<close>

definition sample_world :: World where
  "sample_world =
     \<lparr>files = [[lit ''elf''] \<mapsto> File 420 [], [lit ''key''] \<mapsto> File 384 [], [lit ''vkey''] \<mapsto> File 420 [],
        [lit ''saved''] \<mapsto> File 420 [], [lit ''vk''] \<mapsto> File 420 (replicate 64 48)],
      denied = (\<lambda>_. False), requests = []\<rparr>"

lemma trim_Nil [simp]: "trim [] = []"
  by (simp add: trim_def drop_any.simps white_space_def starts_with_def)

lemma sample_difficulty: "parse_difficulty (lit ''0x9e0ea93a72'') = Ok 0x9e0ea93a72"
  by (simp add: parse_difficulty_def strip_0x_def strip_prefix_def lit_def from_str_radix_def
        to_digit_def checked_mul_def checked_add_def)

lemma sample_input: "validate_input sample_sdk SELECTED_BLOCK = Ok ()"
proof -
  have "le_value (replicate n 0) * k < 2 ^ 256" for n k by (simp add: le_value_zeros)
  then show ?thesis
    unfolding validate_input_iff
    by (simp add: SELECTED_BLOCK_def decode_32_Ok_iff sample_sdk_def sample_difficulty)
       (simp add: strip_0x_def strip_prefix_def lit_def)
qed

lemma sample_elf: "validate_elf sample_sdk [] = Ok ()"
  by (simp add: validate_elf_def APPROVED_ELF_SHA256_def sample_sdk_def lit_def
        trim_start_matches.simps starts_with_def)

lemma sample_decode: "decode_32 sample_sdk (in_pow_hash SELECTED_BLOCK) n = Ok (replicate 32 0)"
  by (simp add: SELECTED_BLOCK_def decode_32_Ok_iff sample_sdk_def)
     (simp add: strip_0x_def strip_prefix_def lit_def)

lemma sample_files [simp]:
  "files sample_world [lit ''elf''] = Some (File 420 [])"
  "files sample_world [lit ''key''] = Some (File 384 [])"
  "files sample_world [lit ''vkey''] = Some (File 420 [])"
  "files sample_world [lit ''saved''] = Some (File 420 [])"
  "files sample_world [lit ''vk''] = Some (File 420 (replicate 64 48))"
  "files sample_world [lit ''out''] = None" "\<not> denied sample_world p"
  by (simp_all add: sample_world_def lit_def)

lemma sample_read [simp]:
  "files sample_world p = Some (File mode c) \<Longrightarrow> fs_read p sample_world = (Ok c, sample_world)"
  by (simp add: fs_read_def ask_def)

lemma sample_read_text [simp]:
  "files sample_world p = Some (File mode []) \<Longrightarrow>
     read_to_string p sample_world = (Ok [], sample_world)"
  by (simp add: read_to_string_def io_then_def pure_io_def)

lemma sample_signer: "read_signer sample_sdk [lit ''key''] sample_world = (Ok (), sample_world)"
  by (simp add: read_signer_def io_then_def pure_io_def ask_def del: read_signer_Ok)
     (simp add: sample_sdk_def)

lemma sample_quote_gas: "\<exists>q. query_quote sample_sdk () (in_gas_limit SELECTED_BLOCK) = Ok q"
  by (simp add: query_quote_def sample_sdk_def lit_def from_str_radix_def parse_u64_def to_digit_def
        checked_mul_def checked_add_def saturating_mul_def align_to_tick_def SELECTED_BLOCK_def)

text \<open>Resuming with the sample packages succeeds.\<close>

lemma sample_resume:
  "\<exists>w'. prove_or_resume sample_sdk False [lit ''key''] [lit ''elf''] [lit ''vkey''] [lit ''out'']
     [lit ''vkey''] sample_world = (Ok (), w')"
proof -
  obtain q where "query_quote sample_sdk () (in_gas_limit SELECTED_BLOCK) = Ok q"
    using sample_quote_gas by blast
  moreover have "decode_32 sample_sdk (in_seed_hash SELECTED_BLOCK) n = Ok (replicate 32 0)" for n
    by (simp add: SELECTED_BLOCK_def decode_32_Ok_iff sample_sdk_def)
       (simp add: strip_0x_def strip_prefix_def lit_def)
  moreover have "\<exists>b. hex_decode sample_sdk s = Some b" for s by (simp add: sample_sdk_def)
  moreover have "write_or_verify_text [lit ''vkey''] [] sample_world = (Ok (), sample_world)"
    by (simp add: write_or_verify_text_def path_exists_def io_then_def pure_io_def)
  moreover have "setup_elf sample_sdk e = Some ()" "vkey_bytes32 sample_sdk k = []"
    "parse_b256 sample_sdk t = Some []" "wait_proof sample_sdk a b c d = Some ()"
    for e k t a b c d
    by (simp_all add: sample_sdk_def)
  moreover have "\<exists>w'. verify_and_save sample_sdk () () (replicate 32 0) [lit ''out''] sample_world
      = (Ok (), w')"
  proof -
    have "lit ''out'' \<noteq> [0x2f]" by (simp add: lit_def)
    then show ?thesis
      by (simp add: verify_and_save_def io_then_def pure_io_def ensure_parent_def path_parent_def
            fs_write_def sample_sdk_def Let_def)
  qed
  ultimately show ?thesis
    by (auto simp: prove_or_resume_def io_then_Ok_conv sample_input sample_decode sample_elf
          sample_signer obtain_request_id_def)
qed

theorem prove_ok_saves_verified_witness:
  "\<exists>(w' :: World) q mode. verify_proof sample_sdk q ()
     \<and> files w' [lit ''out''] = Some (File mode (save_proof sample_sdk q))
     \<and> decode_32 sample_sdk (in_pow_hash SELECTED_BLOCK) (lit ''PoW hash'')
         = Ok (public_values sample_sdk q)"
proof -
  obtain w' where "prove_or_resume sample_sdk False [lit ''key''] [lit ''elf''] [lit ''vkey'']
      [lit ''out''] [lit ''vkey''] sample_world = (Ok (), w')"
    using sample_resume by blast
  from prove_ok_saves_verified [OF this] obtain pk q mode where v: "verify_proof sample_sdk q pk"
    and "files w' [lit ''out''] = Some (File mode (save_proof sample_sdk q))"
      "decode_32 sample_sdk (in_pow_hash SELECTED_BLOCK) (lit ''PoW hash'')
         = Ok (public_values sample_sdk q)"
    by blast
  moreover have "verify_proof sample_sdk q ()" using v by simp
  ultimately show ?thesis by blast
qed

lemma trim_zeros: "trim (replicate (Suc n) 48) = replicate (Suc n) 48"
proof -
  have "drop_any white_space (48 # t) = 48 # t" "drop_any (map rev white_space) (48 # t) = 48 # t" for t
    by (simp_all add: drop_any.simps white_space_def starts_with_def)
  then have "drop_any white_space (replicate (Suc n) 48) = replicate (Suc n) 48"
    "drop_any (map rev white_space) (replicate (Suc n) 48) = replicate (Suc n) 48"
    by simp_all
  then show ?thesis by (simp only: trim_def rev_replicate)
qed

lemma sample_evm:
  "evm_verify sample_sdk (Some []) [lit ''elf''] [lit ''vk''] [lit ''saved''] [] sample_world
     = (Ok (), sample_world)"
proof -
  have "utf8_valid (replicate n 48)" for n by (induction n) simp_all
  then have "read_to_string [lit ''vk''] sample_world = (Ok (replicate 64 48), sample_world)"
    by (simp add: read_to_string_def io_then_def pure_io_def del: fs_read_Ok)
  moreover have "trim (replicate 64 48) = replicate 64 48" using trim_zeros [of 63] by simp
  moreover have "decode_32 sample_sdk (replicate 64 48) n = Ok (replicate 32 0)" for n
    by (simp add: decode_32_Ok_iff sample_sdk_def strip_0x_def strip_prefix_def lit_def)
  moreover have "load_proof sample_sdk s = Some ()" "is_groth16 sample_sdk q"
    "public_values sample_sdk q = replicate 32 0" "parse_address sample_sdk g = Some []" for s q g
    by (simp_all add: sample_sdk_def)
  moreover have "json_rpc sample_sdk u (lit ''eth_chainId'') [] = Ok (lit ''0x1'')"
    "json_rpc sample_sdk u (lit ''eth_call'') ps = Ok (lit ''0x'')" for u ps
    by (simp_all add: json_rpc_def sample_sdk_def lit_def)
  moreover have "parse_json_rpc_quantity sample_sdk (lit ''0x1'') n = Ok 1" for n
    by (simp add: parse_json_rpc_quantity_def sample_sdk_def strip_0x_def strip_prefix_def lit_def
          from_str_radix_def to_digit_def checked_mul_def checked_add_def)
  moreover have "json_as_str sample_sdk = Some" by (simp add: sample_sdk_def)
  ultimately show ?thesis
    by (simp add: evm_verify_def io_then_Ok_conv sample_input sample_decode sample_elf
          ETHEREUM_MAINNET_CHAIN_ID_def)
qed

theorem evm_verify_ok_witness:
  "\<exists>chain. json_rpc sample_sdk [] (lit ''eth_chainId'') [] = Ok chain
     \<and> parse_json_rpc_quantity sample_sdk chain (lit ''chain ID'') = Ok 1"
  using evm_verify_ok [OF sample_evm] by blast

end
