(* ===== verification/Executor.thy ===== *)
theory Executor
  imports RustStd "HOL-Library.Multiset" "HOL-Library.List_Lexorder"
begin

text \<open>
  Model of \<open>executor/src/main.rs\<close>, the tool that runs the SP1 guest, compares its public
  values and estimates its gas: the command line, the chunk range, the chunk loop, the pool of gas
  workers and the final checks. The packages (\<open>sp1-core-executor\<close>, its runner, \<open>hex\<close>)
  are the fields of the parameter record \<open>runner\<close>. The order in which the workers deliver
  their reports is not determined by the program: the pool is a step relation, and the theorems hold
  for every run of it. A line of output is a constructor with the values it prints.
\<close>

section \<open>Arguments\<close>

datatype GasMode = GasOff | Calibrated | Fast

record Arguments =
  gas_mode :: GasMode
  profile :: bool
  elf_path :: str
  expected_hex :: str
  inputs :: "u8 list list"

datatype (plugins only: size) exec_error =
    ExecUsage
  | MutuallyExclusive
  | UnknownOption str
  | DecodingInput
  | ProfileNotBuilt
  | DecodingExpected
  | ExpectedLength nat
  | ReadingElf str
  | ParsingElf
  | RangeForm
  | RangeFirst
  | RangeLast
  | RangeEmpty
  | ExecutingGuest
  | GasChunkFailed nat
  | NoReport
  | NotHalted
  | GuestExit u32
  | UnexpectedPublicValues "u8 list" "u8 list"
  | NoPguCount

fun parse_options ::
    "GasMode \<Rightarrow> bool \<Rightarrow> str list \<Rightarrow> (GasMode \<times> bool \<times> str \<times> str list, exec_error) result" where
  "parse_options mode prof [] = Err ExecUsage"
| "parse_options mode prof (argument # args) =
     (if argument = lit ''--profile'' then parse_options mode True args
      else if argument = lit ''--estimate-gas'' then
        (if mode \<noteq> GasOff then Err MutuallyExclusive else parse_options Calibrated prof args)
      else if argument = lit ''--estimate-gas-fast'' then
        (if mode \<noteq> GasOff then Err MutuallyExclusive else parse_options Fast prof args)
      else if starts_with (lit ''-'') argument then Err (UnknownOption argument)
      else Ok (mode, prof, argument, args))"

definition Arguments_parse ::
    "(str \<Rightarrow> u8 list option) \<Rightarrow> str list \<Rightarrow> (Arguments, exec_error) result" where
  "Arguments_parse hex_decode args =
     and_then (parse_options GasOff False args) (\<lambda>(mode, prof, elf, args).
     case args of
       [] \<Rightarrow> Err ExecUsage
     | expected # args \<Rightarrow>
         and_then (traverse (\<lambda>input. ok_or DecodingInput (hex_decode input)) args) (\<lambda>ins.
         Ok \<lparr>gas_mode = mode, profile = prof, elf_path = elf, expected_hex = expected,
             inputs = ins\<rparr>))"

section \<open>External packages\<close>

text \<open>\<open>try_execute_chunk\<close> yields an error (\<open>None\<close>), the end of the run
  (\<open>Some None\<close>) or a trace chunk.\<close>

record ('prog, 'ex, 'chunk, 'rep) runner =
  hex_decode_x :: "str \<Rightarrow> u8 list option"
  read_elf :: "str \<Rightarrow> u8 list option"
  program_from :: "u8 list \<Rightarrow> 'prog option"
  gas_trace_chunk_threshold :: u64
  new_tracing :: "'prog \<Rightarrow> u64 \<Rightarrow> nat \<Rightarrow> 'ex"
  new_simple :: "'prog \<Rightarrow> 'ex"
  with_input :: "u8 list \<Rightarrow> 'ex \<Rightarrow> 'ex"
  try_execute_chunk :: "'ex \<Rightarrow> 'chunk option option \<times> 'ex"
  is_done :: "'ex \<Rightarrow> bool"
  exit_code :: "'ex \<Rightarrow> u32"
  public_values_stream :: "'ex \<Rightarrow> u8 list"
  global_clk :: "'ex \<Rightarrow> u64"
  gas_execute :: "'prog \<Rightarrow> 'chunk \<Rightarrow> 'rep option"
  report_default :: 'rep
  report_add :: "'rep \<Rightarrow> 'rep \<Rightarrow> 'rep"
  report_gas :: "'rep \<Rightarrow> u64 option"
  cycle_totals :: "'ex \<Rightarrow> (str \<times> u64) list"
  invocations :: "'ex \<Rightarrow> str \<Rightarrow> u64 option"

section \<open>The chunk range and the pool size\<close>

fun split_once :: "u8 \<Rightarrow> str \<Rightarrow> (str \<times> str) option" where
  "split_once c [] = None"
| "split_once c (b # s) =
     (if b = c then Some ([], s) else map_option (\<lambda>(l, r). (b # l, r)) (split_once c s))"

definition parse_chunk_range :: "str option \<Rightarrow> (u64 \<times> u64, exec_error) result" where
  "parse_chunk_range env_value =
     (case env_value of
        None \<Rightarrow> Ok (1, - 1)
      | Some chunk_range \<Rightarrow>
          and_then (ok_or RangeForm (split_once 0x3a chunk_range)) (\<lambda>(start, end).
          and_then (map_err (\<lambda>_. RangeFirst) (from_str_radix 10 start)) (\<lambda>start.
          and_then (map_err (\<lambda>_. RangeLast) (from_str_radix 10 end)) (\<lambda>end.
          if start = 0 \<or> start > end then Err RangeEmpty else Ok (start, end)))))"

text \<open>\<open>available_parallelism\<close> may fail.\<close>

definition gas_workers_of :: "nat option \<Rightarrow> nat" where
  "gas_workers_of parallelism =
     (case parallelism of
        None \<Rightarrow> 1
      | Some n \<Rightarrow> max 1 (min 3 (n - 1)))"

definition gas_config :: "GasMode \<Rightarrow> u64 \<Rightarrow> nat \<Rightarrow> u64 \<times> nat \<times> nat" where
  "gas_config mode threshold workers =
     (case mode of
        GasOff \<Rightarrow> (0, 0, 0)
      | Calibrated \<Rightarrow> (threshold, 1, 1)
      | Fast \<Rightarrow> (threshold div 8, workers + 2, workers))"

section \<open>The chunk loops\<close>

text \<open>The guest may run forever; \<open>None\<close> is a loop that does not end.\<close>

partial_function (option) drain_chunks ::
    "('prog, 'ex, 'chunk, 'rep) runner \<Rightarrow> 'ex \<Rightarrow> ((unit, exec_error) result \<times> 'ex) option" where
  "drain_chunks x ex =
     (case try_execute_chunk x ex of
        (None, ex) \<Rightarrow> Some (Err ExecutingGuest, ex)
      | (Some None, ex) \<Rightarrow> Some (Ok (), ex)
      | (Some (Some chunk), ex) \<Rightarrow> drain_chunks x ex)"

text \<open>The loop that sends the chunks of the range to the workers, with the number of chunks so far
  and the tasks sent so far.\<close>

partial_function (option) send_chunks ::
    "('prog, 'ex, 'chunk, 'rep) runner \<Rightarrow> u64 \<times> u64 \<Rightarrow> nat \<Rightarrow> (nat \<times> u64 \<times> 'chunk) list \<Rightarrow> 'ex
       \<Rightarrow> ((nat \<times> (nat \<times> u64 \<times> 'chunk) list, exec_error) result \<times> 'ex) option" where
  "send_chunks x chunk_range gas_chunks tasks ex =
     (case try_execute_chunk x ex of
        (None, ex) \<Rightarrow> Some (Err ExecutingGuest, ex)
      | (Some None, ex) \<Rightarrow> Some (Ok (gas_chunks, tasks), ex)
      | (Some (Some chunk), ex) \<Rightarrow>
          let gas_chunks = gas_chunks + 1
          in if unat (fst chunk_range) \<le> gas_chunks \<and> gas_chunks \<le> unat (snd chunk_range)
             then send_chunks x chunk_range gas_chunks (tasks @ [(gas_chunks, global_clk x ex, chunk)]) ex
             else send_chunks x chunk_range gas_chunks tasks ex)"

definition gas_task ::
    "('prog, 'ex, 'chunk, 'rep) runner \<Rightarrow> 'prog \<Rightarrow> nat \<times> u64 \<times> 'chunk \<Rightarrow> ('rep, exec_error) result" where
  "gas_task x program = (\<lambda>(chunk_index, end_cycle, chunk).
     ok_or (GasChunkFailed chunk_index) (gas_execute x program chunk))"

text \<open>The loop that adds up the received reports.\<close>

primrec sum_reports ::
    "('prog, 'ex, 'chunk, 'rep) runner \<Rightarrow> ('rep, exec_error) result list \<Rightarrow> 'rep
       \<Rightarrow> ('rep, exec_error) result" where
  "sum_reports x [] gas_report = Ok gas_report"
| "sum_reports x (r # rs) gas_report =
     and_then r (\<lambda>report. sum_reports x rs (report_add x gas_report report))"

section \<open>The pool of gas workers\<close>

text \<open>The main thread sends the tasks in order into a channel; a worker that holds no task takes the
  oldest one; a worker that has finished appends its report to the result channel.\<close>

record ('t, 'r) pool =
  unsent :: "'t list"
  queue :: "'t list"
  busy :: "'t list"
  reports :: "'r list"

inductive pool_step :: "nat \<Rightarrow> ('t \<Rightarrow> 'r) \<Rightarrow> ('t, 'r) pool \<Rightarrow> ('t, 'r) pool \<Rightarrow> bool"
  for workers :: nat and run :: "'t \<Rightarrow> 'r" where
  send: "unsent p = t # ts \<Longrightarrow>
    pool_step workers run p (p\<lparr>unsent := ts, queue := queue p @ [t]\<rparr>)"
| take_task: "queue p = t # q \<Longrightarrow> length (busy p) < workers \<Longrightarrow>
    pool_step workers run p (p\<lparr>queue := q, busy := t # busy p\<rparr>)"
| deliver: "busy p = b1 @ t # b2 \<Longrightarrow>
    pool_step workers run p (p\<lparr>busy := b1 @ b2, reports := reports p @ [run t]\<rparr>)"

definition pool_start :: "'t list \<Rightarrow> ('t, 'r) pool" where
  "pool_start tasks = \<lparr>unsent = tasks, queue = [], busy = [], reports = []\<rparr>"

definition pool_finished :: "('t, 'r) pool \<Rightarrow> bool" where
  "pool_finished p \<longleftrightarrow> unsent p = [] \<and> queue p = [] \<and> busy p = []"

inductive_cases pool_stepE: "pool_step workers run p q"

section \<open>The run\<close>

datatype out_line =
    Sp1Cycles u64
  | NoRegions
  | ProfileHeader
  | Region str u64
  | RegionAverage str u64 u64
  | Sp1Pgu u64
  | Sp1PguSubtotal u64
  | SelectedChunks nat nat
  | GasTraceChunks nat
  | EstimatedChunks nat
  | GasThreshold u64
  | GasWorkers nat
  | PublicValues "u8 list"
  | GuestExitCode u32

definition print_cycle_profile :: "('prog, 'ex, 'chunk, 'rep) runner \<Rightarrow> 'ex \<Rightarrow> out_line list" where
  "print_cycle_profile x ex =
     (let regions = sort_key fst (cycle_totals x ex)
      in if regions = [] then [NoRegions]
         else ProfileHeader #
           map (\<lambda>(label, cycles).
                  let count = (case invocations x ex label of None \<Rightarrow> 0 | Some n \<Rightarrow> n)
                  in if count > 1 then RegionAverage label cycles count else Region label cycles)
               regions)"

text \<open>The last part of \<open>main\<close>: the checks of the finished guest and the report. The
  \<open>profiling\<close> feature was checked before, so \<open>print_cycle_profile\<close> is the one that
  prints.\<close>

definition finish_run ::
    "('prog, 'ex, 'chunk, 'rep) runner \<Rightarrow> Arguments \<Rightarrow> u8 list \<Rightarrow> u64 \<times> u64 \<Rightarrow> u64 \<Rightarrow> nat
       \<Rightarrow> 'rep \<Rightarrow> nat \<Rightarrow> nat \<Rightarrow> 'ex \<Rightarrow> (out_line list, exec_error) result" where
  "finish_run x arguments expected chunk_range threshold workers gas_report gas_chunks estimated ex =
     and_then (bail_if (\<not> is_done x ex) NotHalted) (\<lambda>_.
     and_then (bail_if (exit_code x ex \<noteq> 0) (GuestExit (exit_code x ex))) (\<lambda>_.
     let public = public_values_stream x ex
     in and_then (bail_if (public \<noteq> expected) (UnexpectedPublicValues expected public)) (\<lambda>_.
     and_then (if gas_mode arguments = GasOff then Ok []
        else and_then (ok_or NoPguCount (report_gas x gas_report)) (\<lambda>gas.
          Ok ((if estimated = gas_chunks then [Sp1Pgu gas]
               else [Sp1PguSubtotal gas, SelectedChunks (unat (fst chunk_range)) (min (unat (snd chunk_range)) gas_chunks)])
              @ [GasTraceChunks gas_chunks, EstimatedChunks estimated, GasThreshold threshold,
                 GasWorkers workers]))) (\<lambda>gas_lines.
     Ok (Sp1Cycles (global_clk x ex)
         # (if profile arguments then print_cycle_profile x ex else [])
         @ gas_lines @ [PublicValues public, GuestExitCode (exit_code x ex)])))))"

text \<open>The whole tool. \<open>profiling\<close> is the build feature, \<open>env_range\<close> the environment
  variable, \<open>parallelism\<close> the number of processors, and \<open>arrival\<close> the order in which the
  reports of the tasks arrive. \<open>None\<close> is a guest that never stops.\<close>

definition exec_main ::
    "('prog, 'ex, 'chunk, 'rep) runner \<Rightarrow> bool \<Rightarrow> str option \<Rightarrow> nat option
       \<Rightarrow> ((nat \<times> u64 \<times> 'chunk) list \<Rightarrow> ('rep, exec_error) result list) \<Rightarrow> str list
       \<Rightarrow> (out_line list, exec_error) result option" where
  "exec_main x profiling env_range parallelism arrival args =
     (case and_then (Arguments_parse (hex_decode_x x) args) (\<lambda>arguments.
        and_then (bail_if (profile arguments \<and> \<not> profiling) ProfileNotBuilt) (\<lambda>_.
        and_then (ok_or DecodingExpected (hex_decode_x x (expected_hex arguments))) (\<lambda>expected.
        and_then (bail_if (length expected \<noteq> 32) (ExpectedLength (length expected))) (\<lambda>_.
        and_then (ok_or (ReadingElf (elf_path arguments)) (read_elf x (elf_path arguments))) (\<lambda>elf.
        and_then (ok_or ParsingElf (program_from x elf)) (\<lambda>program.
        and_then (parse_chunk_range env_range) (\<lambda>chunk_range.
        Ok (arguments, expected, program, chunk_range)))))))) of
        Err e \<Rightarrow> Some (Err e)
      | Panic \<Rightarrow> Some Panic
      | Ok (arguments, expected, program, chunk_range) \<Rightarrow>
          (let (threshold, slots, workers) =
                 gas_config (gas_mode arguments) (gas_trace_chunk_threshold x) (gas_workers_of parallelism);
               ex = (if gas_mode arguments \<noteq> GasOff then new_tracing x program threshold slots
                     else new_simple x program);
               ex = fold (with_input x) (inputs arguments) ex
           in if gas_mode arguments = GasOff
              then
                Option.bind (drain_chunks x ex) (\<lambda>(r, ex).
                Some (and_then r (\<lambda>_.
                  finish_run x arguments expected chunk_range threshold workers (report_default x) 0 0 ex)))
              else
                Option.bind (send_chunks x chunk_range 0 [] ex) (\<lambda>(r, ex).
                Some (and_then r (\<lambda>(gas_chunks, tasks).
                  and_then (sum_reports x (arrival tasks) (report_default x)) (\<lambda>gas_report.
                  finish_run x arguments expected chunk_range threshold workers gas_report gas_chunks
                    (length tasks) ex))))))"

section \<open>The command line\<close>

text \<open>The gas mode that an option selects.\<close>

definition gas_option :: "str \<Rightarrow> GasMode option" where
  "gas_option a =
     (if a = lit ''--estimate-gas'' then Some Calibrated
      else if a = lit ''--estimate-gas-fast'' then Some Fast else None)"

definition is_option :: "str \<Rightarrow> bool" where
  "is_option a \<longleftrightarrow> a = lit ''--profile'' \<or> gas_option a \<noteq> None"

lemma options_start:
  "is_option a \<Longrightarrow> starts_with (lit ''-'') a"
  "gas_option (lit ''--profile'') = None" "is_option (lit ''--profile'')"
  "gas_option a = Some g \<Longrightarrow> is_option a"
  by (auto simp: is_option_def gas_option_def starts_with_def lit_def split: if_splits)

lemma parse_options_step:
  "parse_options mode prof (a # args) =
     (if a = lit ''--profile'' then parse_options mode True args
      else case gas_option a of
        Some m \<Rightarrow> if mode \<noteq> GasOff then Err MutuallyExclusive else parse_options m prof args
      | None \<Rightarrow> if starts_with (lit ''-'') a then Err (UnknownOption a) else Ok (mode, prof, a, args))"
  by (simp add: gas_option_def)

lemma parse_options_Ok:
  "parse_options mode prof args = Ok (m, p, elf, rest) \<Longrightarrow>
     \<exists>opts. args = opts @ elf # rest \<and> list_all is_option opts \<and> \<not> starts_with (lit ''-'') elf
       \<and> (p \<longleftrightarrow> prof \<or> lit ''--profile'' \<in> set opts)
       \<and> (List.map_filter gas_option opts = [] \<and> m = mode
          \<or> List.map_filter gas_option opts = [m] \<and> mode = GasOff)"
proof (induction args arbitrary: mode prof)
  case (Cons a args)
  consider "a = lit ''--profile''" | g where "a \<noteq> lit ''--profile''" "gas_option a = Some g"
    | "a \<noteq> lit ''--profile''" "gas_option a = None" by fastforce
  then show ?case
  proof cases
    case 1
    then obtain opts where "args = opts @ elf # rest \<and> list_all is_option opts
        \<and> \<not> starts_with (lit ''-'') elf \<and> p
        \<and> (List.map_filter gas_option opts = [] \<and> m = mode
           \<or> List.map_filter gas_option opts = [m] \<and> mode = GasOff)"
      using Cons.IH [of mode True] Cons.prems by auto
    then show ?thesis
      using 1 by (intro exI [of _ "a # opts"])
        (simp add: options_start map_filter_simps)
  next
    case 2
    then have "mode = GasOff" and "parse_options g prof args = Ok (m, p, elf, rest)"
      using Cons.prems unfolding parse_options_step by (auto split: if_splits)
    moreover have "g \<noteq> GasOff" using 2 by (auto simp: gas_option_def split: if_splits)
    ultimately obtain opts where "args = opts @ elf # rest \<and> list_all is_option opts
        \<and> \<not> starts_with (lit ''-'') elf \<and> (p \<longleftrightarrow> prof \<or> lit ''--profile'' \<in> set opts)
        \<and> List.map_filter gas_option opts = [] \<and> m = g"
      using Cons.IH [of g prof] by auto
    then show ?thesis
      using 2 \<open>mode = GasOff\<close>
      by (intro exI [of _ "a # opts"]) (auto simp: options_start map_filter_simps)
  next
    case 3
    then show ?thesis
      using Cons.prems unfolding parse_options_step
      by (intro exI [of _ "[]"]) (auto simp: map_filter_simps split: if_splits)
  qed
qed simp

lemma parse_options_complete:
  assumes "list_all is_option opts" "\<not> starts_with (lit ''-'') elf"
    and "List.map_filter gas_option opts = [] \<and> m = mode
         \<or> List.map_filter gas_option opts = [m] \<and> mode = GasOff"
  shows "parse_options mode prof (opts @ elf # rest)
    = Ok (m, prof \<or> lit ''--profile'' \<in> set opts, elf, rest)"
  using assms
proof (induction opts arbitrary: mode prof)
  case Nil
  moreover have "\<not> is_option elf" using assms(2) options_start(1) by blast
  ultimately show ?case
    by (auto simp: parse_options_step is_option_def map_filter_simps simp del: parse_options.simps)
next
  case (Cons a opts)
  show ?case
  proof (cases "a = lit ''--profile''")
    case True
    then show ?thesis
      using Cons.IH [of mode True] Cons.prems
      by (simp add: parse_options_step options_start map_filter_simps del: parse_options.simps)
  next
    case False
    then obtain g where g: "gas_option a = Some g" using Cons.prems by (auto simp: is_option_def)
    then have "mode = GasOff" "m = g" "List.map_filter gas_option opts = []"
      using Cons.prems by (auto simp: map_filter_simps)
    then show ?thesis
      using Cons.IH [of g prof] Cons.prems False g
      by (simp add: parse_options_step del: parse_options.simps)
  qed
qed

text \<open>The options are accepted exactly when they are known, contain at most one gas option (in
  any position and with any number of \<open>--profile\<close>), and are followed by an ELF path that
  does not start with a dash; the parsed gas mode and profile flag are the ones given.\<close>

theorem parse_options_accepts:
  "parse_options GasOff False args = Ok (m, p, elf, rest) \<longleftrightarrow>
     (\<exists>opts. args = opts @ elf # rest \<and> list_all is_option opts
        \<and> starts_with (lit ''-'') elf = False
        \<and> p = (lit ''--profile'' \<in> set opts)
        \<and> (List.map_filter gas_option opts = [] \<and> m = GasOff
           \<or> List.map_filter gas_option opts = [m]))"
  using parse_options_Ok [of GasOff False args m p elf rest]
    parse_options_complete [of _ elf m GasOff False rest]
  by auto

section \<open>The worker pool\<close>

lemma pool_step_tasks:
  assumes "pool_step workers run p q"
  shows "mset (reports q) + image_mset run (mset (unsent q @ queue q @ busy q))
    = mset (reports p) + image_mset run (mset (unsent p @ queue p @ busy p))"
  using assms by cases auto

lemma pool_steps_tasks:
  assumes "(pool_step workers run)\<^sup>*\<^sup>* p q"
  shows "mset (reports q) + image_mset run (mset (unsent q @ queue q @ busy q))
    = mset (reports p) + image_mset run (mset (unsent p @ queue p @ busy p))"
  using assms
proof induction
  case (step q z)
  then show ?case using pool_step_tasks [OF step.hyps(2)] by (simp only:)
qed simp

text \<open>Every task is reported exactly once.\<close>

lemma pool_reports:
  assumes "(pool_step workers run)\<^sup>*\<^sup>* (pool_start tasks) p" "pool_finished p"
  shows "mset (reports p) = mset (map run tasks)"
  using pool_steps_tasks [OF assms(1)] assms(2) by (simp add: pool_start_def pool_finished_def)

definition pool_work :: "('t, 'r) pool \<Rightarrow> nat" where
  "pool_work p = 3 * length (unsent p) + 2 * length (queue p) + length (busy p)"

lemma pool_step_work: "pool_step workers run p q \<Longrightarrow> pool_work p = Suc (pool_work q)"
  by (erule pool_stepE) (simp_all add: pool_work_def)

lemma pool_progress:
  assumes "0 < workers" "\<not> pool_finished p"
  shows "\<exists>q. pool_step workers run p q"
proof -
  consider t ts where "unsent p = t # ts"
    | t q where "queue p = t # q" "length (busy p) < workers"
    | t b where "busy p = [] @ t # b"
    using assms by (cases "unsent p"; cases "queue p"; cases "busy p") (auto simp: pool_finished_def)
  then show ?thesis by cases (blast intro: pool_step.intros)+
qed



section \<open>The gas total\<close>

lemma sum_reports_Ok_iff:
  "sum_reports x rs r = Ok t \<longleftrightarrow> (\<exists>vs. rs = map Ok vs \<and> t = fold (\<lambda>v r. report_add x r v) vs r)"
proof (induction rs arbitrary: r)
  case (Cons a rs)
  then show ?case
    by (auto simp: and_then_eq_Ok_conv Cons_eq_map_conv) fastforce
qed auto

lemma mset_map_Ok:
  assumes "mset rs = mset (map Ok vs)"
  shows "\<exists>us. rs = map Ok us \<and> mset us = mset vs"
proof -
  have "set rs = Ok ` set vs" using assms by (metis image_set set_mset_mset)
  then have "rs = map Ok (map (\<lambda>r. case r of Ok v \<Rightarrow> v) rs)"
    by (auto intro!: map_idI [symmetric] simp: comp_def)
  moreover have "image_mset (\<lambda>r. case r of Ok v \<Rightarrow> v) (mset rs) = mset vs"
    using assms by (simp add: multiset.map_comp comp_def)
  ultimately show ?thesis by (metis mset_map)
qed

text \<open>C25: the gas estimate does not depend on the schedule of the workers: every finished run of the
  pool yields the same total as adding up the reports of the chunks in the order in which the guest
  produced them, provided that adding two reports does not depend on their order.\<close>

theorem gas_total_schedule_independent:
  assumes "(pool_step workers (gas_task x program))\<^sup>*\<^sup>* (pool_start tasks) p" "pool_finished p"
    and add: "\<And>r a b. report_add x (report_add x r a) b = report_add x (report_add x r b) a"
  shows "sum_reports x (reports p) r = Ok gas \<longleftrightarrow>
    sum_reports x (map (gas_task x program) tasks) r = Ok gas"
proof -
  let ?f = "\<lambda>v r. report_add x r v"
  have perm: "sum_reports x rs' r = Ok gas"
    if ms: "mset rs = mset rs'" and ok: "sum_reports x rs r = Ok gas" for rs rs'
  proof -
    obtain vs where vs: "rs = map Ok vs" "gas = fold ?f vs r"
      using ok by (auto simp: sum_reports_Ok_iff)
    obtain us where us: "rs' = map Ok us" "mset us = mset vs"
      using mset_map_Ok [of rs' vs] ms vs(1) by auto
    have "fold ?f us r = fold ?f vs r"
      by (rule fold_permuted_eq [where P = "\<lambda>_. True"]) (simp_all add: us(2) add)
    then show ?thesis using us vs by (auto simp: sum_reports_Ok_iff)
  qed
  show ?thesis using pool_reports [OF assms(1,2)] perm by metis
qed

lemma gas_workers_bounds: "1 \<le> gas_workers_of n \<and> gas_workers_of n \<le> 3"
  by (simp add: gas_workers_of_def split: option.splits)

section \<open>The verdict\<close>

lemma finish_run_Ok:
  assumes "finish_run x arguments expected chunk_range threshold workers gas_report n m ex = Ok lines"
  shows "is_done x ex \<and> exit_code x ex = 0 \<and> public_values_stream x ex = expected
    \<and> set [PublicValues expected, GuestExitCode 0] \<subseteq> set lines"
  using assms by (auto simp: finish_run_def and_then_eq_Ok_conv Let_def)

text \<open>The guest runs to its end: chunk after chunk, until there is none left.\<close>

inductive guest_runs :: "('prog, 'ex, 'chunk, 'rep) runner \<Rightarrow> 'ex \<Rightarrow> 'ex \<Rightarrow> bool" for x where
  no_chunk: "try_execute_chunk x ex = (Some None, ex') \<Longrightarrow> guest_runs x ex ex'"
| one_chunk: "try_execute_chunk x ex = (Some (Some chunk), ex1) \<Longrightarrow> guest_runs x ex1 ex' \<Longrightarrow> guest_runs x ex ex'"

lemma drain_chunks_runs:
  fixes x :: "('prog, 'ex, 'chunk, 'rep) runner"
  assumes "drain_chunks x ex = Some (Ok (), ex')"
  shows "guest_runs x ex ex'"
proof -
  let ?P = "\<lambda>(x :: ('prog, 'ex, 'chunk, 'rep) runner) ex (r :: (unit, exec_error) result \<times> 'ex).
      fst r = Ok () \<longrightarrow> guest_runs x ex (snd r)"
  have "(case (x, ex) of (x, ex) \<Rightarrow> ?P x ex) (Ok (), ex')"
  proof (rule drain_chunks.raw_induct [where P = ?P])
    fix f x ex r
    assume ih: "\<And>x ex r. f x ex = Some r \<Longrightarrow> ?P x ex r"
      and body: "(case try_execute_chunk x ex of
              (None, ex) \<Rightarrow> Some (Err ExecutingGuest, ex)
            | (Some None, ex) \<Rightarrow> Some (Ok (), ex)
            | (Some (Some chunk), ex) \<Rightarrow> f x ex) = Some r"
    obtain c ex1 where c: "try_execute_chunk x ex = (c, ex1)" by (rule prod.exhaust)
    consider "c = None" | "c = Some None" | chunk where "c = Some (Some chunk)" by (metis option.exhaust)
    then show "?P x ex r"
    proof cases
      case 3
      then show ?thesis using ih [of x ex1 r] body c one_chunk [of x ex chunk ex1 "snd r"] by simp
    qed (use body c no_chunk [of x ex ex1] in auto)
  qed (simp add: assms)
  then show ?thesis by simp
qed

lemma send_chunks_runs:
  fixes x :: "('prog, 'ex, 'chunk, 'rep) runner"
  assumes "send_chunks x chunk_range n ts ex = Some (Ok v, ex')"
  shows "guest_runs x ex ex'"
proof -
  let ?P = "\<lambda>(x :: ('prog, 'ex, 'chunk, 'rep) runner) (cr :: u64 \<times> u64) (n :: nat) (ts :: (nat \<times> u64 \<times> 'chunk) list) ex
      (r :: (nat \<times> (nat \<times> u64 \<times> 'chunk) list, exec_error) result \<times> 'ex).
      (\<exists>v. fst r = Ok v) \<longrightarrow> guest_runs x ex (snd r)"
  have "(case ((((x, chunk_range), n), ts), ex) of (y, ex) \<Rightarrow> (case y of (y, ts) \<Rightarrow> (case y of (y, n) \<Rightarrow>
      (case y of (x, cr) \<Rightarrow> ?P x cr) n) ts) ex) (Ok v, ex')"
  proof (rule send_chunks.raw_induct [where P = ?P])
    fix f x cr n ts ex r
    assume ih: "\<And>x cr n ts ex r. f x cr n ts ex = Some r \<Longrightarrow> ?P x cr n ts ex r"
      and body: "(case try_execute_chunk x ex of
              (None, ex) \<Rightarrow> Some (Err ExecutingGuest, ex)
            | (Some None, ex) \<Rightarrow> Some (Ok (n, ts), ex)
            | (Some (Some chunk), ex) \<Rightarrow>
                let gas_chunks = n + 1
                in if unat (fst cr) \<le> gas_chunks \<and> gas_chunks \<le> unat (snd cr)
                   then f x cr gas_chunks (ts @ [(gas_chunks, global_clk x ex, chunk)]) ex
                   else f x cr gas_chunks ts ex) = Some r"
    obtain c ex1 where c: "try_execute_chunk x ex = (c, ex1)" by (rule prod.exhaust)
    consider "c = None" | "c = Some None" | chunk where "c = Some (Some chunk)" by (metis option.exhaust)
    then show "?P x cr n ts ex r"
    proof cases
      case 3
      then have "\<exists>m us. f x cr m us ex1 = Some r" using body c by (auto simp: Let_def split: if_splits)
      then show ?thesis using ih 3 c one_chunk [of x ex chunk ex1 "snd r"] by blast
    qed (use body c no_chunk [of x ex ex1] in auto)
  qed (simp add: assms)
  then show ?thesis by simp
qed

text \<open>The executor before its first chunk.\<close>

definition fresh_executor :: "('prog, 'ex, 'chunk, 'rep) runner \<Rightarrow> Arguments \<Rightarrow> 'prog \<Rightarrow> nat option \<Rightarrow> 'ex" where
  "fresh_executor x a program parallelism =
     (let (threshold, slots, workers) =
            gas_config (gas_mode a) (gas_trace_chunk_threshold x) (gas_workers_of parallelism)
      in fold (with_input x) (inputs a)
           (if gas_mode a \<noteq> GasOff then new_tracing x program threshold slots else new_simple x program))"

lemma exec_main_finish:
  assumes "exec_main x profiling env_range parallelism arrival args = Some (Ok lines)"
  shows "\<exists>a expected elf program ex r t w g n m. Arguments_parse (hex_decode_x x) args = Ok a
    \<and> hex_decode_x x (expected_hex a) = Some expected \<and> length expected = 32 \<and> profile a \<le> profiling
    \<and> read_elf x (elf_path a) = Some elf \<and> program_from x elf = Some program
    \<and> guest_runs x (fresh_executor x a program parallelism) ex
    \<and> finish_run x a expected r t w g n m ex = Ok lines"
  using assms
  by (auto simp: exec_main_def fresh_executor_def and_then_eq_Ok_conv Let_def bind_eq_Some_conv
        split: result.splits if_splits prod.splits dest!: drain_chunks_runs send_chunks_runs) blast+

text \<open>C24: the tool succeeds only if the program parsed from the ELF, given the inputs of the command
  line, ran chunk after chunk until it halted with exit code zero and committed exactly the 32
  expected bytes, which the tool prints; and only if \<open>--profile\<close> was not requested from a build
  without profiling.\<close>

theorem exec_main_ok:
  assumes "exec_main x profiling env_range parallelism arrival args = Some (Ok lines)"
  shows "\<exists>a expected elf program ex. Arguments_parse (hex_decode_x x) args = Ok a
    \<and> hex_decode_x x (expected_hex a) = Some expected \<and> length expected = 32
    \<and> (profile a \<le> profiling)
    \<and> read_elf x (elf_path a) = Some elf \<and> program_from x elf = Some program
    \<and> guest_runs x (fresh_executor x a program parallelism) ex
    \<and> is_done x ex \<and> exit_code x ex = 0 \<and> public_values_stream x ex = expected
    \<and> set [PublicValues expected, GuestExitCode 0] \<subseteq> set lines"
  using exec_main_finish [OF assms] finish_run_Ok by meson

section \<open>Witnesses\<close>

text \<open>A runner whose guest produces as many chunks as its state counts, and whose reports are
  numbers that are added.\<close>

definition sample_runner :: "(unit, nat, nat, nat) runner" where
  "sample_runner =
     \<lparr>hex_decode_x = (\<lambda>_. Some (replicate 32 7)), read_elf = (\<lambda>_. Some []),
      program_from = (\<lambda>_. Some ()), gas_trace_chunk_threshold = 8,
      new_tracing = (\<lambda>_ _ _. 2), new_simple = (\<lambda>_. 2), with_input = (\<lambda>_ n. n),
      try_execute_chunk = (\<lambda>n. case n of 0 \<Rightarrow> (Some None, 0) | Suc m \<Rightarrow> (Some (Some m), m)),
      is_done = (\<lambda>n. n = 0), exit_code = (\<lambda>_. 0), public_values_stream = (\<lambda>_. replicate 32 7),
      global_clk = (\<lambda>_. 100), gas_execute = (\<lambda>_ c. Some (c + 10)), report_default = 0,
      report_add = (+), report_gas = (\<lambda>r. Some (of_nat r)), cycle_totals = (\<lambda>_. []),
      invocations = (\<lambda>_ _. None)\<rparr>"

lemma sample_runner_main:
  "\<exists>lines. exec_main sample_runner False None None (\<lambda>_. []) [lit ''elf'', lit ''07''] = Some (Ok lines)"
proof -
  have "drain_chunks sample_runner 2 = Some (Ok (), 0)"
    by (simp add: drain_chunks.simps sample_runner_def numeral_2_eq_2)
  moreover have "new_simple sample_runner () = 2" by (simp add: sample_runner_def)
  moreover have "finish_run sample_runner a (replicate 32 7) cr t w g n m 0 = Ok l \<longleftrightarrow>
      l = Sp1Cycles 100 # [PublicValues (replicate 32 7), GuestExitCode 0]"
    if "gas_mode a = GasOff" "\<not> profile a" for a cr t w g n m l
    using that by (auto simp: finish_run_def sample_runner_def)
  moreover have "Arguments_parse (hex_decode_x sample_runner) [lit ''elf'', lit ''07''] = Ok
      \<lparr>gas_mode = GasOff, profile = False, elf_path = lit ''elf'', expected_hex = lit ''07'', inputs = []\<rparr>"
    by (simp add: Arguments_parse_def lit_def starts_with_def)
  moreover have "hex_decode_x sample_runner s = Some (replicate 32 7)" "read_elf sample_runner s = Some []"
    "program_from sample_runner e = Some ()" for s e
    by (simp_all add: sample_runner_def)
  ultimately show ?thesis
    by (simp add: exec_main_def parse_chunk_range_def gas_config_def)
qed

theorem exec_main_ok_witness:
  "\<exists>a ex. Arguments_parse (hex_decode_x sample_runner) [lit ''elf'', lit ''07''] = Ok a
     \<and> guest_runs sample_runner (fresh_executor sample_runner a () None) ex \<and> is_done sample_runner ex"
proof -
  obtain lines where "exec_main sample_runner False None None (\<lambda>_. []) [lit ''elf'', lit ''07'']
      = Some (Ok lines)"
    using sample_runner_main by blast
  from exec_main_ok [OF this] show ?thesis by fastforce
qed

text \<open>Two tasks whose reports arrive in the opposite order.\<close>

lemma pool_two_tasks:
  "(pool_step 2 run)\<^sup>*\<^sup>* (pool_start [s, t])
     \<lparr>unsent = [], queue = [], busy = [], reports = [run t, run s]\<rparr>"
proof -
  note step = converse_rtranclp_into_rtranclp
  show ?thesis
    unfolding pool_start_def
    apply (rule step, rule pool_step.send, simp, simp)
    apply (rule step, rule pool_step.send, simp, simp)
    apply (rule step, rule pool_step.take_task, simp, simp, simp)
    apply (rule step, rule pool_step.take_task, simp, simp, simp)
    apply (rule step, rule pool_step.deliver [where ?b1.0 = "[]"], simp, simp)
    apply (rule step, rule pool_step.deliver [where ?b1.0 = "[]"], simp, simp)
    done
qed

theorem gas_total_schedule_independent_witness:
  "sum_reports sample_runner
     (reports \<lparr>unsent = ([] :: (nat \<times> u64 \<times> nat) list), queue = [], busy = [],
        reports = [gas_task sample_runner () (2, 9, 6), gas_task sample_runner () (1, 8, 5)]\<rparr>) 0
       = Ok 31
   \<longleftrightarrow> sum_reports sample_runner (map (gas_task sample_runner ()) [(1, 8, 5), (2, 9, 6)]) 0 = Ok 31"
proof -
  let ?p = "\<lparr>unsent = [], queue = [], busy = [],
    reports = [gas_task sample_runner () (2, 9, 6), gas_task sample_runner () (1, 8, 5)]\<rparr>"
  have "(pool_step 2 (gas_task sample_runner ()))\<^sup>*\<^sup>* (pool_start [(1, 8, 5), (2, 9, 6)]) ?p"
    by (rule pool_two_tasks)
  from gas_total_schedule_independent [OF this, of 0 31] show ?thesis
    by (simp add: pool_finished_def sample_runner_def)
qed

end
