(* ===== verification/AuditTools.thy ===== *)
theory AuditTools
  imports MoneroTree Equivalence
begin

text \<open>
  Model of the audit programs: \<open>audit/src/network_fixtures.rs\<close>, the binaries
  \<open>monero_block_input\<close>, \<open>network_fixture_builder\<close> and \<open>official_randomx\<close>, and
  \<open>calculate_commitment\<close>. They compose the block functions with the two machines.
  \<open>None\<close> is a panic. The JSON reader is a parameter through its result, the official C library
  is the parameter \<open>official\<close>, Blake2b is \<open>hash\<close> and Keccak is \<open>keccak\<close>. The
  floating-point control register belongs to the thread: after a call on one machine the other
  machine sees the register the call left.
\<close>

section \<open>Panics\<close>

primrec unwrap :: "('a, 'e) result \<Rightarrow> 'a option" where
  "unwrap (Ok x) = Some x"
| "unwrap (Err e) = None"
| "unwrap Panic = None"

lemma unwrap_eq_Some [simp]: "unwrap r = Some x \<longleftrightarrow> r = Ok x"
  by (cases r) auto

section \<open>Commitment\<close>

definition calculate_commitment :: "(nat \<Rightarrow> u8 list \<Rightarrow> u8 list) \<Rightarrow> u8 list \<Rightarrow> u8 list \<Rightarrow> u8 list option" where
  "calculate_commitment hash input digest =
     (let out = hash 32 (input @ digest) in if length out = 32 then Some out else None)"

section \<open>Validation of the fixtures\<close>

record ValidationSummary =
  vs_blocks :: nat
  first_height :: u64
  last_height :: u64
  elapsed :: nat

text \<open>The checks of one block before it is hashed; the result is the blob and the expected hash.\<close>

definition check_block ::
    "(u8 list \<Rightarrow> u8 list) \<Rightarrow> MoneroBlockFixtures \<Rightarrow> nat \<Rightarrow> MoneroBlockFixture
       \<Rightarrow> (u8 list \<times> u8 list) option" where
  "check_block keccak fixtures index block =
     do { first \<leftarrow> arr_get (fx_blocks fixtures) 0;
          must (fx_height block = fx_height first + of_nat index);
          must (randomx_seed_height (fx_height block) = fx_seed_height fixtures);
          (if index > 0
           then do { previous \<leftarrow> arr_get (fx_blocks fixtures) (index - 1);
                     must (fx_prev_hash block = fx_block_id previous) }
           else Some ());
          blob \<leftarrow> unwrap (decode_hex_vec (fx_hashing_blob block));
          must (encode_hex (blob_object_hash keccak blob) = fx_block_id block);
          expected \<leftarrow> unwrap (decode_hex 32 (fx_pow_hash block));
          difficulty \<leftarrow> unwrap (parse_wide_difficulty (fx_wide_difficulty block));
          must (meets_difficulty expected difficulty);
          Some (blob, expected) }"

text \<open>The two hashes and the comparison of the two machines.\<close>

definition same_final_state :: "Vm \<Rightarrow> Vm \<Rightarrow> bool" where
  "same_final_state reference compact \<longleftrightarrow>
     to_bytes (reg reference) = to_bytes (reg compact)
     \<and> scratchpad reference = scratchpad compact
     \<and> mx (mem_reg reference) = mx (mem_reg compact)
     \<and> ma (mem_reg reference) = ma (mem_reg compact)
     \<and> vm_pc reference = vm_pc compact
     \<and> read_reg (config reference) = read_reg (config compact)
     \<and> e_mask (config reference) = e_mask (config compact)
     \<and> dataset_offset reference = dataset_offset compact
     \<and> get_rounding_mode reference = get_rounding_mode compact"

definition hash_with_vm_for_audit ::
    "(nat \<Rightarrow> u8 list \<Rightarrow> u8 list) \<Rightarrow> u8 list \<Rightarrow> Vm \<Rightarrow> (u8 list \<times> Vm) option" where
  "hash_with_vm_for_audit hash input vm = calculate_hash_impl hash input vm"

definition compare_block ::
    "(nat \<Rightarrow> u8 list \<Rightarrow> u8 list) \<Rightarrow> u8 list \<Rightarrow> u8 list \<Rightarrow> Vm \<times> Vm \<Rightarrow> (Vm \<times> Vm) option" where
  "compare_block hash blob expected = (\<lambda>(reference, compact).
     do { (reference_hash, reference) \<leftarrow> calculate_hash hash blob reference;
          let compact = compact\<lparr>fp_env := fp_env reference\<rparr>;
          (compact_hash, compact) \<leftarrow> hash_with_vm_for_audit hash blob compact;
          must (reference_hash = expected);
          must (compact_hash = expected);
          must (same_final_state reference compact);
          let compact = reset_rounding_mode compact;
          Some (reference\<lparr>fp_env := fp_env compact\<rparr>, compact) })"

definition validate_recent_mainnet_blocks ::
    "(nat \<Rightarrow> u8 list \<Rightarrow> u8 list) \<Rightarrow> (u8 list \<Rightarrow> u8 list) \<Rightarrow> FpEnv \<Rightarrow> nat \<Rightarrow> MoneroBlockFixtures option
       \<Rightarrow> ValidationSummary option" where
  "validate_recent_mainnet_blocks hash keccak env clock json =
     do { fixtures \<leftarrow> json;
          must (fx_network fixtures = lit ''mainnet'');
          must (length (fx_blocks fixtures) = 20);
          seed \<leftarrow> unwrap (decode_hex 32 (fx_seed_hash fixtures));
          memory \<leftarrow> light hash seed;
          foldl_option (\<lambda>(index, block) vms.
               do { (blob, expected) \<leftarrow> check_block keccak fixtures index block;
                    compare_block hash blob expected vms })
             (List.enumerate 0 (fx_blocks fixtures)) (new_vm memory env, new_vm memory env);
          first \<leftarrow> arr_get (fx_blocks fixtures) 0;
          final \<leftarrow> arr_get (fx_blocks fixtures) (length (fx_blocks fixtures) - 1);
          Some \<lparr>vs_blocks = length (fx_blocks fixtures), first_height = fx_height first,
                last_height = fx_height final, elapsed = clock\<rparr> }"

section \<open>The official library\<close>

text \<open>\<open>OfficialVm\<close> holds the machine made for a key; its \<open>hash\<close> lets the C function
  write into a buffer of 32 bytes. The bytes that the C function writes are the parameter
  \<open>calculate\<close>; an allocation that fails is a panic.\<close>

definition HASH_SIZE :: nat where
  "HASH_SIZE = 32"

definition OfficialVm_new :: "bool \<Rightarrow> u8 list \<Rightarrow> u8 list option" where
  "OfficialVm_new allocated key = do { must allocated; Some key }"

definition OfficialVm_hash :: "(u8 list \<Rightarrow> u8 list \<Rightarrow> u8 list) \<Rightarrow> u8 list \<Rightarrow> u8 list \<Rightarrow> u8 list" where
  "OfficialVm_hash calculate vm input =
     (let output = replicate HASH_SIZE 0; written = take HASH_SIZE (calculate vm input)
      in written @ drop (length written) output)"

lemma length_OfficialVm_hash [simp]: "length (OfficialVm_hash calculate vm input) = 32"
  by (simp add: OfficialVm_hash_def HASH_SIZE_def Let_def)

section \<open>The binaries\<close>

text \<open>\<open>monero_block_input\<close>: the arguments, the record read from standard input, and the fixture
  that is printed.\<close>

definition monero_block_input ::
    "(nat \<Rightarrow> u8 list \<Rightarrow> u8 list) \<Rightarrow> (u8 list \<Rightarrow> u8 list) \<Rightarrow> FpEnv \<Rightarrow> str list \<Rightarrow> RpcBlockRecord option
       \<Rightarrow> MoneroBlockFixture option" where
  "monero_block_input hash keccak env args stdin_record =
     do { seed_height_text \<leftarrow> arr_get args 0;
          seed_height \<leftarrow> unwrap (from_str_radix 10 seed_height_text);
          seed_hash \<leftarrow> arr_get args 1;
          must (length args \<le> 2);
          seed \<leftarrow> unwrap (decode_hex 32 seed_hash);
          record \<leftarrow> stdin_record;
          must (randomx_seed_height (height record) = seed_height);
          blob \<leftarrow> unwrap (hashing_blob keccak record);
          must (encode_hex (blob_object_hash keccak blob) = block_id record);
          memory \<leftarrow> light hash seed;
          (pow_hash, vm) \<leftarrow> hash_with_vm_for_audit hash blob (new_vm memory env);
          must (length pow_hash = 32);
          difficulty \<leftarrow> unwrap (parse_wide_difficulty (wide_difficulty record));
          must (meets_difficulty pow_hash difficulty);
          Some \<lparr>fx_height = height record, fx_block_id = block_id record,
                fx_prev_hash = prev_hash record, fx_timestamp = timestamp record,
                fx_wide_difficulty = wide_difficulty record,
                fx_hashing_blob = encode_hex blob, fx_pow_hash = encode_hex pow_hash\<rparr> }"

text \<open>\<open>network_fixture_builder\<close>: one record; the machine is threaded through.\<close>

definition build_block ::
    "(nat \<Rightarrow> u8 list \<Rightarrow> u8 list) \<Rightarrow> (u8 list \<Rightarrow> u8 list) \<Rightarrow> (u8 list \<Rightarrow> u8 list) \<Rightarrow> u64
       \<Rightarrow> RpcBlockRecord list \<Rightarrow> nat \<Rightarrow> RpcBlockRecord \<Rightarrow> Vm \<Rightarrow> (MoneroBlockFixture \<times> Vm) option" where
  "build_block hash keccak official seed_height records index record reference =
     do { first \<leftarrow> arr_get records 0;
          must (height record = height first + of_nat index);
          must (randomx_seed_height (height record) = seed_height);
          (if index > 0
           then do { previous \<leftarrow> arr_get records (index - 1);
                     must (prev_hash record = block_id previous) }
           else Some ());
          blob \<leftarrow> unwrap (hashing_blob keccak record);
          must (encode_hex (blob_object_hash keccak blob) = block_id record);
          let expected = official blob;
          difficulty \<leftarrow> unwrap (parse_wide_difficulty (wide_difficulty record));
          must (meets_difficulty expected difficulty);
          (actual, reference) \<leftarrow> calculate_hash hash blob reference;
          must (actual = expected);
          Some (\<lparr>fx_height = height record, fx_block_id = block_id record,
                 fx_prev_hash = prev_hash record, fx_timestamp = timestamp record,
                 fx_wide_difficulty = wide_difficulty record,
                 fx_hashing_blob = encode_hex blob, fx_pow_hash = encode_hex expected\<rparr>, reference) }"

primrec build_blocks ::
    "(nat \<Rightarrow> RpcBlockRecord \<Rightarrow> Vm \<Rightarrow> (MoneroBlockFixture \<times> Vm) option) \<Rightarrow> nat \<Rightarrow> RpcBlockRecord list \<Rightarrow> Vm
       \<Rightarrow> MoneroBlockFixture list option" where
  "build_blocks build index [] reference = Some []"
| "build_blocks build index (record # records) reference =
     do { (block, reference) \<leftarrow> build index record reference;
          blocks \<leftarrow> build_blocks build (Suc index) records reference;
          Some (block # blocks) }"

definition network_fixture_builder ::
    "(nat \<Rightarrow> u8 list \<Rightarrow> u8 list) \<Rightarrow> (u8 list \<Rightarrow> u8 list) \<Rightarrow> bool \<Rightarrow> (u8 list \<Rightarrow> u8 list \<Rightarrow> u8 list)
       \<Rightarrow> FpEnv \<Rightarrow> str list \<Rightarrow> RpcBlockRecord list option \<Rightarrow> MoneroBlockFixtures option" where
  "network_fixture_builder hash keccak allocated calculate env args stdin_records =
     do { seed_height_text \<leftarrow> arr_get args 0;
          seed_height \<leftarrow> unwrap (from_str_radix 10 seed_height_text);
          seed_hash \<leftarrow> arr_get args 1;
          rpc_endpoint \<leftarrow> arr_get args 2;
          must (length args \<le> 3);
          seed \<leftarrow> unwrap (decode_hex 32 seed_hash);
          records \<leftarrow> stdin_records;
          must (length records = 20);
          memory \<leftarrow> light hash seed;
          official \<leftarrow> OfficialVm_new allocated seed;
          blocks \<leftarrow> build_blocks (build_block hash keccak (OfficialVm_hash calculate official)
               seed_height records) 0 records
             (new_vm memory env);
          Some \<lparr>fx_network = lit ''mainnet'', fx_rpc_endpoint = rpc_endpoint,
                fx_seed_height = seed_height, fx_seed_hash = seed_hash, fx_blocks = blocks\<rparr> }"

text \<open>\<open>official_randomx\<close>: the test patterns and the comparison of the three implementations.\<close>

definition pattern_step :: "u64 \<Rightarrow> u64" where
  "pattern_step state =
     (let state = state XOR drop_bit 12 state;
          state = state XOR push_bit 25 state;
          state = state XOR drop_bit 27 state
      in state * 0x2545f4914f6cdd1d)"

primrec pattern :: "nat \<Rightarrow> u64 \<Rightarrow> u8 list" where
  "pattern 0 state = []"
| "pattern (Suc n) state =
     (let state = pattern_step state in ucast (drop_bit 56 state) # pattern n state)"

definition audit_keys :: "(str \<times> u8 list) list" where
  "audit_keys =
     [(lit ''empty'', []), (lit ''one-byte'', [0xa5]), (lit ''test-key'', lit ''test key 000''),
      (lit ''zero-32'', replicate 32 0),
      (lit ''monero'',
       [0x11, 0xc7, 0x98, 0xe5, 0xac, 0x65, 0x15, 0x21, 0x8b, 0xc3, 0xef, 0xcb, 0x54, 0x16, 0xe5,
        0xb6, 0x8c, 0x59, 0x9e, 0x42, 0xa6, 0x1b, 0x86, 0xef, 0xe5, 0x74, 0x6b, 0xb7, 0x8e, 0xb4,
        0xbe, 0x8e]),
      (lit ''pattern-64'', pattern 64 0x243f6a8885a308d3),
      (lit ''pattern-257'', pattern 257 0x13198a2e03707344)]"

definition audit_inputs :: "(str \<times> u8 list) list" where
  "audit_inputs =
     [(lit ''empty'', []), (lit ''one-byte'', [0]), (lit ''text'', lit ''RandomX differential audit''),
      (lit ''blob-76'', pattern 76 0xa4093822299f31d0),
      (lit ''blob-257'', pattern 257 0x082efa98ec4e6c89),
      (lit ''blob-4096'', pattern 4096 0x452821e638d01377)]"

definition compare_official ::
    "(nat \<Rightarrow> u8 list \<Rightarrow> u8 list) \<Rightarrow> (u8 list \<Rightarrow> u8 list) \<Rightarrow> u8 list \<Rightarrow> Vm \<times> Vm \<Rightarrow> (Vm \<times> Vm) option" where
  "compare_official hash official input = (\<lambda>(reference, compact).
     do { let expected = official input;
          (reference_hash, reference) \<leftarrow> calculate_hash hash input reference;
          let compact = compact\<lparr>fp_env := fp_env reference\<rparr>;
          (compact_hash, compact) \<leftarrow> hash_with_vm_for_audit hash input compact;
          must (reference_hash = expected);
          must (compact_hash = expected);
          must (to_bytes (reg reference) = to_bytes (reg compact));
          must (scratchpad reference = scratchpad compact);
          let compact = reset_rounding_mode compact;
          Some (reference\<lparr>fp_env := fp_env compact\<rparr>, compact) })"

text \<open>The lines printed: one per input, with its name and the official hash.\<close>

definition official_randomx ::
    "(nat \<Rightarrow> u8 list \<Rightarrow> u8 list) \<Rightarrow> bool \<Rightarrow> (u8 list \<Rightarrow> u8 list \<Rightarrow> u8 list) \<Rightarrow> FpEnv \<Rightarrow> str list
       \<Rightarrow> (str \<times> str \<times> str) list option" where
  "official_randomx hash allocated calculate env args =
     do { requested_key \<leftarrow> arr_get args 0;
          (key_name, key) \<leftarrow> List.find (\<lambda>(name, _). name = requested_key) audit_keys;
          memory \<leftarrow> light hash key;
          official \<leftarrow> OfficialVm_new allocated key;
          (reference, compact) \<leftarrow> foldl_option
             (\<lambda>(_, input). compare_official hash (OfficialVm_hash calculate official) input)
             audit_inputs (new_vm memory env, new_vm memory env);
          Some (map (\<lambda>(input_name, input).
                       (key_name, input_name, encode_hex (OfficialVm_hash calculate official input)))
                  audit_inputs) }"

section \<open>No machine changes its memory\<close>

lemma write_mem:
  "write_r s v vm = Some vm' \<Longrightarrow> mem vm' = mem vm" "write_f s w vm = Some vm' \<Longrightarrow> mem vm' = mem vm"
  "write_e s w vm = Some vm' \<Longrightarrow> mem vm' = mem vm" "write_float_reg s w vm = Some vm' \<Longrightarrow> mem vm' = mem vm"
  "set_rounding_mode mode vm = Some vm' \<Longrightarrow> mem vm' = mem vm"
  by (cases s; auto simp: bind_eq_Some_conv)+ (auto simp: set_rounding_mode_def split: if_split_asm)

lemma exec_mem: "instr_execute ins vm = Some vm' \<Longrightarrow> mem vm' = mem vm"
  unfolding instr_execute_def
  by (cases "i_effect ins")
     (auto simp: exec_defs exec_iswap_r_def exec_istore_def exec_cbranch_def exec_cfround_def Let_def bind_eq_Some_conv
       split: if_split_asm dest!: write_mem)

lemma c_write_mem:
  "sp1_set_r vm o1 v = Some vm' \<Longrightarrow> mem vm' = mem vm" "sp1_set_f vm o1 w = Some vm' \<Longrightarrow> mem vm' = mem vm"
  "sp1_set_e vm o1 w = Some vm' \<Longrightarrow> mem vm' = mem vm" "set_scratch_at_offset vm i v = Some vm' \<Longrightarrow> mem vm' = mem vm"
  by (auto simp: sp1_set_r_def sp1_set_f_def sp1_set_e_def set_scratch_at_offset_def split: if_split_asm)

lemma c_exec_mem: "c_execute c vm = Some vm' \<Longrightarrow> mem vm' = mem vm"
  unfolding c_execute_def
  by (cases "c_effect c")
     (auto simp: c_exec_defs c_float_defs c_exec_iswap_r_def c_exec_istore_def c_exec_cfround_def c_exec_cbranch_def
       Let_def bind_eq_Some_conv split: if_split_asm dest!: c_write_mem write_mem)

lemma loops_mem:
  "exec_loop prog vm = Some vm' \<Longrightarrow> mem vm' = mem vm" "sp1_loop cprog vm = Some vm' \<Longrightarrow> mem vm' = mem vm"
proof -
  show "mem vm' = mem vm" if "exec_loop prog vm = Some vm'"
    using that
    by (rule exec_loop.raw_induct [where P = "\<lambda>prog vm vm'. mem vm' = mem vm", rotated])
       (auto simp: exec_step_def bind_eq_Some_conv split: if_split_asm dest!: exec_mem)
  show "mem vm' = mem vm" if "sp1_loop cprog vm = Some vm'"
    using that
    by (rule sp1_loop.raw_induct [where P = "\<lambda>prog vm vm'. mem vm' = mem vm", rotated])
       (auto simp: sp1_step_def bind_eq_Some_conv split: if_split_asm dest!: c_exec_mem)
qed

lemma init_mem:
  "init_vm en vm = Some vm' \<Longrightarrow> mem vm' = mem vm" "sp1_init_vm en vm = Some vm' \<Longrightarrow> mem vm' = mem vm"
  by (auto simp: init_vm_def sp1_init_vm_def bind_eq_Some_conv Let_def split: if_split_asm)

lemma iteration_mem:
  "run_iteration prog sp vm = Some vm' \<Longrightarrow> mem vm' = mem vm"
  "sp1_iteration cprog rr off sp st = Some st' \<Longrightarrow> mem (snd (snd st')) = mem (snd (snd st))"
  by (auto simp: run_iteration_def sp1_iteration_def dataset_step_def bind_eq_Some_conv Let_def case_prod_beta
      sp1_load_eq sp1_store_eq vm_kept_def dest!: loops_mem registers_kept)

lemma iterations_mem:
  "run_iterations prog n sp vm = Some vm' \<Longrightarrow> mem vm' = mem vm"
  "sp1_iterations cprog rr off n sp st = Some st' \<Longrightarrow> mem (snd (snd st')) = mem (snd (snd st))"
  by (induction n arbitrary: sp vm st) (auto simp: bind_eq_Some_conv dest: iteration_mem)

lemma run_mem:
  "run sd vm = Some vm' \<Longrightarrow> mem vm' = mem vm" "sp1_run sd vm = Some vm' \<Longrightarrow> mem vm' = mem vm"
  by (auto simp: run_def sp1_run_def bind_eq_Some_conv Let_def dest!: iterations_mem init_mem)

lemma programs_mem:
  "run_programs hash n sd vm = Some (sd', vm') \<Longrightarrow> mem vm' = mem vm"
  "sp1_run_programs hash n sd vm = Some (sd', vm') \<Longrightarrow> mem vm' = mem vm"
  by (induction n arbitrary: sd vm) (auto simp: bind_eq_Some_conv dest!: run_mem)

lemma hash_mem:
  "calculate_hash hash input vm = Some (d, vm') \<Longrightarrow> mem vm' = mem vm"
  "calculate_hash_impl hash input vm = Some (d, vm') \<Longrightarrow> mem vm' = mem vm"
  by (auto simp: calculate_hash_def calculate_hash_impl_def init_scratchpad_def reset_rounding_mode_def bind_eq_Some_conv
      Let_def split: if_split_asm dest!: run_mem programs_mem)
section \<open>What a successful run shows\<close>

lemma foldl_option_each:
  assumes "foldl_option f xs s = Some t" "Q s" "\<And>x u v. f x u = Some v \<Longrightarrow> Q u \<Longrightarrow> Q v" "i < length xs"
  shows "\<exists>u v. Q u \<and> f (xs ! i) u = Some v"
  using assms(1,2,4)
proof (induction xs arbitrary: s i)
  case (Cons x xs)
  then show ?case using assms(3) by (cases i) (auto simp: bind_eq_Some_conv)
qed simp

lemma compare_block_result:
  assumes "compare_block hash blob expected (r, c) = Some v"
  shows "\<exists>r' c' e. calculate_hash hash blob r = Some (expected, r')
    \<and> hash_with_vm_for_audit hash blob (c\<lparr> fp_env := e \<rparr>) = Some (expected, c') \<and> same_final_state r' c'"
  using assms by (auto simp: compare_block_def bind_eq_Some_conv Let_def)

lemma compare_block_mem:
  "compare_block hash blob expected (r, c) = Some (r', c') \<Longrightarrow> mem r' = mem r \<and> mem c' = mem c"
  by (auto simp: compare_block_def hash_with_vm_for_audit_def reset_rounding_mode_def bind_eq_Some_conv Let_def
      dest!: hash_mem)

lemma build_blocks_each:
  "build_blocks build n records vm = Some blocks \<Longrightarrow> length blocks = length records
     \<and> (\<forall>i < length records. \<exists>u v. build (n + i) (records ! i) u = Some (blocks ! i, v))"
proof (induction records arbitrary: n vm blocks)
  case (Cons r records)
  then obtain b vm' bs where b: "build n r vm = Some (b, vm')" "blocks = b # bs"
      "build_blocks build (Suc n) records vm' = Some bs"
    by (auto simp: bind_eq_Some_conv)
  show ?case
  proof (intro conjI allI impI)
    show "length blocks = length (r # records)" using Cons.IH [OF b(3)] b(2) by simp
    fix i assume "i < length (r # records)"
    then show "\<exists>u v. build (n + i) ((r # records) ! i) u = Some (blocks ! i, v)"
      using Cons.IH [OF b(3)] b(1,2) by (cases i) auto
  qed
qed simp

lemma build_block_result:
  assumes "build_block hash keccak official sh rs i record u = Some (block, v)"
  shows "\<exists>blob d. rs \<noteq> [] \<and> height record = height (rs ! 0) + of_nat i
    \<and> randomx_seed_height (height record) = sh
    \<and> (i = 0 \<or> prev_hash record = block_id (rs ! (i - 1)))
    \<and> encode_hex (blob_object_hash keccak blob) = block_id record
    \<and> parse_wide_difficulty (wide_difficulty record) = Ok d \<and> meets_difficulty (official blob) d
    \<and> block = \<lparr>fx_height = height record, fx_block_id = block_id record,
         fx_prev_hash = prev_hash record, fx_timestamp = timestamp record,
         fx_wide_difficulty = wide_difficulty record, fx_hashing_blob = encode_hex blob,
         fx_pow_hash = encode_hex (official blob)\<rparr>"
  using assms
  by (auto simp: build_block_def bind_eq_Some_conv arr_get_def Let_def split: if_splits)

lemma validate_fixtures_Some:
  assumes "validate_recent_mainnet_blocks hash keccak env clock json = Some summary"
  shows "\<exists>fixtures seed memory. json = Some fixtures \<and> vs_blocks summary = 20
    \<and> last_height summary = first_height summary + 19
    \<and> decode_hex 32 (fx_seed_hash fixtures) = Ok seed \<and> light hash seed = Some memory
    \<and> list_all (\<lambda>i. \<exists>blob expected r r' c c'.
          check_block keccak fixtures i (fx_blocks fixtures ! i) = Some (blob, expected)
          \<and> mem r = memory \<and> calculate_hash hash blob r = Some (expected, r')
          \<and> mem c = memory \<and> hash_with_vm_for_audit hash blob c = Some (expected, c')
          \<and> same_final_state r' c') [0..<20]"
proof -
  let ?body = "\<lambda>fixtures (index, block) vms.
       do { (blob, expected) \<leftarrow> check_block keccak fixtures index block;
            compare_block hash blob expected vms }"
  obtain fixtures seed memory vms' where f: "json = Some fixtures" "length (fx_blocks fixtures) = 20"
      "summary = \<lparr>vs_blocks = 20, first_height = fx_height (fx_blocks fixtures ! 0),
         last_height = fx_height (fx_blocks fixtures ! 19), elapsed = clock\<rparr>"
      "decode_hex 32 (fx_seed_hash fixtures) = Ok seed" "light hash seed = Some memory"
      and loop: "foldl_option (?body fixtures) (List.enumerate 0 (fx_blocks fixtures))
         (new_vm memory env, new_vm memory env) = Some vms'"
    using assms
    by (auto simp: validate_recent_mainnet_blocks_def bind_eq_Some_conv arr_get_def split: if_splits)
  let ?Q = "\<lambda>vms. mem (fst vms) = memory \<and> mem (snd vms) = memory"
  have start: "?Q (new_vm memory env, new_vm memory env)" by (simp add: new_vm_def)
  have keep: "?Q v" if "?body fixtures x u = Some v" "?Q u" for x u v
    using that by (cases x; cases u; cases v) (auto simp: bind_eq_Some_conv dest!: compare_block_mem)
  have each: "\<exists>blob expected r r' c c'.
          check_block keccak fixtures i (fx_blocks fixtures ! i) = Some (blob, expected)
          \<and> mem r = memory \<and> calculate_hash hash blob r = Some (expected, r')
          \<and> mem c = memory \<and> hash_with_vm_for_audit hash blob c = Some (expected, c')
          \<and> same_final_state r' c'" if i: "i < 20" for i
  proof -
    have "\<exists>u v. ?Q u \<and> ?body fixtures (List.enumerate 0 (fx_blocks fixtures) ! i) u = Some v"
      by (rule foldl_option_each [OF loop]) (use start keep i f(2) in auto)
    then obtain r c v where "mem r = memory" "mem c = memory"
        "?body fixtures (i, fx_blocks fixtures ! i) (r, c) = Some v"
      using i f(2) by (auto simp: nth_enumerate_eq)
    then obtain blob expected where b: "check_block keccak fixtures i (fx_blocks fixtures ! i) = Some (blob, expected)"
        "compare_block hash blob expected (r, c) = Some v" and m: "mem r = memory" "\<And>e. mem (c\<lparr> fp_env := e \<rparr>) = memory"
      by (auto simp: bind_eq_Some_conv)
    from compare_block_result [OF b(2)] show ?thesis using b(1) m by blast
  qed
  have "fx_height (fx_blocks fixtures ! 19) = fx_height (fx_blocks fixtures ! 0) + 19"
    using each [of 19] f(2) by (auto simp: check_block_def bind_eq_Some_conv arr_get_def)
  then show ?thesis using f each by (auto simp: list_all_iff)
qed

lemma builder_output_Some:
  assumes "network_fixture_builder hash keccak allocated calculate env args records = Some fixtures"
  shows "fx_network fixtures = lit ''mainnet'' \<and> length (fx_blocks fixtures) = 20
    \<and> (\<exists>seed. decode_hex 32 (fx_seed_hash fixtures) = Ok seed
        \<and> list_all (\<lambda>i. \<exists>blob. check_block keccak fixtures i (fx_blocks fixtures ! i)
                             = Some (blob, OfficialVm_hash calculate seed blob)) [0..<20])"
proof -
  obtain seed rs memory where b: "fx_network fixtures = lit ''mainnet''" "length rs = 20"
      "decode_hex 32 (fx_seed_hash fixtures) = Ok seed"
      "build_blocks (build_block hash keccak (OfficialVm_hash calculate seed) (fx_seed_height fixtures) rs) 0 rs
         (new_vm memory env) = Some (fx_blocks fixtures)"
    using assms by (auto simp: network_fixture_builder_def bind_eq_Some_conv
          OfficialVm_new_def)
  note each = build_blocks_each [OF b(4)]
  have len: "length (fx_blocks fixtures) = 20" using each b(2) by simp
  have block: "fx_height (fx_blocks fixtures ! i) = height (rs ! i)
      \<and> fx_block_id (fx_blocks fixtures ! i) = block_id (rs ! i)" if "i < 20" for i
  proof -
    obtain u v where "build_block hash keccak (OfficialVm_hash calculate seed) (fx_seed_height fixtures) rs i (rs ! i) u
        = Some (fx_blocks fixtures ! i, v)"
      using each \<open>i < 20\<close> b(2) by auto
    from build_block_result [OF this] show ?thesis by auto
  qed
  have "\<exists>blob. check_block keccak fixtures i (fx_blocks fixtures ! i) = Some (blob, OfficialVm_hash calculate seed blob)"
    if i: "i < 20" for i
  proof -
    obtain u v where "build_block hash keccak (OfficialVm_hash calculate seed) (fx_seed_height fixtures) rs i (rs ! i) u
        = Some (fx_blocks fixtures ! i, v)"
      using each i b(2) by auto
    from build_block_result [OF this] obtain blob d where s: "height (rs ! i) = height (rs ! 0) + of_nat i"
        "randomx_seed_height (height (rs ! i)) = fx_seed_height fixtures"
        "i = 0 \<or> prev_hash (rs ! i) = block_id (rs ! (i - 1))"
        "encode_hex (blob_object_hash keccak blob) = block_id (rs ! i)"
        "parse_wide_difficulty (wide_difficulty (rs ! i)) = Ok d"
        "meets_difficulty (OfficialVm_hash calculate seed blob) d"
        "fx_blocks fixtures ! i = \<lparr>fx_height = height (rs ! i), fx_block_id = block_id (rs ! i),
           fx_prev_hash = prev_hash (rs ! i), fx_timestamp = timestamp (rs ! i),
           fx_wide_difficulty = wide_difficulty (rs ! i), fx_hashing_blob = encode_hex blob,
           fx_pow_hash = encode_hex (OfficialVm_hash calculate seed blob)\<rparr>"
      by blast
    have "decode_hex_vec (encode_hex blob) = Ok blob"
      "decode_hex 32 (encode_hex (OfficialVm_hash calculate seed blob)) = Ok (OfficialVm_hash calculate seed blob)"
      using decode_hex_encode [of blob] decode_hex_encode [of "OfficialVm_hash calculate seed blob"]
      by (simp_all add: decode_hex_vec_eq)
    moreover have "i = 0 \<or> fx_block_id (fx_blocks fixtures ! (i - 1)) = block_id (rs ! (i - 1))"
      using block [of "i - 1"] i by auto
    ultimately show ?thesis
      using s i len block [of 0]
      by (intro exI [of _ blob]) (auto simp: check_block_def arr_get_def must_def)
  qed
  then show ?thesis using b(1,3) len by (auto simp: list_all_iff)
qed

text \<open>The fixture validation panics, or it covered 20 blocks with consecutive heights, every
  block passed the checks of its seed height, chain link, block id and difficulty, and both the
  reference machine and the compact machine, on the light memory of the decoded seed hash, computed
  the expected proof-of-work hash from its hashing blob and ended in the same state.\<close>

theorem validate_fixtures_sound:
  "validate_recent_mainnet_blocks hash keccak env clock json = None
   \<or> (\<exists>summary fixtures seed memory.
        validate_recent_mainnet_blocks hash keccak env clock json = Some summary
        \<and> json = Some fixtures \<and> vs_blocks summary = 20
        \<and> last_height summary = first_height summary + 19
        \<and> decode_hex 32 (fx_seed_hash fixtures) = Ok seed \<and> light hash seed = Some memory
        \<and> list_all (\<lambda>i. \<exists>blob expected r r' c c'.
              check_block keccak fixtures i (fx_blocks fixtures ! i) = Some (blob, expected)
              \<and> mem r = memory \<and> calculate_hash hash blob r = Some (expected, r')
              \<and> mem c = memory \<and> hash_with_vm_for_audit hash blob c = Some (expected, c')
              \<and> same_final_state r' c') [0..<20])"
proof (cases "validate_recent_mainnet_blocks hash keccak env clock json")
  case (Some summary)
  from validate_fixtures_Some [OF this] show ?thesis using Some by blast
qed simp

text \<open>The fixture builder panics, or the fixture that it prints passes every check that the validation makes before
  it hashes: network name, number of blocks, seed hash, and for each block its height, seed height,
  chain link, block id and difficulty; the blob and the hash that the validation decodes are the
  ones that the builder encoded.\<close>

theorem builder_output_checks:
  "network_fixture_builder hash keccak allocated calculate env args records = None
   \<or> (\<exists>fixtures seed.
        network_fixture_builder hash keccak allocated calculate env args records = Some fixtures
        \<and> fx_network fixtures = lit ''mainnet'' \<and> length (fx_blocks fixtures) = 20
        \<and> decode_hex 32 (fx_seed_hash fixtures) = Ok seed
        \<and> list_all (\<lambda>i. \<exists>blob. check_block keccak fixtures i (fx_blocks fixtures ! i)
                             = Some (blob, OfficialVm_hash calculate seed blob)) [0..<20])"
proof (cases "network_fixture_builder hash keccak allocated calculate env args records")
  case (Some fixtures)
  from builder_output_Some [OF this] show ?thesis using Some by blast
qed simp

text \<open>The test patterns have the requested length.\<close>

lemma length_pattern [simp]: "length (pattern n s) = n"
  by (induction n arbitrary: s) (simp_all add: Let_def)

end
