(* ===== verification/SoftfpGuest.thy ===== *)
theory SoftfpGuest
  imports Softfp
begin

text \<open>
  Model of \<open>softfp/src/guest.rs\<close>, the guest program that checks the directed arithmetic on
  pinned vectors and measures it: \<open>check_vectors\<close>, the five measured loops and the committed
  output. \<open>None\<close> is a failed assertion; the printed cycle markers are left out. The theorem is
  that every pinned vector holds, so that the program always commits its success tag: the vectors
  are evaluated in the IEEE semantics, to which the softfp routines were proved equal.
\<close>

section \<open>Definitions\<close>

definition ITERATIONS :: nat where
  "ITERATIONS = 1024"

definition G_FRAC_MASK :: u64 where
  "G_FRAC_MASK = 0x000fffffffffffff"

definition G_SIGN_MASK :: u64 where
  "G_SIGN_MASK = push_bit 63 1"

definition SUCCESS_TAG :: "u8 list" where
  "SUCCESS_TAG = map of_char ''softfp-all-vectors-pass!''"

definition guest_mix :: "u64 \<Rightarrow> u64 \<times> u64 \<Rightarrow> u64" where
  "guest_mix state values =
     ((word_rotl 13 state + fst values) * 0xd1342543de82ef95) XOR word_rotr 17 (snd values)"

definition guest_modes :: "RoundingMode list" where
  "guest_modes = [Nearest, Down, Up, TowardZero]"

definition add_a :: "u64 \<times> u64" where "add_a = (0xc1ce30b3c4223576, 0x3ffd2c97cc4ef015)"
definition add_b :: "u64 \<times> u64" where "add_b = (0x40b8f684057a59e1, 0x402a26a86a60c8fb)"
definition add_expected :: "(u64 \<times> u64) list" where
  "add_expected =
     [(0xc1ce30a748e032b9, 0x402dcc3b63eaa6fe), (0xc1ce30a748e032b9, 0x402dcc3b63eaa6fd),
      (0xc1ce30a748e032b8, 0x402dcc3b63eaa6fe), (0xc1ce30a748e032b8, 0x402dcc3b63eaa6fd)]"
definition mul_a :: "u64 \<times> u64" where "mul_a = (0x40fdfdabb6173d07, 0x41dbc35cef248783)"
definition mul_b :: "u64 \<times> u64" where "mul_b = (0x41c4561212ae2d50, 0x40eba861aa31c7c0)"
definition mul_expected :: "(u64 \<times> u64) list" where
  "mul_expected =
     [(0x42d30f35ff7a6969, 0x42d7feeccd89152f), (0x42d30f35ff7a6969, 0x42d7feeccd89152e),
      (0x42d30f35ff7a696a, 0x42d7feeccd89152f), (0x42d30f35ff7a6969, 0x42d7feeccd89152e)]"
definition div_a :: "u64 \<times> u64" where "div_a = (0x411b414296ce93b6, 0x41937f76fede16ee)"
definition div_b :: "u64 \<times> u64" where "div_b = (0x3ac657af2505d11a, 0x39dd36e7c9dba31e)"
definition div_expected :: "(u64 \<times> u64) list" where
  "div_expected =
     [(0x464384946369b2e7, 0x47a55b63664a4732), (0x464384946369b2e6, 0x47a55b63664a4732),
      (0x464384946369b2e7, 0x47a55b63664a4733), (0x464384946369b2e6, 0x47a55b63664a4732)]"
definition sqrt_a :: "u64 \<times> u64" where "sqrt_a = (0x40526a7e778d9824, 0x41b6b21c11affea7)"
definition sqrt_expected :: "(u64 \<times> u64) list" where
  "sqrt_expected =
     [(0x40212a610b301fe8, 0x40d30e573fa3ba8d), (0x40212a610b301fe8, 0x40d30e573fa3ba8c),
      (0x40212a610b301fe9, 0x40d30e573fa3ba8d), (0x40212a610b301fe8, 0x40d30e573fa3ba8c)]"

definition one_bits :: u64 where "one_bits = 0x3ff0000000000000"
definition minus_one_bits :: u64 where "minus_one_bits = 0xbff0000000000000"

text \<open>One round of the loop of \<open>check_vectors\<close>.\<close>

definition check_mode :: "nat \<Rightarrow> unit option" where
  "check_mode i =
     (let mode = guest_modes ! i;
          negated_b = (fst add_b XOR G_SIGN_MASK, snd add_b XOR G_SIGN_MASK);
          cancellation_sign = (if mode = Down then G_SIGN_MASK else 0)
      in if add2 add_a add_b mode = add_expected ! i
            \<and> sub2 add_a negated_b mode = add_expected ! i
            \<and> mul2 mul_a mul_b mode = mul_expected ! i
            \<and> div2 div_a div_b mode = div_expected ! i
            \<and> sqrt2 sqrt_a mode = sqrt_expected ! i
            \<and> add2 (one_bits, one_bits) (minus_one_bits, minus_one_bits) mode
                = (cancellation_sign, cancellation_sign)
            \<and> sub2 (one_bits, one_bits) (one_bits, one_bits) mode
                = (cancellation_sign, cancellation_sign)
            \<and> sqrt2 (0, G_SIGN_MASK) mode = (0, G_SIGN_MASK)
            \<and> mul2 (0, G_SIGN_MASK) (one_bits, one_bits) mode = (0, G_SIGN_MASK)
            \<and> div2 (0, G_SIGN_MASK) (one_bits, one_bits) mode = (0, G_SIGN_MASK)
         then Some () else None)"

definition check_vectors :: "unit option" where
  "check_vectors = foldl_option (\<lambda>i _. check_mode i) [0..<4] ()"

text \<open>The measured loops. The counter \<open>i\<close> is a 64-bit word.\<close>

definition bench_step ::
    "(u64 \<Rightarrow> u64 \<Rightarrow> u64 \<times> u64) \<Rightarrow> nat \<Rightarrow> u64 \<Rightarrow> u64" where
  "bench_step f i state = guest_mix state (f (of_nat i) state)"

definition bench_add :: "RoundingMode \<Rightarrow> u64 \<Rightarrow> u64" where
  "bench_add mode state = fold (bench_step (\<lambda>i state.
     let a = (0x4200000000000000 OR (state AND G_FRAC_MASK),
              0x41d0000000000000 OR (word_rotl 19 state AND G_FRAC_MASK));
         b = (0x40f0000000000000 OR (word_rotr 7 state AND G_FRAC_MASK),
              0x4100000000000000 OR ((i * state) AND G_FRAC_MASK))
     in add2 a b mode)) [0..<ITERATIONS] state"

definition bench_sub :: "RoundingMode \<Rightarrow> u64 \<Rightarrow> u64" where
  "bench_sub mode state = fold (bench_step (\<lambda>i state.
     let a = (0x4200000000000000 OR (state AND G_FRAC_MASK),
              0x41d0000000000000 OR (word_rotl 19 state AND G_FRAC_MASK));
         b = (0x40f0000000000000 OR (word_rotr 7 state AND G_FRAC_MASK),
              0x4100000000000000 OR ((i * state) AND G_FRAC_MASK))
     in sub2 a b mode)) [0..<ITERATIONS] state"

definition bench_mul :: "RoundingMode \<Rightarrow> u64 \<Rightarrow> u64" where
  "bench_mul mode state = fold (bench_step (\<lambda>i state.
     let a = (0x4100000000000000 OR (state AND G_FRAC_MASK),
              0x4120000000000000 OR (word_rotl 23 state AND G_FRAC_MASK));
         b = (0x3f00000000000000 OR (word_rotr 11 state AND G_FRAC_MASK),
              0x3ee0000000000000 OR ((i * state) AND G_FRAC_MASK))
     in mul2 a b mode)) [0..<ITERATIONS] state"

definition bench_div :: "RoundingMode \<Rightarrow> u64 \<Rightarrow> u64" where
  "bench_div mode state = fold (bench_step (\<lambda>i state.
     let a = (0x4300000000000000 OR (state AND G_FRAC_MASK),
              0x42d0000000000000 OR (word_rotl 29 state AND G_FRAC_MASK));
         b = (0x3f00000000000000 OR (word_rotr 5 state AND G_FRAC_MASK),
              0x3f20000000000000 OR ((i * state) AND G_FRAC_MASK))
     in div2 a b mode)) [0..<ITERATIONS] state"

definition bench_sqrt :: "RoundingMode \<Rightarrow> u64 \<Rightarrow> u64" where
  "bench_sqrt mode state = fold (bench_step (\<lambda>i state.
     let a = (0x4500000000000000 OR (state AND G_FRAC_MASK),
              0x3a00000000000000 OR ((i * state) AND G_FRAC_MASK))
     in sqrt2 a mode)) [0..<ITERATIONS] state"

text \<open>The program; the result is the committed slice.\<close>

definition guest_main :: "u8 list option" where
  "guest_main =
     map_option (\<lambda>_.
       let checksum = fold (\<lambda>mode checksum.
             let checksum = bench_add mode checksum;
                 checksum = bench_sub mode checksum;
                 checksum = bench_mul mode checksum;
                 checksum = bench_div mode checksum
             in bench_sqrt mode checksum) guest_modes 0x9e3779b97f4a7c15
       in to_le_bytes 8 checksum @ SUCCESS_TAG) check_vectors"

section \<open>Evaluation of a rounding\<close>

lemma round_mag_between:
  assumes "0 < p" "0 < D" "m < inf_index" "mval m ^ p * D < N" "N < mval (Suc m) ^ p * D"
    and "(mval m + mval (Suc m)) ^ p * D \<noteq> 2 ^ p * N"
  shows "round_mag mode neg p N D =
    (case mode of
       Nearest \<Rightarrow> if (mval m + mval (Suc m)) ^ p * D < 2 ^ p * N then Suc m else m
     | Down \<Rightarrow> if neg then Suc m else m
     | Up \<Rightarrow> if neg then m else Suc m
     | TowardZero \<Rightarrow> m)"
proof -
  have "round_down_index p N D = m"
    using assms by (intro round_down_index_eqI) simp_all
  then show ?thesis using assms by (simp add: round_mag_def Let_def)
qed

lemmas eval_bounds = inf_index_def mval_def f64_one_def

lemma round_add_0:
  "round_mag mode True (Suc 0) (mval 0x41ce30b3c4223576 - mval 0x40b8f684057a59e1) (Suc 0) =
     (case mode of Nearest \<Rightarrow> 0x41ce30a748e032b9 | Down \<Rightarrow> 0x41ce30a748e032b9 | Up \<Rightarrow> 0x41ce30a748e032b8 | TowardZero \<Rightarrow> 0x41ce30a748e032b8)"
  by (subst round_mag_between [of _ _ "0x41ce30a748e032b8"])
     (simp_all add: eval_bounds split: RoundingMode.split)

lemma round_add_1:
  "round_mag mode False (Suc 0) (mval 0x3ffd2c97cc4ef015 + mval 0x402a26a86a60c8fb) (Suc 0) =
     (case mode of Nearest \<Rightarrow> 0x402dcc3b63eaa6fe | Down \<Rightarrow> 0x402dcc3b63eaa6fd | Up \<Rightarrow> 0x402dcc3b63eaa6fe | TowardZero \<Rightarrow> 0x402dcc3b63eaa6fd)"
  by (subst round_mag_between [of _ _ "0x402dcc3b63eaa6fd"])
     (simp_all add: eval_bounds split: RoundingMode.split)

lemma round_mul_0:
  "round_mag mode False (Suc 0) (mval 0x40fdfdabb6173d07 * mval 0x41c4561212ae2d50) (f64_one) =
     (case mode of Nearest \<Rightarrow> 0x42d30f35ff7a6969 | Down \<Rightarrow> 0x42d30f35ff7a6969 | Up \<Rightarrow> 0x42d30f35ff7a696a | TowardZero \<Rightarrow> 0x42d30f35ff7a6969)"
  by (subst round_mag_between [of _ _ "0x42d30f35ff7a6969"])
     (simp_all add: eval_bounds split: RoundingMode.split)

lemma round_mul_1:
  "round_mag mode False (Suc 0) (mval 0x41dbc35cef248783 * mval 0x40eba861aa31c7c0) (f64_one) =
     (case mode of Nearest \<Rightarrow> 0x42d7feeccd89152f | Down \<Rightarrow> 0x42d7feeccd89152e | Up \<Rightarrow> 0x42d7feeccd89152f | TowardZero \<Rightarrow> 0x42d7feeccd89152e)"
  by (subst round_mag_between [of _ _ "0x42d7feeccd89152e"])
     (simp_all add: eval_bounds split: RoundingMode.split)

lemma round_div_0:
  "round_mag mode False (Suc 0) (mval 0x411b414296ce93b6 * f64_one) (mval 0x3ac657af2505d11a) =
     (case mode of Nearest \<Rightarrow> 0x464384946369b2e7 | Down \<Rightarrow> 0x464384946369b2e6 | Up \<Rightarrow> 0x464384946369b2e7 | TowardZero \<Rightarrow> 0x464384946369b2e6)"
  by (subst round_mag_between [of _ _ "0x464384946369b2e6"])
     (simp_all add: eval_bounds split: RoundingMode.split)

lemma round_div_1:
  "round_mag mode False (Suc 0) (mval 0x41937f76fede16ee * f64_one) (mval 0x39dd36e7c9dba31e) =
     (case mode of Nearest \<Rightarrow> 0x47a55b63664a4732 | Down \<Rightarrow> 0x47a55b63664a4732 | Up \<Rightarrow> 0x47a55b63664a4733 | TowardZero \<Rightarrow> 0x47a55b63664a4732)"
  by (subst round_mag_between [of _ _ "0x47a55b63664a4732"])
     (simp_all add: eval_bounds split: RoundingMode.split)

lemma round_sqrt_0:
  "round_mag mode False 2 (mval 0x40526a7e778d9824 * f64_one) (Suc 0) =
     (case mode of Nearest \<Rightarrow> 0x40212a610b301fe8 | Down \<Rightarrow> 0x40212a610b301fe8 | Up \<Rightarrow> 0x40212a610b301fe9 | TowardZero \<Rightarrow> 0x40212a610b301fe8)"
  by (subst round_mag_between [of _ _ "0x40212a610b301fe8"])
     (simp_all add: eval_bounds split: RoundingMode.split)

lemma round_sqrt_1:
  "round_mag mode False 2 (mval 0x41b6b21c11affea7 * f64_one) (Suc 0) =
     (case mode of Nearest \<Rightarrow> 0x40d30e573fa3ba8d | Down \<Rightarrow> 0x40d30e573fa3ba8c | Up \<Rightarrow> 0x40d30e573fa3ba8d | TowardZero \<Rightarrow> 0x40d30e573fa3ba8c)"
  by (subst round_mag_between [of _ _ "0x40d30e573fa3ba8c"])
     (simp_all add: eval_bounds split: RoundingMode.split)

lemmas f64_eval = f64_neg_def f64_idx_def inf_index_def mk_f64_def

lemma int_add_zero: "int a + int b = 0 \<longleftrightarrow> a = 0 \<and> b = 0"
  by presburger

text \<open>The operands are in the domains of the correctness theorems, and the five operations give the
  pinned results in every mode.\<close>

lemma vector_add: "add2 add_a add_b mode =
    (case mode of Nearest \<Rightarrow> add_expected ! 0 | Down \<Rightarrow> add_expected ! 1 | Up \<Rightarrow> add_expected ! 2
     | TowardZero \<Rightarrow> add_expected ! 3)"
proof -
  have "mval 0x40b8f684057a59e1 < mval 0x41ce30b3c4223576" by simp
  then have "f64_add mode (fst add_a) (fst add_b) = mk_f64 True (round_mag mode True 1
      (mval 0x41ce30b3c4223576 - mval 0x40b8f684057a59e1) 1)"
    "f64_add mode (snd add_a) (snd add_b) = mk_f64 False (round_mag mode False 1
      (mval 0x3ffd2c97cc4ef015 + mval 0x402a26a86a60c8fb) 1)"
    by (simp_all add: f64_add_def f64_sval_def f64_eval add_a_def add_b_def nat_diff_distrib
          nat_add_distrib Let_def int_add_zero)
  moreover have "no_nan (fst add_a) (fst add_b)" "no_nan (snd add_a) (snd add_b)"
    by (simp_all add: no_nan_def f64_eval add_a_def add_b_def)
  ultimately show ?thesis
    by (simp add: add.op2_ieee round_add_0 round_add_1 mk_f64_def add_expected_def
          split: RoundingMode.split)
qed

lemma vector_mul: "mul2 mul_a mul_b mode =
    (case mode of Nearest \<Rightarrow> mul_expected ! 0 | Down \<Rightarrow> mul_expected ! 1 | Up \<Rightarrow> mul_expected ! 2
     | TowardZero \<Rightarrow> mul_expected ! 3)"
proof -
  have "no_nan (fst mul_a) (fst mul_b)" "no_nan (snd mul_a) (snd mul_b)"
    by (simp_all add: no_nan_def f64_eval mul_a_def mul_b_def)
  then show ?thesis
    by (simp add: mul.op2_ieee f64_mul_def f64_eval mul_a_def mul_b_def)
       (simp add: round_mul_0 round_mul_1 mul_expected_def split: RoundingMode.split)
qed

lemma vector_div: "div2 div_a div_b mode =
    (case mode of Nearest \<Rightarrow> div_expected ! 0 | Down \<Rightarrow> div_expected ! 1 | Up \<Rightarrow> div_expected ! 2
     | TowardZero \<Rightarrow> div_expected ! 3)"
proof -
  have "div_domain (fst div_a) (fst div_b)" "div_domain (snd div_a) (snd div_b)"
    by (simp_all add: div_domain_def f64_eval div_a_def div_b_def)
  then show ?thesis
    by (simp add: div.op2_ieee f64_div_def f64_eval div_a_def div_b_def)
       (simp add: round_div_0 round_div_1 div_expected_def split: RoundingMode.split)
qed

lemma vector_sqrt: "sqrt2 sqrt_a mode =
    (case mode of Nearest \<Rightarrow> sqrt_expected ! 0 | Down \<Rightarrow> sqrt_expected ! 1 | Up \<Rightarrow> sqrt_expected ! 2
     | TowardZero \<Rightarrow> sqrt_expected ! 3)"
  by (subst sqrt2_ieee)
     (simp_all add: f64_sqrt_def f64_eval sqrt_a_def,
      simp add: round_sqrt_0 round_sqrt_1 sqrt_expected_def split: RoundingMode.split)

text \<open>Subtracting the negated operand is adding it.\<close>

lemma f64_negate_twice: "f64_negate (f64_negate b) = b"
  using xor_self_cancel [of b SIGN_MASK] by (simp del: xor_self_cancel)

lemma vector_sub: "sub2 x (fst y XOR G_SIGN_MASK, snd y XOR G_SIGN_MASK) mode = add2 x y mode"
  if "no_nan (fst x) (fst y)" "no_nan (snd x) (snd y)"
proof -
  have "G_SIGN_MASK = SIGN_MASK" by (simp add: G_SIGN_MASK_def SIGN_MASK_def)
  then show ?thesis
    using that by (simp add: sub.op2_ieee add.op2_ieee no_nan_def f64_sub_def f64_negate_twice)
qed

text \<open>Exact zeros and their signs.\<close>

lemma round_mag_zero: "0 < p \<Longrightarrow> 0 < D \<Longrightarrow> round_mag mode neg p 0 D = 0"
  by (rule round_mag_exact) (simp_all add: inf_index_def)

lemma vector_cancel:
  "add2 (one_bits, one_bits) (minus_one_bits, minus_one_bits) mode
     = (let z = if mode = Down then G_SIGN_MASK else 0 in (z, z))"
  "sub2 (one_bits, one_bits) (one_bits, one_bits) mode
     = (let z = if mode = Down then G_SIGN_MASK else 0 in (z, z))"
proof -
  have n: "no_nan one_bits minus_one_bits" "no_nan one_bits one_bits"
    by (simp_all add: no_nan_def f64_eval one_bits_def minus_one_bits_def)
  have "f64_add mode one_bits minus_one_bits = (if mode = Down then G_SIGN_MASK else 0)"
    by (simp add: f64_add_def f64_sval_def f64_eval one_bits_def minus_one_bits_def G_SIGN_MASK_def)
  moreover have "f64_sub mode one_bits one_bits = f64_add mode one_bits minus_one_bits"
    by (simp add: f64_sub_def f64_negate_def f64_eval one_bits_def minus_one_bits_def)
  ultimately show
    "add2 (one_bits, one_bits) (minus_one_bits, minus_one_bits) mode
       = (let z = if mode = Down then G_SIGN_MASK else 0 in (z, z))"
    "sub2 (one_bits, one_bits) (one_bits, one_bits) mode
       = (let z = if mode = Down then G_SIGN_MASK else 0 in (z, z))"
    using n by (simp_all add: add.op2_ieee sub.op2_ieee Let_def)
qed

lemma vector_zero:
  "sqrt2 (0, G_SIGN_MASK) mode = (0, G_SIGN_MASK)"
  "mul2 (0, G_SIGN_MASK) (one_bits, one_bits) mode = (0, G_SIGN_MASK)"
  "div2 (0, G_SIGN_MASK) (one_bits, one_bits) mode = (0, G_SIGN_MASK)"
proof -
  have f: "f64_idx 0 = 0" "f64_idx G_SIGN_MASK = 0" "\<not> f64_neg 0" "f64_neg G_SIGN_MASK"
    "f64_idx one_bits = 0x3ff0000000000000" "\<not> f64_neg one_bits"
    "mk_f64 False 0 = 0" "mk_f64 True 0 = G_SIGN_MASK"
    by (simp_all add: f64_idx_def f64_neg_def mk_f64_def one_bits_def G_SIGN_MASK_def)
  show "sqrt2 (0, G_SIGN_MASK) mode = (0, G_SIGN_MASK)"
    by (simp add: sqrt2_ieee f64_sqrt_def f inf_index_def)
  show "mul2 (0, G_SIGN_MASK) (one_bits, one_bits) mode = (0, G_SIGN_MASK)"
    by (simp add: mul.op2_ieee no_nan_def f64_mul_def f inf_index_def round_mag_zero f64_one_def)
  show "div2 (0, G_SIGN_MASK) (one_bits, one_bits) mode = (0, G_SIGN_MASK)"
    by (simp add: div.op2_ieee div_domain_def f64_div_def f inf_index_def round_mag_zero)
qed

lemma check_mode_passes: "i < 4 \<Longrightarrow> check_mode i = Some ()"
proof -
  assume "i < 4"
  then consider "i = 0" | "i = 1" | "i = 2" | "i = 3" by linarith
  moreover have "no_nan (fst add_a) (fst add_b)" "no_nan (snd add_a) (snd add_b)"
    by (simp_all add: no_nan_def f64_eval add_a_def add_b_def)
  ultimately show ?thesis
    by cases (simp_all add: check_mode_def guest_modes_def Let_def vector_sub vector_add vector_mul
        vector_div vector_sqrt vector_cancel vector_zero numeral_2_eq_2 numeral_3_eq_3)
qed

text \<open>All pinned vectors of the guest program hold in all four rounding modes, so no assertion of
  \<open>check_vectors\<close> fails and the program commits 32 bytes: an 8-byte checksum and the success
  tag.\<close>

theorem guest_vectors_pass:
  "check_vectors = Some ()
   \<and> (\<exists>checksum. guest_main = Some (to_le_bytes 8 (checksum :: u64) @ SUCCESS_TAG)
        \<and> length (to_le_bytes 8 checksum @ SUCCESS_TAG) = 32)"
proof -
  have c: "check_vectors = Some ()"
    by (simp add: check_vectors_def check_mode_passes upt_rec)
  have "length SUCCESS_TAG = 24" by (simp add: SUCCESS_TAG_def)
  then show ?thesis by (auto simp: c guest_main_def Let_def)
qed

end
