(* ===== verification/ProgramText.thy ===== *)
theory ProgramText
  imports ProgramOk RustStd
begin

text \<open>
  Model of the \<open>Display\<close> implementations of \<open>randomx-core/src/program.rs\<close>. The text goes into
  a string, so writing cannot fail and \<open>None\<close> is a panic: \<open>write_l_access\<close> unwraps the
  immediate of a memory operand. The names of opcodes and operands come from the derive macro of the
  strum package and are the parameters \<open>op_name\<close> and \<open>store_name\<close>. The lemma shows that no
  decoded program panics while it is printed.
\<close>

section \<open>Text\<close>

text \<open>An \<open>i32\<close> in decimal, and with a sign always (\<open>{:+}\<close>).\<close>

definition format_i32 :: "u32 \<Rightarrow> str" where
  "format_i32 w =
     (if sint w < 0 then 0x2d # format_dec (nat (- sint w)) else format_dec (nat (sint w)))"

definition format_plus_i32 :: "u32 \<Rightarrow> str" where
  "format_plus_i32 w = (if sint w < 0 then format_i32 w else 0x2b # format_i32 w)"

definition mode_fmt :: "Mode \<Rightarrow> str" where
  "mode_fmt m =
     (case m of
        Mode_None \<Rightarrow> lit ''NONE''
      | Mode_Cond x \<Rightarrow> lit ''COND '' @ format_dec (unat x)
      | Mode_Shft x \<Rightarrow> lit ''SHFT '' @ format_dec (unat x))"

definition is_l_cache :: "Store \<Rightarrow> bool" where
  "is_l_cache store = (case store of Store_L1 s \<Rightarrow> True | Store_L2 s \<Rightarrow> True | Store_L3 s \<Rightarrow> True | _ \<Rightarrow> False)"

text \<open>A register operand; \<open>other\<close> is the text of any other operand.\<close>

definition register_text :: "Store \<Rightarrow> str \<Rightarrow> str" where
  "register_text store other =
     (case store of
        Store_R i \<Rightarrow> lit ''r'' @ format_dec i
      | Store_F i \<Rightarrow> lit ''f'' @ format_dec i
      | Store_E i \<Rightarrow> lit ''e'' @ format_dec i
      | Store_A i \<Rightarrow> lit ''a'' @ format_dec i
      | _ \<Rightarrow> other)"

definition write_l_access :: "(Store \<Rightarrow> str) \<Rightarrow> Instr \<Rightarrow> Store \<Rightarrow> str \<Rightarrow> str option" where
  "write_l_access store_name instr regi lstore =
     (if regi = Store_Imm
      then do { imm \<leftarrow> i_imm instr; Some (lstore @ lit ''['' @ format_i32 imm @ lit '']'') }
      else do { imm \<leftarrow> i_imm instr;
                Some (lstore @ lit ''['' @ register_text regi (store_name regi) @ format_plus_i32 imm @ lit '']'') })"

text \<open>One operand; \<open>prefix\<close> stands before an operand that is neither memory nor a register.\<close>

definition operand_text :: "(Store \<Rightarrow> str) \<Rightarrow> Instr \<Rightarrow> str \<Rightarrow> Store \<Rightarrow> str option" where
  "operand_text store_name instr prefix store =
     (case store of
        Store_NONE \<Rightarrow> Some []
      | Store_L1 regi \<Rightarrow> write_l_access store_name instr regi (lit ''L1'')
      | Store_L2 regi \<Rightarrow> write_l_access store_name instr regi (lit ''L2'')
      | Store_L3 regi \<Rightarrow> write_l_access store_name instr regi (lit ''L3'')
      | _ \<Rightarrow> Some (register_text store (prefix @ store_name store)))"

definition instr_fmt :: "(Opcode \<Rightarrow> str) \<Rightarrow> (Store \<Rightarrow> str) \<Rightarrow> Instr \<Rightarrow> str option" where
  "instr_fmt op_name store_name instr =
     do { dst \<leftarrow> operand_text store_name instr [] (i_dst instr);
          src \<leftarrow> operand_text store_name instr (lit '', '') (i_src instr);
          let comma = (if i_dst instr \<noteq> Store_NONE \<and> i_src instr \<noteq> Store_NONE then lit '', '' else []);
          let imm = (case i_imm instr of
               None \<Rightarrow> []
             | Some immediate \<Rightarrow>
                 if is_l_cache (i_dst instr) \<or> is_l_cache (i_src instr) then []
                 else lit '', '' @ (if i_unsigned_imm instr then format_dec (unat immediate) else format_i32 immediate));
          let mode = (if i_mode instr \<noteq> Mode_None then lit '', '' @ mode_fmt (i_mode instr) else []);
          Some (op_name (i_op instr) @ lit '' '' @ dst @ comma @ src @ imm @ mode) }"

text \<open>A program is printed one instruction per line.\<close>

primrec program_lines :: "(Opcode \<Rightarrow> str) \<Rightarrow> (Store \<Rightarrow> str) \<Rightarrow> Instr list \<Rightarrow> str list option" where
  "program_lines op_name store_name [] = Some []"
| "program_lines op_name store_name (i # is) =
     do { line \<leftarrow> instr_fmt op_name store_name i;
          rest \<leftarrow> program_lines op_name store_name is;
          Some ((line @ [0x0a]) # rest) }"

definition program_fmt :: "(Opcode \<Rightarrow> str) \<Rightarrow> (Store \<Rightarrow> str) \<Rightarrow> Program \<Rightarrow> str option" where
  "program_fmt op_name store_name prog = map_option concat (program_lines op_name store_name (p_program prog))"

section \<open>Printing a decoded program\<close>

lemma operand_text_returns:
  assumes "is_l_cache s \<Longrightarrow> i_imm ins \<noteq> None"
  shows "\<exists>t. operand_text store_name ins pre s = Some t"
  using assms by (cases s) (auto simp: operand_text_def write_l_access_def is_l_cache_def)

definition memory_imm :: "Instr \<Rightarrow> bool" where
  "memory_imm ins \<longleftrightarrow> (is_l_cache (i_dst ins) \<or> is_l_cache (i_src ins) \<longrightarrow> i_imm ins \<noteq> None)"

lemma instr_fmt_returns:
  assumes "memory_imm ins"
  shows "\<exists>t. instr_fmt op_name store_name ins = Some t"
proof -
  have "is_l_cache (i_dst ins) \<Longrightarrow> i_imm ins \<noteq> None" "is_l_cache (i_src ins) \<Longrightarrow> i_imm ins \<noteq> None"
    using assms by (auto simp: memory_imm_def)
  then obtain t1 t2 where "operand_text store_name ins [] (i_dst ins) = Some t1"
    "operand_text store_name ins (lit '', '') (i_src ins) = Some t2"
    using operand_text_returns by meson
  then show ?thesis by (simp add: instr_fmt_def)
qed

lemma l_cache_operands [simp]:
  "\<not> is_l_cache (r_reg n)" "\<not> is_l_cache (a_reg n)" "\<not> is_l_cache (f_reg n)" "\<not> is_l_cache (e_reg n)"
  "\<not> is_l_cache (f_reg_ix n)" "\<not> is_l_cache (e_reg_ix n)" "\<not> is_l_cache Store_NONE" "\<not> is_l_cache (Store_R n)"
  by (simp_all add: is_l_cache_def r_reg_def a_reg_def f_reg_def e_reg_def f_reg_ix_def e_reg_ix_def)

lemma decode_memory_imm:
  assumes "decode_instruction w i usage = Some (ins, usage')"
  shows "memory_imm ins"
  using assms unfolding decode_defs Let_def
  by (auto simp: memory_imm_def bind_eq_Some_conv simp del: opcode_bound.simps split: if_split_asm)

lemma decode_words_memory_imm:
  assumes "decode_words ws i usage = Some (is, usage')"
  shows "\<forall>ins \<in> set is. memory_imm ins"
  using assms
proof (induction ws arbitrary: i usage "is")
  case (Cons w ws)
  then show ?case by (fastforce simp: bind_eq_Some_conv case_prod_beta dest: decode_memory_imm)
qed simp

lemma program_fmt_total:
  assumes "length bytes = 136"
  shows "\<exists>prog ls. from_bytes bytes = Some prog \<and> program_fmt op_name store_name prog = Some (concat ls) \<and> length ls = 256"
proof -
  have lines: "\<exists>ls. program_lines op_name store_name is = Some ls \<and> length ls = length is"
    if "\<forall>i \<in> set is. memory_imm i" for "is"
    using that
  proof (induction "is")
    case (Cons i "is")
    then show ?case using instr_fmt_returns [of i op_name store_name] by fastforce
  qed simp
  obtain prog where prog: "from_bytes bytes = Some prog" "length (p_program prog) = 256"
    using from_bytes_ok [OF assms] by blast
  then have "\<forall>i \<in> set (p_program prog). memory_imm i"
    by (auto simp: from_bytes_def bind_eq_Some_conv case_prod_beta split: if_split_asm dest: decode_words_memory_imm)
  then show ?thesis using lines prog by (fastforce simp: program_fmt_def)
qed

end
