(* ===== verification/AesHardware.thy ===== *)
theory AesHardware
  imports M128
begin

text \<open>
  Model of the dispatch of the AES rounds in \<open>randomx-core/src/m128.rs\<close>: \<open>m128i::aesenc\<close> and
  \<open>m128i::aesdec\<close> use the vector instructions of an x86-64 or AArch64 processor that has them and
  the table-driven rounds of \<open>M128\<close> elsewhere. A vector register is the list of its 16 bytes in
  memory order; the intrinsics of \<open>std::arch\<close> are defined by the operation sections of the
  processor manuals. Both processors apply ShiftRows before SubBytes, and AArch64 adds the round key
  before the round, which is why the code passes a zero key and adds the key afterwards.
\<close>

section \<open>Vector instructions\<close>

type_synonym vector = "u8 list"

definition eor :: "vector \<Rightarrow> vector \<Rightarrow> vector" where
  "eor a b = map2 (XOR) a b"

text \<open>x86-64: \<open>AESENC\<close> and \<open>AESDEC\<close>.\<close>

definition mm_loadu_si128 :: "u128 \<Rightarrow> vector" where
  "mm_loadu_si128 v = to_le_bytes 16 v"

definition mm_storeu_si128 :: "vector \<Rightarrow> u128" where
  "mm_storeu_si128 r = from_le_bytes r"

definition mm_aesenc_si128 :: "vector \<Rightarrow> vector \<Rightarrow> vector" where
  "mm_aesenc_si128 a round_key = eor (mix_columns (sub_bytes (shift_rows a))) round_key"

definition mm_aesdec_si128 :: "vector \<Rightarrow> vector \<Rightarrow> vector" where
  "mm_aesdec_si128 a round_key = eor (inv_mix_columns (inv_sub_bytes (inv_shift_rows a))) round_key"

text \<open>AArch64: \<open>AESE\<close>, \<open>AESD\<close>, \<open>AESMC\<close> and \<open>AESIMC\<close>.\<close>

definition vdupq_n_u8 :: "u8 \<Rightarrow> vector" where
  "vdupq_n_u8 b = replicate 16 b"

definition vaeseq_u8 :: "vector \<Rightarrow> vector \<Rightarrow> vector" where
  "vaeseq_u8 data key = sub_bytes (shift_rows (eor data key))"

definition vaesdq_u8 :: "vector \<Rightarrow> vector \<Rightarrow> vector" where
  "vaesdq_u8 data key = inv_sub_bytes (inv_shift_rows (eor data key))"

definition vaesmcq_u8 :: "vector \<Rightarrow> vector" where
  "vaesmcq_u8 data = mix_columns data"

definition vaesimcq_u8 :: "vector \<Rightarrow> vector" where
  "vaesimcq_u8 data = inv_mix_columns data"

section \<open>The rounds\<close>

definition u128_to_uint8x16 :: "u128 \<Rightarrow> vector" where
  "u128_to_uint8x16 v = to_le_bytes 16 v"

definition uint8x16_to_u128 :: "vector \<Rightarrow> u128" where
  "uint8x16_to_u128 v = from_le_bytes v"

definition hw_aesenc_x86 :: "m128i \<Rightarrow> m128i \<Rightarrow> m128i" where
  "hw_aesenc_x86 self key =
     (let s = mm_loadu_si128 self; k = mm_loadu_si128 key; r = mm_aesenc_si128 s k
      in mm_storeu_si128 r)"

definition hw_aesdec_x86 :: "m128i \<Rightarrow> m128i \<Rightarrow> m128i" where
  "hw_aesdec_x86 self key =
     (let s = mm_loadu_si128 self; k = mm_loadu_si128 key; r = mm_aesdec_si128 s k
      in mm_storeu_si128 r)"

definition hw_aesenc_aarch64 :: "m128i \<Rightarrow> m128i \<Rightarrow> m128i" where
  "hw_aesenc_aarch64 self key =
     (let s = u128_to_uint8x16 self; k = u128_to_uint8x16 key; zero = vdupq_n_u8 0;
          out = vaeseq_u8 s zero; out = vaesmcq_u8 out; res = eor out k
      in uint8x16_to_u128 res)"

definition hw_aesdec_aarch64 :: "m128i \<Rightarrow> m128i \<Rightarrow> m128i" where
  "hw_aesdec_aarch64 self key =
     (let s = u128_to_uint8x16 self; k = u128_to_uint8x16 key; zero = vdupq_n_u8 0;
          out = vaesdq_u8 s zero; out = vaesimcq_u8 out; res = eor out k
      in uint8x16_to_u128 res)"

definition sw_aesenc :: "m128i \<Rightarrow> m128i \<Rightarrow> m128i" where
  "sw_aesenc self key = aesenc self key"

definition sw_aesdec :: "m128i \<Rightarrow> m128i \<Rightarrow> m128i" where
  "sw_aesdec self key = aesdec self key"

text \<open>The target architecture, with the result of the feature detection where there is one.\<close>

datatype target = X86_64 bool | Aarch64 bool | OtherTarget

definition m128i_aesenc :: "target \<Rightarrow> m128i \<Rightarrow> m128i \<Rightarrow> m128i" where
  "m128i_aesenc t self key =
     (case t of
        X86_64 detected \<Rightarrow> if detected then hw_aesenc_x86 self key else sw_aesenc self key
      | Aarch64 detected \<Rightarrow> if detected then hw_aesenc_aarch64 self key else sw_aesenc self key
      | OtherTarget \<Rightarrow> sw_aesenc self key)"

definition m128i_aesdec :: "target \<Rightarrow> m128i \<Rightarrow> m128i \<Rightarrow> m128i" where
  "m128i_aesdec t self key =
     (case t of
        X86_64 detected \<Rightarrow> if detected then hw_aesdec_x86 self key else sw_aesdec self key
      | Aarch64 detected \<Rightarrow> if detected then hw_aesdec_aarch64 self key else sw_aesdec self key
      | OtherTarget \<Rightarrow> sw_aesdec self key)"

section \<open>Agreement\<close>

lemma sub_shift_commute:
  assumes "length bs = 16"
  shows "sub_bytes (shift_rows bs) = shift_rows (sub_bytes bs)"
    "inv_sub_bytes (inv_shift_rows bs) = inv_shift_rows (inv_sub_bytes bs)"
  using assms by (simp_all add: sub_bytes_def inv_sub_bytes_def shift_rows_def inv_shift_rows_def upt_16)

lemma length_eor [simp]: "length (eor a b) = min (length a) (length b)"
  by (simp add: eor_def)

lemma eor_zero: "length a = 16 \<Longrightarrow> eor a (vdupq_n_u8 0) = a"
  by (simp add: eor_def vdupq_n_u8_def list_eq_iff_nth_eq)

lemma store_eor:
  assumes "length a = 16"
  shows "(from_le_bytes (eor a (to_le_bytes 16 k)) :: u128) = from_le_bytes a XOR k"
proof -
  have "to_le_bytes 16 (from_le_bytes a XOR k) = eor a (to_le_bytes 16 k)"
    using bytes_16 [OF assms] by (simp add: to_le_bytes_xor eor_def)
  then show ?thesis by (metis word_16)
qed

lemmas intrinsics = mm_loadu_si128_def mm_storeu_si128_def mm_aesenc_si128_def mm_aesdec_si128_def
  vaeseq_u8_def vaesdq_u8_def vaesmcq_u8_def vaesimcq_u8_def u128_to_uint8x16_def uint8x16_to_u128_def

lemma hardware_rounds:
  "hw_aesenc_x86 s k = aesenc s k" "hw_aesdec_x86 s k = aesdec s k"
  "hw_aesenc_aarch64 s k = aesenc s k" "hw_aesdec_aarch64 s k = aesdec s k"
  by (simp_all add: hw_aesenc_x86_def hw_aesdec_x86_def hw_aesenc_aarch64_def hw_aesdec_aarch64_def intrinsics
      Let_def eor_zero store_eor sub_shift_commute aesenc_round aesdec_round aes_round_def aes_inv_round_def)


end
