(* ===== verification/Differential.thy ===== *)
theory Differential
  imports Equivalence AuditTools
begin

text \<open>
  Model of the differential audit of \<open>randomx-sp1/src/lib.rs\<close>: both machines run in one thread,
  one instruction of each at a time, and their states are compared after every instruction. The
  thread has one floating-point control register, so each machine starts from the register the other
  one left. \<open>None\<close> is a failed assertion. The lemmas show that a completed audit has run both
  machines exactly as they run alone, and that in a host thread every assertion of it holds.
\<close>

section \<open>The audit\<close>

text \<open>\<open>assert_vm_state\<close>. The label arguments occur in messages only.\<close>

definition assert_vm_state :: "Vm \<Rightarrow> Vm \<Rightarrow> unit option" where
  "assert_vm_state reference compact =
     do { must (to_bytes (reg reference) = to_bytes (reg compact));
          must (vm_pc reference = vm_pc compact);
          must (mx (mem_reg reference) = mx (mem_reg compact));
          must (ma (mem_reg reference) = ma (mem_reg compact));
          must (read_reg (config reference) = read_reg (config compact));
          must (e_mask (config reference) = e_mask (config compact));
          must (dataset_offset reference = dataset_offset compact);
          must (get_rounding_mode reference = get_rounding_mode compact) }"

definition prepare_e :: "nat \<Rightarrow> nat \<Rightarrow> Vm \<Rightarrow> Vm option" where
  "prepare_e addr1 i vm =
     do { w \<leftarrow> arr_get (scratchpad vm) (addr1 + i + MAX_FLOAT_REG);
          v \<leftarrow> sp1_mask_register_exponent_mantissa vm (lower_to_m128d (from_u64 0 w));
          xs \<leftarrow> arr_set (reg_e (reg vm)) i v;
          Some (upd_e xs vm) }"

text \<open>The bodies of the first two loops are those of the reference machine.\<close>

definition prepare_iteration :: "u32 \<times> u32 \<Rightarrow> Vm \<Rightarrow> ((u32 \<times> u32) \<times> Vm) option" where
  "prepare_iteration = (\<lambda>(sp_addr_0, sp_addr_1) vm.
     do { r0 \<leftarrow> arr_get (read_reg (config vm)) 0;
          v0 \<leftarrow> arr_get (reg_r (reg vm)) r0;
          r1 \<leftarrow> arr_get (read_reg (config vm)) 1;
          v1 \<leftarrow> arr_get (reg_r (reg vm)) r1;
          let sp_mix = v0 XOR v1;
          let sp_addr_0 = drop_bit 3 ((sp_addr_0 XOR ucast sp_mix) AND SCRATCHPAD_L3_MASK_U32);
          let sp_addr_1 = drop_bit 3 ((sp_addr_1 XOR ucast (drop_bit 32 sp_mix)) AND SCRATCHPAD_L3_MASK_U32);
          let addr0 = unat sp_addr_0;
          let addr1 = unat sp_addr_1;
          vm \<leftarrow> foldl_option (load_r addr0) [0..<MAX_REG] vm;
          vm \<leftarrow> foldl_option (load_f addr1) [0..<MAX_FLOAT_REG] vm;
          vm \<leftarrow> foldl_option (prepare_e addr1) [0..<MAX_FLOAT_REG] vm;
          Some ((sp_addr_0, sp_addr_1), vm) })"

text \<open>The dataset access and the write-back are those of the reference machine.\<close>

definition finish_iteration :: "nat \<Rightarrow> nat \<Rightarrow> Vm \<Rightarrow> Vm option" where
  "finish_iteration addr0 addr1 vm =
     do { vm \<leftarrow> dataset_step vm; store_registers addr0 addr1 vm }"

text \<open>One instruction of each machine, and the loop.\<close>

definition audit_step :: "Instr list \<Rightarrow> CompactInstr list \<Rightarrow> Vm \<times> Vm \<Rightarrow> (Vm \<times> Vm) option" where
  "audit_step prog cprog = (\<lambda>(reference, compact).
     do { must (vm_pc reference = vm_pc compact);
          must (0 \<le> vm_pc reference);
          let pc = nat (vm_pc reference);
          reference_instr \<leftarrow> arr_get prog pc;
          compact_instr \<leftarrow> arr_get cprog pc;
          reference \<leftarrow> instr_execute reference_instr reference;
          compact \<leftarrow> c_execute compact_instr (compact\<lparr> fp_env := fp_env reference \<rparr>);
          let reference = reference\<lparr> fp_env := fp_env compact \<rparr>;
          assert_vm_state reference compact;
          Some (reference\<lparr> vm_pc := vm_pc reference + 1 \<rparr>, compact\<lparr> vm_pc := vm_pc compact + 1 \<rparr>) })"

partial_function (option) audit_loop :: "Instr list \<Rightarrow> CompactInstr list \<Rightarrow> Vm \<times> Vm \<Rightarrow> (Vm \<times> Vm) option" where
  "audit_loop prog cprog vms =
     (if vm_pc (fst vms) < RANDOMX_PROGRAM_SIZE
      then Option.bind (audit_step prog cprog vms) (audit_loop prog cprog)
      else Some vms)"

definition audit_iteration ::
    "Instr list \<Rightarrow> CompactInstr list \<Rightarrow> u32 \<times> u32 \<Rightarrow> u32 \<times> u32 \<Rightarrow> Vm \<times> Vm \<Rightarrow> (Vm \<times> Vm) option" where
  "audit_iteration prog cprog reference_sp compact_sp = (\<lambda>(reference, compact).
     do { ((reference_sp0, reference_sp1), reference) \<leftarrow> prepare_iteration reference_sp reference;
          ((compact_sp0, compact_sp1), compact) \<leftarrow> prepare_iteration compact_sp compact;
          assert_vm_state reference compact;
          (reference, compact) \<leftarrow> audit_loop prog cprog (reference\<lparr> vm_pc := 0 \<rparr>, compact\<lparr> vm_pc := 0 \<rparr>);
          reference \<leftarrow> finish_iteration (unat reference_sp0) (unat reference_sp1) reference;
          compact \<leftarrow> finish_iteration (unat compact_sp0) (unat compact_sp1) compact;
          assert_vm_state reference compact;
          Some (reference, compact) })"

text \<open>The iterations; after each one the addresses restart from 0.\<close>

primrec audit_iterations ::
    "Instr list \<Rightarrow> CompactInstr list \<Rightarrow> nat \<Rightarrow> u32 \<times> u32 \<Rightarrow> u32 \<times> u32 \<Rightarrow> Vm \<times> Vm \<Rightarrow> (Vm \<times> Vm) option" where
  "audit_iterations prog cprog 0 reference_sp compact_sp vms = Some vms"
| "audit_iterations prog cprog (Suc n) reference_sp compact_sp vms =
     do { vms \<leftarrow> audit_iteration prog cprog reference_sp compact_sp vms;
          audit_iterations prog cprog n (0, 0) (0, 0) vms }"

definition run_differential :: "seed \<Rightarrow> Vm \<times> Vm \<Rightarrow> (Vm \<times> Vm) option" where
  "run_differential sd = (\<lambda>(reference, compact).
     do { let bytes = gen_program_aes_4rx4 sd 136;
          reference_program \<leftarrow> from_bytes bytes;
          compact_program \<leftarrow> sp1_from_bytes bytes;
          reference \<leftarrow> init_vm (p_entropy reference_program) reference;
          compact \<leftarrow> sp1_init_vm (cp_entropy compact_program) compact;
          audit_iterations (p_program reference_program) (cp_instructions compact_program)
            RANDOMX_PROGRAM_ITERATIONS
            (ucast (mx (mem_reg reference)), ucast (ma (mem_reg reference)))
            (ucast (mx (mem_reg compact)), ucast (ma (mem_reg compact))) (reference, compact) })"

text \<open>The loop over the programs; the argument counts those that are left.\<close>

primrec audit_programs ::
    "(nat \<Rightarrow> u8 list \<Rightarrow> u8 list) \<Rightarrow> nat \<Rightarrow> seed \<Rightarrow> Vm \<times> Vm \<Rightarrow> (Vm \<times> Vm) option" where
  "audit_programs hash 0 next_seed vms = Some vms"
| "audit_programs hash (Suc n) next_seed vms =
     do { (reference, compact) \<leftarrow> run_differential next_seed vms;
          must (to_bytes (reg reference) = to_bytes (reg compact));
          must (scratchpad reference = scratchpad compact);
          next_seed \<leftarrow> (if n > 0 then sp1_hash_to_m128i_array (hash 64 (to_bytes (reg reference)))
                        else Some next_seed);
          audit_programs hash n next_seed (reference, compact) }"

text \<open>The whole audit in a thread whose control register is \<open>env\<close>; the result is the digest and
  the register the audit leaves.\<close>

definition differential_audit ::
    "(nat \<Rightarrow> u8 list \<Rightarrow> u8 list) \<Rightarrow> u8 list \<Rightarrow> FpEnv \<Rightarrow> (u8 list \<times> FpEnv) option" where
  "differential_audit hash input env =
     do { let reference = new_vm VmMemory_no_memory env;
          let compact = new_vm VmMemory_no_memory env;
          sd \<leftarrow> sp1_hash_to_m128i_array (hash 64 input);
          (reference_next, reference) \<leftarrow> init_scratchpad sd reference;
          (compact_next, compact) \<leftarrow> init_scratchpad sd compact;
          must (reference_next = compact_next);
          must (scratchpad reference = scratchpad compact);
          let reference = reset_rounding_mode reference;
          let compact = reset_rounding_mode (compact\<lparr> fp_env := fp_env reference \<rparr>);
          let reference = reference\<lparr> fp_env := fp_env compact \<rparr>;
          (reference, compact) \<leftarrow> audit_programs hash RANDOMX_PROGRAM_COUNT reference_next (reference, compact);
          (h0, h1, h2, h3) \<leftarrow> hash_aes_1rx4 (scratchpad reference);
          let reference = upd_a [as_m128d h0, as_m128d h1, as_m128d h2, as_m128d h3] reference;
          let compact = upd_a [as_m128d h0, as_m128d h1, as_m128d h2, as_m128d h3] compact;
          must (to_bytes (reg reference) = to_bytes (reg compact));
          Some (hash RANDOMX_HASH_SIZE (to_bytes (reg reference)), fp_env compact) }"

section \<open>The control register\<close>

lemma set_env_twice [simp]:
  "set_rounding_mode_env mode (set_rounding_mode_env mode env) = set_rounding_mode_env mode env"
  by (cases env) (auto simp: Let_def bit_simps intro!: bit_word_eqI)

lemma set_rounding_mode_eq:
  "set_rounding_mode mode vm = Some vm' \<Longrightarrow>
     fp_env vm' = set_rounding_mode_env (get_rounding_mode vm') (fp_env vm)"
proof -
  assume a: "set_rounding_mode mode vm = Some vm'"
  then have "unat mode < 4" by (auto simp: set_rounding_mode_def word_less_nat_alt split: if_split_asm)
  then have "(ucast (ucast mode :: u8) :: u32) = mode"
    by (simp add: word_unat_eq_iff unsigned_ucast_eq unsigned_take_bit_eq take_bit_nat_eq_self)
  then show ?thesis using a by (auto simp: set_rounding_mode_def get_rounding_mode_def split: if_split_asm)
qed

lemma write_env:
  "write_r s v vm = Some vm' \<Longrightarrow> fp_env vm' = fp_env vm \<and> rounding_mode vm' = rounding_mode vm"
  "write_f s w vm = Some vm' \<Longrightarrow> fp_env vm' = fp_env vm \<and> rounding_mode vm' = rounding_mode vm"
  "write_e s w vm = Some vm' \<Longrightarrow> fp_env vm' = fp_env vm \<and> rounding_mode vm' = rounding_mode vm"
  "write_float_reg s w vm = Some vm' \<Longrightarrow> fp_env vm' = fp_env vm \<and> rounding_mode vm' = rounding_mode vm"
  by (cases s; auto simp: bind_eq_Some_conv)+

text \<open>Only \<open>CFROUND\<close> touches the control register or the mode of the machine.\<close>

lemma exec_env:
  assumes "instr_execute ins vm = Some vm'"
  shows "i_effect ins \<noteq> Vm_exec_cfround \<Longrightarrow> fp_env vm' = fp_env vm \<and> rounding_mode vm' = rounding_mode vm"
    "i_effect ins = Vm_exec_cfround \<Longrightarrow> fp_env vm' = set_rounding_mode_env (get_rounding_mode vm') (fp_env vm)"
proof -
  show "i_effect ins \<noteq> Vm_exec_cfround \<Longrightarrow> fp_env vm' = fp_env vm \<and> rounding_mode vm' = rounding_mode vm"
    using assms unfolding instr_execute_def
    by (cases "i_effect ins")
       (auto simp: exec_defs exec_iswap_r_def exec_istore_def exec_cbranch_def Let_def bind_eq_Some_conv
         split: if_split_asm dest!: write_env)
  show "i_effect ins = Vm_exec_cfround \<Longrightarrow> fp_env vm' = set_rounding_mode_env (get_rounding_mode vm') (fp_env vm)"
    using assms unfolding instr_execute_def
    by (auto simp: exec_cfround_def bind_eq_Some_conv Let_def dest!: set_rounding_mode_eq)
qed

text \<open>The same for the compact machine, through the matching instruction.\<close>

lemma c_exec_env:
  assumes "vm_ok vm" "instr_ok ins" "instr_rel ins c" "c_execute c vm = Some vm'"
  shows "i_effect ins \<noteq> Vm_exec_cfround \<Longrightarrow> fp_env vm' = fp_env vm \<and> rounding_mode vm' = rounding_mode vm"
    "i_effect ins = Vm_exec_cfround \<Longrightarrow> fp_env vm' = set_rounding_mode_env (get_rounding_mode vm') (fp_env vm)"
proof -
  show "i_effect ins \<noteq> Vm_exec_cfround \<Longrightarrow> fp_env vm' = fp_env vm \<and> rounding_mode vm' = rounding_mode vm"
  proof (cases "rounds (i_effect ins)")
    case True
    then show ?thesis
      using assms unfolding rounds_def instr_rel_def instr_ok_def c_execute_def
      by (auto simp: c_float_defs sp1_access reg_ix_bound scratch_src_rel scratchpad_src_ok sp1_mode sp1_mask_eq
          mask_exponent_ok Let_def split del: if_split)
  qed (use exec_lockstep [OF assms(1-3)] exec_env(1) assms(4) in auto)
  show "i_effect ins = Vm_exec_cfround \<Longrightarrow> fp_env vm' = set_rounding_mode_env (get_rounding_mode vm') (fp_env vm)"
    using cfround_lockstep [OF assms(1-3)] exec_env(2) assms(4) by auto
qed

lemma cfround_env:
  assumes "vm_ok vm" "instr_ok ins" "instr_rel ins c" "i_effect ins = Vm_exec_cfround"
    "c_execute c (vm\<lparr> fp_env := e \<rparr>) = Some vm'"
  shows "c_execute c vm = Some (vm'\<lparr> fp_env := set_rounding_mode_env (get_rounding_mode vm') (fp_env vm) \<rparr>)"
proof -
  have ok: "vm_ok (vm\<lparr> fp_env := e \<rparr>)" using assms(1) by (simp add: vm_ok_sync_irrelevant)
  have rd: "read_r (vm\<lparr> fp_env := e \<rparr>) s = read_r vm s" for s by (cases s) simp_all
  obtain mode where m: "set_rounding_mode mode (vm\<lparr> fp_env := e \<rparr>) = Some vm'"
    "instr_execute ins vm = set_rounding_mode mode vm"
    using assms(4,5) cfround_lockstep [OF ok assms(2-4)]
    by (auto simp: instr_execute_def exec_cfround_def rd bind_eq_Some_conv Let_def)
  obtain vm'' where vm'': "set_rounding_mode mode vm = Some vm''"
    using m(1) by (auto simp: set_rounding_mode_def split: if_split_asm)
  then have "vm'' = vm'\<lparr> fp_env := fp_env vm'' \<rparr>" "get_rounding_mode vm'' = get_rounding_mode vm'"
    using m(1) by (auto simp: set_rounding_mode_def get_rounding_mode_def split: if_split_asm)
  then show ?thesis
    using m(2) vm'' set_rounding_mode_eq [OF vm''] cfround_lockstep [OF assms(1-4)] by simp
qed

section \<open>A completed audit ran both machines\<close>

text \<open>The two machines share the control register and hold the same mode.\<close>

definition synced :: "Vm \<Rightarrow> Vm \<Rightarrow> bool" where
  "synced r c \<longleftrightarrow> fp_env c = fp_env r \<and> rounding_mode c = rounding_mode r"

lemma assert_vm_stateD:
  assumes "assert_vm_state r c = Some u"
  shows "to_bytes (reg r) = to_bytes (reg c)" "vm_pc r = vm_pc c" "mem_reg r = mem_reg c" "rounding_mode r = rounding_mode c"
proof -
  have "mx (mem_reg r) = mx (mem_reg c)" "ma (mem_reg r) = ma (mem_reg c)"
    "(ucast (rounding_mode r) :: u32) = ucast (rounding_mode c)"
    "to_bytes (reg r) = to_bytes (reg c)" "vm_pc r = vm_pc c"
    using assms by (auto simp: assert_vm_state_def bind_eq_Some_conv get_rounding_mode_def)
  moreover have "(ucast (ucast x :: u32) :: u8) = x" for x :: u8
    by (rule bit_word_eqI) (auto simp: bit_simps)
  ultimately show "to_bytes (reg r) = to_bytes (reg c)" "vm_pc r = vm_pc c" "mem_reg r = mem_reg c"
    "rounding_mode r = rounding_mode c"
    by (simp_all, metis)
qed

lemma audit_step_sound:
  assumes "machine_ok prog r" "pair_ok (prog, cprog) c" "synced r c" "vm_pc r < 256"
    "audit_step prog cprog (r, c) = Some (r1, c1)"
  shows "exec_step prog r = Some r1" "sp1_step cprog c = Some c1" "synced r1 c1" "vm_pc r1 = vm_pc c1" "0 \<le> vm_pc r"
    "vm_pc r = vm_pc c"
proof -
  define q where "q = nat (vm_pc r)"
  obtain r2 c2 where s: "vm_pc r = vm_pc c" "0 \<le> vm_pc r" "instr_execute (prog ! q) r = Some r2"
    "c_execute (cprog ! q) (c\<lparr> fp_env := fp_env r2 \<rparr>) = Some c2"
    "assert_vm_state (r2\<lparr> fp_env := fp_env c2 \<rparr>) c2 = Some ()" "q < length prog" "q < length cprog"
    "r1 = r2\<lparr> fp_env := fp_env c2, vm_pc := vm_pc r2 + 1 \<rparr>" "c1 = c2\<lparr> vm_pc := vm_pc c2 + 1 \<rparr>"
    using assms(5) by (auto simp: audit_step_def bind_eq_Some_conv arr_get_def q_def Let_def split: if_split_asm)
  have q: "q < 256" using assms(1) s(6) by (simp add: machine_ok_def)
  note ok = pair_instr [OF assms(2) q, simplified]
  have ok': "vm_ok (c\<lparr> fp_env := fp_env r2 \<rparr>)" using ok(1) by (simp add: vm_ok_sync_irrelevant)
  note a = assert_vm_stateD [OF s(5)]
  have "fp_env c2 = fp_env r2 \<and> c_execute (cprog ! q) c = Some c2"
  proof (cases "i_effect (prog ! q) = Vm_exec_cfround")
    case True
    have m: "get_rounding_mode c2 = get_rounding_mode r2" using a(4) by (simp add: get_rounding_mode_def)
    have r2: "fp_env r2 = set_rounding_mode_env (get_rounding_mode r2) (fp_env r)" using exec_env(2) [OF s(3) True] .
    have "fp_env c2 = set_rounding_mode_env (get_rounding_mode r2) (fp_env r2)"
      using c_exec_env(2) [OF ok' ok(2,3) s(4) True] m by simp
    then have e: "fp_env c2 = fp_env r2" by (metis r2 set_env_twice)
    have "c_execute (cprog ! q) c = Some (c2\<lparr> fp_env := set_rounding_mode_env (get_rounding_mode c2) (fp_env c) \<rparr>)"
      using cfround_env [OF ok(1-3) True s(4)] .
    moreover have "set_rounding_mode_env (get_rounding_mode c2) (fp_env c) = fp_env c2"
      using r2 m e assms(3) by (simp add: synced_def)
    ultimately show ?thesis using e by simp
  next
    case False
    have "fp_env r2 = fp_env r" using exec_env(1) [OF s(3) False] by blast
    then have "c\<lparr> fp_env := fp_env r2 \<rparr> = c" using assms(3) by (simp add: synced_def)
    then show ?thesis using c_exec_env(1) [OF ok(1-3) _ False, of c2] s(4) \<open>fp_env r2 = fp_env r\<close> assms(3)
      by (simp add: synced_def)
  qed
  then have e: "fp_env c2 = fp_env r2" "c_execute (cprog ! q) c = Some c2" by blast+
  show "exec_step prog r = Some r1" "sp1_step cprog c = Some c1" "synced r1 c1" "vm_pc r1 = vm_pc c1"
    "0 \<le> vm_pc r" "vm_pc r = vm_pc c"
    using s e a by (auto simp: exec_step_def sp1_step_def synced_def q_def)
qed

lemma audit_loop_sound:
  assumes "runs (exec_step prog) (\<lambda>vm. vm_pc vm < 256) n r r'" "machine_ok prog r" "pair_ok (prog, cprog) c"
    "synced r c" "vm_pc r = vm_pc c" "audit_loop prog cprog (r, c) = Some (r1, c1)"
  shows "r1 = r' \<and> runs (sp1_step cprog) (\<lambda>vm. vm_pc vm < 256) n c c1 \<and> synced r1 c1"
  using assms
proof (induction arbitrary: c rule: runs.induct)
  case (runs_done r)
  then have "(r, c) = (r1, c1)" by (subst (asm) audit_loop.simps) (simp add: RANDOMX_PROGRAM_SIZE_def)
  then show ?case using runs_done by (auto intro: runs.intros)
next
  case (runs_step r r2 n r')
  obtain r3 c3 where st: "audit_step prog cprog (r, c) = Some (r3, c3)" "audit_loop prog cprog (r3, c3) = Some (r1, c1)"
    using runs_step.prems(5) runs_step.hyps(1)
    by (subst (asm) audit_loop.simps) (auto simp: RANDOMX_PROGRAM_SIZE_def bind_eq_Some_conv)
  note sd = audit_step_sound [OF runs_step.prems(1-3) runs_step.hyps(1) st(1)]
  have r3: "r3 = r2" using sd(1) runs_step.hyps(2) by simp
  have c: "0 \<le> vm_pc c" "vm_pc c < 256" using sd(5) runs_step.prems(4) runs_step.hyps(1) by simp_all
  have "machine_ok prog r2" using exec_step_good [OF runs_step.prems(1) sd(5) runs_step.hyps(1,2)] by blast
  moreover have "pair_ok (prog, cprog) c3"
    using sp1_step_good [OF runs_step.prems(2) c, of c3] sd(2) by simp
  ultimately have "r1 = r' \<and> runs (sp1_step cprog) (\<lambda>vm. vm_pc vm < 256) n c3 c1 \<and> synced r1 c1"
    using runs_step.IH [of c3] sd(3,4) st(2) unfolding r3 by blast
  then show ?case using c(2) sd(2) by (auto intro: runs.intros)
qed

text \<open>The compact machine keeps \<open>mx\<close> and \<open>ma\<close> in local variables while it runs a program; the
  audit keeps them in the machine. No instruction reads them.\<close>

definition stale :: "MemoryRegister \<Rightarrow> Vm \<Rightarrow> Vm" where
  "stale m vm = vm\<lparr> mem_reg := m \<rparr>"

lemma stale_fields [simp]:
  "reg (stale m vm) = reg vm" "scratchpad (stale m vm) = scratchpad vm" "vm_pc (stale m vm) = vm_pc vm"
  "config (stale m vm) = config vm" "mem (stale m vm) = mem vm" "dataset_offset (stale m vm) = dataset_offset vm"
  "rounding_mode (stale m vm) = rounding_mode vm" "fp_env (stale m vm) = fp_env vm"
  "get_rounding_mode (stale m vm) = get_rounding_mode vm"
  by (simp_all add: stale_def get_rounding_mode_def)

lemma stale_upd:
  "(stale m vm)\<lparr> reg := x \<rparr> = stale m (vm\<lparr> reg := x \<rparr>)"
  "(stale m vm)\<lparr> scratchpad := pad \<rparr> = stale m (vm\<lparr> scratchpad := pad \<rparr>)"
  "(stale m vm)\<lparr> vm_pc := t \<rparr> = stale m (vm\<lparr> vm_pc := t \<rparr>)"
  by (simp_all add: stale_def)

lemma stale_reads [simp]:
  "sp1_r (stale m vm) o1 = sp1_r vm o1" "sp1_f (stale m vm) o1 = sp1_f vm o1" "sp1_e (stale m vm) o1 = sp1_e vm o1"
  "sp1_a (stale m vm) o1 = sp1_a vm o1" "scratch_src (stale m vm) c = scratch_src vm c"
  "scratchpad_dst_offset (stale m vm) c = scratchpad_dst_offset vm c"
  "sp1_rounding_mode (stale m vm) = sp1_rounding_mode vm"
  "sp1_mask_register_exponent_mantissa (stale m vm) v = sp1_mask_register_exponent_mantissa vm v"
  by (simp_all add: sp1_r_def sp1_f_def sp1_e_def sp1_a_def scratch_src_def scratchpad_src_offset_def
      scratch_at_offset_def scratchpad_dst_offset_def sp1_rounding_mode_def sp1_mask_register_exponent_mantissa_def
      cong: if_cong split del: if_split)

lemma stale_writes [simp]:
  "sp1_set_r (stale m vm) o1 v = map_option (stale m) (sp1_set_r vm o1 v)"
  "sp1_set_f (stale m vm) o1 w = map_option (stale m) (sp1_set_f vm o1 w)"
  "sp1_set_e (stale m vm) o1 w = map_option (stale m) (sp1_set_e vm o1 w)"
  "set_scratch_at_offset (stale m vm) i v = map_option (stale m) (set_scratch_at_offset vm i v)"
  "set_rounding_mode mode (stale m vm) = map_option (stale m) (set_rounding_mode mode vm)"
  by (simp_all add: sp1_set_r_def sp1_set_f_def sp1_set_e_def set_scratch_at_offset_def set_rounding_mode_def
      stale_upd option.map_comp comp_def)
     (simp add: stale_def)

lemma c_execute_stale: "c_execute c (stale m vm) = map_option (stale m) (c_execute c vm)"
  unfolding c_execute_def
  by (cases "c_effect c")
     (simp_all add: c_exec_defs c_float_defs c_exec_iswap_r_def c_exec_istore_def c_exec_cfround_def c_exec_cbranch_def
       Let_def map_option_bind_guest bind_map_option stale_upd if_distrib [of "map_option (stale m)"] cong: if_cong)

lemma sp1_step_stale: "sp1_step prog (stale m vm) = map_option (stale m) (sp1_step prog vm)"
  by (simp add: sp1_step_def c_execute_stale bind_map_option map_option_bind_guest stale_upd)

lemma runs_stale:
  "runs (sp1_step prog) (\<lambda>vm. vm_pc vm < 256) n vm vm' \<Longrightarrow>
   runs (sp1_step prog) (\<lambda>vm. vm_pc vm < 256) n (stale m vm) (stale m vm')"
  by (induction rule: runs.induct) (auto intro!: runs.intros simp: sp1_step_stale)

lemmas foldl_option_stale = foldl_option_commute [where h = "stale m" for m]

lemma mask_stale [simp]: "mask_register_exponent_mantissa (stale m vm) v = mask_register_exponent_mantissa vm v"
  by (simp flip: sp1_mask_eq)

lemma parts_stale:
  "load_r a i (stale m vm) = map_option (stale m) (load_r a i vm)"
  "load_f a i (stale m vm) = map_option (stale m) (load_f a i vm)"
  "load_e a i (stale m vm) = map_option (stale m) (load_e a i vm)"
  "store_r a i (stale m vm) = map_option (stale m) (store_r a i vm)"
  "mix_f i (stale m vm) = map_option (stale m) (mix_f i vm)"
  "store_f a i (stale m vm) = map_option (stale m) (store_f a i vm)"
  by (simp_all add: load_r_def load_f_def load_e_def store_r_def mix_f_def store_f_def map_option_bind_guest
      stale_upd case_prod_beta)

lemma registers_stale:
  "load_registers a0 a1 (stale m vm) = map_option (stale m) (load_registers a0 a1 vm)"
  "store_registers a0 a1 (stale m vm) = map_option (stale m) (store_registers a0 a1 vm)"
  by (simp_all add: load_registers_def store_registers_def foldl_option_stale parts_stale bind_map_option
      map_option_bind_guest)

lemma sp1_addresses_stale: "sp1_addresses rr sp (stale m vm) = sp1_addresses rr sp vm"
  by (simp add: sp1_addresses_def case_prod_beta)

text \<open>The preparation is the front of the iteration of either machine.\<close>

lemma prepare_eq:
  "prepare_iteration sp vm =
     Option.bind (sp_addresses sp vm) (\<lambda>(a0, a1).
     Option.bind (load_registers (unat a0) (unat a1) vm) (\<lambda>vm. Some ((a0, a1), vm)))"
proof -
  have d: "w div 8 = drop_bit 3 w" for w :: u32 by (simp add: drop_bit_eq_div)
  have e: "prepare_e = load_e" by (simp add: fun_eq_iff prepare_e_def load_e_def sp1_mask_eq)
  show ?thesis
    unfolding prepare_iteration_def sp_addresses_def load_registers_def e d
    by (cases "arr_get (read_reg (config vm)) 0"; cases "arr_get (read_reg (config vm)) 1")
       (auto simp: Let_def case_prod_beta split: bind_split)
qed

lemma dataset_step_unfold:
  assumes "vm_ok vm" "dataset_step vm = Some vm'"
  shows "\<exists>xs. dataset_read (mem vm) (dataset_offset vm + ma (mem_reg vm)) (reg_r (reg vm)) = Some xs \<and>
    vm' = upd_r xs (vm\<lparr> mem_reg := \<lparr> mx = ma (mem_reg vm), ma = (mx (mem_reg vm) XOR
      (reg_r (reg vm) ! (read_reg (config vm) ! 2) XOR reg_r (reg vm) ! (read_reg (config vm) ! 3)))
      AND CACHE_LINE_ALIGN_MASK \<rparr> \<rparr>)"
  using assms read_offset_access(2,3) [OF assms(1), of 2] read_offset_access(2,3) [OF assms(1), of 3]
  by (auto simp: dataset_step_def bind_eq_Some_conv Let_def)

lemma finish_kept:
  assumes "finish_iteration a0 a1 vm = Some vm'"
  shows "config vm' = config vm" "dataset_offset vm' = dataset_offset vm" "fp_env vm' = fp_env vm"
    "rounding_mode vm' = rounding_mode vm" "vm_pc vm' = vm_pc vm"
proof -
  obtain vm1 where vm1: "dataset_step vm = Some vm1" "store_registers a0 a1 vm1 = Some vm'"
    using assms by (auto simp: finish_iteration_def bind_eq_Some_conv)
  have pc: "vm_pc s' = vm_pc s" if "foldl_option f xs s = Some s'" "\<And>x s s'. f x s = Some s' \<Longrightarrow> vm_pc s' = vm_pc s"
    for f xs s s'
    using that(1) by (induction xs arbitrary: s) (auto simp: bind_eq_Some_conv dest: that(2))
  have "vm_pc vm' = vm_pc vm1"
    using vm1(2) unfolding store_registers_def bind_eq_Some_conv
    by (auto simp: store_r_def mix_f_def store_f_def bind_eq_Some_conv case_prod_beta dest!: pc)
  then show "config vm' = config vm" "dataset_offset vm' = dataset_offset vm" "fp_env vm' = fp_env vm"
    "rounding_mode vm' = rounding_mode vm" "vm_pc vm' = vm_pc vm"
    using registers_kept(2) [OF vm1(2)] vm1(1)
    by (auto simp: dataset_step_def vm_kept_def bind_eq_Some_conv Let_def)
qed

lemma finish_good:
  assumes "vm_good vm" "a0 + 8 \<le> 262144" "a1 + 8 \<le> 262144" "finish_iteration a0 a1 vm = Some vm'"
  shows "vm_good vm'"
  using dataset_step_ok [OF assms(1)] store_registers_ok [OF _ assms(2,3)] assms(4)
  by (fastforce simp: finish_iteration_def)

text \<open>The back half of a compact iteration, with the memory registers in local variables.\<close>

lemma finish_sp1:
  assumes "vm_ok vm" "finish_iteration a0 a1 vm = Some vm'" "config vm = config vm0"
  shows "\<exists>v2 v3 xs. sp1_r (stale m vm) (read_offsets vm0 ! 2) = Some v2 \<and> sp1_r (stale m vm) (read_offsets vm0 ! 3) = Some v3 \<and>
    dataset_read (mem vm) (dataset_offset vm + ma (mem_reg vm)) (reg_r (reg vm)) = Some xs \<and>
    sp1_store_registers a0 a1 (upd_r xs (stale m vm)) = Some (stale m vm') \<and>
    mem_reg vm' = \<lparr> mx = ma (mem_reg vm), ma = (mx (mem_reg vm) XOR (v2 XOR v3)) AND CACHE_LINE_ALIGN_MASK \<rparr>"
proof -
  obtain vm1 where vm1: "dataset_step vm = Some vm1" "store_registers a0 a1 vm1 = Some vm'"
    using assms(2) by (auto simp: finish_iteration_def bind_eq_Some_conv)
  let ?v = "\<lambda>i. reg_r (reg vm) ! (read_reg (config vm) ! i)"
  let ?m = "\<lparr> mx = ma (mem_reg vm), ma = (mx (mem_reg vm) XOR (?v 2 XOR ?v 3)) AND CACHE_LINE_ALIGN_MASK \<rparr>"
  obtain xs where xs: "dataset_read (mem vm) (dataset_offset vm + ma (mem_reg vm)) (reg_r (reg vm)) = Some xs"
    "vm1 = upd_r xs (vm\<lparr> mem_reg := ?m \<rparr>)"
    using dataset_step_unfold [OF assms(1) vm1(1)] by blast
  have o: "read_offsets vm0 = read_offsets vm" using assms(3) by (simp add: read_offsets_def)
  have rd: "sp1_r (stale m vm) (read_offsets vm0 ! i) = Some (?v i)" if "i < 4" for i
    using read_offset_access(1) [OF assms(1) that] by (simp add: o)
  have "upd_r xs (stale m vm) = stale m vm1" by (simp add: xs(2) stale_def)
  then have st: "sp1_store_registers a0 a1 (upd_r xs (stale m vm)) = Some (stale m vm')"
    using vm1(2) by (simp add: sp1_store_eq registers_stale)
  have "mem_reg vm' = mem_reg vm1" using registers_kept(2) [OF vm1(2)] by (simp add: vm_kept_def)
  then have mr: "mem_reg vm' = ?m" using xs(2) by simp
  show ?thesis
    by (rule exI, rule exI, rule exI, intro conjI, rule rd, simp, rule rd, simp, rule xs(1), rule st, rule mr)
qed

lemma audit_iteration_sound:
  assumes prog: "length prog = 256" "prog_ok prog" "list_all2 instr_rel prog cprog"
    and vms: "vm_good r" "vm_good c" "synced r c"
    and run: "audit_iteration prog cprog rsp csp (r, c) = Some (r', c')"
  shows "run_iteration prog rsp r = Some r'"
    "sp1_iteration cprog (read_offsets c) (dataset_offset c) csp (mx (mem_reg c), ma (mem_reg c), stale m c) =
       Some (mx (mem_reg c'), ma (mem_reg c'), stale m c')"
    "vm_good r'" "vm_good c'" "synced r' c'" "config c' = config c" "dataset_offset c' = dataset_offset c"
proof -
  obtain a0 a1 b0 b1 where a: "sp_addresses rsp r = Some (a0, a1)" "unat a0 + 8 \<le> 262144" "unat a1 + 8 \<le> 262144"
    and b: "sp_addresses csp c = Some (b0, b1)" "unat b0 + 8 \<le> 262144" "unat b1 + 8 \<le> 262144"
    using sp_addresses_ok [OF vms(1)] sp_addresses_ok [OF vms(2)] by metis
  obtain r1 c1 where l: "load_registers (unat a0) (unat a1) r = Some r1" "vm_good r1"
    "load_registers (unat b0) (unat b1) c = Some c1" "vm_good c1"
    using load_registers_ok [OF vms(1) a(2,3)] load_registers_ok [OF vms(2) b(2,3)] by blast
  let ?r1 = "r1\<lparr> vm_pc := 0 \<rparr>" and ?c1 = "c1\<lparr> vm_pc := 0 \<rparr>"
  obtain r2 c2 where lp: "audit_loop prog cprog (?r1, ?c1) = Some (r2, c2)"
    and fin: "finish_iteration (unat a0) (unat a1) r2 = Some r'" "finish_iteration (unat b0) (unat b1) c2 = Some c'"
    using run a(1) b(1) l(1,3) by (auto simp: audit_iteration_def prepare_eq bind_eq_Some_conv)
  have ok: "machine_ok prog ?r1" "pair_ok (prog, cprog) ?c1" "vm_good ?r1" "vm_good ?c1"
    using prog vm_good_upd(6) [OF l(2)] vm_good_upd(6) [OF l(4)] by (simp_all add: machine_ok_def pair_ok_def vm_good_def)
  note k = registers_kept(1) [OF l(1)] registers_kept(1) [OF l(3)]
  have sync: "synced ?r1 ?c1" using vms(3) k by (simp add: synced_def vm_kept_def)
  obtain n r3 where r3: "runs (exec_step prog) (\<lambda>vm. vm_pc vm < 256) n ?r1 r3" "exec_loop prog ?r1 = Some r3" "vm_good r3"
    using exec_loop_ok [OF ok(1) _ ok(3)] by auto
  have s: "r2 = r3" "runs (sp1_step cprog) (\<lambda>vm. vm_pc vm < 256) n ?c1 c2" "synced r2 c2"
    using audit_loop_sound [OF r3(1) ok(1,2) sync _ lp, simplified] by blast+
  have c2: "sp1_loop cprog ?c1 = Some c2" "vm_good c2" "vm_frame ?c1 c2"
    using sp1_loop_ok [OF ok(2) _ ok(4)] sp1_loop_runs [OF s(2)] by auto
  have st: "sp1_loop cprog ((stale m c1)\<lparr> vm_pc := 0 \<rparr>) = Some (stale m c2)"
    using sp1_loop_runs [OF runs_stale [OF s(2)]] by (simp add: stale_upd)
  have cfg: "config c2 = config c" "dataset_offset c2 = dataset_offset c" "mem_reg c2 = mem_reg c"
    using c2(3) k(2) by (simp_all add: vm_frame_def vm_kept_def)
  show "vm_good r'" "vm_good c'" using finish_good fin a b r3(3) s(1) c2(2) by blast+
  show "synced r' c'" using s(3) finish_kept(3,4) [OF fin(1)] finish_kept(3,4) [OF fin(2)] by (simp add: synced_def)
  show "config c' = config c" "dataset_offset c' = dataset_offset c" using finish_kept(1,2) [OF fin(2)] cfg by simp_all
  show "run_iteration prog rsp r = Some r'"
    using a(1) l(1) r3(2) fin(1) s(1) by (simp add: run_iteration_def finish_iteration_def)
  have ad: "sp1_addresses (read_offsets c) csp (stale m c) = Some (b0, b1)"
    using sp1_addresses_eq [OF vm_good_sizes(6) [OF vms(2)]] b(1) by (simp add: sp1_addresses_stale)
  obtain v2 v3 xs where f: "sp1_r (stale m c2) (read_offsets c ! 2) = Some v2" "sp1_r (stale m c2) (read_offsets c ! 3) = Some v3"
    "dataset_read (mem c2) (dataset_offset c2 + ma (mem_reg c2)) (reg_r (reg c2)) = Some xs"
    "sp1_store_registers (unat b0) (unat b1) (upd_r xs (stale m c2)) = Some (stale m c')"
    "mem_reg c' = \<lparr> mx = ma (mem_reg c2), ma = (mx (mem_reg c2) XOR (v2 XOR v3)) AND CACHE_LINE_ALIGN_MASK \<rparr>"
    using finish_sp1 [OF vm_good_sizes(6) [OF c2(2)] fin(2) cfg(1)] by blast
  show "sp1_iteration cprog (read_offsets c) (dataset_offset c) csp (mx (mem_reg c), ma (mem_reg c), stale m c) =
       Some (mx (mem_reg c'), ma (mem_reg c'), stale m c')"
    using ad l(3) st f cfg by (simp add: sp1_iteration_def sp1_load_eq registers_stale Let_def)
qed

lemma audit_iterations_sound:
  assumes prog: "length prog = 256" "prog_ok prog" "list_all2 instr_rel prog cprog"
    and vms: "vm_good r" "vm_good c" "synced r c"
    and run: "audit_iterations prog cprog n rsp csp (r, c) = Some (r', c')"
  shows "run_iterations prog n rsp r = Some r' \<and>
    sp1_iterations cprog (read_offsets c) (dataset_offset c) n csp (mx (mem_reg c), ma (mem_reg c), stale m c) =
       Some (mx (mem_reg c'), ma (mem_reg c'), stale m c') \<and> vm_good r' \<and> vm_good c' \<and> synced r' c'"
  using vms run
proof (induction n arbitrary: r c rsp csp)
  case (Suc n)
  obtain r1 c1 where i: "audit_iteration prog cprog rsp csp (r, c) = Some (r1, c1)"
    "audit_iterations prog cprog n (0, 0) (0, 0) (r1, c1) = Some (r', c')"
    using Suc.prems(4) by (auto simp: bind_eq_Some_conv)
  note s = audit_iteration_sound [OF prog Suc.prems(1-3) i(1)]
  have "read_offsets c1 = read_offsets c" using s(6) by (simp add: read_offsets_def)
  then show ?case using Suc.IH [OF s(3-5) i(2)] s(1) s(2) [of m] s(7) by simp
qed simp

lemma init_env: "init_vm en vm = Some vm' \<Longrightarrow> fp_env vm' = fp_env vm \<and> rounding_mode vm' = rounding_mode vm"
  by (auto simp: init_vm_def bind_eq_Some_conv Let_def split: if_split_asm)

lemma run_differential_sound:
  assumes "vm_good r" "vm_good c" "synced r c" "run_differential sd (r, c) = Some (r', c')"
  shows "run sd r = Some r'" "sp1_run sd c = Some c'" "vm_good r'" "vm_good c'" "synced r' c'"
proof -
  have "length (gen_program_aes_4rx4 sd 136) = 136" by (simp add: length_gen_program_aes_4rx4)
  then obtain prog :: Program and cprog where prog: "from_bytes (gen_program_aes_4rx4 sd 136) = Some prog"
    "sp1_from_bytes (gen_program_aes_4rx4 sd 136) = Some cprog"
    "cp_entropy cprog = p_entropy prog" "list_all2 instr_rel (p_program prog) (cp_instructions cprog)"
    "length (p_program prog) = 256" "length (p_entropy prog) = 16" "prog_ok (p_program prog)"
    using from_bytes_lockstep by blast
  obtain r1 c1 where i: "init_vm (p_entropy prog) r = Some r1" "vm_good r1" "init_vm (p_entropy prog) c = Some c1" "vm_good c1"
    using init_vm_ok [OF prog(6) assms(1)] init_vm_ok [OF prog(6) assms(2)] by blast
  let ?sp = "\<lambda>vm. (ucast (mx (mem_reg vm)), ucast (ma (mem_reg vm))) :: u32 \<times> u32"
  have run: "audit_iterations (p_program prog) (cp_instructions cprog) RANDOMX_PROGRAM_ITERATIONS (?sp r1) (?sp c1) (r1, c1) =
      Some (r', c')"
    using assms(4) prog(1-3) i(1,3) by (simp add: run_differential_def Let_def sp1_init_eq [OF prog(6)])
  have "synced r1 c1" using assms(3) init_env [OF i(1)] init_env [OF i(3)] by (simp add: synced_def)
  note s = audit_iterations_sound [OF prog(5,7,4) i(2,4) this run, of "mem_reg c1"]
  show "vm_good r'" "vm_good c'" "synced r' c'" using s by blast+
  show "run sd r = Some r'" using s prog(1) i(1) by (simp add: run_def)
  have "stale (mem_reg c1) c1 = c1" "(stale m c')\<lparr> mem_reg := \<lparr> mx = mx (mem_reg c'), ma = ma (mem_reg c') \<rparr> \<rparr> = c'" for m
    by (simp_all add: stale_def)
  then show "sp1_run sd c = Some c'"
    using s prog(2,3) i(3) by (simp add: sp1_run_def sp1_init_eq [OF prog(6)] Let_def read_offsets_def)
qed

lemma audit_programs_sound:
  assumes "vm_good r" "vm_good c" "synced r c" "audit_programs hash (Suc n) sd (r, c) = Some (r', c')"
  shows "\<exists>sd' r1 c1. run_programs hash n sd r = Some (sd', r1) \<and> run sd' r1 = Some r' \<and>
    sp1_run_programs hash n sd c = Some (sd', c1) \<and> sp1_run sd' c1 = Some c' \<and> scratchpad r' = scratchpad c'"
  using assms
proof (induction n arbitrary: sd r c)
  case 0
  have d: "run_differential sd (r, c) = Some (r', c')" "scratchpad r' = scratchpad c'"
    using 0(4) by (auto simp: bind_eq_Some_conv)
  then show ?case using run_differential_sound(1,2) [OF 0(1-3) d(1)] by simp
next
  case (Suc n)
  obtain r2 c2 sd2 where d: "run_differential sd (r, c) = Some (r2, c2)" "to_bytes (reg r2) = to_bytes (reg c2)"
    "sp1_hash_to_m128i_array (hash 64 (to_bytes (reg r2))) = Some sd2"
    "audit_programs hash (Suc n) sd2 (r2, c2) = Some (r', c')"
    using Suc.prems(4) by (subst (asm) audit_programs.simps) (auto simp: bind_eq_Some_conv simp del: audit_programs.simps)
  note s = run_differential_sound [OF Suc.prems(1-3) d(1)]
  then show ?case using Suc.IH [OF s(3-5) d(4)] d(2,3) by (simp add: sp1_seed_eq)
qed

lemma differential_audit_sound:
  assumes "differential_audit hash input env = Some (digest, env')"
  shows "\<exists>vm1 vm2. calculate_hash hash input (new_vm VmMemory_no_memory env) = Some (digest, vm1) \<and>
    calculate_hash_impl hash input (new_vm VmMemory_no_memory env) = Some (digest, vm2)"
proof -
  let ?vm = "new_vm VmMemory_no_memory env"
  obtain sd sd1 vm1 r c h where a: "hash_to_m128i_array (hash 64 input) = Some sd" "init_scratchpad sd ?vm = Some (sd1, vm1)"
    "audit_programs hash RANDOMX_PROGRAM_COUNT sd1 (reset_rounding_mode vm1, reset_rounding_mode vm1) = Some (r, c)"
    "hash_aes_1rx4 (scratchpad r) = Some h"
    "to_bytes (reg (upd_a [as_m128d (fst h), as_m128d (fst (snd h)), as_m128d (fst (snd (snd h))), as_m128d (snd (snd (snd h)))] r)) =
     to_bytes (reg (upd_a [as_m128d (fst h), as_m128d (fst (snd h)), as_m128d (fst (snd (snd h))), as_m128d (snd (snd (snd h)))] c))"
    "digest = hash RANDOMX_HASH_SIZE (to_bytes (reg (upd_a [as_m128d (fst h), as_m128d (fst (snd h)),
      as_m128d (fst (snd (snd h))), as_m128d (snd (snd (snd h)))] r)))"
    using assms
    by (auto simp: differential_audit_def bind_eq_Some_conv Let_def sp1_seed_eq reset_rounding_mode_def case_prod_beta)
  obtain pad where pad: "vm1 = ?vm\<lparr> scratchpad := pad \<rparr>" "length pad = 262144"
    using init_scratchpad_returns [OF new_vm_ok, of sd VmMemory_no_memory env] a(2) by auto
  have "vm_ok vm1" "vm_memory_ok (mem vm1)"
    using new_vm_ok [of VmMemory_no_memory env] no_memory_ok pad
    by (simp_all add: vm_ok_def new_vm_def vm_memory_ok_def VmMemory_no_memory_def)
  then have good: "vm_good (reset_rounding_mode vm1)" by (rule reset_rounding_mode_ok)
  obtain sd' r1 c1 where s: "run_programs hash 7 sd1 (reset_rounding_mode vm1) = Some (sd', r1)" "run sd' r1 = Some r"
    "sp1_run_programs hash 7 sd1 (reset_rounding_mode vm1) = Some (sd', c1)" "sp1_run sd' c1 = Some c"
    "scratchpad r = scratchpad c"
    using audit_programs_sound [OF good good, of hash 7 sd1 r c] a(3)
    by (auto simp: RANDOMX_PROGRAM_COUNT_def synced_def numeral_eq_Suc simp del: audit_programs.simps)
  have "length (scratchpad ?vm) = SCRATCHPAD_SIZE" by (simp add: new_vm_def)
  then show ?thesis
    using a s by (simp add: calculate_hash_def calculate_hash_impl_def sp1_seed_eq Let_def RANDOMX_PROGRAM_COUNT_def case_prod_beta)
qed

section \<open>The audit completes\<close>

lemma rounds_host:
  assumes "host_ok vm" "config_ok vm" "e_ok vm" "f_ok vm" "instr_ok ins" "instr_rel ins c" "rounds (i_effect ins)"
  shows "c_execute c vm = instr_execute ins vm"
proof -
  have vm: "vm_ok vm" using assms(1) by (simp add: host_ok_def)
  have a: "is_A s \<Longrightarrow> both f_num (reg_a (reg vm) ! reg_ix s)" for s
    using reg_domains(2) [OF vm assms(2,3)] num_imp(1) by (auto intro: both_mono)
  have d: "both a_num ((v AND m128d_from_u64 DYNAMIC_MANTISSA_MASK DYNAMIC_MANTISSA_MASK)
           OR m128d_from_u64 (e_mask (config vm) ! 1) (e_mask (config vm) ! 0))" for v
    using both_masked [OF vm assms(2)] mask_exponent_ok [OF vm] by blast
  show ?thesis
    using assms(5-7) vm a d reg_domains [OF vm assms(2,3)] both_lower assms(4)
    unfolding rounds_def instr_rel_def instr_ok_def c_execute_def instr_execute_def
    by (auto simp: exec_defs c_float_defs reg_access sp1_access reg_ix_bound scratch_src_rel scratchpad_src_ok
        sp1_mode sp1_mask_eq mask_exponent_ok host_mode [OF assms(1)] Let_def
        softfp_vector_ops m128d_commute [of _ "reg_a (reg vm) ! _"]
        cong: if_cong split del: if_split)
qed

lemma cfround_again:
  assumes "vm_ok vm" "instr_ok ins" "instr_rel ins c" "i_effect ins = Vm_exec_cfround" "instr_execute ins vm = Some vm'"
  shows "c_execute c (vm\<lparr> fp_env := fp_env vm' \<rparr>) = Some vm'"
proof -
  have ok: "vm_ok (vm\<lparr> fp_env := fp_env vm' \<rparr>)" using assms(1) by (simp add: vm_ok_sync_irrelevant)
  have "read_r (vm\<lparr> fp_env := e \<rparr>) s = read_r vm s" for s e by (cases s) simp_all
  then show ?thesis
    using assms(4,5) cfround_lockstep [OF ok assms(2-4)]
    by (auto simp: instr_execute_def exec_cfround_def bind_eq_Some_conv Let_def set_rounding_mode_def split: if_split_asm)
qed

text \<open>An instruction of the compact machine after that of the reference machine, in the thread whose
  control register the latter left.\<close>

lemma instruction_pair:
  assumes "host_ok vm" "config_ok vm" "e_ok vm" "f_ok vm" "instr_ok ins" "instr_rel ins c"
    and "instr_execute ins vm = Some vm2"
  shows "c_execute c (vm\<lparr> fp_env := fp_env vm2 \<rparr>) = Some vm2"
proof (cases "i_effect ins = Vm_exec_cfround")
  case True
  then show ?thesis using cfround_again [OF _ assms(5,6) _ assms(7)] assms(1) by (simp add: host_ok_def)
next
  case False
  have "c_execute c vm = Some vm2"
    using rounds_host [OF assms(1-6)] exec_lockstep [OF _ assms(5,6)] assms(1,7)
    by (cases "rounds (i_effect ins)") (simp_all add: host_ok_def)
  then show ?thesis using exec_env(1) [OF assms(7) False] by simp
qed

lemma assert_same [simp]: "assert_vm_state vm vm = Some ()"
  by (simp add: assert_vm_state_def must_def)

lemma audit_step_complete:
  assumes "machine_ok prog vm" "list_all2 instr_rel prog cprog" "0 \<le> vm_pc vm" "vm_pc vm < 256"
    "float_inv k vm" "k < 768" "exec_step prog vm = Some vm1"
  shows "audit_step prog cprog (vm, vm) = Some (vm1, vm1)"
proof -
  define q where "q = nat (vm_pc vm)"
  have q: "vm_pc vm = int q" "q < 256" using assms(3,4) by (simp_all add: q_def)
  have ok: "vm_ok vm" "instr_ok (prog ! q)" using assms q machine_instr by (auto simp: machine_ok_def)
  have len: "length prog = 256" "length cprog = 256"
    using assms(1) list_all2_lengthD [OF assms(2)] by (simp_all add: machine_ok_def)
  then have rel: "instr_rel (prog ! q) (cprog ! q)" using list_all2_nthD [OF assms(2)] q(2) by simp
  obtain vm2 where vm2: "instr_execute (prog ! q) vm = Some vm2" "vm1 = vm2\<lparr> vm_pc := vm_pc vm2 + 1 \<rparr>"
    using assms(7) exec_step_at [OF assms(1) q] by (auto simp: bind_eq_Some_conv)
  have "c_execute (cprog ! q) (vm\<lparr> fp_env := fp_env vm2 \<rparr>) = Some vm2"
    using instruction_pair [OF _ _ _ float_inv_f_ok [OF assms(5)] ok(2) rel vm2(1)] assms(5,6)
    by (simp add: float_inv_def)
  then show ?thesis using q len vm2 by (simp add: audit_step_def arr_get_def must_def Let_def)
qed

lemma audit_loop_complete:
  assumes "runs (exec_step prog) (\<lambda>vm. vm_pc vm < 256) n vm vm'" "machine_ok prog vm" "list_all2 instr_rel prog cprog"
    "0 \<le> vm_pc vm" "float_inv k vm" "k + n \<le> 768"
  shows "audit_loop prog cprog (vm, vm) = Some (vm', vm')"
  using assms
proof (induction arbitrary: k rule: runs.induct)
  case (runs_done vm)
  then show ?case by (subst audit_loop.simps) (simp add: RANDOMX_PROGRAM_SIZE_def)
next
  case (runs_step vm vm1 n vm')
  have k: "k < 768" "Suc k + n \<le> 768" using runs_step.prems(5) by simp_all
  have st: "float_inv (Suc k) vm1" "audit_step prog cprog (vm, vm) = Some (vm1, vm1)"
    using step_lockstep(2) [OF runs_step.prems(1,2,3) runs_step.hyps(1) runs_step.prems(4) k(1) runs_step.hyps(2)]
      audit_step_complete [OF runs_step.prems(1,2,3) runs_step.hyps(1) runs_step.prems(4) k(1) runs_step.hyps(2)] by blast+
  have "audit_loop prog cprog (vm1, vm1) = Some (vm', vm')"
    using runs_step.IH [of "Suc k"] runs_step.prems(2) st(1) k(2) exec_step_good [OF runs_step.prems(1,3) runs_step.hyps(1,2)] by blast
  then show ?case using runs_step.hyps(1) st(2) by (subst audit_loop.simps) (simp add: RANDOMX_PROGRAM_SIZE_def)
qed

lemma audit_iteration_complete:
  assumes prog: "length prog = 256" "prog_ok prog" "list_all2 instr_rel prog cprog"
    and vm: "host_good vm"
    and run: "run_iteration prog sp vm = Some vm'"
  shows "audit_iteration prog cprog sp sp (vm, vm) = Some (vm', vm')"
proof -
  have good: "vm_good vm" using vm by (simp add: host_good_def)
  obtain a0 a1 where a: "sp_addresses sp vm = Some (a0, a1)" "unat a0 + 8 \<le> 262144" "unat a1 + 8 \<le> 262144"
    using sp_addresses_ok [OF good] by blast
  obtain vm1 where vm1: "load_registers (unat a0) (unat a1) vm = Some vm1"
    using load_registers_ok [OF good a(2,3)] by blast
  let ?vm1 = "vm1\<lparr> vm_pc := 0 \<rparr>"
  have "host_good vm1" "e_ok vm1" using load_registers_domain [OF vm vm1 a(2,3)] by blast+
  then have inv: "float_inv 0 ?vm1" "vm_good ?vm1" "machine_ok prog ?vm1"
    using prog(1,2) vm_good_upd(6) [of vm1 0] load_registers_below [OF good vm1 a(2,3)]
    by (simp_all add: float_inv_def host_good_def host_ok_def vm_good_def config_ok_def e_ok_def a_below_def
        f_below_def machine_ok_def)
  obtain n vm2 where vm2: "runs (exec_step prog) (\<lambda>vm. vm_pc vm < 256) n ?vm1 vm2" "n \<le> 768" "exec_loop prog ?vm1 = Some vm2"
    using exec_loop_ok [OF inv(3) _ inv(2)] by auto
  have "audit_loop prog cprog (?vm1, ?vm1) = Some (vm2, vm2)"
    using audit_loop_complete [OF vm2(1) inv(3) prog(3) _ inv(1)] vm2(2) by simp
  moreover have "finish_iteration (unat a0) (unat a1) vm2 = Some vm'"
    using run a(1) vm1 vm2(3) by (simp add: run_iteration_def finish_iteration_def)
  ultimately show ?thesis using a(1) vm1 by (simp add: audit_iteration_def prepare_eq)
qed

lemma audit_iterations_complete:
  assumes prog: "length prog = 256" "prog_ok prog" "list_all2 instr_rel prog cprog"
    and vm: "host_good vm"
  shows "\<exists>vm'. run_iterations prog n sp vm = Some vm' \<and> audit_iterations prog cprog n sp sp (vm, vm) = Some (vm', vm')"
  using vm
proof (induction n arbitrary: vm sp)
  case (Suc n)
  obtain vm1 where vm1: "run_iteration prog sp vm = Some vm1" "host_good vm1"
    using iteration_lockstep [OF prog Suc.prems] by blast
  from Suc.IH [OF vm1(2)] show ?case
    using vm1(1) audit_iteration_complete [OF prog Suc.prems vm1(1)] by auto
qed simp

lemma run_differential_complete:
  assumes "vm_good vm" "fp_env vm \<noteq> No_env"
  shows "\<exists>vm'. run sd vm = Some vm' \<and> vm_good vm' \<and> fp_env vm' \<noteq> No_env \<and> run_differential sd (vm, vm) = Some (vm', vm')"
proof -
  have "length (gen_program_aes_4rx4 sd 136) = 136" by (simp add: length_gen_program_aes_4rx4)
  then obtain prog :: Program and cprog where prog: "from_bytes (gen_program_aes_4rx4 sd 136) = Some prog"
    "sp1_from_bytes (gen_program_aes_4rx4 sd 136) = Some cprog"
    "cp_entropy cprog = p_entropy prog" "list_all2 instr_rel (p_program prog) (cp_instructions cprog)"
    "length (p_program prog) = 256" "length (p_entropy prog) = 16" "prog_ok (p_program prog)"
    using from_bytes_lockstep by blast
  obtain vm1 where vm1: "init_vm (p_entropy prog) vm = Some vm1" "host_good vm1"
    using init_lockstep [OF prog(6) assms(1,2)] by blast
  obtain vm2 where "run sd vm = Some vm2" "run_differential sd (vm, vm) = Some (vm2, vm2)"
    using audit_iterations_complete [OF prog(5,7,4) vm1(2)] prog(1-3) vm1(1)
    by (fastforce simp: run_def run_differential_def Let_def sp1_init_eq [OF prog(6)])
  moreover obtain vm3 where "run sd vm = Some vm3" "vm_good vm3" "fp_env vm3 \<noteq> No_env"
    using run_lockstep [OF assms] by blast
  ultimately show ?thesis by auto
qed

lemma audit_programs_complete:
  assumes "digest_length hash" "vm_good vm" "fp_env vm \<noteq> No_env"
  shows "\<exists>vm'. vm_good vm' \<and> audit_programs hash (Suc n) sd (vm, vm) = Some (vm', vm')"
  using assms(2,3)
proof (induction n arbitrary: sd vm)
  case 0
  then show ?case using run_differential_complete [of vm sd] by (auto simp: must_def)
next
  case (Suc n)
  obtain vm1 where vm1: "run sd vm = Some vm1" "vm_good vm1" "fp_env vm1 \<noteq> No_env"
    "run_differential sd (vm, vm) = Some (vm1, vm1)"
    using run_differential_complete [OF Suc.prems] by blast
  have "length (hash 64 (to_bytes (reg vm1))) = 64" using assms(1) by (simp add: digest_length_def)
  then obtain sd1 where sd1: "hash_to_m128i_array (hash 64 (to_bytes (reg vm1))) = Some sd1"
    using hash_to_seed_ok by blast
  from Suc.IH [OF vm1(2,3)] show ?case
    using vm1(4) sd1 by (subst audit_programs.simps) (simp add: sp1_seed_eq must_def del: audit_programs.simps)
qed

lemma differential_audit_complete:
  assumes "digest_length hash" "env \<noteq> No_env"
  shows "\<exists>digest env'. differential_audit hash input env = Some (digest, env')"
proof -
  let ?vm = "new_vm VmMemory_no_memory env"
  have "length (hash 64 input) = 64" using assms(1) by (simp add: digest_length_def)
  then obtain sd where sd: "hash_to_m128i_array (hash 64 input) = Some sd" using hash_to_seed_ok by blast
  obtain sd1 pad where pad: "init_scratchpad sd ?vm = Some (sd1, ?vm\<lparr> scratchpad := pad \<rparr>)" "length pad = 262144"
    using init_scratchpad_returns [OF new_vm_ok] by blast
  let ?vm1 = "reset_rounding_mode (?vm\<lparr> scratchpad := pad \<rparr>)"
  have "vm_ok (?vm\<lparr> scratchpad := pad \<rparr>)" "vm_memory_ok (mem (?vm\<lparr> scratchpad := pad \<rparr>))"
    using new_vm_ok [of VmMemory_no_memory env] no_memory_ok pad(2)
    by (simp_all add: vm_ok_def new_vm_def vm_memory_ok_def VmMemory_no_memory_def)
  then have good: "vm_good ?vm1" "fp_env ?vm1 \<noteq> No_env"
    using assms(2) reset_rounding_mode_ok by (simp, simp add: reset_rounding_mode_def new_vm_def)
  obtain vm2 where vm2: "vm_good vm2" "audit_programs hash RANDOMX_PROGRAM_COUNT sd1 (?vm1, ?vm1) = Some (vm2, vm2)"
    using audit_programs_complete [OF assms(1) good, of "RANDOMX_PROGRAM_COUNT - 1" sd1]
    by (auto simp: RANDOMX_PROGRAM_COUNT_def numeral_eq_Suc simp del: audit_programs.simps)
  have "\<exists>h. hash_aes_1rx4 (scratchpad vm2) = Some h"
    using vm_good_sizes(4) [OF vm2(1)] by (simp add: hash_aes_1rx4_def Let_def) (metis surj_pair)
  then show ?thesis
    using sd pad(1) vm2(2)
    by (auto simp: differential_audit_def sp1_seed_eq Let_def must_def reset_rounding_mode_def case_prod_beta)
qed

text \<open>On a host both machines return the same digest and end in the same state.\<close>

lemma host_hashes_agree:
  assumes "digest_length hash" "vm_ok vm" "vm_memory_ok (mem vm)" "fp_env vm \<noteq> No_env"
  shows "\<exists>digest vm'. calculate_hash hash input vm = Some (digest, vm') \<and>
    calculate_hash_impl hash input vm = Some (digest, vm') \<and> length digest = 32"
proof -
  have "length (hash 64 input) = 64" using assms(1) by (simp add: digest_length_def)
  then obtain sd where sd: "hash_to_m128i_array (hash 64 input) = Some sd" using hash_to_seed_ok by blast
  obtain sd1 pad where pad: "init_scratchpad sd vm = Some (sd1, vm\<lparr> scratchpad := pad \<rparr>)" "length pad = 262144"
    using init_scratchpad_returns [OF assms(2)] by blast
  let ?vm1 = "reset_rounding_mode (vm\<lparr> scratchpad := pad \<rparr>)"
  have "vm_ok (vm\<lparr> scratchpad := pad \<rparr>)" using assms(2) pad(2) by (simp add: vm_ok_def)
  then have good: "vm_good ?vm1" "fp_env ?vm1 \<noteq> No_env"
    using assms(3,4) reset_rounding_mode_ok by (simp, simp add: reset_rounding_mode_def)
  obtain vm2 where vm2: "vm_good vm2" "audit_programs hash (Suc 7) sd1 (?vm1, ?vm1) = Some (vm2, vm2)"
    using audit_programs_complete [OF assms(1) good] by blast
  have "synced ?vm1 ?vm1" by (simp add: synced_def)
  from audit_programs_sound [OF good(1,1) this vm2(2)] obtain sd' r1 c1 where
    r: "run_programs hash 7 sd1 ?vm1 = Some (sd', r1)" "run sd' r1 = Some vm2"
      "sp1_run_programs hash 7 sd1 ?vm1 = Some (sd', c1)" "sp1_run sd' c1 = Some vm2" by blast
  obtain h0 h1 h2 h3 where h: "hash_aes_1rx4 (scratchpad vm2) = Some (h0, h1, h2, h3)"
    using vm_good_sizes(4) [OF vm2(1)] by (simp add: hash_aes_1rx4_def Let_def) (metis surj_pair)
  have "length (hash RANDOMX_HASH_SIZE x) = 32" for x
    using assms(1) by (simp add: digest_length_def RANDOMX_HASH_SIZE_def)
  moreover have "length (scratchpad vm) = SCRATCHPAD_SIZE" using assms(2) by (simp add: vm_ok_def SCRATCHPAD_SIZE_def)
  ultimately show ?thesis
    using sd pad(1) r h
    by (simp add: calculate_hash_def calculate_hash_impl_def sp1_seed_eq Let_def RANDOMX_PROGRAM_COUNT_def)
qed

section \<open>Properties\<close>

text \<open>C3: the differential audit in a host thread passes all its assertions and returns the digest that the
  reference machine alone and the compact machine alone compute for the input.\<close>

theorem differential_audit_correct:
  assumes "digest_length hash" "env \<noteq> No_env"
  shows "\<exists>digest env' vm1 vm2. differential_audit hash input env = Some (digest, env') \<and>
    calculate_hash hash input (new_vm VmMemory_no_memory env) = Some (digest, vm1) \<and>
    calculate_hash_impl hash input (new_vm VmMemory_no_memory env) = Some (digest, vm2)"
proof -
  obtain digest env' where "differential_audit hash input env = Some (digest, env')"
    using differential_audit_complete [OF assms] by blast
  then show ?thesis using differential_audit_sound by blast
qed

theorem differential_audit_correct_witness:
  "\<exists>digest env' vm1 vm2. differential_audit zero_digest [1, 2, 3] (Mxcsr 0x1f80) = Some (digest, env') \<and>
     calculate_hash zero_digest [1, 2, 3] (new_vm VmMemory_no_memory (Mxcsr 0x1f80)) = Some (digest, vm1) \<and>
     calculate_hash_impl zero_digest [1, 2, 3] (new_vm VmMemory_no_memory (Mxcsr 0x1f80)) = Some (digest, vm2)"
  by (rule differential_audit_correct [OF zero_digest_length]) simp

end
