(* ===== verification/GuestPrograms.thy ===== *)
theory GuestPrograms
  imports Equivalence AuditTools
begin

text \<open>
  Model of the zkVM programs under \<open>program/src\<close>: the production program, which hashes the two
  input vectors and commits the digest, and the two probes. \<open>read_vec\<close> of the zkVM library is a
  parameter that takes the next vector from the input stream; the result of a program is the bytes
  it commits, and \<open>None\<close> is a panic. The guest has no floating-point control register. The
  main property composes the library: the committed bytes are the digest of the reference machine.
\<close>

section \<open>The programs\<close>

definition program_main ::
    "(nat \<Rightarrow> u8 list \<Rightarrow> u8 list) \<Rightarrow> ('s \<Rightarrow> (u8 list \<times> 's) option) \<Rightarrow> 's \<Rightarrow> u8 list option" where
  "program_main hash read_vec stdin =
     do { (randomx_key, stdin) \<leftarrow> read_vec stdin;
          (hashing_blob, stdin) \<leftarrow> read_vec stdin;
          sp1_hash hash No_env randomx_key hashing_blob }"

definition RANDOMX_SEED :: "u8 list" where
  "RANDOMX_SEED =
     [0x11, 0xc7, 0x98, 0xe5, 0xac, 0x65, 0x15, 0x21, 0x8b, 0xc3, 0xef, 0xcb, 0x54, 0x16, 0xe5, 0xb6,
      0x8c, 0x59, 0x9e, 0x42, 0xa6, 0x1b, 0x86, 0xef, 0xe5, 0x74, 0x6b, 0xb7, 0x8e, 0xb4, 0xbe, 0x8e]"

text \<open>\<open>SeedMemory::blocks\<close>, \<open>SeedMemory::program_count\<close> and the index operator of a block.\<close>

definition blocks :: "SeedMemory \<Rightarrow> Block list" where
  "blocks m = sm_blocks m"

definition program_count :: "SeedMemory \<Rightarrow> nat" where
  "program_count m = length (sm_programs m)"

definition block_index :: "Block \<Rightarrow> nat \<Rightarrow> u64 option" where
  "block_index b i = arr_get b i"

definition cache_probe :: "(nat \<Rightarrow> u8 list \<Rightarrow> u8 list) \<Rightarrow> u8 list option" where
  "cache_probe hash =
     do { memory \<leftarrow> light hash RANDOMX_SEED;
          let bs = blocks (seed_memory memory);
          b0 \<leftarrow> arr_get bs 0;
          w0 \<leftarrow> block_index b0 0;
          b1 \<leftarrow> arr_get bs (length bs div 2);
          w1 \<leftarrow> block_index b1 64;
          b2 \<leftarrow> (if length bs = 0 then None else arr_get bs (length bs - 1));
          w2 \<leftarrow> block_index b2 127;
          let ws = [w0, w1, w2, of_nat (program_count (seed_memory memory))];
          Some (concat (map (to_le_bytes 8) ws)) }"

definition HASHING_BLOB :: "u8 list" where
  "HASHING_BLOB =
     [0x10, 0x10, 0xc5, 0xa2, 0x99, 0xd3, 0x06, 0x5e, 0xd0, 0x66, 0x57, 0x3b, 0x62, 0xcd, 0xcc, 0x0d,
      0x24, 0x3d, 0x8b, 0x71, 0x30, 0xcf, 0x8b, 0xe8, 0x7f, 0xf7, 0x1e, 0xc3, 0x02, 0xce, 0xdd, 0x31,
      0xdb, 0x9f, 0x6f, 0x4f, 0x6e, 0x10, 0xe8, 0x5d, 0x5a, 0x4c, 0x10, 0x76, 0xf9, 0xef, 0x57, 0xaa,
      0xbb, 0x92, 0x00, 0x4f, 0xaf, 0xeb, 0xc6, 0x8b, 0x9a, 0x54, 0xbc, 0x9d, 0x35, 0x84, 0xec, 0x8f,
      0x94, 0x3e, 0x94, 0x9b, 0xc4, 0xc3, 0x72, 0xa5, 0x01, 0x00, 0x00, 0x00]"

definition no_memory_probe :: "(nat \<Rightarrow> u8 list \<Rightarrow> u8 list) \<Rightarrow> u8 list option" where
  "no_memory_probe hash =
     do { (digest, vm) \<leftarrow> hash_with_vm_for_audit hash HASHING_BLOB (new_vm VmMemory_no_memory No_env);
          Some digest }"

section \<open>The committed bytes\<close>

lemma light_returns:
  assumes "digest_length hash" "rejection_ends (hash 64)"
  shows "\<exists>m. light hash key = Some \<lparr> seed_memory = m \<rparr> \<and> vm_memory_ok \<lparr> seed_memory = m \<rparr> \<and> length (sm_programs m) = 8"
  using new_initialised_ok [OF assms, of key] by (auto simp: light_def vm_memory_ok_def)

text \<open>C1: end to end. For every input stream that starts with a key and a blob, the zkVM program
  builds the cache of the key and commits 32 bytes, which are the digest that the reference machine
  computes for the blob on a host, over the memory of the key.\<close>

theorem program_commits_reference_digest:
  assumes "digest_length hash" "rejection_ends (hash 64)"
    and "read_vec stdin = Some (key, rest)" "read_vec rest = Some (blob, rest')" "env \<noteq> No_env"
  shows "\<exists>memory digest. light hash key = Some memory \<and> program_main hash read_vec stdin = Some digest \<and>
    length digest = 32 \<and> (\<exists>vm. calculate_hash hash blob (new_vm memory env) = Some (digest, vm))"
proof -
  obtain m where m: "light hash key = Some \<lparr> seed_memory = m \<rparr>" "vm_memory_ok \<lparr> seed_memory = m \<rparr>"
    using light_returns [OF assms(1,2)] by blast
  let ?vm = "new_vm \<lparr> seed_memory = m \<rparr>"
  have mem: "vm_memory_ok (mem (?vm e))" for e using m(2) by (simp add: new_vm_def)
  obtain digest vm' where d: "calculate_hash_impl hash blob (?vm No_env) = Some (digest, vm')" "length digest = 32"
    using calculate_hash_impl_ok [OF assms(1) new_vm_ok mem] by blast
  then have main: "program_main hash read_vec stdin = Some digest"
    using assms(3,4) m(1) by (simp add: program_main_def sp1_hash_def RANDOMX_HASH_SIZE_def)
  have g: "guest (mem_reg (?vm env)) (?vm env) = ?vm No_env" by (simp add: guest_def new_vm_def)
  have "fp_env (?vm env) \<noteq> No_env" using assms(5) by (simp add: new_vm_def)
  then have "\<exists>vm. calculate_hash hash blob (?vm env) = Some (digest, vm)"
    using hash_lockstep [OF assms(1) new_vm_ok mem, of env blob "mem_reg (?vm env)", unfolded g] d(1) by fastforce
  then show ?thesis using m(1) main d(2) by auto
qed

theorem program_commits_reference_digest_witness:
  "\<exists>memory digest. light (\<lambda>n x. replicate n 7) [1, 2] = Some memory \<and>
    program_main (\<lambda>n x. replicate n 7) (\<lambda>s. case s of [] \<Rightarrow> None | v # s' \<Rightarrow> Some (v, s')) [[1, 2], [3]] = Some digest \<and>
    length digest = 32 \<and> (\<exists>vm. calculate_hash (\<lambda>n x. replicate n 7) [3] (new_vm memory (Mxcsr 0x1f80)) = Some (digest, vm))"
  by (rule program_commits_reference_digest [OF const_digest, where rest = "[[3]]" and rest' = "[]"]) simp_all

text \<open>The probes commit 32 bytes; the last word of the cache probe is the number of superscalar
  programs.\<close>

lemma probes_return:
  assumes "digest_length hash" "rejection_ends (hash 64)"
  shows "\<exists>w. cache_probe hash = Some (w @ to_le_bytes 8 (8 :: u64)) \<and> length w = 24"
    "\<exists>digest. no_memory_probe hash = Some digest \<and> length digest = 32"
proof -
  obtain m where m: "light hash RANDOMX_SEED = Some \<lparr> seed_memory = m \<rparr>" "vm_memory_ok \<lparr> seed_memory = m \<rparr>"
    "length (sm_programs m) = 8"
    using light_returns [OF assms] by blast
  then have b: "length (sm_blocks m) = 262144" "blocks_ok (sm_blocks m)"
    by (auto simp: vm_memory_ok_def seed_memory_ok_def)
  then have len: "length (sm_blocks m ! i) = 128" if "i < 262144" for i
    using that by (simp add: blocks_ok_def)
  have w: "Option.bind (arr_get (sm_blocks m) i) (\<lambda>b. Option.bind (arr_get b k) f) = f (sm_blocks m ! i ! k)"
    if "i < 262144" "k < 128" for i k and f :: "u64 \<Rightarrow> u8 list option"
    using that b(1) len [OF that(1)] by (simp add: arr_get_def)
  let ?w = "\<lambda>i k. to_le_bytes 8 (sm_blocks m ! i ! k)"
  have "sm_blocks m \<noteq> []" using b(1) by auto
  then have "cache_probe hash = Some ((?w 0 0 @ ?w 131072 64 @ ?w 262143 127) @ to_le_bytes 8 (8 :: u64))"
    using m(1,3) b(1)
    by (simp add: cache_probe_def blocks_def program_count_def block_index_def w Let_def del: arr_simps)
  then show "\<exists>w. cache_probe hash = Some (w @ to_le_bytes 8 (8 :: u64)) \<and> length w = 24"
    by (intro exI conjI) (assumption, simp)
  have "vm_memory_ok (mem (new_vm VmMemory_no_memory No_env))"
    using no_memory_ok by (simp add: new_vm_def vm_memory_ok_def VmMemory_no_memory_def)
  then show "\<exists>digest. no_memory_probe hash = Some digest \<and> length digest = 32"
    using calculate_hash_impl_ok [OF assms(1) new_vm_ok, of VmMemory_no_memory No_env HASHING_BLOB]
    by (auto simp: no_memory_probe_def hash_with_vm_for_audit_def)
qed

end
