(* ===== verification/MachineReuse.thy ===== *)
theory MachineReuse
  imports Differential GuestPrograms
begin

text \<open>
  A machine can be used for many hashes. The registers, program counter and rounding mode that an
  earlier hash left do not matter: every iteration loads the floating-point registers before it uses
  them and set-up overwrites the rest. Hence the validation of the fixtures, which hashes twenty
  blocks on the same two machines, accepts exactly the fixtures whose expected hashes are those of a
  fresh reference machine; its comparison of the two machines never fails.
\<close>

section \<open>The first iteration forgets the floating-point registers\<close>

definition with_left :: "m128d list \<Rightarrow> m128d list \<Rightarrow> int \<Rightarrow> Vm \<Rightarrow> Vm" where
  "with_left fs es t vm = vm\<lparr> reg := (reg vm)\<lparr> reg_f := fs, reg_e := es \<rparr>, vm_pc := t \<rparr>"

lemma four_elements: "length xs = 4 \<Longrightarrow> \<exists>a b c d. xs = [a, b, c, d]"
  by (auto simp: numeral_eq_Suc length_Suc_conv)

lemma load_r_left:
  "foldl_option (load_r a) xs (with_left fs es t vm) = map_option (with_left fs es t) (foldl_option (load_r a) xs vm)"
  by (rule foldl_option_commute) (simp add: load_r_def with_left_def arr_get_def arr_set_def)

lemma load_f_left:
  assumes "length fs = 4" "length (reg_f (reg vm)) = 4"
  shows "foldl_option (load_f a) [0..<MAX_FLOAT_REG] (with_left fs es t vm) =
    map_option (\<lambda>s. with_left (reg_f (reg s)) es t s) (foldl_option (load_f a) [0..<MAX_FLOAT_REG] vm)"
proof -
  obtain f0 f1 f2 f3 g0 g1 g2 g3 where "fs = [f0, f1, f2, f3]" "reg_f (reg vm) = [g0, g1, g2, g3]"
    using assms four_elements by metis
  then show ?thesis
    by (simp add: MAX_FLOAT_REG_def upt_rec load_f_def with_left_def arr_get_def arr_set_def)
qed

lemma load_e_left:
  assumes "length es = 4" "length (reg_e (reg vm)) = 4" "length (e_mask (config vm)) = 2"
  shows "foldl_option (load_e a) [0..<MAX_FLOAT_REG] (with_left fs es t vm) =
    map_option (\<lambda>s. with_left fs (reg_e (reg s)) t s) (foldl_option (load_e a) [0..<MAX_FLOAT_REG] vm)"
proof -
  obtain f0 f1 f2 f3 g0 g1 g2 g3 where "es = [f0, f1, f2, f3]" "reg_e (reg vm) = [g0, g1, g2, g3]"
    using assms(1,2) four_elements by metis
  then show ?thesis
    using assms(3)
    by (simp add: MAX_FLOAT_REG_def upt_rec load_e_def with_left_def arr_get_def arr_set_def
        mask_register_exponent_mantissa_def)
qed

lemma load_registers_left:
  assumes "vm_good vm" "length fs = 4" "length es = 4" "a0 + 8 \<le> 262144" "a1 + 8 \<le> 262144"
  shows "load_registers a0 a1 (with_left fs es t vm) = map_option (\<lambda>s. s\<lparr> vm_pc := t \<rparr>) (load_registers a0 a1 vm)"
proof -
  obtain vm1 where vm1: "foldl_option (load_r a0) [0..<MAX_REG] vm = Some vm1" "vm_good vm1"
    using foldl_option_keeps [where P = vm_good, OF assms(1), of "[0..<MAX_REG]" "load_r a0"] load_steps_ok(1) assms(4)
    by (auto simp: MAX_REG_def)
  obtain vm2 where vm2: "foldl_option (load_f a1) [0..<MAX_FLOAT_REG] vm1 = Some vm2" "vm_good vm2"
    using foldl_option_keeps [where P = vm_good, OF vm1(2), of "[0..<MAX_FLOAT_REG]" "load_f a1"] load_steps_ok(2) assms(5)
    by (auto simp: MAX_FLOAT_REG_def)
  have "length (e_mask (config vm2)) = 2" using vm_good_sizes(6) [OF vm2(2)] by (simp add: vm_ok_def)
  moreover have "with_left (reg_f (reg vm2)) (reg_e (reg s)) t s = s\<lparr> vm_pc := t \<rparr>"
    if "foldl_option (load_e a1) [0..<MAX_FLOAT_REG] vm2 = Some s" for s
    using load_e_keeps_f [OF that] by (simp add: with_left_def)
  ultimately show ?thesis
    using vm1(1) vm2(1) load_f_left [OF assms(2) vm_good_sizes(2) [OF vm1(2)]]
      load_e_left [OF assms(3) vm_good_sizes(3) [OF vm2(2)]]
    by (cases "foldl_option (load_e a1) [0..<MAX_FLOAT_REG] vm2") (simp_all add: load_registers_def load_r_left)
qed

lemma run_iteration_left:
  assumes "vm_good vm" "length fs = 4" "length es = 4"
  shows "run_iteration prog sp (with_left fs es t vm) = run_iteration prog sp vm"
proof -
  obtain a0 a1 where a: "sp_addresses sp vm = Some (a0, a1)" "unat a0 + 8 \<le> 262144" "unat a1 + 8 \<le> 262144"
    using sp_addresses_ok [OF assms(1)] by blast
  have "sp_addresses sp (with_left fs es t vm) = sp_addresses sp vm" by (simp add: sp_addresses_def with_left_def case_prod_beta)
  moreover obtain vm1 where "load_registers (unat a0) (unat a1) vm = Some vm1"
    using load_registers_ok [OF assms(1) a(2,3)] by blast
  ultimately show ?thesis using a(1) load_registers_left [OF assms a(2,3), of t] by (simp add: run_iteration_def)
qed

section \<open>A hash does not depend on earlier hashes\<close>

definition same_ground :: "Vm \<Rightarrow> Vm \<Rightarrow> bool" where
  "same_ground vm w \<longleftrightarrow> scratchpad w = scratchpad vm \<and> mem w = mem vm \<and> rounding_mode w = rounding_mode vm \<and> fp_env w = fp_env vm"

lemma run_same_ground:
  assumes "vm_good vm" "vm_good w" "same_ground vm w"
  shows "run sd w = run sd vm"
proof -
  obtain prog where prog: "from_bytes (gen_program_aes_4rx4 sd 136) = Some prog" "length (p_entropy prog) = 16"
    using from_bytes_ok [of "gen_program_aes_4rx4 sd 136"] length_gen_program_aes_4rx4 by auto
  obtain vm1 where vm1: "init_vm (p_entropy prog) vm = Some vm1" "vm_good vm1"
    using init_vm_ok [OF prog(2) assms(1)] by blast
  have "w = with_left (reg_f (reg w)) (reg_e (reg w)) (vm_pc w)
      (vm\<lparr> reg := (reg vm)\<lparr> reg_r := reg_r (reg w), reg_a := reg_a (reg w) \<rparr>, mem_reg := mem_reg w, config := config w,
        dataset_offset := dataset_offset w \<rparr>)"
    using assms(3) by (simp add: with_left_def same_ground_def)
  then have "init_vm (p_entropy prog) w = Some (with_left (reg_f (reg w)) (reg_e (reg w)) (vm_pc w) vm1)"
    using vm1(1) prog(2) assms(3) by (auto simp: init_vm_def with_left_def same_ground_def)
  moreover have "run_iteration p sp (with_left (reg_f (reg w)) (reg_e (reg w)) (vm_pc w) vm1) = run_iteration p sp vm1" for p sp
    using run_iteration_left [OF vm1(2)] vm_good_sizes(2,3) [OF assms(2)] by blast
  moreover have "mem_reg (with_left fs es t v) = mem_reg v" for fs es t v by (simp add: with_left_def)
  moreover have "run_iterations p RANDOMX_PROGRAM_ITERATIONS sp v =
      Option.bind (run_iteration p sp v) (run_iterations p 2047 (0, 0))" for p sp v
    using run_iterations.simps(2) [of p 2047 sp v] by (simp add: RANDOMX_PROGRAM_ITERATIONS_def)
  ultimately show ?thesis using prog(1) vm1(1) by (simp add: run_def)
qed

lemma calculate_hash_reuse:
  assumes "vm_ok vm" "vm_ok w" "vm_memory_ok (mem vm)" "mem w = mem vm"
    and "set_rounding_mode_env 0 (fp_env w) = set_rounding_mode_env 0 (fp_env vm)"
  shows "calculate_hash hash input w =
    map_option (\<lambda>(digest, v). (digest, v\<lparr> fp_env := fp_env w \<rparr>)) (calculate_hash hash input vm)"
proof (cases "hash_to_m128i_array (hash 64 input)")
  case (Some sd)
  obtain sd1 pad where pad: "init_scratchpad sd vm = Some (sd1, vm\<lparr> scratchpad := pad \<rparr>)" "length pad = 262144"
    using init_scratchpad_returns [OF assms(1)] by blast
  have "length (scratchpad w) = length (scratchpad vm)" using assms(1,2) by (simp add: vm_ok_def)
  moreover obtain p where p: "fill_aes_1rx4_u64 sd (length (scratchpad vm)) = Some (p, sd1)"
    "vm\<lparr> scratchpad := p \<rparr> = vm\<lparr> scratchpad := pad \<rparr>"
    using pad(1) by (auto simp: init_scratchpad_def bind_eq_Some_conv)
  moreover have "p = pad" using arg_cong [OF p(2), of scratchpad] by simp
  ultimately have padw: "init_scratchpad sd w = Some (sd1, w\<lparr> scratchpad := pad \<rparr>)" by (simp add: init_scratchpad_def)
  let ?vm = "reset_rounding_mode (vm\<lparr> scratchpad := pad \<rparr>)" and ?w = "reset_rounding_mode (w\<lparr> scratchpad := pad \<rparr>)"
  have "vm_ok (vm\<lparr> scratchpad := pad \<rparr>)" "vm_ok (w\<lparr> scratchpad := pad \<rparr>)" using assms(1,2) pad(2) by (simp_all add: vm_ok_def)
  then have "vm_good ?vm" "vm_good ?w" using reset_rounding_mode_ok assms(3,4) by simp_all
  moreover have "same_ground ?vm ?w" using assms(4,5) by (simp add: same_ground_def reset_rounding_mode_def)
  ultimately have "run sd' ?w = run sd' ?vm" for sd' by (rule run_same_ground)
  then have "run_programs hash 7 sd1 ?w = run_programs hash 7 sd1 ?vm"
    by (simp only: eval_nat_numeral run_programs.simps)
  then show ?thesis
    using Some pad(1) padw
    by (simp add: calculate_hash_def RANDOMX_PROGRAM_COUNT_def case_prod_unfold Let_def map_option_bind_guest)
qed (simp add: calculate_hash_def)

section \<open>The two machines of the validation\<close>

definition pair_inv :: "VmMemory \<Rightarrow> FpEnv \<Rightarrow> Vm \<times> Vm \<Rightarrow> bool" where
  "pair_inv memory env = (\<lambda>(r, c). vm_ok r \<and> vm_ok c \<and> mem r = memory \<and> mem c = memory \<and> fp_env r \<noteq> No_env \<and>
     set_rounding_mode_env 0 (fp_env r) = set_rounding_mode_env 0 env)"

text \<open>One input hashed by both machines, whatever they hashed before: the digest and the final state of
  a fresh reference machine.\<close>

lemma pair_hashes:
  assumes "digest_length hash" "vm_memory_ok memory" "env \<noteq> No_env" "pair_inv memory env (r, c)"
    and "calculate_hash hash blob (new_vm memory env) = Some (digest, vm)"
  shows "calculate_hash hash blob r = Some (digest, vm\<lparr> fp_env := fp_env r \<rparr>)"
    and "calculate_hash_impl hash blob (c\<lparr> fp_env := fp_env r \<rparr>) = Some (digest, vm\<lparr> fp_env := fp_env r \<rparr>)"
    and "vm_ok vm \<and> mem vm = memory"
proof -
  have inv: "vm_ok r" "vm_ok c" "mem r = memory" "mem c = memory" "fp_env r \<noteq> No_env"
    "set_rounding_mode_env 0 (fp_env r) = set_rounding_mode_env 0 env"
    using assms(4) by (simp_all add: pair_inv_def)
  let ?c = "c\<lparr> fp_env := fp_env r \<rparr>"
  have fresh: "vm_ok (new_vm memory env)" "mem (new_vm memory env) = memory" "fp_env (new_vm memory env) = env"
    using new_vm_ok by (simp_all add: new_vm_def)
  have okc: "vm_ok ?c" using inv(2) by (simp add: vm_ok_sync_irrelevant)
  show "calculate_hash hash blob r = Some (digest, vm\<lparr> fp_env := fp_env r \<rparr>)"
    using calculate_hash_reuse [OF fresh(1) inv(1), of hash blob] assms(2,5) fresh inv by simp
  have "calculate_hash hash blob ?c = Some (digest, vm\<lparr> fp_env := fp_env r \<rparr>)"
    using calculate_hash_reuse [OF fresh(1) okc, of hash blob] assms(2,5) fresh inv by simp
  moreover obtain d v where "calculate_hash hash blob ?c = Some (d, v)" "calculate_hash_impl hash blob ?c = Some (d, v)"
    using host_hashes_agree [OF assms(1) okc, of blob] assms(2) inv by auto
  ultimately show "calculate_hash_impl hash blob ?c = Some (digest, vm\<lparr> fp_env := fp_env r \<rparr>)" by simp
  show "vm_ok vm \<and> mem vm = memory"
    using calculate_hash_ok [OF assms(1) fresh(1), of blob] hash_mem(1) [OF assms(5)] assms(2,5) fresh by auto
qed

lemma compare_block_exact:
  assumes "digest_length hash" "vm_memory_ok memory" "env \<noteq> No_env" "pair_inv memory env vms"
    and "calculate_hash hash blob (new_vm memory env) = Some (digest, vm)"
  shows "if expected = digest then \<exists>vms'. compare_block hash blob expected vms = Some vms' \<and> pair_inv memory env vms'
    else compare_block hash blob expected vms = None"
proof -
  obtain r c where vms: "vms = (r, c)" by (cases vms)
  note p = pair_hashes [OF assms(1-3) assms(4) [unfolded vms] assms(5)]
  have "vm_ok (vm\<lparr> rounding_mode := 0 \<rparr>)" using p(3) by (simp add: vm_ok_def)
  then show ?thesis
    using p assms(4)
    by (auto simp: vms compare_block_def hash_with_vm_for_audit_def must_def same_final_state_def pair_inv_def
        reset_rounding_mode_def vm_ok_sync_irrelevant)
qed

section \<open>Properties\<close>

text \<open>What the validation accepts: the network, the number of blocks, the seed hash, and for each block
  the checks before the hash and the digest of a fresh reference machine.\<close>

definition accepted ::
  "(nat \<Rightarrow> u8 list \<Rightarrow> u8 list) \<Rightarrow> (u8 list \<Rightarrow> u8 list) \<Rightarrow> FpEnv \<Rightarrow> MoneroBlockFixtures \<Rightarrow> bool" where
  "accepted hash keccak env fixtures \<longleftrightarrow>
     fx_network fixtures = lit ''mainnet'' \<and> length (fx_blocks fixtures) = 20 \<and>
     (\<exists>seed memory. decode_hex 32 (fx_seed_hash fixtures) = Ok seed \<and> light hash seed = Some memory \<and>
        (\<forall>i < 20. \<exists>blob expected vm. check_block keccak fixtures i (fx_blocks fixtures ! i) = Some (blob, expected) \<and>
           calculate_hash hash blob (new_vm memory env) = Some (expected, vm)))"

lemma validation_outcome:
  assumes "digest_length hash" "rejection_ends (hash 64)" "env \<noteq> No_env"
  shows "validate_recent_mainnet_blocks hash keccak env clock (Some fixtures) =
    (if accepted hash keccak env fixtures
     then Some \<lparr> vs_blocks = 20, first_height = fx_height (fx_blocks fixtures ! 0),
       last_height = fx_height (fx_blocks fixtures ! 0) + 19, elapsed = clock \<rparr>
     else None)"
proof (cases "fx_network fixtures = lit ''mainnet'' \<and> length (fx_blocks fixtures) = 20 \<and>
    (\<exists>seed. decode_hex 32 (fx_seed_hash fixtures) = Ok seed)")
  case True
  then obtain seed where seed: "decode_hex 32 (fx_seed_hash fixtures) = Ok seed" by blast
  obtain memory where memory: "light hash seed = Some memory" "vm_memory_ok memory"
    using light_returns [OF assms(1,2)] by blast
  have nonempty: "fx_blocks fixtures \<noteq> []" using True by auto
  let ?body = "\<lambda>(index, block) vms. do { (blob, expected) \<leftarrow> check_block keccak fixtures index block;
    compare_block hash blob expected vms }"
  let ?good = "\<lambda>(index, block). \<exists>blob expected vm. check_block keccak fixtures index block = Some (blob, expected) \<and>
    calculate_hash hash blob (new_vm memory env) = Some (expected, vm)"
  let ?xs = "List.enumerate 0 (fx_blocks fixtures)" and ?start = "(new_vm memory env, new_vm memory env)"
  have fresh: "vm_ok (new_vm memory env)" "mem (new_vm memory env) = memory" "fp_env (new_vm memory env) = env"
    using new_vm_ok by (simp_all add: new_vm_def)
  have start: "pair_inv memory env ?start" using fresh assms(3) by (simp add: pair_inv_def)
  have step: "if ?good x then \<exists>s'. ?body x s = Some s' \<and> pair_inv memory env s' else ?body x s = None"
    if "pair_inv memory env s" for x s
  proof (cases "check_block keccak fixtures (fst x) (snd x)")
    case (Some be)
    obtain d vm where d: "calculate_hash hash (fst be) (new_vm memory env) = Some (d, vm)"
      using calculate_hash_ok [OF assms(1) fresh(1), of "fst be"] memory(2) fresh(2) by auto
    show ?thesis
      using compare_block_exact [OF assms(1) memory(2) assms(3) that d, of "snd be"] Some d
      by (cases x; cases be) auto
  qed (cases x, simp)
  have all: "(\<forall>x \<in> set ?xs. ?good x) \<longleftrightarrow> accepted hash keccak env fixtures"
    using True seed memory(1) by (force simp: accepted_def in_set_enumerate_eq set_conv_nth nth_enumerate_eq)
  note loop = foldl_option_exact [where f = ?body and good = ?good and xs = ?xs, OF step start]
  have last: "fx_height (fx_blocks fixtures ! 19) = fx_height (fx_blocks fixtures ! 0) + 19" if "accepted hash keccak env fixtures"
  proof -
    have "\<forall>i < 20. \<exists>be. check_block keccak fixtures i (fx_blocks fixtures ! i) = Some be"
      using that unfolding accepted_def by blast
    then obtain be where "check_block keccak fixtures 19 (fx_blocks fixtures ! 19) = Some be"
      by (auto dest!: spec [of _ 19])
    then show ?thesis using True by (auto simp: check_block_def bind_eq_Some_conv arr_get_def)
  qed
  show ?thesis
  proof (cases "accepted hash keccak env fixtures")
    case acc: True
    then obtain vms' where "foldl_option ?body ?xs ?start = Some vms'" using loop all by auto
    then show ?thesis
      using True seed memory(1) acc last [OF acc] nonempty by (simp add: validate_recent_mainnet_blocks_def arr_get_def must_def)
  next
    case acc: False
    then have "foldl_option ?body ?xs ?start = None" using loop all by auto
    then show ?thesis
      using True seed memory(1) acc by (simp add: validate_recent_mainnet_blocks_def arr_get_def must_def)
  qed
next
  case False
  then have "\<not> accepted hash keccak env fixtures" by (auto simp: accepted_def)
  then show ?thesis using False
    by (cases "decode_hex 32 (fx_seed_hash fixtures)") (auto simp: validate_recent_mainnet_blocks_def must_def)
qed

text \<open>C27: on a host the validation of the fixtures returns its summary for exactly the fixtures whose
  network, length, seed hash and per-block checks are right and whose expected proof-of-work hashes
  are the digests of a fresh reference machine. In particular the compact machine never disagrees,
  and reusing both machines for all twenty blocks does not change a digest.\<close>

theorem validation_exact:
  assumes "digest_length hash" "rejection_ends (hash 64)" "env \<noteq> No_env"
  shows "validate_recent_mainnet_blocks hash keccak env clock (Some fixtures) =
    (if accepted hash keccak env fixtures
     then Some \<lparr> vs_blocks = 20, first_height = fx_height (fx_blocks fixtures ! 0),
       last_height = fx_height (fx_blocks fixtures ! 0) + 19, elapsed = clock \<rparr>
     else None)"
  by (rule validation_outcome [OF assms])

text \<open>The test of \<open>network_fixtures.rs\<close>; the fixtures are compiled into the crate.\<close>

definition twenty_recent_mainnet_blocks_match_fixed_pow_hashes ::
  "(nat \<Rightarrow> u8 list \<Rightarrow> u8 list) \<Rightarrow> (u8 list \<Rightarrow> u8 list) \<Rightarrow> FpEnv \<Rightarrow> nat \<Rightarrow> MoneroBlockFixtures \<Rightarrow> unit option" where
  "twenty_recent_mainnet_blocks_match_fixed_pow_hashes hash keccak env clock fixtures =
     do { summary \<leftarrow> validate_recent_mainnet_blocks hash keccak env clock (Some fixtures);
          must (vs_blocks summary = 20);
          must (last_height summary - first_height summary = 19) }"

lemma fixture_test_exact:
  assumes "digest_length hash" "rejection_ends (hash 64)" "env \<noteq> No_env"
  shows "twenty_recent_mainnet_blocks_match_fixed_pow_hashes hash keccak env clock fixtures =
    must (accepted hash keccak env fixtures)"
  using validation_outcome [OF assms, of keccak clock fixtures]
  by (simp add: twenty_recent_mainnet_blocks_match_fixed_pow_hashes_def must_def)

text \<open>An accepted fixture, for constant hash functions.\<close>

definition sample_block :: "nat \<Rightarrow> MoneroBlockFixture" where
  "sample_block i =
     \<lparr> fx_height = of_nat i, fx_block_id = encode_hex (replicate 32 1), fx_prev_hash = encode_hex (replicate 32 1),
       fx_timestamp = 0, fx_wide_difficulty = lit ''0x1'', fx_hashing_blob = encode_hex [3],
       fx_pow_hash = encode_hex (replicate 32 7) \<rparr>"

definition sample_fixtures :: MoneroBlockFixtures where
  "sample_fixtures =
     \<lparr> fx_network = lit ''mainnet'', fx_rpc_endpoint = [], fx_seed_height = 0, fx_seed_hash = encode_hex (replicate 32 2),
       fx_blocks = map sample_block [0..<20] \<rparr>"

lemma sample_accepted: "accepted (\<lambda>n x. replicate n 7) (\<lambda>x. replicate 32 1) (Mxcsr 0x1f80) sample_fixtures"
proof -
  let ?hash = "\<lambda>n (x :: u8 list). replicate n (7 :: u8)" and ?keccak = "\<lambda>x :: u8 list. replicate 32 (1 :: u8)"
  obtain memory where memory: "light ?hash (replicate 32 2) = Some memory" "vm_memory_ok memory"
    using light_returns [OF const_digest] by blast
  have "vm_ok (new_vm memory (Mxcsr 0x1f80))" "mem (new_vm memory (Mxcsr 0x1f80)) = memory"
    using new_vm_ok by (simp_all add: new_vm_def)
  then obtain d vm where d: "calculate_hash ?hash [3] (new_vm memory (Mxcsr 0x1f80)) = Some (d, vm)"
    using calculate_hash_ok [OF const_digest(1), of _ "[3]"] memory(2) by metis
  have "d = replicate 32 7" using d by (auto simp: calculate_hash_def bind_eq_Some_conv Let_def RANDOMX_HASH_SIZE_def)
  moreover have "check_block ?keccak sample_fixtures i (sample_block i) = Some ([3], replicate 32 7)" if i: "i < 20" for i
  proof -
    have "parse_wide_difficulty (lit ''0x1'') = Ok 1"
      by (simp add: parse_wide_difficulty_def strip_prefix_def lit_def from_str_radix_def to_digit_def checked_mul_def
          checked_add_def)
    moreover have "meets_difficulty (replicate 32 7) 1"
      using meets_difficulty_iff [of "replicate 32 7" 1] le_value_less [of "replicate 32 7"] by simp
    moreover have "(of_nat i :: u64) \<le> 2048 + 64" using i by (simp add: word_le_nat_alt unat_of_nat)
    moreover have "i - Suc 0 < 20" using i by simp
    ultimately show ?thesis
      using i decode_hex_encode [of "[3]"] decode_hex_encode [of "replicate 32 7"]
      by (simp add: check_block_def sample_fixtures_def sample_block_def arr_get_def randomx_seed_height_def
          blob_object_hash_def cn_fast_hash_def Let_def decode_hex_vec_eq [THEN iffD2])
  qed
  moreover have "decode_hex 32 (encode_hex (replicate 32 2)) = Ok (replicate 32 2)"
    using decode_hex_encode [of "replicate 32 2"] by simp
  ultimately show ?thesis
    using memory(1) d unfolding accepted_def by (auto simp: sample_fixtures_def)
qed

theorem validation_exact_witness:
  "validate_recent_mainnet_blocks (\<lambda>n x. replicate n 7) (\<lambda>x. replicate 32 1) (Mxcsr 0x1f80) 5 (Some sample_fixtures) =
     Some \<lparr> vs_blocks = 20, first_height = 0, last_height = 19, elapsed = 5 \<rparr> \<and>
   validate_recent_mainnet_blocks (\<lambda>n x. replicate n 7) (\<lambda>x. replicate 32 1) (Mxcsr 0x1f80) 5
     (Some (sample_fixtures\<lparr> fx_blocks := [] \<rparr>)) = None"
  using validation_exact [OF const_digest, of "Mxcsr 0x1f80" "\<lambda>x. replicate 32 1" 5 sample_fixtures] sample_accepted
    validation_exact [OF const_digest, of "Mxcsr 0x1f80" "\<lambda>x. replicate 32 1" 5 "sample_fixtures\<lparr> fx_blocks := [] \<rparr>"]
  by (simp add: sample_fixtures_def sample_block_def accepted_def)

end
