(* ===== verification/SoftfpTests.thy ===== *)
theory SoftfpTests
  imports SoftfpGuest
begin

text \<open>
  Model of the test module of \<open>softfp/src/lib.rs\<close>, one definition per test; \<open>None\<close> is a failed
  assertion. The tests compare the library with the Berkeley softfloat package, which is the
  parameter \<open>float_oracle\<close>; its documented behaviour is that it returns the IEEE 754 result
  (\<open>oracle_ieee\<close>, required only where that result is not a NaN). All tests pass; the randomised one
  does so for every number of cases and every seed, because it stays in the domains of the
  correctness theorems.
\<close>

section \<open>The oracle\<close>

datatype OracleMode = TiesToEven | TowardNegative | TowardPositive | Oracle_TowardZero

record float_oracle =
  oracle_add :: "u64 \<Rightarrow> u64 \<Rightarrow> OracleMode \<Rightarrow> u64"
  oracle_sub :: "u64 \<Rightarrow> u64 \<Rightarrow> OracleMode \<Rightarrow> u64"
  oracle_mul :: "u64 \<Rightarrow> u64 \<Rightarrow> OracleMode \<Rightarrow> u64"
  oracle_div :: "u64 \<Rightarrow> u64 \<Rightarrow> OracleMode \<Rightarrow> u64"
  oracle_root :: "u64 \<Rightarrow> OracleMode \<Rightarrow> u64"

primrec oracle_mode :: "RoundingMode \<Rightarrow> OracleMode" where
  "oracle_mode Nearest = TiesToEven"
| "oracle_mode Down = TowardNegative"
| "oracle_mode Up = TowardPositive"
| "oracle_mode TowardZero = Oracle_TowardZero"

definition oracle2 :: "float_oracle \<Rightarrow> char \<Rightarrow> u64 \<Rightarrow> u64 \<Rightarrow> RoundingMode \<Rightarrow> u64 option" where
  "oracle2 lib op a b mode =
     (if op = CHR ''+'' then Some (oracle_add lib a b (oracle_mode mode))
      else if op = CHR ''-'' then Some (oracle_sub lib a b (oracle_mode mode))
      else if op = CHR ''*'' then Some (oracle_mul lib a b (oracle_mode mode))
      else if op = CHR ''/'' then Some (oracle_div lib a b (oracle_mode mode))
      else None)"

definition oracle_sqrt :: "float_oracle \<Rightarrow> u64 \<Rightarrow> RoundingMode \<Rightarrow> u64" where
  "oracle_sqrt lib a mode = oracle_root lib a (oracle_mode mode)"

text \<open>The documented behaviour of the package.\<close>

definition oracle_ieee :: "float_oracle \<Rightarrow> bool" where
  "oracle_ieee lib \<longleftrightarrow> (\<forall>a b m.
     (\<not> f64_nan (f64_add m a b) \<longrightarrow> oracle_add lib a b (oracle_mode m) = f64_add m a b) \<and>
     (\<not> f64_nan (f64_sub m a b) \<longrightarrow> oracle_sub lib a b (oracle_mode m) = f64_sub m a b) \<and>
     (\<not> f64_nan (f64_mul m a b) \<longrightarrow> oracle_mul lib a b (oracle_mode m) = f64_mul m a b) \<and>
     (\<not> f64_nan (f64_div m a b) \<longrightarrow> oracle_div lib a b (oracle_mode m) = f64_div m a b) \<and>
     (\<not> f64_nan (f64_sqrt m a) \<longrightarrow> oracle_root lib a (oracle_mode m) = f64_sqrt m a))"

section \<open>The tests\<close>

definition validated_fprc_conversion_matches_checked_conversion :: "unit option" where
  "validated_fprc_conversion_matches_checked_conversion =
     for_each (\<lambda>value. do { validated \<leftarrow> from_valid_fprc value; must (validated = from_fprc value) }) [0, 1, 2, 3]"

text \<open>The modes and vectors are those of the guest program.\<close>

definition official_randomx_vectors :: "unit option" where
  "official_randomx_vectors =
     for_each (\<lambda>(index, mode). do {
       must (add2 add_a add_b mode = add_expected ! index);
       must (mul2 mul_a mul_b mode = mul_expected ! index);
       must (div2 div_a div_b mode = div_expected ! index);
       must (sqrt2 sqrt_a mode = sqrt_expected ! index) }) (List.enumerate 0 guest_modes)"

text \<open>The generator \<open>next\<close>: the new state is also the returned number.\<close>

definition xorshift :: "u64 \<Rightarrow> u64" where
  "xorshift state =
     (let state = state XOR drop_bit 12 state;
          state = state XOR push_bit 25 state;
          state = state XOR drop_bit 27 state
      in state * 0x2545f4914f6cdd1d)"

definition compare_case :: "float_oracle \<Rightarrow> u64 \<Rightarrow> u64 \<Rightarrow> RoundingMode \<Rightarrow> unit option" where
  "compare_case lib a b mode =
     do { expected_add \<leftarrow> oracle2 lib (CHR ''+'') a b mode;
          (if expected_add AND EXP_MASK \<noteq> 0 then must (softfp_add a b mode = expected_add) else Some ());
          expected_sub \<leftarrow> oracle2 lib (CHR ''-'') a b mode;
          (if expected_sub AND EXP_MASK \<noteq> 0 then must (softfp_sub a b mode = expected_sub) else Some ());
          expected_mul \<leftarrow> oracle2 lib (CHR ''*'') a b mode;
          (if expected_mul AND EXP_MASK \<noteq> 0 then must (softfp_mul a b mode = expected_mul) else Some ());
          expected_div \<leftarrow> oracle2 lib (CHR ''/'') a b mode;
          (if expected_div AND EXP_MASK \<noteq> 0 then must (softfp_div a b mode = expected_div) else Some ());
          let positive_a = a AND ABS_MASK;
          must (softfp_sqrt positive_a mode = oracle_sqrt lib positive_a mode) }"

definition random_operand :: "u64 \<Rightarrow> u64 \<Rightarrow> u64" where
  "random_operand bits exponent = (bits AND (SIGN_MASK OR FRAC_MASK)) OR push_bit 52 exponent"

definition random_case :: "float_oracle \<Rightarrow> u64 \<Rightarrow> u64 option" where
  "random_case lib state =
     (let state_1 = xorshift state; exponent_a = 700 + state_1 mod 600;
          state_2 = xorshift state_1; exponent_b = 700 + state_2 mod 600;
          state_3 = xorshift state_2; a = random_operand state_3 exponent_a;
          state_4 = xorshift state_3; b = random_operand state_4 exponent_b
      in map_option (\<lambda>_. state_4) (for_each (compare_case lib a b) guest_modes))"

definition random_cases :: "float_oracle \<Rightarrow> nat \<Rightarrow> u64 \<Rightarrow> u64 option" where
  "random_cases lib n state = foldl_option (\<lambda>_. random_case lib) [0..<n] state"

definition randomized_randomx_domain_matches_berkeley_softfloat :: "float_oracle \<Rightarrow> unit option" where
  "randomized_randomx_domain_matches_berkeley_softfloat lib =
     map_option (\<lambda>_. ()) (random_cases lib 20000 0x9e3779b97f4a7c15)"

definition exact_cancellation_has_ieee_sign :: "unit option" where
  "exact_cancellation_has_ieee_sign =
     do { must (softfp_add one_bits minus_one_bits Down = SIGN_MASK);
          must (softfp_add one_bits minus_one_bits Up = 0);
          must (softfp_sub one_bits one_bits Down = SIGN_MASK);
          must (softfp_sub one_bits one_bits TowardZero = 0) }"

definition actual2 :: "char \<Rightarrow> u64 \<Rightarrow> u64 \<Rightarrow> RoundingMode \<Rightarrow> u64 option" where
  "actual2 op a b mode =
     (if op = CHR ''+'' then Some (softfp_add a b mode)
      else if op = CHR ''-'' then Some (softfp_sub a b mode)
      else if op = CHR ''*'' then Some (softfp_mul a b mode)
      else if op = CHR ''/'' then Some (softfp_div a b mode)
      else None)"

definition max_bits :: u64 where "max_bits = 0x7fefffffffffffff"
definition two_bits :: u64 where "two_bits = 0x4000000000000000"
definition half_bits :: u64 where "half_bits = 0x3fe0000000000000"
definition finite_bits :: u64 where "finite_bits = 0x3ff8000000000000"
definition negative_finite_bits :: u64 where "negative_finite_bits = 0xbff8000000000000"

definition overflow_cases :: "(char \<times> u64 \<times> u64) list" where
  "overflow_cases =
     (let negative_max = max_bits OR SIGN_MASK in
      [(CHR ''+'', max_bits, max_bits), (CHR ''+'', negative_max, negative_max),
       (CHR ''-'', max_bits, negative_max), (CHR ''-'', negative_max, max_bits),
       (CHR ''*'', max_bits, two_bits), (CHR ''*'', negative_max, two_bits),
       (CHR ''/'', max_bits, half_bits), (CHR ''/'', negative_max, half_bits)])"

definition finite_input_overflow_matches_berkeley_softfloat :: "float_oracle \<Rightarrow> unit option" where
  "finite_input_overflow_matches_berkeley_softfloat lib =
     for_each (\<lambda>mode. for_each (\<lambda>(op, a, b). do {
       expected \<leftarrow> oracle2 lib op a b mode;
       actual \<leftarrow> actual2 op a b mode;
       must (actual = expected) }) overflow_cases) guest_modes"

definition assert_oracle :: "float_oracle \<Rightarrow> u64 \<Rightarrow> char \<Rightarrow> u64 \<Rightarrow> u64 \<Rightarrow> RoundingMode \<Rightarrow> unit option" where
  "assert_oracle lib actual op a b mode = do { expected \<leftarrow> oracle2 lib op a b mode; must (actual = expected) }"

definition infinity_propagation_matches_berkeley_softfloat :: "float_oracle \<Rightarrow> unit option" where
  "infinity_propagation_matches_berkeley_softfloat lib =
     (let infinity = EXP_MASK; negative_infinity = SIGN_MASK OR EXP_MASK in
      for_each (\<lambda>mode. do {
        for_each (\<lambda>infinite. do {
          assert_oracle lib (softfp_add infinite finite_bits mode) (CHR ''+'') infinite finite_bits mode;
          assert_oracle lib (softfp_sub infinite finite_bits mode) (CHR ''-'') infinite finite_bits mode;
          assert_oracle lib (softfp_mul infinite finite_bits mode) (CHR ''*'') infinite finite_bits mode;
          assert_oracle lib (softfp_mul infinite negative_finite_bits mode) (CHR ''*'') infinite negative_finite_bits mode;
          assert_oracle lib (softfp_div infinite finite_bits mode) (CHR ''/'') infinite finite_bits mode;
          assert_oracle lib (softfp_div finite_bits infinite mode) (CHR ''/'') finite_bits infinite mode
        }) [infinity, negative_infinity];
        must (softfp_sqrt infinity mode = oracle_sqrt lib infinity mode) }) guest_modes)"

definition signed_zero_operands_match_berkeley_softfloat :: "float_oracle \<Rightarrow> unit option" where
  "signed_zero_operands_match_berkeley_softfloat lib =
     (let zeros = [0, SIGN_MASK];
          finite = [0, SIGN_MASK, one_bits, minus_one_bits, 0x0010000000000000, 0x8010000000000000] in
      for_each (\<lambda>mode. do {
        for_each (\<lambda>a. for_each (\<lambda>z. do {
          assert_oracle lib (softfp_add a z mode) (CHR ''+'') a z mode;
          assert_oracle lib (softfp_add z a mode) (CHR ''+'') z a mode;
          assert_oracle lib (softfp_sub a z mode) (CHR ''-'') a z mode;
          assert_oracle lib (softfp_sub z a mode) (CHR ''-'') z a mode;
          assert_oracle lib (softfp_mul a z mode) (CHR ''*'') a z mode;
          (if a AND ABS_MASK \<noteq> 0 then assert_oracle lib (softfp_div z a mode) (CHR ''/'') z a mode else Some ())
        }) zeros) finite;
        for_each (\<lambda>z. must (softfp_sqrt z mode = oracle_sqrt lib z mode)) zeros }) guest_modes)"

section \<open>The oracle and the library agree\<close>

lemma mk_not_nan: "m \<le> inf_index \<Longrightarrow> \<not> f64_nan (mk_f64 neg m)"
  using inf_index_lt by (simp add: order_le_less_trans)

lemma results_not_nan:
  "no_nan a b \<Longrightarrow> \<not> (f64_inf a \<and> f64_inf b) \<Longrightarrow> \<not> f64_nan (f64_add mode a b)"
  "no_nan a b \<Longrightarrow> \<not> (f64_inf a \<and> f64_inf b) \<Longrightarrow> \<not> f64_nan (f64_sub mode a b)"
  "no_nan a b \<Longrightarrow> \<not> (f64_inf a \<and> f64_idx b = 0) \<Longrightarrow> \<not> (f64_idx a = 0 \<and> f64_inf b) \<Longrightarrow> \<not> f64_nan (f64_mul mode a b)"
  "div_domain a b \<Longrightarrow> \<not> (f64_inf a \<and> f64_inf b) \<Longrightarrow> \<not> f64_nan (f64_div mode a b)"
  "\<not> f64_nan a \<Longrightarrow> \<not> f64_neg a \<or> f64_idx a = 0 \<Longrightarrow> \<not> f64_nan (f64_sqrt mode a)"
proof -
  show add: "no_nan a b \<Longrightarrow> \<not> (f64_inf a \<and> f64_inf b) \<Longrightarrow> \<not> f64_nan (f64_add mode a b)" for a b
    using mk_not_nan [OF round_mag_le_inf] mk_not_nan [of 0] by (auto simp: f64_add_def no_nan_def Let_def)
  show "no_nan a b \<Longrightarrow> \<not> (f64_inf a \<and> f64_inf b) \<Longrightarrow> \<not> f64_nan (f64_sub mode a b)"
    using add [of a "f64_negate b"] by (simp add: f64_sub_def no_nan_def)
qed (use mk_not_nan [OF round_mag_le_inf] mk_not_nan [of 0] mk_not_nan [of inf_index] in
      \<open>auto simp: f64_mul_def f64_div_def f64_sqrt_def no_nan_def div_domain_def Let_def\<close>)

lemma oracle_agrees:
  assumes "oracle_ieee lib"
  shows "no_nan a b \<Longrightarrow> \<not> (f64_inf a \<and> f64_inf b) \<Longrightarrow> oracle2 lib (CHR ''+'') a b mode = Some (softfp_add a b mode)"
    "no_nan a b \<Longrightarrow> \<not> (f64_inf a \<and> f64_inf b) \<Longrightarrow> oracle2 lib (CHR ''-'') a b mode = Some (softfp_sub a b mode)"
    "no_nan a b \<Longrightarrow> \<not> (f64_inf a \<and> f64_idx b = 0) \<Longrightarrow> \<not> (f64_idx a = 0 \<and> f64_inf b) \<Longrightarrow>
      oracle2 lib (CHR ''*'') a b mode = Some (softfp_mul a b mode)"
    "div_domain a b \<Longrightarrow> \<not> (f64_inf a \<and> f64_inf b) \<Longrightarrow> oracle2 lib (CHR ''/'') a b mode = Some (softfp_div a b mode)"
    "\<not> f64_nan a \<Longrightarrow> \<not> f64_neg a \<or> f64_idx a = 0 \<Longrightarrow> oracle_sqrt lib a mode = softfp_sqrt a mode"
  using assms results_not_nan add.op_ieee sub.op_ieee mul.op_ieee div.op_ieee softfp_sqrt_ieee
  by (simp_all add: oracle2_def oracle_sqrt_def oracle_ieee_def)

text \<open>The random operands are finite and not zero.\<close>

lemma random_operand_range:
  assumes "unat e < 1300" "0 < unat e"
  shows "f64_finite (random_operand x e)" "f64_idx (random_operand x e) \<noteq> 0"
proof -
  let ?a = "random_operand x e"
  have e11: "take_bit 11 e = e"
    using assms(1) by (simp add: take_bit_nat_eq_self word_unat_eq_iff unsigned_take_bit_eq)
  have masks: "SIGN_MASK = push_bit 63 1" "FRAC_MASK = mask 52"
    by (simp_all add: SIGN_MASK_def FRAC_MASK_def mask_eq_exp_minus_1)
  have "drop_bit 52 (take_bit 63 ?a) = take_bit 11 e"
    unfolding random_operand_def masks by (rule bit_word_eqI) (auto simp: bit_simps)
  then have "unat (take_bit 63 ?a) div 2 ^ 52 = unat e" unfolding e11 by (metis unat_drop_bit)
  moreover have "unat (take_bit 63 ?a) = f64_idx ?a" 
    by (simp only: f64_idx_def unsigned_take_bit_eq take_bit_eq_mod [of 63 "unat (random_operand x e)"])
  ultimately have d: "f64_idx ?a div 2 ^ 52 = unat e" by simp
  show "f64_finite ?a" using d assms(1) by (simp add: inf_index_def div_less_iff_less_mult [symmetric])
  show "f64_idx ?a \<noteq> 0" using d assms(2) by auto
qed

lemma random_exponent: "unat (700 + s mod 600 :: u64) < 1300" "0 < unat (700 + s mod 600 :: u64)"
proof -
  have "unat (s mod 600) < 600" by (simp add: unat_mod_distrib)
  then have "unat (700 + s mod 600) = 700 + unat (s mod 600)" by (subst unat_add_lem [THEN iffD1]) simp_all
  then show "unat (700 + s mod 600) < 1300" "0 < unat (700 + s mod 600)" using \<open>unat (s mod 600) < 600\<close> by simp_all
qed

lemma compare_case_passes:
  assumes "oracle_ieee lib" "f64_finite a" "f64_finite b" "f64_idx a \<noteq> 0" "f64_idx b \<noteq> 0"
  shows "compare_case lib a b mode = Some ()"
proof -
  have "\<not> f64_neg (a AND ABS_MASK)" using f64_idx_lt [of a] by (simp add: f64_neg_def unat_and_ABS_MASK)
  moreover have "f64_idx (a AND ABS_MASK) = f64_idx a"
    using f64_idx_lt [of a] by (simp add: f64_idx_def [of "a AND ABS_MASK"] unat_and_ABS_MASK)
  moreover have "no_nan a b" "div_domain a b" using assms by (simp_all add: no_nan_def div_domain_def)
  ultimately show ?thesis using assms by (simp add: compare_case_def oracle_agrees [OF assms(1)] Let_def)
qed

lemma random_cases_pass:
  assumes "oracle_ieee lib"
  shows "\<exists>state'. random_cases lib n state = Some state'"
proof -
  have "\<exists>s'. random_case lib s = Some s'" for s
    unfolding random_case_def Let_def
    using for_each_passes compare_case_passes [OF assms] random_operand_range [OF random_exponent] by simp
  then show ?thesis
    unfolding random_cases_def
    using foldl_option_refine [where R = "\<lambda>s t. True" and f = "\<lambda>_. random_case lib" and xs = "[0..<n]" and h = "\<lambda>x t. t"]
    by auto
qed

section \<open>All tests pass\<close>

lemma fprc_test_passes: "validated_fprc_conversion_matches_checked_conversion = Some ()"
  using from_valid_fprc_agrees
  by (simp add: validated_fprc_conversion_matches_checked_conversion_def)

lemma vector_test_passes: "official_randomx_vectors = Some ()"
  by (simp add: official_randomx_vectors_def guest_modes_def vector_add vector_mul vector_div vector_sqrt
      numeral_2_eq_2 numeral_3_eq_3)

lemma cancellation_test_passes: "exact_cancellation_has_ieee_sign = Some ()"
proof -
  have "softfp_add one_bits minus_one_bits mode = (if mode = Down then SIGN_MASK else 0)"
    "softfp_sub one_bits one_bits mode = (if mode = Down then SIGN_MASK else 0)" for mode
    using vector_cancel [of mode]
    by (simp_all add: add2_def sub2_def softfp_add_def softfp_sub_def Let_def G_SIGN_MASK_def SIGN_MASK_def
        split: if_split_asm)
  then show ?thesis by (simp add: exact_cancellation_has_ieee_sign_def)
qed

lemmas test_operands = max_bits_def two_bits_def half_bits_def finite_bits_def negative_finite_bits_def one_bits_def
  minus_one_bits_def SIGN_MASK_def EXP_MASK_def ABS_MASK_def f64_idx_def f64_neg_def no_nan_def div_domain_def
  inf_index_def

lemma overflow_test_passes:
  assumes "oracle_ieee lib"
  shows "finite_input_overflow_matches_berkeley_softfloat lib = Some ()"
  unfolding finite_input_overflow_matches_berkeley_softfloat_def overflow_cases_def
  by (simp add: oracle_agrees [OF assms] actual2_def test_operands)

lemma infinity_test_passes:
  assumes "oracle_ieee lib"
  shows "infinity_propagation_matches_berkeley_softfloat lib = Some ()"
  unfolding infinity_propagation_matches_berkeley_softfloat_def
  by (simp add: Let_def bind_eq_Some_conv assert_oracle_def oracle_agrees [OF assms] test_operands)

lemma zero_test_passes:
  assumes "oracle_ieee lib"
  shows "signed_zero_operands_match_berkeley_softfloat lib = Some ()"
  unfolding signed_zero_operands_match_berkeley_softfloat_def
  by (simp add: Let_def bind_eq_Some_conv assert_oracle_def oracle_agrees [OF assms] test_operands)

section \<open>Properties\<close>

text \<open>C40: every test of the softfp crate passes against every oracle that follows IEEE 754: the
  conversions of the mode register, the official vectors, the signs of exact zeros, overflow,
  infinities and signed zeros; the randomised comparison passes for every number of cases and from
  every state of its generator.\<close>

theorem softfp_tests_pass:
  assumes "oracle_ieee lib"
  shows "validated_fprc_conversion_matches_checked_conversion = Some () \<and> official_randomx_vectors = Some () \<and>
    exact_cancellation_has_ieee_sign = Some () \<and> finite_input_overflow_matches_berkeley_softfloat lib = Some () \<and>
    infinity_propagation_matches_berkeley_softfloat lib = Some () \<and>
    signed_zero_operands_match_berkeley_softfloat lib = Some () \<and>
    randomized_randomx_domain_matches_berkeley_softfloat lib = Some () \<and>
    (\<forall>n state. random_cases lib n state \<noteq> None)"
proof -
  have r: "random_cases lib n state \<noteq> None" for n state using random_cases_pass [OF assms, of n state] by auto
  then have "randomized_randomx_domain_matches_berkeley_softfloat lib = Some ()"
    by (auto simp: randomized_randomx_domain_matches_berkeley_softfloat_def)
  then show ?thesis
    using fprc_test_passes vector_test_passes cancellation_test_passes overflow_test_passes [OF assms]
      infinity_test_passes [OF assms] zero_test_passes [OF assms] r by blast
qed

text \<open>An oracle: the IEEE operations themselves.\<close>

primrec mode_of_oracle :: "OracleMode \<Rightarrow> RoundingMode" where
  "mode_of_oracle TiesToEven = Nearest"
| "mode_of_oracle TowardNegative = Down"
| "mode_of_oracle TowardPositive = Up"
| "mode_of_oracle Oracle_TowardZero = TowardZero"

definition ieee_oracle :: float_oracle where
  "ieee_oracle =
     \<lparr> oracle_add = \<lambda>a b m. f64_add (mode_of_oracle m) a b, oracle_sub = \<lambda>a b m. f64_sub (mode_of_oracle m) a b,
       oracle_mul = \<lambda>a b m. f64_mul (mode_of_oracle m) a b, oracle_div = \<lambda>a b m. f64_div (mode_of_oracle m) a b,
       oracle_root = \<lambda>a m. f64_sqrt (mode_of_oracle m) a \<rparr>"

lemma ieee_oracle_ieee: "oracle_ieee ieee_oracle"
proof -
  have "mode_of_oracle (oracle_mode m) = m" for m by (cases m) simp_all
  then show ?thesis by (simp add: oracle_ieee_def ieee_oracle_def)
qed

theorem softfp_tests_pass_witness:
  "finite_input_overflow_matches_berkeley_softfloat ieee_oracle = Some () \<and>
   randomized_randomx_domain_matches_berkeley_softfloat ieee_oracle = Some () \<and>
   random_cases ieee_oracle 3 7 \<noteq> None"
  using softfp_tests_pass [OF ieee_oracle_ieee] by blast

end
