(* ===== verification/SoftfpHost.thy ===== *)
theory SoftfpHost
  imports SoftfpTests
begin

text \<open>
  The other build of \<open>softfp/src/lib.rs\<close>: on every target but riscv64 the module \<open>nearest\<close> calls
  the softfloat package, which rounds to nearest in integers. The package is the parameter
  \<open>softfloat\<close>, with the documented behaviour that it returns the IEEE 754 result
  (\<open>softfloat_ieee\<close>, required only where that result is not a NaN). The five operations of this build
  then return what those of the guest build return, in every rounding mode, unless the result rounded
  to nearest is a NaN. The machines compute no NaN, so the audits, which run the compact machine on a
  host, compute what the guest computes.
\<close>

section \<open>The module \<open>nearest\<close> of the other targets\<close>

record softfloat =
  F64_add :: "u64 \<Rightarrow> u64 \<Rightarrow> u64"
  F64_sub :: "u64 \<Rightarrow> u64 \<Rightarrow> u64"
  F64_mul :: "u64 \<Rightarrow> u64 \<Rightarrow> u64"
  F64_div :: "u64 \<Rightarrow> u64 \<Rightarrow> u64"
  F64_sqrt :: "u64 \<Rightarrow> u64"

definition host_nearest_add :: "softfloat \<Rightarrow> u64 \<Rightarrow> u64 \<Rightarrow> u64" where
  "host_nearest_add pkg a b = F64_add pkg a b"

definition host_nearest_sub :: "softfloat \<Rightarrow> u64 \<Rightarrow> u64 \<Rightarrow> u64" where
  "host_nearest_sub pkg a b = F64_sub pkg a b"

definition host_nearest_mul :: "softfloat \<Rightarrow> u64 \<Rightarrow> u64 \<Rightarrow> u64" where
  "host_nearest_mul pkg a b = F64_mul pkg a b"

definition host_nearest_div :: "softfloat \<Rightarrow> u64 \<Rightarrow> u64 \<Rightarrow> u64" where
  "host_nearest_div pkg a b = F64_div pkg a b"

definition host_nearest_sqrt :: "softfloat \<Rightarrow> u64 \<Rightarrow> u64" where
  "host_nearest_sqrt pkg a = F64_sqrt pkg a"

definition softfloat_ieee :: "softfloat \<Rightarrow> bool" where
  "softfloat_ieee pkg \<longleftrightarrow> (\<forall>a b.
     (\<not> f64_nan (f64_add Nearest a b) \<longrightarrow> F64_add pkg a b = f64_add Nearest a b) \<and>
     (\<not> f64_nan (f64_sub Nearest a b) \<longrightarrow> F64_sub pkg a b = f64_sub Nearest a b) \<and>
     (\<not> f64_nan (f64_mul Nearest a b) \<longrightarrow> F64_mul pkg a b = f64_mul Nearest a b) \<and>
     (\<not> f64_nan (f64_div Nearest a b) \<longrightarrow> F64_div pkg a b = f64_div Nearest a b) \<and>
     (\<not> f64_nan (f64_sqrt Nearest a) \<longrightarrow> F64_sqrt pkg a = f64_sqrt Nearest a))"

section \<open>The operations over it\<close>

text \<open>The directed operations start from the result rounded to nearest.\<close>

definition host_add_inner :: "softfloat \<Rightarrow> u64 \<Rightarrow> u64 \<Rightarrow> RoundingMode \<Rightarrow> u64" where
  "host_add_inner pkg a b mode =
     (let nearest = host_nearest_add pkg a b in
      if is_infinite a \<or> is_infinite b then nearest
      else case directed_overflow nearest mode of
        Some overflow \<Rightarrow> overflow
      | None \<Rightarrow>
          let (relation, negative) = add_relation a b nearest in
          if nearest AND ABS_MASK = 0 \<and> relation = Equal
             \<and> (a XOR b) AND SIGN_MASK \<noteq> 0 \<and> mode = Down
          then SIGN_MASK
          else apply_mode nearest relation negative mode)"

definition host_add :: "softfloat \<Rightarrow> u64 \<Rightarrow> u64 \<Rightarrow> RoundingMode \<Rightarrow> u64" where
  "host_add pkg a b mode = (if mode = Nearest then host_nearest_add pkg a b else host_add_inner pkg a b mode)"

definition host_sub :: "softfloat \<Rightarrow> u64 \<Rightarrow> u64 \<Rightarrow> RoundingMode \<Rightarrow> u64" where
  "host_sub pkg a b mode =
     (if mode = Nearest then host_nearest_sub pkg a b else host_add_inner pkg a (b XOR SIGN_MASK) mode)"

definition host_mul_inner :: "softfloat \<Rightarrow> u64 \<Rightarrow> u64 \<Rightarrow> RoundingMode \<Rightarrow> u64" where
  "host_mul_inner pkg a b mode =
     (let nearest = host_nearest_mul pkg a b in
      if is_infinite a \<or> is_infinite b then nearest
      else case directed_overflow nearest mode of
        Some overflow \<Rightarrow> overflow
      | None \<Rightarrow>
          let negative = ((a XOR b) AND SIGN_MASK \<noteq> 0);
              exact = multiply_magnitudes (magnitude a) (magnitude b);
              relation =
                reverse_if_negative (compare_nearby_scaled exact (magnitude nearest)) negative
          in apply_mode nearest relation negative mode)"

definition host_mul :: "softfloat \<Rightarrow> u64 \<Rightarrow> u64 \<Rightarrow> RoundingMode \<Rightarrow> u64" where
  "host_mul pkg a b mode = (if mode = Nearest then host_nearest_mul pkg a b else host_mul_inner pkg a b mode)"

definition host_div_inner :: "softfloat \<Rightarrow> u64 \<Rightarrow> u64 \<Rightarrow> RoundingMode \<Rightarrow> u64" where
  "host_div_inner pkg a b mode =
     (let nearest = host_nearest_div pkg a b in
      if is_infinite a \<or> is_infinite b then nearest
      else case directed_overflow nearest mode of
        Some overflow \<Rightarrow> overflow
      | None \<Rightarrow>
          let negative = ((a XOR b) AND SIGN_MASK \<noteq> 0);
              rhs = multiply_magnitudes (magnitude nearest) (magnitude b);
              relation =
                reverse_if_negative (compare_nearby_scaled (magnitude a) rhs) negative
          in apply_mode nearest relation negative mode)"

definition host_div :: "softfloat \<Rightarrow> u64 \<Rightarrow> u64 \<Rightarrow> RoundingMode \<Rightarrow> u64" where
  "host_div pkg a b mode = (if mode = Nearest then host_nearest_div pkg a b else host_div_inner pkg a b mode)"

definition host_sqrt_inner :: "softfloat \<Rightarrow> u64 \<Rightarrow> RoundingMode \<Rightarrow> u64" where
  "host_sqrt_inner pkg a mode =
     (let nearest = host_nearest_sqrt pkg a in
      if is_infinite a then nearest
      else let squared = multiply_magnitudes (magnitude nearest) (magnitude nearest);
               relation = compare_nearby_scaled (magnitude a) squared
           in apply_mode nearest relation False mode)"

definition host_sqrt :: "softfloat \<Rightarrow> u64 \<Rightarrow> RoundingMode \<Rightarrow> u64" where
  "host_sqrt pkg a mode = (if mode = Nearest then host_nearest_sqrt pkg a else host_sqrt_inner pkg a mode)"

section \<open>Both builds agree\<close>

lemma host_nearest_agrees:
  assumes "softfloat_ieee pkg"
  shows "\<not> f64_nan (f64_add Nearest a b) \<Longrightarrow> host_nearest_add pkg a b = nearest_add a b"
    "\<not> f64_nan (f64_sub Nearest a b) \<Longrightarrow> host_nearest_sub pkg a b = nearest_sub a b"
    "\<not> f64_nan (f64_mul Nearest a b) \<Longrightarrow> host_nearest_mul pkg a b = nearest_mul a b"
    "\<not> f64_nan (f64_div Nearest a b) \<Longrightarrow> host_nearest_div pkg a b = nearest_div a b"
    "\<not> f64_nan (f64_sqrt Nearest a) \<Longrightarrow> host_nearest_sqrt pkg a = nearest_sqrt a"
  using assms
  by (simp_all add: softfloat_ieee_def host_nearest_add_def host_nearest_sub_def host_nearest_mul_def
      host_nearest_div_def host_nearest_sqrt_def nearest_add_def nearest_sub_def nearest_mul_def nearest_div_def
      nearest_sqrt_def)

theorem host_operations_agree:
  assumes "softfloat_ieee pkg"
  shows "\<not> f64_nan (f64_add Nearest a b) \<Longrightarrow> host_add pkg a b mode = softfp_add a b mode"
    "\<not> f64_nan (f64_sub Nearest a b) \<Longrightarrow> host_sub pkg a b mode = softfp_sub a b mode"
    "\<not> f64_nan (f64_mul Nearest a b) \<Longrightarrow> host_mul pkg a b mode = softfp_mul a b mode"
    "\<not> f64_nan (f64_div Nearest a b) \<Longrightarrow> host_div pkg a b mode = softfp_div a b mode"
    "\<not> f64_nan (f64_sqrt Nearest a) \<Longrightarrow> host_sqrt pkg a mode = softfp_sqrt a mode"
proof -
  show add: "host_add pkg a b mode = softfp_add a b mode" if "\<not> f64_nan (f64_add Nearest a b)" for a b
    using host_nearest_agrees(1) [OF assms that]
    by (simp add: host_add_def host_add_inner_def softfp_add_def add_inner_def)
  show "host_sub pkg a b mode = softfp_sub a b mode" if "\<not> f64_nan (f64_sub Nearest a b)"
    using host_nearest_agrees(2) [OF assms that] add [of a "f64_negate b"] that
    by (auto simp: host_sub_def host_add_def softfp_sub_def softfp_add_def f64_sub_def split: if_splits)
  show "host_mul pkg a b mode = softfp_mul a b mode" if "\<not> f64_nan (f64_mul Nearest a b)"
    using host_nearest_agrees(3) [OF assms that]
    by (simp add: host_mul_def host_mul_inner_def softfp_mul_def mul_inner_def)
  show "host_div pkg a b mode = softfp_div a b mode" if "\<not> f64_nan (f64_div Nearest a b)"
    using host_nearest_agrees(4) [OF assms that]
    by (simp add: host_div_def host_div_inner_def softfp_div_def div_inner_def)
  show "host_sqrt pkg a mode = softfp_sqrt a mode" if "\<not> f64_nan (f64_sqrt Nearest a)"
    using host_nearest_agrees(5) [OF assms that]
    by (simp add: host_sqrt_def host_sqrt_inner_def softfp_sqrt_def sqrt_inner_def)
qed

text \<open>A package that keeps the documented behaviour.\<close>

lemma softfloat_ieee_exists:
  "softfloat_ieee \<lparr> F64_add = f64_add Nearest, F64_sub = f64_sub Nearest, F64_mul = f64_mul Nearest,
     F64_div = f64_div Nearest, F64_sqrt = f64_sqrt Nearest \<rparr>"
  by (simp add: softfloat_ieee_def)

end
