(* ===== verification/TextOutput.thy ===== *)
theory TextOutput
  imports NetworkProver M128 SuperscalarExec
begin

text \<open>
  Model of the text that vectors, superscalar programs and quotes are printed as: the formatting traits
  of \<open>randomx-core/src/m128.rs\<close>, the \<open>Display\<close> implementation of \<open>superscalar.rs\<close> and
  \<open>print_quote\<close> of \<open>network-prover/src/main.rs\<close>. The decimal text of an \<open>f64\<close> and the opcode
  names, which come from the derive macro of the strum package, are parameters. The lemmas show
  that the hexadecimal text of a vector identifies it, so that a test which prints two different
  vectors shows a difference.
\<close>

section \<open>Hexadecimal numbers\<close>

text \<open>The format \<open>{:x}\<close>; a negative integer is printed as its two's complement.\<close>

function format_x :: "nat \<Rightarrow> str" where
  "format_x n = (if n < 16 then [hex_digit n] else format_x (n div 16) @ [hex_digit (n mod 16)])"
  by pat_completeness auto
termination
  by (relation "measure id") auto

declare format_x.simps [simp del]

lemma format_x_not_Nil [simp]: "format_x n \<noteq> []"
  by (subst format_x.simps) simp

lemma hex_digit_inj: "i < 16 \<Longrightarrow> j < 16 \<Longrightarrow> hex_digit i = hex_digit j \<Longrightarrow> i = j"
  using to_digit_hex_digit by (metis option.inject)

lemma format_x_inj: "format_x m = format_x n \<Longrightarrow> m = n"
proof (induction m arbitrary: n rule: format_x.induct)
  case (1 m)
  have big: "16 \<le> k \<Longrightarrow> format_x k = format_x (k div 16) @ [hex_digit (k mod 16)]" for k
    by (subst format_x.simps) simp
  have small: "k < 16 \<Longrightarrow> format_x k = [hex_digit k]" for k by (subst format_x.simps) simp
  consider "m < 16" "n < 16" | "16 \<le> m" "16 \<le> n" | "m < 16" "16 \<le> n" | "16 \<le> m" "n < 16" by linarith
  then show ?case
  proof cases
    case 1
    then show ?thesis using \<open>format_x m = format_x n\<close> by (auto simp: small dest: hex_digit_inj)
  next
    case 2
    then have "format_x (m div 16) = format_x (n div 16)" "hex_digit (m mod 16) = hex_digit (n mod 16)"
      using 1(2) by (simp_all add: big)
    then have "m div 16 = n div 16" "m mod 16 = n mod 16"
      using 1(1) 2(1) hex_digit_inj [of "m mod 16" "n mod 16"] by auto
    then show ?thesis by (metis div_mult_mod_eq)
  qed (use 1(2) format_x_not_Nil [symmetric] in \<open>auto simp: small big\<close>)
qed

lemma format_x_no_punctuation: "c \<in> set (format_x n) \<Longrightarrow> to_digit 16 c \<noteq> None"
proof (induction n rule: format_x.induct)
  case (1 n)
  show ?case
  proof (cases "n < 16")
    case True
    then show ?thesis using 1(2) format_x.simps [of n] by (simp add: to_digit_hex_digit)
  next
    case False
    then have "c \<in> set (format_x (n div 16)) \<or> c = hex_digit (n mod 16)" using 1(2) format_x.simps [of n] by auto
    then show ?thesis using 1(1) False by (auto simp: to_digit_hex_digit)
  qed
qed

section \<open>Vectors\<close>

definition format_m128i :: "m128i \<Rightarrow> str" where
  "format_m128i m = (let (hi, lo) = as_i64 m
     in lit ''('' @ format_x (unat hi) @ lit '','' @ format_x (unat lo) @ lit '')'')"

definition lower_hex_m128d :: "m128d \<Rightarrow> str" where
  "lower_hex_m128d m = (let (hi, lo) = as_f64 m
     in lit ''('' @ format_x (unat hi) @ lit '','' @ format_x (unat lo) @ lit '')'')"

text \<open>In the decimal text the low lane comes first.\<close>

definition format_m128d :: "(u64 \<Rightarrow> str) \<Rightarrow> m128d \<Rightarrow> str" where
  "format_m128d f64_display m = (let (hi, lo) = as_f64 m
     in lit ''('' @ f64_display lo @ lit '','' @ f64_display hi @ lit '')'')"

lemma comma_splits:
  assumes "xs @ (0x2c :: u8) # ys = xs' @ 0x2c # ys'" "0x2c \<notin> set xs" "0x2c \<notin> set xs'"
  shows "xs = xs' \<and> ys = ys'"
  using assms
proof (induction xs arbitrary: xs')
  case Nil
  then show ?case by (cases xs') auto
next
  case (Cons x xs)
  then show ?case by (cases xs') auto
qed

lemma format_m128i_inj: "format_m128i v = format_m128i w \<longleftrightarrow> v = w"
proof
  assume eq: "format_m128i v = format_m128i w"
  obtain h l h' l' where halves: "as_i64 v = (h, l)" "as_i64 w = (h', l')" by (metis surj_pair)
  have "to_digit 16 (0x2c :: u8) = None" by (simp add: to_digit_def)
  then have no_comma: "(0x2c :: u8) \<notin> set (format_x n)" for n
    using format_x_no_punctuation [of "0x2c" n] by auto
  have split: "format_x (unat h) @ 0x2c # format_x (unat l) @ [0x29] = format_x (unat h') @ 0x2c # format_x (unat l') @ [0x29]"
    using eq by (simp add: format_m128i_def halves lit_def)
  note parts = comma_splits [OF split no_comma no_comma]
  have "unat h = unat h'" by (rule format_x_inj [OF conjunct1 [OF parts]])
  moreover have "format_x (unat l) = format_x (unat l')" using conjunct2 [OF parts] by simp
  then have "unat l = unat l'" by (rule format_x_inj)
  ultimately have "as_i64 v = as_i64 w" by (simp only: halves word_unat_eq_iff prod.inject simp_thms)
  then show "v = w" by (metis from_u64_as_i64)
qed simp

lemma lower_hex_m128d_inj: "lower_hex_m128d v = lower_hex_m128d w \<longleftrightarrow> v = w"
  using format_m128i_inj [of v w] by (simp add: format_m128i_def lower_hex_m128d_def as_i64_def as_f64_def)

section \<open>Superscalar programs\<close>

text \<open>The register numbers are \<open>i32\<close>; \<open>- 1\<close> is printed for an unused one.\<close>

definition format_int :: "int \<Rightarrow> str" where
  "format_int i = (if i < 0 then 0x2d # format_dec (nat (- i)) else format_dec (nat i))"

definition sc_program_fmt :: "(ScOpcode \<Rightarrow> str) \<Rightarrow> ScProgram \<Rightarrow> str" where
  "sc_program_fmt op_name program =
     concat (map (\<lambda>instr. lit ''op: '' @ op_name (info_op (info instr)) @ lit '', src: '' @ format_int (sc_src instr)
       @ lit '', dst: '' @ format_int (sc_dst instr) @ [0x0a]) (sp_prog program))"

section \<open>Quotes\<close>

text \<open>The lines in the order in which they are printed.\<close>

definition print_quote :: "Quote \<Rightarrow> u64 \<Rightarrow> str list" where
  "print_quote quote pgu_limit =
     [lit ''balance (PROVE wei): '' @ format_dec (unat (balance_wei quote)),
      lit ''balance (PROVE): '' @ format_prove (balance_wei quote),
      lit ''market price (PROVE wei/PGU): '' @ format_dec (unat (market_price quote)),
      lit ''market price timestamp: '' @ format_dec (unat (market_as_of quote)),
      lit ''Groth16 base fee (PROVE wei): '' @ format_dec (unat (q_base_fee quote)),
      lit ''RPC max price (PROVE wei/PGU): '' @ format_dec (unat (raw_price quote)),
      lit ''auction tick (PROVE wei/PGU): '' @ format_dec (unat (q_tick_size quote)),
      lit ''SDK 120% price cap (PROVE wei/PGU): '' @ format_dec (unat (sdk_price_cap quote)),
      lit ''quoted PGU limit: '' @ format_dec (unat pgu_limit),
      lit ''maximum request cost (PROVE wei): '' @ format_dec (unat (cost_cap quote)),
      lit ''maximum request cost (PROVE): '' @ format_prove (cost_cap quote)]"

text \<open>Nothing is lost: the printed lines determine the quote and the limit.\<close>

lemma format_dec_inj: "format_dec m = format_dec n \<Longrightarrow> m = n"
proof -
  assume eq: "format_dec m = format_dec n"
  obtain ds es where "map (to_digit 10) (format_dec m) = map Some ds" "\<forall>a. digits_value 10 ds a = a * 10 ^ length (format_dec m) + m"
    "map (to_digit 10) (format_dec n) = map Some es" "\<forall>a. digits_value 10 es a = a * 10 ^ length (format_dec n) + n"
    using format_dec_digits by metis
  moreover from this have "ds = es" using eq by (simp add: inj_map_eq_map)
  ultimately show "m = n" by (metis add_0 mult_0)
qed

lemma print_quote_inj: "print_quote quote limit = print_quote quote' limit' \<longleftrightarrow> quote = quote' \<and> limit = limit'"
proof
  assume "print_quote quote limit = print_quote quote' limit'"
  then show "quote = quote' \<and> limit = limit'"
    by (cases quote; cases quote') (auto simp: print_quote_def word_unat_eq_iff dest!: format_dec_inj)
qed simp

end
