(* ===== verification/CoreTests.thy ===== *)
theory CoreTests
  imports Memory ProgramOk
begin

text \<open>
  Model of the test modules of \<open>randomx-core/src/superscalar.rs\<close>, \<open>randomx-core/src/program.rs\<close>,
  \<open>randomx-core/src/memory.rs\<close>, \<open>argon2/src/core.rs\<close> and \<open>argon2/src/block.rs\<close>, one definition per
  test; \<open>None\<close> is a failed assertion. The lemmas show which tests pass, for every hash function
  where the test draws from the byte stream; the only assertion whose outcome depends on the hash is
  that the seeds of the compact test reach all eight address registers.
\<close>

section \<open>The superscalar generator\<close>

text \<open>The seed \<open>b"high multiply group parameters"\<close>.\<close>

definition high_multiply_seed :: "u8 list" where
  "high_multiply_seed = map (of_nat \<circ> of_char) ''high multiply group parameters''"

definition expect_destination ::
  "(u8 list \<Rightarrow> u8 list) \<Rightarrow> ScInstrInfo \<Rightarrow> RegisterInfo list \<Rightarrow> int \<times> bool \<Rightarrow> Blake2Generator
     \<Rightarrow> Blake2Generator option" where
  "expect_destination hash64 i_info registers = (\<lambda>(next_parameter, available) g.
     do { (next, g) \<leftarrow> sc_create hash64 i_info g;
          let (found, next, g) =
            select_destination hash64 (next\<lparr> op_group_par := next_parameter \<rparr>) 0 False registers g;
          must (found = available);
          must (available \<longrightarrow> sc_dst next = 2);
          Some g })"

definition high_multiply_case ::
  "(u8 list \<Rightarrow> u8 list) \<Rightarrow> ScInstrInfo \<Rightarrow> Blake2Generator \<Rightarrow> Blake2Generator option" where
  "high_multiply_case hash64 i_info g =
     do { (previous, g) \<leftarrow> sc_create hash64 i_info g;
          let random_parameter = op_group_par previous;
          let source = (if random_parameter = 3 then 4 else 3);
          let registers = replicate 8 (RegisterInfo_new\<lparr> ri_latency := 1 \<rparr>);
          let registers = registers[source := (registers ! source)\<lparr> ri_latency := 0 \<rparr>];
          let (found, previous, g) = select_source hash64 previous 0 registers g;
          must found;
          must (sc_src previous = int source);
          let registers = registers[source := (registers ! source)\<lparr> ri_latency := 1 \<rparr>];
          let registers = registers[2 := \<lparr> last_op_group = op_group previous, ri_latency = 0,
                                          last_op_par = op_group_par previous \<rparr>];
          foldl_option (expect_destination hash64 i_info registers)
            [(random_parameter, False), (int source, True)] g }"

definition high_multiply_destination_selection_uses_random_group_parameter ::
  "(u8 list \<Rightarrow> u8 list) \<Rightarrow> unit option" where
  "high_multiply_destination_selection_uses_random_group_parameter hash64 =
     do { _ \<leftarrow> foldl_option (high_multiply_case hash64) [IMULH_R_info, ISMULH_R_info]
                (Blake2Generator_new high_multiply_seed 0);
          Some () }"

text \<open>Two streams that are read in step.\<close>

definition same_u32 ::
  "(u8 list \<Rightarrow> u8 list) \<Rightarrow> nat \<Rightarrow> Blake2Generator \<times> Blake2Generator
     \<Rightarrow> (Blake2Generator \<times> Blake2Generator) option" where
  "same_u32 hash64 _ = (\<lambda>(long, truncated).
     do { let (v, long) = get_u32 hash64 long;
          let (w, truncated) = get_u32 hash64 truncated;
          must (v = w);
          Some (long, truncated) })"

definition blake_generator_truncates_long_seed_to_sixty_bytes :: "(u8 list \<Rightarrow> u8 list) \<Rightarrow> unit option" where
  "blake_generator_truncates_long_seed_to_sixty_bytes hash64 =
     do { let long_seed = map of_nat [0..<256];
          _ \<leftarrow> foldl_option (same_u32 hash64) [0..<256]
                (Blake2Generator_new long_seed 0x89abcdef, Blake2Generator_new (take 60 long_seed) 0x89abcdef);
          Some () }"

definition reciprocal_case :: "(u8 list \<Rightarrow> u8 list) \<Rightarrow> nat \<Rightarrow> Blake2Generator \<Rightarrow> Blake2Generator option" where
  "reciprocal_case hash64 _ g =
     do { (instr, g) \<leftarrow> sc_create hash64 IMUL_RCP_info g;
          must (\<not> is_zero_or_power_of_2_u32 (imm32 instr));
          rcp \<leftarrow> randomx_reciprocal (ucast (imm32 instr));
          must (sc_reciprocal instr = rcp);
          let input = (0x0123456789abcdef :: u64);
          must (input * sc_reciprocal instr = input * rcp);
          Some g }"

definition reciprocal_seed :: "u8 list" where
  "reciprocal_seed = map (of_nat \<circ> of_char) ''reciprocal test''"

definition superscalar_reciprocal_is_computed_during_generation :: "(u8 list \<Rightarrow> u8 list) \<Rightarrow> unit option" where
  "superscalar_reciprocal_is_computed_during_generation hash64 =
     do { _ \<leftarrow> foldl_option (reciprocal_case hash64) [0..<64] (Blake2Generator_new reciprocal_seed 0);
          Some () }"

section \<open>The superscalar interpreters\<close>

definition test_registers :: "u64 \<Rightarrow> u64 \<Rightarrow> u64 \<Rightarrow> u64 list" where
  "test_registers seed_index program_index input_index =
     map (\<lambda>register. seed_index * 0xa0761d6478bd642f XOR program_index * 0xe7037ed1a0b428db
            XOR input_index * 0x8ebc6af09c88c6e3 XOR of_nat register * 0x589965cc75374cc3) [0..<8]"

definition compare_interpreters :: "ScProgram \<Rightarrow> u64 list \<Rightarrow> unit option" where
  "compare_interpreters program input =
     do { address \<leftarrow> address_register program input;
          must (sp_address_reg program < length input \<and> address = input ! sp_address_reg program);
          reference \<leftarrow> execute_reference program input;
          compact \<leftarrow> execute_compact program input;
          must (compact = reference);
          unchecked \<leftarrow> execute_compact_unchecked program input;
          must (unchecked = reference) }"

definition compare_program ::
  "(u8 list \<Rightarrow> u8 list) \<Rightarrow> nat \<Rightarrow> nat \<Rightarrow> u8 \<times> Blake2Generator \<Rightarrow> (u8 \<times> Blake2Generator) option" where
  "compare_program hash64 seed_index program_index = (\<lambda>(seen, g).
     do { (program, g) \<leftarrow> generate hash64 g;
          for_each (\<lambda>input_index. compare_interpreters program
              (test_registers (of_nat seed_index) (of_nat program_index) (of_nat input_index))) [0..<64];
          Some (seen OR push_bit (sp_address_reg program) 1, g) })"

definition test_seed :: "nat \<Rightarrow> u8 list" where
  "test_seed seed_index =
     concat (map (\<lambda>chunk_index. to_le_bytes 8
       ((of_nat seed_index + of_nat chunk_index) * 0x9e3779b97f4a7c15 :: u64)) [0..<4])"

definition compare_seed :: "(u8 list \<Rightarrow> u8 list) \<Rightarrow> nat \<Rightarrow> u8 \<Rightarrow> u8 option" where
  "compare_seed hash64 seed_index seen =
     do { (seen, _) \<leftarrow> foldl_option (compare_program hash64 seed_index) [0..<8]
            (seen, Blake2Generator_new (test_seed seed_index) (of_nat seed_index));
          Some seen }"

text \<open>The fields of \<open>ScExecInstr\<close> have eight, two and three times one byte; the alignment of the
  first pads the record to sixteen.\<close>

definition ScExecInstr_size :: nat where
  "ScExecInstr_size = (8 + 2 + 1 + 1 + 1 + 7) div 8 * 8"

definition compact_execution_matches_reference_execution :: "(u8 list \<Rightarrow> u8 list) \<Rightarrow> unit option" where
  "compact_execution_matches_reference_execution hash64 =
     do { must (ScExecInstr_size = 16);
          address_registers_seen \<leftarrow> foldl_option (compare_seed hash64) [0..<128] 0;
          must (address_registers_seen = - 1) }"

definition test_opcodes :: "ScExecOpcode list" where
  "test_opcodes = [IsubR, IxorR, IaddRs, ImulR, IrorC, IaddC, IxorC, ImulhR, IsmulhR, ImulRcp]"

definition test_instruction :: "ScExecOpcode \<Rightarrow> u8 \<Rightarrow> u8 \<Rightarrow> ScExecInstr" where
  "test_instruction opc dst src =
     \<lparr> immediate = (case opc of IaddRs \<Rightarrow> 3 | IrorC \<Rightarrow> 29 | IaddC \<Rightarrow> 0xffffffff81234567
                     | IxorC \<Rightarrow> 0xffffffff81234567 | ImulRcp \<Rightarrow> 0xd6e8feb86659fd93 | _ \<Rightarrow> 0),
       pair_handler_offset = 0, dst_offset = dst, src_offset = src, opcode = opc \<rparr>"

definition paired_input :: "u64 list" where
  "paired_input = [0, 1, - 1, 0x0123456789abcdef, 0x8000000000000000, 0xfedcba9876543210,
     0x5555aaaa5555aaaa, 0xaaaa5555aaaa5555]"

definition compare_pair :: "nat \<Rightarrow> nat \<Rightarrow> unit option" where
  "compare_pair first_index second_index =
     do { let first = (test_instruction (test_opcodes ! first_index) (3 * 8) (5 * 8))
            \<lparr> pair_handler_offset := of_nat ((first_index * 10 + second_index) * 8) \<rparr>;
          let second = test_instruction (test_opcodes ! second_index) (5 * 8) (3 * 8);
          sequential \<leftarrow> execute_compact_instruction_unchecked paired_input first;
          sequential \<leftarrow> execute_compact_instruction_unchecked sequential second;
          paired \<leftarrow> execute_compact_pair_unchecked paired_input first second;
          must (paired = sequential) }"

definition every_paired_handler_matches_sequential_dispatch :: "unit option" where
  "every_paired_handler_matches_sequential_dispatch =
     for_each (\<lambda>first_index. for_each (compare_pair first_index) [0..<10]) [0..<10]"

section \<open>The decoder\<close>

definition encoded_imul_rcp :: "u32 \<Rightarrow> u64" where
  "encoded_imul_rcp divisor = push_bit 32 (ucast divisor) OR 0x4c"

definition vm_reciprocal_is_computed_during_decode :: "unit option" where
  "vm_reciprocal_is_computed_during_decode =
     for_each (\<lambda>divisor.
       do { (instr, _) \<leftarrow> decode_instruction (encoded_imul_rcp divisor) 0 (replicate MAX_REG (- 1));
            must (i_op instr = IMUL_RCP);
            rcp \<leftarrow> randomx_reciprocal (ucast divisor);
            must (i_reciprocal instr = rcp) }) [3, 7, 0x7fffffff, 0x80000001, 0xffffffff]"

definition vm_power_of_two_reciprocal_remains_a_nop :: "unit option" where
  "vm_power_of_two_reciprocal_remains_a_nop =
     for_each (\<lambda>divisor.
       do { (instr, _) \<leftarrow> decode_instruction (encoded_imul_rcp divisor) 0 (replicate MAX_REG (- 1));
            must (i_op instr = IMUL_RCP);
            must (i_reciprocal instr = 0) }) [0, 1, 2, 4, 2 ^ 30]"

definition vm_unsigned_high_bit_power_of_two_matches_reference_nop :: "unit option" where
  "vm_unsigned_high_bit_power_of_two_matches_reference_nop =
     do { (instr, usage) \<leftarrow> decode_instruction (encoded_imul_rcp 0x80000000) 0 (replicate MAX_REG (- 1));
          must (i_op instr = IMUL_RCP);
          must (i_reciprocal instr = 0);
          must (usage = replicate MAX_REG (- 1)) }"

section \<open>The cache\<close>

definition CACHE_WORD_COUNT :: nat where
  "CACHE_WORD_COUNT = unat RANDOMX_ARGON_MEMORY * ARGON_BLOCK_WORDS"

text \<open>The assertions that are evaluated when the crate is compiled, where they concern values; a
  block is 128 words of eight bytes.\<close>

definition memory_layout_checks :: "unit option" where
  "memory_layout_checks =
     do { must (QWORDS_IN_BLOCK * 8 = unat ARGON_BLOCK_SIZE);
          must (unat CACHE_LINE_SIZE = CACHE_LINE_WORDS * 8);
          must (CACHE_LINE_COUNT \<noteq> 0 \<and> CACHE_LINE_COUNT AND (CACHE_LINE_COUNT - 1) = 0);
          must (CACHE_WORD_COUNT = unat CACHE_LINE_COUNT * CACHE_LINE_WORDS) }"

definition mix_state_step :: "u64 \<Rightarrow> u64" where
  "mix_state_step state =
     (let state = state XOR drop_bit 12 state;
          state = state XOR push_bit 25 state;
          state = state XOR drop_bit 27 state
      in state * 0x2545f4914f6cdd1d)"

primrec mix_states :: "nat \<Rightarrow> u64 \<Rightarrow> u64 list" where
  "mix_states 0 state = []"
| "mix_states (Suc n) state = mix_state_step state # mix_states n (mix_state_step state)"

definition compare_mix_index :: "u64 \<Rightarrow> nat \<Rightarrow> unit option" where
  "compare_mix_index reg_value r =
     do { let byte_offset = (reg_value AND CACHE_LINE_MASK) * CACHE_LINE_SIZE + 8 * of_nat r;
          let block_index = byte_offset div ucast ARGON_BLOCK_SIZE;
          let block_word = (byte_offset - block_index * ucast ARGON_BLOCK_SIZE) div 8;
          let reference = unat block_index * ARGON_BLOCK_WORDS + unat block_word;
          must (mix_word_index reg_value r = reference);
          must (reference < CACHE_WORD_COUNT) }"

definition flattened_mix_index_matches_block_and_word_addressing :: "unit option" where
  "flattened_mix_index_matches_block_and_word_addressing =
     for_each (\<lambda>reg_value. for_each (compare_mix_index reg_value) [0..<CACHE_LINE_WORDS])
       ([0, 1, of_nat CACHE_LINE_WORDS - 1, of_nat CACHE_LINE_WORDS, CACHE_LINE_COUNT - 1, CACHE_LINE_COUNT,
         0xffffffff, - 1] @ mix_states 10000 0x243f6a8885a308d3)"

section \<open>Argon2\<close>

definition test_area :: "u32 \<Rightarrow> u32 \<Rightarrow> u32 \<Rightarrow> u64" where
  "test_area pass sl index =
     ucast (if pass = 0 then sl * SEGMENT_LENGTH + index - 1
            else RANDOMX_LANE_LENGTH - SEGMENT_LENGTH + index - 1)"

definition test_position :: "u32 \<Rightarrow> u32 \<Rightarrow> u32 \<Rightarrow> u32 \<Rightarrow> u64" where
  "test_position pass sl index pseudo_rand =
     (let reference_area_size = test_area pass sl index;
          relative_position = (ucast pseudo_rand :: u64);
          relative_position = drop_bit 32 (relative_position * relative_position);
          relative_position = reference_area_size - 1 - drop_bit 32 (reference_area_size * relative_position);
          start_position = (if pass = 0 \<or> sl = SYNC_POINTS - 1 then 0
                            else ucast ((sl + 1) * SEGMENT_LENGTH))
      in start_position + relative_position)"

definition reference_index :: "u32 \<Rightarrow> u32 \<Rightarrow> u32 \<Rightarrow> u32 \<Rightarrow> u32" where
  "reference_index pass sl index pseudo_rand =
     ucast (test_position pass sl index pseudo_rand mod ucast RANDOMX_LANE_LENGTH)"

definition specialized_index :: "u32 \<Rightarrow> u32 \<Rightarrow> u32 \<Rightarrow> u32 \<Rightarrow> u32" where
  "specialized_index pass sl index pseudo_rand =
     ucast (test_position pass sl index pseudo_rand AND ucast (RANDOMX_LANE_LENGTH - 1))"

definition compare_index :: "u32 \<Rightarrow> u32 \<Rightarrow> u32 \<Rightarrow> u32 \<Rightarrow> unit option" where
  "compare_index pass sl index pseudo_rand =
     do { let reference = reference_index pass sl index pseudo_rand;
          let specialized = specialized_index pass sl index pseudo_rand;
          must (specialized = reference);
          must (specialized < RANDOMX_LANE_LENGTH);
          let current = sl * SEGMENT_LENGTH + index;
          must (specialized \<noteq> current);
          must (pass = 0 \<longrightarrow> specialized < current) }"

definition boundary_indices :: "u32 \<Rightarrow> u32 \<Rightarrow> u32 list" where
  "boundary_indices pass sl =
     (let first = (if pass = 0 \<and> sl = 0 then 2 else 0)
      in [first, first + 1, max 17 first, SEGMENT_LENGTH - 1])"

definition randomx_reference_formula_matches_optimized_boundaries :: "unit option" where
  "randomx_reference_formula_matches_optimized_boundaries =
     for_each (\<lambda>pass. for_each (\<lambda>sl. for_each (\<lambda>index.
         for_each (compare_index pass sl index) [0, 1, 0xffffffff, 0x80000000, 0x12345678])
       (boundary_indices pass sl)) [0, 1, 2, 3]) [0, 1, 2]"

definition count_up :: "nat \<Rightarrow> nat list \<Rightarrow> nat list" where
  "count_up j counts = counts[j := counts ! j + 1]"

definition column_writes :: "nat list" where
  "column_writes = foldl (\<lambda>counts column. foldl (\<lambda>counts offset. count_up (16 * column + offset) counts)
     counts [0..<16]) (replicate QWORDS_IN_BLOCK 0) [0..<8]"

definition row_reads :: "nat list" where
  "row_reads = foldl (\<lambda>counts row. foldl (\<lambda>counts pair_offset.
     count_up (2 * row + pair_offset + 1) (count_up (2 * row + pair_offset) counts))
     counts [0, 16, 32, 48, 64, 80, 96, 112]) (replicate QWORDS_IN_BLOCK 0) [0..<8]"

definition fused_scratch_index_maps_are_exact_partitions :: "unit option" where
  "fused_scratch_index_maps_are_exact_partitions =
     do { must (list_all (\<lambda>count. count = 1) column_writes);
          must (list_all (\<lambda>count. count = 1) row_reads) }"

definition as_u8_returns_correct_slice :: "unit option" where
  "as_u8_returns_correct_slice = must (as_u8 Block_zero = replicate 1024 0)"

section \<open>The tests of the generator pass\<close>

text \<open>A creation of one of the two high multiplications takes its group parameter from the
  stream.\<close>

lemma sc_create_high_multiply:
  assumes "i \<in> {IMULH_R_info, ISMULH_R_info}"
  shows "\<exists>par g'. sc_create hash64 i g = Some (new_sc i (info_op i) True False par, g')"
    "info_op i \<noteq> Sc_IADD_RS" "info_op i \<noteq> Sc_IMUL_R"
  using assms by (auto simp: sc_create_def info_defs case_prod_beta Let_def)

lemma upt_8: "[0..<8] = [0, 1, 2, 3, 4, 5, 6, 7]"
  by (simp add: upt_rec)

lemma expect_destination_passes:
  assumes i: "i \<in> {IMULH_R_info, ISMULH_R_info}" and s: "s \<in> {3, 4}" "int s \<noteq> par"
    and v: "v = (par, False) \<or> v = (int s, True)"
  defines "regs \<equiv> (replicate 8 (RegisterInfo_new\<lparr> ri_latency := 1 \<rparr>))
      [2 := \<lparr> last_op_group = info_op i, ri_latency = 0, last_op_par = par \<rparr>]"
  shows "\<exists>g'. expect_destination hash64 i regs v g = Some g'"
proof -
  obtain p g' where c: "sc_create hash64 i g = Some (new_sc i (info_op i) True False p, g')"
    using sc_create_high_multiply [OF i] by blast
  note ops = sc_create_high_multiply(2,3) [OF i]
  have eight: "replicate 8 x = [x, x, x, x, x, x, x, x]" for x :: RegisterInfo
    by (simp add: numeral_eq_Suc)
  show ?thesis
    using v s ops
    by (auto simp: expect_destination_def c new_sc_def select_destination_def select_register_def
          regs_def eight upt_8 Let_def must_def)
qed

lemma high_multiply_case_passes:
  assumes i: "i \<in> {IMULH_R_info, ISMULH_R_info}"
  shows "\<exists>g'. high_multiply_case hash64 i g = Some g'"
proof -
  obtain par g1 where c: "sc_create hash64 i g = Some (new_sc i (info_op i) True False par, g1)"
    using sc_create_high_multiply [OF i] by blast
  note ops = sc_create_high_multiply(2,3) [OF i]
  define s :: nat where "s = (if par = 3 then 4 else 3)"
  have s: "s \<in> {3, 4}" "int s \<noteq> par" by (auto simp: s_def)
  let ?one = "RegisterInfo_new\<lparr> ri_latency := 1 \<rparr>"
  let ?regs = "(replicate 8 ?one)[2 := \<lparr> last_op_group = info_op i, ri_latency = 0, last_op_par = par \<rparr>]"
  have eight: "replicate 8 x = [x, x, x, x, x, x, x, x]" for x :: RegisterInfo
    by (simp add: numeral_eq_Suc)
  have s8: "s < 8" using s(1) by auto
  have src: "select_source hash64 (new_sc i (info_op i) True False par) 0
      ((replicate 8 ?one)[s := RegisterInfo_new\<lparr> ri_latency := 0 \<rparr>]) g1
      = (True, (new_sc i (info_op i) True False par)\<lparr> sc_src := int s \<rparr>, g1)"
    using s(1) by (auto simp: select_source_def select_register_def new_sc_def eight upt_8)
  have regs: "(replicate 8 ?one)[s := ?one] = replicate 8 ?one"
    using s(1) by (auto simp: eight)
  obtain g2 where g2: "expect_destination hash64 i ?regs (par, False) g1 = Some g2"
    using expect_destination_passes [OF i s, of "(par, False)"] by blast
  obtain g3 where g3: "expect_destination hash64 i ?regs (int s, True) g2 = Some g3"
    using expect_destination_passes [OF i s, of "(int s, True)"] by blast
  have "high_multiply_case hash64 i g =
      foldl_option (expect_destination hash64 i ?regs) [(par, False), (int s, True)] g1"
    using src regs s8
    by (simp add: high_multiply_case_def c Let_def s_def [symmetric] new_sc_def must_def)
  then show ?thesis using g2 g3 by simp
qed

lemma high_multiply_test_passes:
  "high_multiply_destination_selection_uses_random_group_parameter hash64 = Some ()"
proof -
  let ?g = "Blake2Generator_new high_multiply_seed 0"
  obtain g1 where "high_multiply_case hash64 IMULH_R_info ?g = Some g1"
    using high_multiply_case_passes by blast
  moreover obtain g2 where "high_multiply_case hash64 ISMULH_R_info g1 = Some g2"
    using high_multiply_case_passes by blast
  ultimately show ?thesis
    by (simp add: high_multiply_destination_selection_uses_random_group_parameter_def)
qed

text \<open>A long seed gives the same stream as its first sixty bytes, so every draw agrees.\<close>

lemma long_seed_truncated: "Blake2Generator_new (take 60 seed) n = Blake2Generator_new seed n"
  by (simp add: Blake2Generator_new_def Let_def min_def)

lemma same_u32_run: "\<exists>g'. foldl_option (same_u32 hash64) xs (g, g) = Some (g', g')"
proof (induction xs arbitrary: g)
  case (Cons x xs)
  have "same_u32 hash64 x (g, g) = Some (snd (get_u32 hash64 g), snd (get_u32 hash64 g))"
    by (simp add: same_u32_def case_prod_beta must_def)
  then show ?case using Cons by simp
qed simp

lemma truncation_test_passes: "blake_generator_truncates_long_seed_to_sixty_bytes hash64 = Some ()"
  using same_u32_run [of hash64 "[0..<256]" "Blake2Generator_new (map of_nat [0..<256]) 0x89abcdef"]
  unfolding blake_generator_truncates_long_seed_to_sixty_bytes_def Let_def long_seed_truncated
  by (auto simp del: upt_rec_numeral)

lemma reciprocal_case_passes:
  assumes "rejection_ends hash64"
  shows "\<exists>g'. reciprocal_case hash64 k g = Some g'"
proof -
  obtain instr g' where c: "sc_create hash64 IMUL_RCP_info g = Some (instr, g')"
    using sc_create_total [OF assms info_ok_slots(6), of g] by (auto simp: SLOT_10_def)
  then obtain v g1 rcp where v: "rcp_loop hash64 g = Some (v, g1)" "randomx_reciprocal (ucast v) = Some rcp"
    "imm32 instr = v" "sc_reciprocal instr = rcp"
    by (auto simp: sc_create_def info_defs bind_eq_Some_conv)
  then show ?thesis using rcp_loop_result [OF v(1)] by (simp add: reciprocal_case_def c must_def)
qed

lemma foldl_option_runs:
  "(\<And>x s. \<exists>s'. f x s = Some s') \<Longrightarrow> \<exists>s'. foldl_option f xs s = Some s'"
proof (induction xs arbitrary: s)
  case (Cons x xs)
  obtain s1 where "f x s = Some s1" using Cons.prems by blast
  then show ?case using Cons.IH [OF Cons.prems] by simp
qed simp

lemma generator_reciprocal_test_passes:
  assumes "rejection_ends hash64"
  shows "superscalar_reciprocal_is_computed_during_generation hash64 = Some ()"
proof -
  obtain g where "foldl_option (reciprocal_case hash64) [0..<64] (Blake2Generator_new reciprocal_seed 0) = Some g"
    using foldl_option_runs [of "reciprocal_case hash64", OF reciprocal_case_passes [OF assms]] by blast
  then show ?thesis by (simp only: superscalar_reciprocal_is_computed_during_generation_def bind.simps)
qed

section \<open>The tests of the interpreters pass\<close>

lemma compare_interpreters_passes:
  assumes "generate hash64 g = Some (p, g')" "length input = 8"
  shows "compare_interpreters p input = Some ()"
proof -
  obtain ds' where ds': "execute p input = Some ds'" "execute_compact p input = Some ds'"
    "execute_reference p input = Some ds'" "length ds' = 8" "address_register p ds' \<noteq> None"
    using generate_runs [OF assms] by blast
  then have "sp_address_reg p < 8" by (simp add: address_register_def split: if_splits)
  then show ?thesis
    using ds' assms(2) by (simp add: compare_interpreters_def address_register_def execute_def must_def)
qed

lemma compare_program_returns:
  assumes "rejection_ends hash64"
  shows "\<exists>s'. compare_program hash64 i j s = Some s'"
proof -
  obtain p g' where "generate hash64 (snd s) = Some (p, g')"
    using generate_returns [OF assms] by blast
  moreover from this have "for_each (\<lambda>k. compare_interpreters p (test_registers (of_nat i) (of_nat j) (of_nat k)))
      [0..<64] = Some ()"
    by (intro for_each_passes compare_interpreters_passes) (simp_all add: test_registers_def)
  ultimately show ?thesis by (simp add: compare_program_def case_prod_beta del: upt_rec_numeral for_each_Some)
qed

text \<open>No comparison fails; what is left of the test is that the seeds reach every address
  register.\<close>

lemma compact_test_outcome:
  assumes "rejection_ends hash64"
  shows "\<exists>seen. foldl_option (compare_seed hash64) [0..<128] 0 = Some seen \<and>
      (compact_execution_matches_reference_execution hash64 = Some () \<longleftrightarrow> seen = - 1)"
proof -
  have "\<exists>s'. compare_seed hash64 i s = Some s'" for i s
  proof -
    obtain s' where "foldl_option (compare_program hash64 i) [0..<8]
        (s, Blake2Generator_new (test_seed i) (of_nat i)) = Some s'"
      using foldl_option_runs [of "compare_program hash64 i", OF compare_program_returns [OF assms]] by blast
    then show ?thesis by (simp add: compare_seed_def case_prod_beta del: upt_rec_numeral)
  qed
  then obtain seen where seen: "foldl_option (compare_seed hash64) [0..<128] 0 = Some seen"
    using foldl_option_runs [of "compare_seed hash64"] by blast
  then show ?thesis
    by (simp add: compact_execution_matches_reference_execution_def ScExecInstr_size_def
        del: upt_rec_numeral)
qed

lemma test_opcodes_nth: "k < 10 \<Longrightarrow> opcode_index (test_opcodes ! k) = k"
  by (auto simp: test_opcodes_def less_Suc_eq numeral_eq_Suc)

lemma compare_pair_passes:
  assumes "i < 10" "j < 10"
  shows "compare_pair i j = Some ()"
proof -
  define first where "first = (test_instruction (test_opcodes ! i) (3 * 8) (5 * 8))
      \<lparr> pair_handler_offset := of_nat ((i * 10 + j) * 8) \<rparr>"
  define second where "second = test_instruction (test_opcodes ! j) (5 * 8) (3 * 8)"
  have "(24 :: u8) = reg_offset 8 3" "(40 :: u8) = reg_offset 8 5" by (simp_all add: reg_offset_def)
  then have ok: "exec_ok first" "exec_ok second"
    unfolding exec_ok_def first_def second_def test_instruction_def
    by (force intro: exI [of _ "3 :: nat"] exI [of _ "5 :: nat"])+
  have len: "length paired_input = 8" by (simp add: paired_input_def)
  have "paired [first, second]"
    using assms by (simp add: first_def second_def test_instruction_def test_opcodes_nth)
  note step = pair_step [OF this ok len]
  obtain ds where ds: "execute_compact_instr first paired_input = Some ds" "length ds = 8"
    using unchecked_compact(2) [OF ok(1) len] by blast
  obtain ds' where "execute_compact_instr second ds = Some ds'"
    using unchecked_compact(2) [OF ok(2) ds(2)] by blast
  then show ?thesis
    using step ds unchecked_compact(1) [OF ok(1) len] unchecked_compact(1) [OF ok(2) ds(2)]
    unfolding compare_pair_def Let_def first_def [symmetric] second_def [symmetric]
    by (simp add: must_def)
qed

lemma paired_test_passes: "every_paired_handler_matches_sequential_dispatch = Some ()"
  unfolding every_paired_handler_matches_sequential_dispatch_def
  by (intro for_each_passes compare_pair_passes) simp_all

section \<open>The tests of the decoder pass\<close>

lemma encoded_fields: "ins_op (encoded_imul_rcp d) = 0x4c" "ins_imm (encoded_imul_rcp d) = d"
proof -
  have "push_bit 32 (ucast d) AND mask 8 = (0 :: u64)"
    by (rule bit_word_eqI) (simp add: bit_simps)
  then have "encoded_imul_rcp d AND 0xFF = 0x4c AND 0xFF"
    by (simp add: encoded_imul_rcp_def bit.conj_disj_distrib2 mask_eq_decr_exp)
  then show "ins_op (encoded_imul_rcp d) = 0x4c" by (simp add: ins_op_def)
  have hi: "(0xFFFFFFFF00000000 :: u64) = push_bit 32 (mask 32)" by (simp add: mask_eq_decr_exp)
  have lo: "\<not> bit (0x4c :: u64) (32 + n)" for n
  proof -
    have "(0x4c :: u64) = take_bit 32 0x4c" by simp
    then show ?thesis by (metis bit_take_bit_iff not_add_less1)
  qed
  show "ins_imm (encoded_imul_rcp d) = d"
    unfolding ins_imm_def encoded_imul_rcp_def hi
    using lo by (intro bit_word_eqI) (auto simp: bit_simps)
qed

lemma decode_imul_rcp:
  "\<exists>instr usage'. decode_instruction (encoded_imul_rcp d) i usage = Some (instr, usage') \<and>
     i_op instr = IMUL_RCP \<and>
     (if is_zero_or_power_of_2 (ucast d) then i_reciprocal instr = 0 \<and> usage' = usage
      else randomx_reciprocal (ucast d) = Some (i_reciprocal instr))"
proof (cases "is_zero_or_power_of_2 (ucast d)")
  case True
  then show ?thesis
    by (auto simp: decode_instruction_def encoded_fields new_imm_instr_def Let_def)
next
  case False
  then have "(ucast d :: u64) \<noteq> 0" by (auto simp: is_zero_or_power_of_2_def)
  then have "randomx_reciprocal (ucast d) \<noteq> None" by (simp add: randomx_reciprocal_def)
  then show ?thesis using False
    by (auto simp: decode_instruction_def encoded_fields new_imm_instr_def Let_def)
qed

lemma decode_tests_pass:
  "vm_reciprocal_is_computed_during_decode = Some ()"
  "vm_power_of_two_reciprocal_remains_a_nop = Some ()"
  "vm_unsigned_high_bit_power_of_two_matches_reference_nop = Some ()"
proof -
  note decode = decode_imul_rcp [where i = 0 and usage = "replicate MAX_REG (- 1)"]
  have odd: "\<not> is_zero_or_power_of_2 (ucast d)" if "d \<in> {3, 7, 0x7fffffff, 0x80000001, 0xffffffff :: u32}" for d
    using that by (auto simp: is_zero_or_power_of_2_def)
  show "vm_reciprocal_is_computed_during_decode = Some ()"
    unfolding vm_reciprocal_is_computed_during_decode_def
  proof (rule for_each_passes)
    fix d :: u32 assume "d \<in> set [3, 7, 0x7fffffff, 0x80000001, 0xffffffff]"
    then have "\<not> is_zero_or_power_of_2 (ucast d)" by (intro odd) simp
    then show "Option.bind (decode_instruction (encoded_imul_rcp d) 0 (replicate MAX_REG (- 1)))
        (\<lambda>(instr, _). do { must (i_op instr = IMUL_RCP);
            rcp \<leftarrow> randomx_reciprocal (ucast d);
            must (i_reciprocal instr = rcp) }) = Some ()"
      using decode [of d] by (auto simp: must_def)
  qed
  have two: "is_zero_or_power_of_2 (ucast d)" if "d \<in> {0, 1, 2, 4, 2 ^ 30, 0x80000000 :: u32}" for d
    using that by (auto simp: is_zero_or_power_of_2_def)
  show "vm_power_of_two_reciprocal_remains_a_nop = Some ()"
    unfolding vm_power_of_two_reciprocal_remains_a_nop_def
  proof (rule for_each_passes)
    fix d :: u32 assume "d \<in> set [0, 1, 2, 4, 2 ^ 30]"
    then have "is_zero_or_power_of_2 (ucast d)" by (intro two) auto
    then show "Option.bind (decode_instruction (encoded_imul_rcp d) 0 (replicate MAX_REG (- 1)))
        (\<lambda>(instr, _). do { must (i_op instr = IMUL_RCP); must (i_reciprocal instr = 0) }) = Some ()"
      using decode [of d] by (auto simp: must_def)
  qed
  show "vm_unsigned_high_bit_power_of_two_matches_reference_nop = Some ()"
    unfolding vm_unsigned_high_bit_power_of_two_matches_reference_nop_def
    using decode [of "0x80000000"] two [of "0x80000000"]
    by (auto simp: must_def)
qed

section \<open>The tests of the cache pass\<close>

lemma memory_layout_ok: "memory_layout_checks = Some ()"
  by (simp add: memory_layout_checks_def QWORDS_IN_BLOCK_def BLOCK_SIZE_def ARGON_BLOCK_SIZE_def
      CACHE_LINE_SIZE_def CACHE_LINE_WORDS_def CACHE_LINE_COUNT_def CACHE_WORD_COUNT_def
      RANDOMX_ARGON_MEMORY_def ARGON_BLOCK_WORDS_def)

lemma compare_mix_index_passes:
  assumes "r < 8"
  shows "compare_mix_index v r = Some ()"
proof -
  define l where "l = unat v mod 2 ^ 22"
  have l: "l < 4194304" by (simp add: l_def)
  have lv: "unat (v AND CACHE_LINE_MASK) = l"
    unfolding cache_constants(1) l_def by (rule unat_and_mask_eq)
  have "unat ((v AND CACHE_LINE_MASK) * CACHE_LINE_SIZE) = l * 64"
    using l by (subst unat_mult_bounded) (simp_all add: lv CACHE_LINE_SIZE_def)
  moreover have "unat (8 * of_nat r :: u64) = 8 * r"
    using assms by (subst unat_mult_bounded) (simp_all add: unat_of_nat)
  ultimately have off: "unat ((v AND CACHE_LINE_MASK) * CACHE_LINE_SIZE + 8 * of_nat r) = l * 64 + 8 * r"
    using l assms by (subst unat_add_bounded) simp_all
  define off where "off = (v AND CACHE_LINE_MASK) * CACHE_LINE_SIZE + 8 * of_nat r"
  have bs: "unat (ucast ARGON_BLOCK_SIZE :: u64) = 1024" by (simp add: ARGON_BLOCK_SIZE_def)
  have bi: "unat (off div ucast ARGON_BLOCK_SIZE) = (l * 64 + 8 * r) div 1024"
    by (simp add: unat_div bs off_def off)
  have bm: "unat (off div ucast ARGON_BLOCK_SIZE * ucast ARGON_BLOCK_SIZE) = (l * 64 + 8 * r) div 1024 * 1024"
    using l assms by (subst unat_mult_bounded) (simp_all add: bi bs)
  have "unat (off - off div ucast ARGON_BLOCK_SIZE * ucast ARGON_BLOCK_SIZE) = (l * 64 + 8 * r) mod 1024"
    using bm off by (subst unat_sub_bounded) (simp_all add: off_def minus_div_mult_eq_mod)
  then have bw: "unat ((off - off div ucast ARGON_BLOCK_SIZE * ucast ARGON_BLOCK_SIZE) div 8) =
      (l * 64 + 8 * r) mod 1024 div 8"
    by (simp add: unat_div)
  have "(l * 64 + 8 * r) div 1024 * 128 + (l * 64 + 8 * r) mod 1024 div 8 = 8 * l + r"
  proof -
    have "(8 * (8 * l + r)) div (8 * 128) = (8 * l + r) div 128"
      "(8 * (8 * l + r)) mod (8 * 128) = 8 * ((8 * l + r) mod 128)"
      by (rule div_mult_mult1, simp, rule mod_mult_mult1)
    then have "(l * 64 + 8 * r) div 1024 = (8 * l + r) div 128"
      "(l * 64 + 8 * r) mod 1024 div 8 = (8 * l + r) mod 128"
      by (simp_all add: algebra_simps)
    then show ?thesis by (simp only: div_mult_mod_eq)
  qed
  then have "unat (off div ucast ARGON_BLOCK_SIZE) * ARGON_BLOCK_WORDS +
      unat ((off - off div ucast ARGON_BLOCK_SIZE * ucast ARGON_BLOCK_SIZE) div 8) = mix_word_index v r"
    unfolding bi bw mix_word_index_eq l_def [symmetric]
    by (simp add: ARGON_BLOCK_WORDS_def ARGON_BLOCK_SIZE_def)
  moreover have "mix_word_index v r < CACHE_WORD_COUNT"
    using mix_word_index_bound [OF assms, of v]
    by (simp add: CACHE_WORD_COUNT_def RANDOMX_ARGON_MEMORY_def ARGON_BLOCK_WORDS_def ARGON_BLOCK_SIZE_def)
  ultimately show ?thesis
    by (simp add: compare_mix_index_def off_def [symmetric] Let_def must_def)
qed

lemma mix_index_test_passes: "flattened_mix_index_matches_block_and_word_addressing = Some ()"
  unfolding flattened_mix_index_matches_block_and_word_addressing_def
  by (intro for_each_passes compare_mix_index_passes) (simp add: cache_constants)

section \<open>The tests of the cache fill pass\<close>

lemma compare_index_passes:
  assumes seg: "in_segment (pass = 0) sl c"
  shows "compare_index pass (of_nat sl) (of_nat (c - sl * 65536)) r = Some ()"
proof -
  let ?s = "of_nat sl :: u32" and ?i = "of_nat (c - sl * 65536) :: u32" and ?J = "ucast r :: u64"
  define abs where "abs = test_position pass ?s ?i r"
  note b = in_segment_parts [OF seg]
  have c: "?s * SEGMENT_LENGTH + ?i = of_nat c"
    using seg by (simp add: SEGMENT_LENGTH_def in_segment_def of_nat_diff)
  have J: "?J AND 0xFFFFFFFF = ?J" "unat ?J mod 2 ^ 32 = unat r"
  proof -
    have "?J AND mask 32 = ?J"
      by (rule bit_word_eqI) (auto simp: bit_simps dest: bit_imp_le_length)
    then show "?J AND 0xFFFFFFFF = ?J" by (simp add: mask_eq_decr_exp)
    show "unat ?J mod 2 ^ 32 = unat r" using unat_lt_u32 [of r] by (simp add: unat_ucast_widen)
  qed
  have area: "reference_area_size (pass = 0) (of_nat c) (of_nat c - ?s * SEGMENT_LENGTH) = test_area pass ?s ?i"
    unfolding c [symmetric] by (simp add: reference_area_size_def test_area_def)
  have ro: "reference_offset (pass = 0) ?s (of_nat c) ?J =
      (if pass = 0 \<or> ?s = SYNC_POINTS - 1 then abs else abs AND ucast LANE_MASK)"
    unfolding reference_offset_def Let_def area J(1) abs_def test_position_def by simp
  define p where "p = ref_index (pass = 0) c (unat r)"
  have p: "p < 262144" "p \<noteq> c" "pass = 0 \<Longrightarrow> p < c"
    using ref_index_bounds [OF seg, of "unat r"] by (simp_all add: p_def)
  have pu: "unat (reference_offset (pass = 0) ?s (of_nat c) ?J) = p"
    using unat_reference_offset [OF seg, of ?J] unfolding J(2) p_def .
  have m: "(ucast LANE_MASK :: u64) = mask 18" "(ucast (RANDOMX_LANE_LENGTH - 1) :: u64) = mask 18"
    by (simp_all add: LANE_MASK_def RANDOMX_LANE_LENGTH_def mask_eq_decr_exp)
  have "unat abs mod 2 ^ 18 = p"
    using pu p(1) unfolding ro m(1)
    by (cases "pass = 0 \<or> ?s = SYNC_POINTS - 1") (auto simp: unat_and_mask_eq)
  then have sp: "unat (abs AND ucast (RANDOMX_LANE_LENGTH - 1)) = p" "unat (abs mod ucast RANDOMX_LANE_LENGTH) = p"
    unfolding m(2) unat_and_mask_eq by (simp_all add: unat_mod RANDOMX_LANE_LENGTH_def)
  then have eq: "abs mod ucast RANDOMX_LANE_LENGTH = abs AND ucast (RANDOMX_LANE_LENGTH - 1)"
    by (simp add: word_unat_eq_iff)
  have u: "unat (specialized_index pass ?s ?i r) = p"
    using sp(1) p(1) unfolding specialized_index_def abs_def [symmetric]
    by (simp add: unsigned_ucast_eq take_bit_nat_eq_self)
  have cu: "unat (of_nat c :: u32) = c" using b(3) by (simp add: unat_of_nat)
  have "specialized_index pass ?s ?i r \<noteq> of_nat c" using u cu p(2) by auto
  moreover have "specialized_index pass ?s ?i r < RANDOMX_LANE_LENGTH"
    using u p(1) by (simp add: word_less_nat_alt RANDOMX_LANE_LENGTH_def)
  moreover have "pass = 0 \<Longrightarrow> specialized_index pass ?s ?i r < of_nat c"
    using u cu p(3) by (simp add: word_less_nat_alt)
  moreover have "specialized_index pass ?s ?i r = reference_index pass ?s ?i r"
    by (simp add: specialized_index_def reference_index_def abs_def [symmetric] eq)
  ultimately show ?thesis by (cases "pass = 0") (auto simp: compare_index_def c Let_def must_def)
qed

lemma reference_formula_test_passes: "randomx_reference_formula_matches_optimized_boundaries = Some ()"
proof -
  have "compare_index pass sl ix r = Some ()"
    if "pass \<in> {0, 1, 2}" "sl \<in> {0, 1, 2, 3}" "ix \<in> set (boundary_indices pass sl)" for pass sl ix r
  proof -
    have ix: "unat ix < 65536" "pass = 0 \<and> sl = 0 \<Longrightarrow> 2 \<le> unat ix"
      using that(3) by (auto simp: boundary_indices_def SEGMENT_LENGTH_def max_def split: if_splits)
    have sl: "unat sl < 4" "sl \<noteq> 0 \<Longrightarrow> 1 \<le> unat sl" using that(2) by auto
    have "in_segment (pass = 0) (unat sl) (unat sl * 65536 + unat ix)"
      using ix sl by (cases "sl = 0") (auto simp: in_segment_def)
    from compare_index_passes [OF this, of r] show ?thesis by simp
  qed
  then show ?thesis
    unfolding randomx_reference_formula_matches_optimized_boundaries_def
    by (intro for_each_passes) simp_all
qed

lemma count_up_distinct:
  "distinct js \<Longrightarrow> \<forall>j \<in> set js. j < length c \<Longrightarrow>
   foldl (\<lambda>c j. count_up j c) c js = map (\<lambda>k. c ! k + (if k \<in> set js then 1 else 0)) [0..<length c]"
proof (induction js arbitrary: c)
  case Nil
  then show ?case by (simp add: map_nth)
next
  case (Cons j js)
  then show ?case by (auto simp: count_up_def nth_list_update intro!: nth_equalityI)
qed

lemma count_up_partition:
  assumes "distinct js" "length js = n" "\<forall>j \<in> set js. j < n"
  shows "foldl (\<lambda>c j. count_up j c) (replicate n 0) js = replicate n 1"
proof -
  have "set js = {..<n}"
    using assms distinct_card [of js] by (intro card_subset_eq) auto
  then show ?thesis using count_up_distinct [of js "replicate n 0"] assms(1,3)
    by (intro nth_equalityI) simp_all
qed

lemma index_maps_test_passes: "fused_scratch_index_maps_are_exact_partitions = Some ()"
proof -
  have q: "QWORDS_IN_BLOCK = 128" by (simp add: QWORDS_IN_BLOCK_def BLOCK_SIZE_def)
  have "column_writes = foldl (\<lambda>c j. count_up j c) (replicate 128 0) (concat (map column_words [0..<8]))"
    by (simp add: column_writes_def q column_words_def upt_8 foldl_map)
  also have "\<dots> = replicate 128 1"
    by (rule count_up_partition) (auto simp: column_words_def upt_8 distinct_map inj_on_def)
  finally have c: "column_writes = replicate 128 1" .
  have "row_reads = foldl (\<lambda>c j. count_up j c) (replicate 128 0) (concat (map row_words [0..<8]))"
    by (simp add: row_reads_def q row_words_def upt_8)
  also have "\<dots> = replicate 128 1"
    by (rule count_up_partition) (simp_all add: row_words_def upt_8)
  finally have r: "row_reads = replicate 128 1" .
  show ?thesis
    unfolding fused_scratch_index_maps_are_exact_partitions_def c r
    by (simp add: list_all_iff must_def)
qed

lemma zero_block_test_passes: "as_u8_returns_correct_slice = Some ()"
proof -
  have "concat (replicate n (replicate 8 x)) = replicate (8 * n) x" for n and x :: u8
    by (induction n) (simp_all add: replicate_add)
  moreover have "to_le_bytes 8 (0 :: u64) = replicate 8 0"
    by (simp add: to_le_bytes_def numeral_eq_Suc upt_rec)
  ultimately show ?thesis
    by (simp add: as_u8_returns_correct_slice_def as_u8_def Block_zero_def QWORDS_IN_BLOCK_def BLOCK_SIZE_def)
qed

end
