(* ===== verification/ToolTests.thy ===== *)
theory ToolTests
  imports MoneroTree AesHardware AuditTools NetworkRun Executor
begin

text \<open>
  Model of the test modules of \<open>randomx-core/src/m128.rs\<close>, \<open>audit/src/monero.rs\<close>,
  \<open>audit/src/lib.rs\<close>, \<open>network-prover/src/main.rs\<close> and \<open>executor/src/main.rs\<close>, of the
  build script \<open>audit/build.rs\<close> and of the offline check of the released proof in
  \<open>evidence/production-2026-09-05/verify-proof.rs\<close>. \<open>None\<close> is a failed assertion or another
  panic. The lemmas show that a test passes, or what it requires of the hash function or the package
  whose answer it fixes.
\<close>

section \<open>AES against the processor\<close>

definition TEST_VECTORS :: "(u128 \<times> u128) list" where
  "TEST_VECTORS = [
     (0x00000000000000000000000000000000, 0x00000000000000000000000000000000),
     (0xffffffffffffffffffffffffffffffff, 0xffffffffffffffffffffffffffffffff),
     (0x3243f6a8885a308d313198a2e0370734, 0x2b7e151628aed2a6abf7158809cf4f3c),
     (0x00000000000000000000000000000000, 0xdeadbeefcafebabe123456789abcdef0),
     (0xdeadbeefcafebabe123456789abcdef0, 0x00000000000000000000000000000000),
     (0xaaaaaaaaaaaaaaaaaaaaaaaaaaaaaaaa, 0x55555555555555555555555555555555),
     (0x0f0e0d0c0b0a09080706050403020100, 0x1f1e1d1c1b1a19181716151413121110),
     (0x6bc1bee22e409f96e93d7e117393172a, 0xae2d8a571e03ac9c9eb76fac45af8e51),
     (0x00000000000000000000000000000001, 0x00000000000000000000000000000000),
     (0x00000000000000000000000000000000, 0x80000000000000000000000000000000)]"

definition u128_to_m128i :: "u128 \<Rightarrow> vector" where
  "u128_to_m128i v =
     (let lo = (ucast v :: u64); hi = (ucast (drop_bit 64 v) :: u64) in to_le_bytes 8 lo @ to_le_bytes 8 hi)"

definition m128i_to_u128 :: "vector \<Rightarrow> u128" where
  "m128i_to_u128 v =
     (let lo = ucast (from_le_bytes (take 8 v) :: u64);
          hi = push_bit 64 (ucast (from_le_bytes (drop 8 v) :: u64))
      in hi OR lo)"

definition test_hw_aesenc :: "u128 \<Rightarrow> u128 \<Rightarrow> u128" where
  "test_hw_aesenc state key =
     (let s = u128_to_m128i state; k = u128_to_m128i key; r = mm_aesenc_si128 s k in m128i_to_u128 r)"

definition test_hw_aesdec :: "u128 \<Rightarrow> u128 \<Rightarrow> u128" where
  "test_hw_aesdec state key =
     (let s = u128_to_m128i state; k = u128_to_m128i key; r = mm_aesdec_si128 s k in m128i_to_u128 r)"

definition aesenc_matches_hardware :: "unit option" where
  "aesenc_matches_hardware =
     must (foldl (\<lambda>all_pass (state, key). if aesenc state key \<noteq> test_hw_aesenc state key then False else all_pass)
       True TEST_VECTORS)"

definition aesdec_matches_hardware :: "unit option" where
  "aesdec_matches_hardware =
     must (foldl (\<lambda>all_pass (state, key). if aesdec state key \<noteq> test_hw_aesdec state key then False else all_pass)
       True TEST_VECTORS)"

definition enc_dec_consistency :: "unit option" where
  "enc_dec_consistency =
     for_each (\<lambda>(state, key).
       do { let sw_enc = aesenc state key;
            let sw_dec = aesdec sw_enc key;
            let hw_enc = test_hw_aesenc state key;
            let hw_dec = test_hw_aesdec hw_enc key;
            must (sw_dec = hw_dec) }) TEST_VECTORS"

section \<open>The Monero block functions\<close>

definition varint_boundaries :: "unit option" where
  "varint_boundaries =
     for_each (\<lambda>(val, expected). must (encode_hex (append_varint val []) = expected))
       [(0, lit ''00''), (127, lit ''7f''), (128, lit ''8001''), (16383, lit ''ff7f''),
        (16384, lit ''808001''), (0xffffffffffffffff, lit ''ffffffffffffffffff01'')]"

definition tree_hash_shapes :: "(u8 list \<Rightarrow> u8 list) \<Rightarrow> unit option" where
  "tree_hash_shapes keccak =
     do { let hashes = map (\<lambda>val. replicate HASH_BYTES (of_nat val)) [0..<5];
          let pair = hash_pair keccak;
          must (tree_hash keccak (take 1 hashes) = Some (hashes ! 0));
          must (tree_hash keccak (take 2 hashes) = Some (pair (hashes ! 0) (hashes ! 1)));
          let pair_12 = pair (hashes ! 1) (hashes ! 2);
          must (tree_hash keccak (take 3 hashes) = Some (pair (hashes ! 0) pair_12));
          let pair_01 = pair (hashes ! 0) (hashes ! 1);
          let pair_23 = pair (hashes ! 2) (hashes ! 3);
          must (tree_hash keccak (take 4 hashes) = Some (pair pair_01 pair_23));
          let pair_34 = pair (hashes ! 3) (hashes ! 4);
          let upper_right = pair (hashes ! 2) pair_34;
          must (tree_hash keccak hashes = Some (pair pair_01 upper_right)) }"

definition difficulty_checks_full_256_bit_product :: "unit option" where
  "difficulty_checks_full_256_bit_product =
     do { must (meets_difficulty (replicate HASH_BYTES 0) 0xffffffffffffffff);
          must (meets_difficulty (replicate HASH_BYTES 0xff) 1);
          must (\<not> meets_difficulty (replicate HASH_BYTES 0xff) 2);
          let high_limb = take 24 (replicate HASH_BYTES 0) @ to_le_bytes 8 (0xffffffffffffffff :: u64);
          must (\<not> meets_difficulty high_limb 2) }"

definition canonical_commitment_hash :: "u8 list" where
  "canonical_commitment_hash =
     [0x63, 0x91, 0x83, 0xaa, 0xe1, 0xbf, 0x4c, 0x9a, 0x35, 0x88, 0x4c, 0xb4, 0x6b, 0x09, 0xca,
     0xd9, 0x17, 0x5f, 0x04, 0xef, 0xd7, 0x68, 0x4e, 0x72, 0x62, 0xa0, 0xac, 0x1c, 0x2f, 0x0b,
     0x4e, 0x3f]"

definition canonical_commitment_expected :: "u8 list" where
  "canonical_commitment_expected =
     [0xd5, 0x3c, 0xcf, 0x34, 0x8b, 0x75, 0x29, 0x1b, 0x7b, 0xe7, 0x6f, 0x0a, 0x7a, 0xc8, 0x20,
     0x8b, 0xbc, 0xed, 0x73, 0x4b, 0x91, 0x2f, 0x6f, 0xca, 0x60, 0x53, 0x9a, 0xb6, 0xf8, 0x6b,
     0xe9, 0x19]"

definition canonical_commitment_vector :: "(nat \<Rightarrow> u8 list \<Rightarrow> u8 list) \<Rightarrow> unit option" where
  "canonical_commitment_vector hash =
     do { commitment \<leftarrow> calculate_commitment hash (lit ''This is a test'') canonical_commitment_hash;
          must (commitment = canonical_commitment_expected) }"

section \<open>The network prover\<close>

definition selected_monero_input_is_self_consistent :: "('s, 'k, 'p, 'j) sdk \<Rightarrow> unit option" where
  "selected_monero_input_is_self_consistent x = unwrap (validate_input x SELECTED_BLOCK)"

text \<open>The message of an ELF mismatch is the only one of \<open>validate_elf\<close> with the searched
  text.\<close>

definition unapproved_elf_is_rejected :: "('s, 'k, 'p, 'j) sdk \<Rightarrow> unit option" where
  "unapproved_elf_is_rejected x =
     (case validate_elf x (lit ''not the approved ELF'') of
        Err error \<Rightarrow>
          do { must (case error of ElfMismatch _ _ \<Rightarrow> True | _ \<Rightarrow> False);
               must (APPROVED_ELF_SHA256 =
                 Some (lit ''2f3d772c9dcf6e077d254d934d092d242bb1ed4682f0a1ce64d980fa023cd79a'')) }
      | _ \<Rightarrow> None)"

definition retained_release_elf_is_approved :: "('s, 'k, 'p, 'j) sdk \<Rightarrow> u8 list \<Rightarrow> unit option" where
  "retained_release_elf_is_approved x artifact = unwrap (validate_elf x artifact)"

text \<open>The JSON values of the test are given by the parameter \<open>json_string\<close>.\<close>

definition ethereum_chain_id_quantity_is_mainnet ::
    "('s, 'k, 'p, 'j) sdk \<Rightarrow> (str \<Rightarrow> 'j) \<Rightarrow> unit option" where
  "ethereum_chain_id_quantity_is_mainnet x json_string =
     do { quantity \<leftarrow> unwrap (parse_json_rpc_quantity x (json_string (lit ''0x1'')) (lit ''chain ID''));
          must (quantity = ETHEREUM_MAINNET_CHAIN_ID);
          (case parse_json_rpc_quantity x (json_string (lit ''1'')) (lit ''chain ID'') of
             Err _ \<Rightarrow> Some ()
           | _ \<Rightarrow> None) }"

definition fixed_width_hex_accepts_standard_prefix :: "('s, 'k, 'p, 'j) sdk \<Rightarrow> unit option" where
  "fixed_width_hex_accepts_standard_prefix x =
     do { let expected = replicate 32 0xab;
          decoded \<leftarrow> unwrap (decode_32 x (hex_encode x expected) (lit ''test''));
          must (decoded = expected);
          decoded \<leftarrow> unwrap (decode_32 x (lit ''0x'' @ hex_encode x expected) (lit ''test''));
          must (decoded = expected) }"

text \<open>The file is absent when the test has removed it; \<open>p\<close> is its path in the temporary
  directory.\<close>

definition remove_file :: "path \<Rightarrow> World \<Rightarrow> World" where
  "remove_file p w = w\<lparr>files := (files w)(p := None)\<rparr>"

definition duplicate_vkey_must_match :: "path \<Rightarrow> World \<Rightarrow> unit option" where
  "duplicate_vkey_must_match p w =
     (let w = remove_file p w;
          (first, w) = write_or_verify_text p (lit ''0x01'') w;
          (second, w) = write_or_verify_text p (lit ''0x01'') w;
          (third, w) = write_or_verify_text p (lit ''0x02'') w
      in do { unwrap first;
              unwrap second;
              must (case third of Err _ \<Rightarrow> True | _ \<Rightarrow> False);
              must (path_exists w p) })"

section \<open>The executor\<close>

definition parses_profile_and_gas_options_in_either_order :: "(str \<Rightarrow> u8 list option) \<Rightarrow> unit option" where
  "parses_profile_and_gas_options_in_either_order hex_dec =
     do { arguments \<leftarrow> unwrap (Arguments_parse hex_dec
            [lit ''--estimate-gas-fast'', lit ''--profile'', lit ''guest.elf'', lit ''00'', lit ''aabb'']);
          must (gas_mode arguments = Fast);
          must (profile arguments);
          must (elf_path arguments = lit ''guest.elf'');
          must (expected_hex arguments = lit ''00'');
          must (inputs arguments = [[0xaa, 0xbb]]) }"

definition rejects_conflicting_gas_options :: "(str \<Rightarrow> u8 list option) \<Rightarrow> unit option" where
  "rejects_conflicting_gas_options hex_dec =
     (case Arguments_parse hex_dec
         [lit ''--estimate-gas'', lit ''--estimate-gas-fast'', lit ''guest.elf'', lit ''00''] of
        Err error \<Rightarrow> must (error = MutuallyExclusive)
      | _ \<Rightarrow> None)"

section \<open>The build script of the audit\<close>

text \<open>The lines that the script prints for Cargo; \<open>env\<close> is the environment.\<close>

definition build_main :: "(str \<Rightarrow> str option) \<Rightarrow> str list option" where
  "build_main env =
     (let out = [lit ''cargo:rerun-if-env-changed=RANDOMX_LIB_DIR''] in
      if env (lit ''CARGO_FEATURE_OFFICIAL_RANDOMX'') = None then Some out
      else do { library_dir \<leftarrow> env (lit ''RANDOMX_LIB_DIR'');
                Some (out @ [lit ''cargo:rustc-link-search=native='' @ library_dir,
                             lit ''cargo:rustc-link-lib=static=randomx'',
                             lit ''cargo:rustc-link-lib=dylib=stdc++'']) })"

section \<open>The offline check of the released proof\<close>

text \<open>The answers of the SP1 packages and of the file system.\<close>

record 'saved proof_tools =
  vp_read :: "str \<Rightarrow> str option"
  vp_hex_decode :: "str \<Rightarrow> u8 list option"
  vp_load :: "str \<Rightarrow> 'saved option"
  vp_sp1_version :: "'saved \<Rightarrow> str"
  vp_circuit_version :: str
  vp_bytes :: "'saved \<Rightarrow> u8 list"
  vp_public_values :: "'saved \<Rightarrow> u8 list"
  groth16_verify :: "u8 list \<Rightarrow> u8 list \<Rightarrow> str \<Rightarrow> bool"

definition flip_byte :: "nat \<Rightarrow> u8 list \<Rightarrow> u8 list option" where
  "flip_byte i bs = (if i < length bs then Some (bs[i := bs ! i XOR 1]) else None)"

definition verify_with :: "'saved proof_tools \<Rightarrow> u8 list \<Rightarrow> u8 list \<Rightarrow> str \<Rightarrow> bool" where
  "verify_with x proof public key = groth16_verify x proof public (trim key)"

definition rejects_mutation :: "'saved proof_tools \<Rightarrow> u8 list \<Rightarrow> u8 list \<Rightarrow> str \<Rightarrow> nat \<Rightarrow> unit option" where
  "rejects_mutation x proof public vkey i =
     do { changed_proof \<leftarrow> flip_byte i proof;
          must (\<not> verify_with x changed_proof public vkey) }"

definition verify_proof_main :: "'saved proof_tools \<Rightarrow> str list \<Rightarrow> unit option" where
  "verify_proof_main x args =
     do { must (length args = 6);
          text \<leftarrow> vp_read x (args ! 1);
          proof \<leftarrow> vp_hex_decode x (trim text);
          text \<leftarrow> vp_read x (args ! 2);
          public \<leftarrow> vp_hex_decode x (trim text);
          vkey \<leftarrow> vp_read x (args ! 3);
          historical_vkey \<leftarrow> vp_read x (args ! 4);
          must (length public = 32);
          saved \<leftarrow> vp_load x (args ! 5);
          must (vp_sp1_version x saved = vp_circuit_version x);
          must (vp_bytes x saved = proof);
          must (vp_public_values x saved = public);
          must (verify_with x proof public vkey);
          must (\<not> verify_with x proof public historical_vkey);
          changed_public \<leftarrow> flip_byte 0 public;
          must (\<not> verify_with x proof changed_public vkey);
          must (length proof \<noteq> 0);
          for_each (rejects_mutation x proof public vkey) [0, 35, 67, 99, 100, length proof - 1];
          must (\<not> verify_with x [] public vkey) }"

section \<open>The tests pass\<close>

lemma u128_to_m128i_bytes: "u128_to_m128i v = to_le_bytes 16 v"
proof (rule nth_equalityI)
  fix i assume "i < length (u128_to_m128i v)"
  then have "i < 16" by (simp add: u128_to_m128i_def)
  then show "u128_to_m128i v ! i = to_le_bytes 16 v ! i"
    by (intro bit_word_eqI)
       (auto simp: u128_to_m128i_def Let_def nth_append bit_simps diff_mult_distrib2
         intro!: arg_cong [of _ _ "bit v"])
qed (simp add: u128_to_m128i_def)

lemma m128i_to_u128_bytes:
  assumes "length r = 16"
  shows "m128i_to_u128 r = from_le_bytes r"
proof -
  define v where "v = (from_le_bytes r :: u128)"
  have "r = to_le_bytes 8 (ucast v :: u64) @ to_le_bytes 8 (ucast (drop_bit 64 v) :: u64)"
    using bytes_16 [OF assms] u128_to_m128i_bytes [of v] by (simp add: v_def u128_to_m128i_def)
  then have "take 8 r = to_le_bytes 8 (ucast v :: u64)" "drop 8 r = to_le_bytes 8 (ucast (drop_bit 64 v) :: u64)"
    by simp_all
  moreover have "from_le_bytes (to_le_bytes 8 w) = (w :: u64)" for w by (rule from_to_le_bytes) simp
  ultimately have "m128i_to_u128 r =
      push_bit 64 (ucast (ucast (drop_bit 64 v) :: u64)) OR ucast (ucast v :: u64)"
    by (simp add: m128i_to_u128_def Let_def)
  also have "\<dots> = v" by (rule bit_word_eqI) (auto simp: bit_simps)
  finally show ?thesis by (simp add: v_def)
qed

lemma test_hw_rounds: "test_hw_aesenc s k = aesenc s k" "test_hw_aesdec s k = aesdec s k"
proof -
  have len: "length (mm_aesenc_si128 (to_le_bytes 16 s) (to_le_bytes 16 k)) = 16"
    "length (mm_aesdec_si128 (to_le_bytes 16 s) (to_le_bytes 16 k)) = 16"
    by (simp_all add: mm_aesenc_si128_def mm_aesdec_si128_def)
  show "test_hw_aesenc s k = aesenc s k" "test_hw_aesdec s k = aesdec s k"
    using hardware_rounds(1,2) [of s k]
    by (simp_all add: test_hw_aesenc_def test_hw_aesdec_def hw_aesenc_x86_def hw_aesdec_x86_def
        u128_to_m128i_bytes m128i_to_u128_bytes len mm_loadu_si128_def mm_storeu_si128_def)
qed

lemma aes_tests_pass:
  "aesenc_matches_hardware = Some ()" "aesdec_matches_hardware = Some ()" "enc_dec_consistency = Some ()"
  by (simp_all add: aesenc_matches_hardware_def aesdec_matches_hardware_def enc_dec_consistency_def
      test_hw_rounds TEST_VECTORS_def must_def)

lemma varint_test_passes: "varint_boundaries = Some ()"
proof -
  have "append_varint 0 [] = [0]" "append_varint 127 [] = [127]" "append_varint 128 [] = [128, 1]"
    "append_varint 16383 [] = [255, 127]" "append_varint 16384 [] = [128, 128, 1]"
    "append_varint 0xffffffffffffffff [] = [255, 255, 255, 255, 255, 255, 255, 255, 255, 1]"
    by (simp_all add: append_varint.simps word_le_nat_alt)
  then show ?thesis
    by (simp add: varint_boundaries_def encode_hex_def format_02x_def hex_digit_def lit_def)
qed

lemma tree_hash_small:
  "tree_hash keccak [a] = Some a"
  "tree_hash keccak [a, b] = Some (hash_pair keccak a b)"
  "tree_hash keccak [a, b, c] = Some (hash_pair keccak a (hash_pair keccak b c))"
  "tree_hash keccak [a, b, c, d] = Some (hash_pair keccak (hash_pair keccak a b) (hash_pair keccak c d))"
  "tree_hash keccak [a, b, c, d, e] =
     Some (hash_pair keccak (hash_pair keccak a b) (hash_pair keccak c (hash_pair keccak d e)))"
proof -
  have w: "level_len_loop (Suc (Suc (Suc 0))) (Suc 0) = 2" "level_len_loop (Suc (Suc (Suc (Suc 0)))) (Suc 0) = 2"
    "level_len_loop (Suc (Suc (Suc (Suc (Suc 0))))) (Suc 0) = 4"
    by (simp_all add: level_len_loop.simps)
  have r: "reduce_levels keccak 2 l = Some l" for l by (simp add: reduce_levels.simps)
  have f: "fill_level keccak hs 1 s = (if s + 1 < length hs
      then Some ([hash_pair keccak (hs ! s) (hs ! (s + 1))], s + 2) else None)" for hs s
    by simp
  have f2: "fill_level keccak [a, b, c, d] 2 0 = Some ([hash_pair keccak a b, hash_pair keccak c d], 4)"
    by (simp add: numeral_2_eq_2)
  have r4: "reduce_levels keccak 4 [p, q, s, t] =
      Some [hash_pair keccak p q, hash_pair keccak s t, s, t]" for p q s t
    by (simp add: reduce_levels.simps reduce_level_def upt_rec)
  show "tree_hash keccak [a] = Some a" "tree_hash keccak [a, b] = Some (hash_pair keccak a b)"
    by (simp_all add: tree_hash_def)
  show "tree_hash keccak [a, b, c] = Some (hash_pair keccak a (hash_pair keccak b c))"
    using w r by (simp add: tree_hash_def)
  show "tree_hash keccak [a, b, c, d] = Some (hash_pair keccak (hash_pair keccak a b) (hash_pair keccak c d))"
    using w r f2 by (simp add: tree_hash_def)
  show "tree_hash keccak [a, b, c, d, e] =
     Some (hash_pair keccak (hash_pair keccak a b) (hash_pair keccak c (hash_pair keccak d e)))"
    using w r4 by (simp add: tree_hash_def)
qed

lemma tree_hash_test_passes: "tree_hash_shapes keccak = Some ()"
proof -
  have "map (\<lambda>val. replicate HASH_BYTES (of_nat val)) [0..<5] =
      [replicate HASH_BYTES 0, replicate HASH_BYTES 1, replicate HASH_BYTES 2, replicate HASH_BYTES 3,
       replicate HASH_BYTES (4 :: u8)]"
    by (simp add: upt_rec)
  then show ?thesis by (simp add: tree_hash_shapes_def tree_hash_small)
qed

lemma le_value_max: "le_value (replicate n 0xff) = 256 ^ n - 1"
proof (induction n)
  case (Suc n)
  have "1 \<le> (256 :: nat) ^ n" by simp
  then have "255 + 256 * (256 ^ n - 1) = 256 * 256 ^ n - (1 :: nat)" by linarith
  then show ?case using Suc by simp
qed simp

lemma difficulty_test_passes: "difficulty_checks_full_256_bit_product = Some ()"
proof -
  have "le_value (replicate 32 0) = 0" "le_value (replicate 24 0 @ replicate 8 0xff) = 2 ^ 192 * (2 ^ 64 - 1)"
    by (simp_all add: le_value_append le_value_zeros le_value_max)
  moreover have "to_le_bytes 8 (0xffffffffffffffff :: u64) = replicate 8 0xff"
  proof (rule nth_equalityI)
    have m: "(0xffffffffffffffff :: u64) = mask 64" "(0xff :: u8) = mask 8"
      by (simp_all add: mask_eq_decr_exp)
    fix i assume "i < length (to_le_bytes 8 (0xffffffffffffffff :: u64))"
    then have "i < 8" by simp
    then show "to_le_bytes 8 (0xffffffffffffffff :: u64) ! i = replicate 8 0xff ! i"
      unfolding m by (intro bit_word_eqI) (simp add: bit_simps)
  qed simp
  ultimately show ?thesis
    by (simp add: difficulty_checks_full_256_bit_product_def meets_difficulty_iff HASH_BYTES_def le_value_max)
qed

lemma commitment_test_outcome:
  "canonical_commitment_vector hash = Some () \<longleftrightarrow>
     hash 32 (lit ''This is a test'' @ canonical_commitment_hash) = canonical_commitment_expected"
  by (auto simp: canonical_commitment_vector_def calculate_commitment_def Let_def bind_eq_Some_conv
      canonical_commitment_expected_def)

subsection \<open>The network prover\<close>

text \<open>The documented behaviour of the \<open>hex\<close> package that the tests need.\<close>

definition hex_package :: "(str \<Rightarrow> u8 list option) \<Rightarrow> (u8 list \<Rightarrow> str) \<Rightarrow> bool" where
  "hex_package dec enc \<longleftrightarrow> (\<forall>bs. enc bs = encode_hex bs \<and> dec (encode_hex bs) = Some bs)"

text \<open>The fields of the selected block as bytes.\<close>

definition selected_id :: "u8 list" where
  "selected_id =
     [0xfd, 0x20, 0xc8, 0x78, 0xbd, 0xdf, 0x03, 0x02, 0x86, 0x7f, 0xcc, 0x5f, 0x7c, 0xe6, 0xb0,
     0x1e, 0x6e, 0x8d, 0x61, 0xee, 0x0a, 0x43, 0x51, 0x87, 0x92, 0x32, 0x79, 0x3a, 0x86, 0x65,
     0xf6, 0xaf]"

definition selected_prev :: "u8 list" where
  "selected_prev =
     [0xdf, 0x66, 0xd3, 0x4b, 0x58, 0xd9, 0xc6, 0x5e, 0xe2, 0x0c, 0xa8, 0xe7, 0xc3, 0x07, 0x60,
     0x8d, 0xb0, 0xf7, 0xc4, 0xe7, 0xc6, 0xb4, 0x50, 0xbc, 0x38, 0xe3, 0x34, 0x8d, 0x27, 0x78,
     0xf5, 0x1b]"

definition selected_seed :: "u8 list" where
  "selected_seed =
     [0x0e, 0x3b, 0x45, 0x21, 0xac, 0xd1, 0x98, 0x2c, 0x62, 0xa9, 0x9b, 0x6b, 0x76, 0xad, 0x85,
     0x04, 0xea, 0xa8, 0x0e, 0x16, 0x4d, 0x8e, 0x9d, 0xf3, 0xf0, 0x47, 0xb1, 0xcf, 0x66, 0x07,
     0xf2, 0xbd]"

definition selected_blob :: "u8 list" where
  "selected_blob =
     [0x10, 0x10, 0xba, 0x9c, 0xa3, 0xd3, 0x06, 0xdf, 0x66, 0xd3, 0x4b, 0x58, 0xd9, 0xc6, 0x5e,
     0xe2, 0x0c, 0xa8, 0xe7, 0xc3, 0x07, 0x60, 0x8d, 0xb0, 0xf7, 0xc4, 0xe7, 0xc6, 0xb4, 0x50,
     0xbc, 0x38, 0xe3, 0x34, 0x8d, 0x27, 0x78, 0xf5, 0x1b, 0x49, 0x40, 0x17, 0x3c, 0x7c, 0x0f,
     0x26, 0x94, 0x13, 0x24, 0xaf, 0xc7, 0xaa, 0x4e, 0x30, 0xff, 0xa1, 0xb2, 0xcd, 0x80, 0xa8,
     0x4e, 0xbb, 0xfc, 0x46, 0x48, 0x33, 0xd6, 0x22, 0x2b, 0xee, 0x72, 0x88, 0x6d, 0x3a, 0x9d,
     0x8a, 0x01]"

definition selected_pow :: "u8 list" where
  "selected_pow =
     [0x5c, 0xff, 0x90, 0x61, 0x39, 0x95, 0x6e, 0xb6, 0x46, 0x10, 0x0a, 0xde, 0xf1, 0x1d, 0xb2,
     0xe0, 0x04, 0x64, 0xff, 0xab, 0xfd, 0xf4, 0xd5, 0xa1, 0x94, 0xd5, 0x4f, 0x00, 0x00, 0x00,
     0x00, 0x00]"

lemma selected_block_hex:
  "in_block_id SELECTED_BLOCK = encode_hex selected_id"
  "in_prev_hash SELECTED_BLOCK = encode_hex selected_prev"
  "in_seed_hash SELECTED_BLOCK = encode_hex selected_seed"
  "in_pow_hash SELECTED_BLOCK = encode_hex selected_pow"
  "in_hashing_blob SELECTED_BLOCK = encode_hex selected_blob"
  by (simp_all add: SELECTED_BLOCK_def lit_def encode_hex_def format_02x_def hex_digit_def selected_id_def
      selected_prev_def selected_seed_def selected_pow_def selected_blob_def)

lemma strip_0x_encode_hex: "strip_0x (encode_hex bs) = None"
proof (cases bs)
  case Nil
  then show ?thesis by (simp add: encode_hex_eq strip_0x_def strip_prefix_def lit_def)
next
  case (Cons b bs')
  have "unat (hex_digit (unat b mod 16)) \<noteq> unat (0x78 :: u8)" "unat (hex_digit (unat b mod 16)) \<noteq> unat (0x58 :: u8)"
    using unat_hex_digit [of "unat b mod 16"] by auto
  then have "hex_digit (unat b mod 16) \<noteq> 0x78" "hex_digit (unat b mod 16) \<noteq> 0x58" by auto
  then show ?thesis
    using Cons by (simp add: encode_hex_eq format_02x_def strip_0x_def strip_prefix_def lit_def)
qed

lemma decode_32_encoded:
  assumes "hex_package (hex_decode x) (hex_encode x)" "length bs = 32"
  shows "decode_32 x (encode_hex bs) name = Ok bs"
  using assms by (simp add: decode_32_def hex_package_def ok_or_def strip_0x_encode_hex)

lemma selected_input_outcome:
  assumes hex: "hex_package (hex_decode x) (hex_encode x)"
  shows "selected_monero_input_is_self_consistent x = Some () \<longleftrightarrow>
    keccak256 x (77 # selected_blob) = selected_id"
proof -
  have len: "length selected_id = 32" "length selected_prev = 32" "length selected_seed = 32"
    "length selected_pow = 32"
    by (simp_all add: selected_id_def selected_prev_def selected_seed_def selected_pow_def)
  note d = len [THEN decode_32_encoded [OF hex]]
  have diff: "parse_difficulty (in_wide_difficulty SELECTED_BLOCK) = Ok 0x9e0ea93a72"
    by (simp add: parse_difficulty_def SELECTED_BLOCK_def strip_0x_def strip_prefix_def lit_def
        from_str_radix_def to_digit_def checked_mul_def checked_add_def)
  have pow: "le_value selected_pow * unat (0x9e0ea93a72 :: u64) < 2 ^ 256"
    by (simp add: selected_pow_def)
  have bl: "hex_decode x (encode_hex selected_blob) = Some selected_blob" "length selected_blob = 77"
    using hex by (simp_all add: hex_package_def selected_blob_def)
  have other: "in_network SELECTED_BLOCK = lit ''monero-mainnet''"
    "unat (in_seed_height SELECTED_BLOCK) = (unat (in_height SELECTED_BLOCK) - 64) div 2048 * 2048"
    "600 \<le> in_request_timeout_seconds SELECTED_BLOCK"
    by (simp_all add: SELECTED_BLOCK_def word_le_nat_alt)
  show ?thesis
    unfolding selected_monero_input_is_self_consistent_def unwrap_eq_Some validate_input_iff
      selected_block_hex
    using d bl diff pow other
    by simp
qed

lemma elf_tests_outcome:
  "unapproved_elf_is_rejected x = Some () \<longleftrightarrow>
     hex_encode x (sha256 x (lit ''not the approved ELF'')) \<noteq>
       lit ''2f3d772c9dcf6e077d254d934d092d242bb1ed4682f0a1ce64d980fa023cd79a''"
  "retained_release_elf_is_approved x artifact = Some () \<longleftrightarrow>
     hex_encode x (sha256 x artifact) = lit ''2f3d772c9dcf6e077d254d934d092d242bb1ed4682f0a1ce64d980fa023cd79a''"
  by (simp_all add: unapproved_elf_is_rejected_def retained_release_elf_is_approved_def validate_elf_def
      APPROVED_ELF_SHA256_def ok_or_def trim_start_matches.simps starts_with_def lit_def must_def Let_def)

lemma chain_id_test_passes:
  assumes "\<And>s. json_as_str x (json_string s) = Some s"
  shows "ethereum_chain_id_quantity_is_mainnet x json_string = Some ()"
  by (simp add: ethereum_chain_id_quantity_is_mainnet_def parse_json_rpc_quantity_def assms ok_or_def
      strip_0x_def strip_prefix_def lit_def from_str_radix_def to_digit_def checked_mul_def checked_add_def
      ETHEREUM_MAINNET_CHAIN_ID_def must_def)

lemma fixed_width_test_passes:
  assumes hex: "hex_package (hex_decode x) (hex_encode x)"
  shows "fixed_width_hex_accepts_standard_prefix x = Some ()"
proof -
  let ?ab = "replicate 32 (0xab :: u8)"
  have e: "hex_encode x ?ab = encode_hex ?ab" "hex_decode x (encode_hex ?ab) = Some ?ab"
    using hex by (simp_all add: hex_package_def)
  have "strip_0x (lit ''0x'' @ encode_hex ?ab) = Some (encode_hex ?ab)"
    by (simp add: strip_0x_def strip_prefix_def lit_def)
  then show ?thesis
    using e by (simp add: fixed_width_hex_accepts_standard_prefix_def decode_32_def ok_or_def strip_0x_encode_hex)
qed

lemma trim_key_text: "trim [48, 120, 48, 49, 10] = [48, 120, 48, 49]"
  by (simp add: trim_def drop_any.simps white_space_def starts_with_def)

lemma vkey_test_passes:
  assumes "\<not> denied w p" "ensure_parent p (remove_file p w) = (Ok (), remove_file p w)"
  shows "duplicate_vkey_must_match p w = Some ()"
proof -
  define w1 where "w1 = (remove_file p w)\<lparr>files := (files w)(p \<mapsto> File 420 [48, 120, 48, 49, 10])\<rparr>"
  have 1: "write_or_verify_text p (lit ''0x01'') (remove_file p w) = (Ok (), w1)"
    using assms
    by (simp add: write_or_verify_text_def path_exists_def write_text_def io_then_def fs_write_def
        remove_file_def w1_def lit_def)
  have rd: "read_to_string p w1 = (Ok [48, 120, 48, 49, 10], w1)"
    using assms(1)
    by (simp add: read_to_string_def fs_read_def io_then_def ask_def pure_io_def w1_def remove_file_def)
  have "path_exists w1 p" by (simp add: path_exists_def w1_def)
  then have 2: "write_or_verify_text p v w1 =
      (if v = [48, 120, 48, 49] then Ok () else Err (TextMismatch p), w1)" for v
    by (simp add: write_or_verify_text_def io_then_def rd pure_io_def trim_key_text)
  show ?thesis
    using 2 [of "lit ''0x01''"] 2 [of "lit ''0x02''"]
    by (simp add: duplicate_vkey_must_match_def 1 \<open>path_exists w1 p\<close>) (simp add: lit_def)
qed

subsection \<open>The executor and the released proof\<close>

lemma executor_tests_pass:
  assumes "hex_package dec enc"
  shows "parses_profile_and_gas_options_in_either_order dec = Some ()"
    "rejects_conflicting_gas_options dec = Some ()"
proof -
  have "encode_hex [0xaa, 0xbb] = lit ''aabb''"
    by (simp add: encode_hex_def format_02x_def hex_digit_def lit_def)
  moreover have "dec (encode_hex [0xaa, 0xbb]) = Some [0xaa, 0xbb]"
    using assms unfolding hex_package_def by blast
  ultimately have "dec (lit ''aabb'') = Some [0xaa, 0xbb]" by (simp only:)
  then show "parses_profile_and_gas_options_in_either_order dec = Some ()"
    by (simp add: parses_profile_and_gas_options_in_either_order_def Arguments_parse_def lit_def
        starts_with_def ok_or_def)
  show "rejects_conflicting_gas_options dec = Some ()"
    by (simp add: rejects_conflicting_gas_options_def Arguments_parse_def lit_def starts_with_def)
qed

text \<open>A completed check means that the verifier accepted the released proof under the released key,
  and rejected it under the old key and after each of the changes.\<close>

lemma verify_proof_main_sound:
  assumes "verify_proof_main x args = Some ()"
  shows "\<exists>pf pub key old_key.
    verify_with x pf pub key \<and> \<not> verify_with x pf pub old_key \<and> length pub = 32 \<and>
    \<not> verify_with x pf (pub[0 := pub ! 0 XOR 1]) key \<and> \<not> verify_with x [] pub key \<and>
    (\<forall>i \<in> {0, 35, 67, 99, 100, length pf - 1}. i < length pf \<and>
       \<not> verify_with x (pf[i := pf ! i XOR 1]) pub key)"
proof -
  obtain pf pub key old_key c where v: "verify_with x pf pub key" "\<not> verify_with x pf pub old_key"
    "length pub = 32" "flip_byte 0 pub = Some c" "\<not> verify_with x pf c key"
    "for_each (rejects_mutation x pf pub key) [0, 35, 67, 99, 100, length pf - 1] = Some ()"
    "\<not> verify_with x [] pub key"
    using assms unfolding verify_proof_main_def bind_eq_Some_conv must_eq_Some
    by (elim exE conjE) (rule that; (assumption | simp del: for_each_Some))
  have step: "i < length pf \<and> \<not> verify_with x (pf[i := pf ! i XOR 1]) pub key"
    if "rejects_mutation x pf pub key i = Some ()" for i
    using that by (auto simp: rejects_mutation_def flip_byte_def bind_eq_Some_conv split: if_splits)
  have "\<forall>i \<in> set [0, 35, 67, 99, 100, length pf - 1]. rejects_mutation x pf pub key i = Some ()"
    using v(6) unfolding for_each_Some .
  then have all: "\<forall>i \<in> {0, 35, 67, 99, 100, length pf - 1}. i < length pf \<and>
      \<not> verify_with x (pf[i := pf ! i XOR 1]) pub key"
    unfolding list.set using step by blast
  have c: "c = pub[0 := pub ! 0 XOR 1]" using v(4) by (simp add: flip_byte_def split: if_splits)
  show ?thesis using v(1-3,5,7) all unfolding c by blast
qed

end
