(* ===== verification/MachineTests.thy ===== *)
theory MachineTests
  imports MachineReuse
begin

text \<open>
  Model of the test module of \<open>randomx-sp1/src/lib.rs\<close> on a host, one definition per test; \<open>None\<close> is
  a failed assertion, or the panic a test expects. The two machines of a test live in one thread: each
  starts from the floating-point control register that the other one left. The lemmas show that every
  opcode passes the instruction test in every rounding mode, and that the hash tests pass exactly
  when the reference machine computes the recorded digest, which depends on the hash function.
\<close>

section \<open>Layout\<close>

text \<open>The sizes follow from the representation \<open>repr(C)\<close>: a function pointer, an immediate, a target
  and a mask, three bytes and five reserved ones.\<close>

definition CompactInstr_size :: nat where
  "CompactInstr_size = 8 + 8 + 4 + 4 + 1 + 1 + 1 + 5"

definition compact_layout_checks :: "unit option" where
  "compact_layout_checks =
     do { must (CompactInstr_size = 32);
          must ((MAX_REG - 1) * 8 \<le> 255);
          must ((MAX_FLOAT_REG - 1) * 16 \<le> 255);
          must (unat (drop_bit 3 SCRATCHPAD_L3_MASK) + 1 = SCRATCHPAD_SIZE);
          must (unat (drop_bit 3 SCRATCHPAD_L3_MASK_U32) + MAX_REG = SCRATCHPAD_SIZE) }"

definition compact_instruction_is_32_bytes :: "unit option" where
  "compact_instruction_is_32_bytes = must (CompactInstr_size = 32)"

definition predecoded_register_offsets_are_aligned_and_bounded :: "unit option" where
  "predecoded_register_offsets_are_aligned_and_bounded =
     do { for_each (\<lambda>index.
            do { let offset = unat (register_byte_offset (of_nat index) 8);
                 must (offset = index * 8);
                 must (offset mod 8 = 0);
                 must (offset < MAX_REG * 8) }) [0..<MAX_REG];
          for_each (\<lambda>index.
            do { let offset = unat (register_byte_offset (of_nat index) 16);
                 must (offset = index * 16);
                 must (offset mod 16 = 0);
                 must (offset < MAX_FLOAT_REG * 16) }) [0..<MAX_FLOAT_REG];
          must (register_byte_offset NO_REG 8 = NO_REG) }"

section \<open>Expected panics\<close>

definition vm_rejects_invalid_rounding_mode :: "FpEnv \<Rightarrow> Vm option" where
  "vm_rejects_invalid_rounding_mode env = set_rounding_mode 4 (new_vm VmMemory_no_memory env)"

definition compact_hash_rejects_malformed_scratchpad ::
    "(nat \<Rightarrow> u8 list \<Rightarrow> u8 list) \<Rightarrow> FpEnv \<Rightarrow> (u8 list \<times> Vm) option" where
  "compact_hash_rejects_malformed_scratchpad hash env =
     (let vm = new_vm VmMemory_no_memory env;
          vm = vm\<lparr> scratchpad := butlast (scratchpad vm) \<rparr>
      in calculate_hash_impl hash [] vm)"

section \<open>Every opcode\<close>

text \<open>The floating-point literals are given by their bits, the high lane first.\<close>

definition reset_instruction_state :: "u64 \<Rightarrow> u32 \<Rightarrow> Vm \<Rightarrow> Vm option" where
  "reset_instruction_state salt mode vm =
     (let vm = upd_r (map (\<lambda>index. salt + (of_nat index + 1) * 0x9e3779b97f4a7c15) [0..<MAX_REG]) vm;
          vm = upd_f
     [m128d_from_u64 0xc031400000000000 0x400c000000000000,
      m128d_from_u64 0x3fc0000000000000 0xc056f00000000000,
      m128d_from_u64 0x40f0001800000000 0xbfe8000000000000,
      m128d_from_u64 0xbfd5555555555555 0x3fe45d1745d1745d] vm;
          vm = upd_e
     [m128d_from_u64 0x3ff8000000000000 0x4002000000000000,
      m128d_from_u64 0x400e000000000000 0x4012000000000000,
      m128d_from_u64 0x4014800000000000 0x401b800000000000,
      m128d_from_u64 0x401d000000000000 0x4021400000000000] vm;
          vm = upd_a
     [m128d_from_u64 0x3fc2492492492492 0x3fb3b13b13b13b14,
      m128d_from_u64 0x3fe4b4b4b4b4b4b5 0x3fea6f4de9bd37a7,
      m128d_from_u64 0x3fedef7bdef7bdef 0x3fece0c7ce0c7ce1,
      m128d_from_u64 0x3fed46cefa8d9df5 0x3fecbeea4e1a08ae] vm;
          vm = vm\<lparr> config := (config vm)\<lparr> e_mask := [0x3ff0000000123456, 0x4000000000654321] \<rparr>, vm_pc := 0 \<rparr>
      in set_rounding_mode mode vm)"

definition operand_cases :: "(u8 \<times> u8 \<times> u8 \<times> u32) list" where
  "operand_cases = [(0, 0, 0, 0), (255, 254, 255, - 1), (5, 5, 0xe0, 0x80000000), (0x9d, 0x63, 0x5b, 0x13579bdf)]"

definition encode_case :: "nat \<Rightarrow> u8 \<times> u8 \<times> u8 \<times> u32 \<Rightarrow> u64" where
  "encode_case opc = (\<lambda>(dst, src, modifier, imm).
     of_nat opc OR push_bit 8 (ucast dst) OR push_bit 16 (ucast src) OR push_bit 24 (ucast modifier)
       OR push_bit 32 (ucast imm))"

definition is_memory_opcode :: "nat \<Rightarrow> bool" where
  "is_memory_opcode opc \<longleftrightarrow>
     (0x10 \<le> opc \<and> opc \<le> 0x16) \<or> (0x27 \<le> opc \<and> opc \<le> 0x2d) \<or> (0x3e \<le> opc \<and> opc \<le> 0x41)
     \<or> opc = 0x46 \<or> opc = 0x4b \<or> (0x65 \<le> opc \<and> opc \<le> 0x69) \<or> (0x8c \<le> opc \<and> opc \<le> 0x90)
     \<or> (0xa1 \<le> opc \<and> opc \<le> 0xa5) \<or> (0xcc \<le> opc \<and> opc \<le> 0xcf) \<or> (0xf0 \<le> opc \<and> opc \<le> 0xff)"

text \<open>The words \<open>i * c\<close> rotated by \<open>i & 63\<close>.\<close>

definition test_scratchpad :: "nat \<Rightarrow> u64 list" where
  "test_scratchpad n =
     map (\<lambda>index. word_rotl (unat ((of_nat index :: u64) AND 63)) (of_nat index * 0xd6e8feb86659fd93)) [0..<n]"

definition opcode_case :: "nat \<Rightarrow> nat \<Rightarrow> Vm \<times> Vm \<Rightarrow> (Vm \<times> Vm) option" where
  "opcode_case opc cs = (\<lambda>(reference, compact).
     do { let raw = encode_case opc (operand_cases ! cs);
          let usage = [- 1, 3, 7, 11, 19, 23, 29, 31];
          (reference_instr, reference_usage) \<leftarrow> decode_instruction raw 37 usage;
          (compact_instr, compact_usage) \<leftarrow> sp1_decode_instruction raw 37 usage;
          must (reference_usage = compact_usage);
          (if is_memory_opcode opc
           then do { m \<leftarrow> memory_mask (c_mode compact_instr); must (c_memory_mask compact_instr = m) }
           else must (c_memory_mask compact_instr = 0));
          let salt = raw XOR 0xa0761d6478bd642f;
          let mode = of_nat cs;
          reference \<leftarrow> reset_instruction_state salt mode reference;
          compact \<leftarrow> reset_instruction_state salt mode (compact\<lparr> fp_env := fp_env reference \<rparr>);
          let reference = reference\<lparr> fp_env := fp_env compact \<rparr>;
          reference \<leftarrow> instr_execute reference_instr reference;
          compact \<leftarrow> c_execute compact_instr (compact\<lparr> fp_env := fp_env reference \<rparr>);
          let reference = reference\<lparr> fp_env := fp_env compact \<rparr>;
          must (to_bytes (reg reference) = to_bytes (reg compact));
          must (vm_pc reference = vm_pc compact);
          must (get_rounding_mode reference = get_rounding_mode compact);
          must (opc \<ge> 0xf0 \<longrightarrow> scratchpad reference = scratchpad compact);
          Some (reference, compact) })"

text \<open>The result is the control register that the test leaves.\<close>

definition every_opcode_byte_matches_reference_decoder_at_boundaries :: "FpEnv \<Rightarrow> FpEnv option" where
  "every_opcode_byte_matches_reference_decoder_at_boundaries env =
     do { let reference = new_vm VmMemory_no_memory env;
          let compact = new_vm VmMemory_no_memory env;
          let reference = reference\<lparr> scratchpad := test_scratchpad (length (scratchpad reference)) \<rparr>;
          let compact = compact\<lparr> scratchpad := test_scratchpad (length (scratchpad compact)) \<rparr>;
          (_, compact) \<leftarrow> foldl_option (\<lambda>opc. foldl_option (opcode_case opc) [0..<4]) [0..<256] (reference, compact);
          Some (fp_env (reset_rounding_mode compact)) }"

section \<open>Recorded digests\<close>

definition assert_complete_vm_state :: "Vm \<Rightarrow> Vm \<Rightarrow> unit option" where
  "assert_complete_vm_state reference compact =
     do { must (to_bytes (reg reference) = to_bytes (reg compact));
          must (scratchpad reference = scratchpad compact);
          must (mx (mem_reg reference) = mx (mem_reg compact));
          must (ma (mem_reg reference) = ma (mem_reg compact));
          must (vm_pc reference = vm_pc compact);
          must (read_reg (config reference) = read_reg (config compact));
          must (e_mask (config reference) = e_mask (config compact));
          must (dataset_offset reference = dataset_offset compact);
          must (get_rounding_mode reference = get_rounding_mode compact) }"

text \<open>The two tests with one block differ in the block only.\<close>

definition block_hash_test ::
    "(nat \<Rightarrow> u8 list \<Rightarrow> u8 list) \<Rightarrow> FpEnv \<Rightarrow> u8 list \<Rightarrow> u8 list \<Rightarrow> u8 list \<Rightarrow> unit option" where
  "block_hash_test hash env sd blob expected =
     do { memory \<leftarrow> light hash sd;
          let reference = new_vm memory env;
          let compact = new_vm memory env;
          (reference_hash, reference) \<leftarrow> calculate_hash hash blob reference;
          (compact_hash, compact) \<leftarrow> calculate_hash_impl hash blob (compact\<lparr> fp_env := fp_env reference \<rparr>);
          must (reference_hash = expected);
          must (compact_hash = expected);
          assert_complete_vm_state reference compact }"

definition block_seed :: "u8 list" where
  "block_seed =
     [0x11, 0xc7, 0x98, 0xe5, 0xac, 0x65, 0x15, 0x21, 0x8b, 0xc3, 0xef, 0xcb, 0x54, 0x16, 0xe5,
     0xb6, 0x8c, 0x59, 0x9e, 0x42, 0xa6, 0x1b, 0x86, 0xef, 0xe5, 0x74, 0x6b, 0xb7, 0x8e, 0xb4,
     0xbe, 0x8e]"

definition rounding_blob :: "u8 list" where
  "rounding_blob =
     [0x10, 0x10, 0xc5, 0xa2, 0x99, 0xd3, 0x06, 0x5e, 0xd0, 0x66, 0x57, 0x3b, 0x62, 0xcd, 0xcc,
     0x0d, 0x24, 0x3d, 0x8b, 0x71, 0x30, 0xcf, 0x8b, 0xe8, 0x7f, 0xf7, 0x1e, 0xc3, 0x02, 0xce,
     0xdd, 0x31, 0xdb, 0x9f, 0x6f, 0x4f, 0x6e, 0x10, 0xe8, 0x5d, 0x5a, 0x4c, 0x10, 0x76, 0xf9,
     0xef, 0x57, 0xaa, 0xbb, 0x92, 0x00, 0x4f, 0xaf, 0xeb, 0xc6, 0x8b, 0x9a, 0x54, 0xbc, 0x9d,
     0x35, 0x84, 0xec, 0x8f, 0x94, 0x3e, 0x94, 0x9b, 0xc4, 0xc3, 0x72, 0xa5, 0x01, 0x00, 0x00,
     0x00]"

definition rounding_expected :: "u8 list" where
  "rounding_expected =
     [0xc1, 0x9a, 0xe2, 0xf2, 0xf5, 0x0a, 0x2e, 0x33, 0xec, 0x73, 0x74, 0x84, 0xe6, 0xc4, 0x47,
     0xd9, 0xb0, 0xff, 0xe4, 0x44, 0x31, 0xa3, 0x32, 0x01, 0x02, 0x6b, 0xa9, 0xec, 0xa7, 0x0f,
     0xda, 0x95]"

definition original_blob :: "u8 list" where
  "original_blob =
     [0x10, 0x10, 0xc5, 0xa2, 0x99, 0xd3, 0x06, 0x5e, 0xd0, 0x66, 0x57, 0x3b, 0x62, 0xcd, 0xcc,
     0x0d, 0x24, 0x3d, 0x8b, 0x71, 0x30, 0xcf, 0x8b, 0xe8, 0x7f, 0xf7, 0x1e, 0xc3, 0x02, 0xce,
     0xdd, 0x31, 0xdb, 0x9f, 0x6f, 0x4f, 0x6e, 0x10, 0xe8, 0x5d, 0x5a, 0x4c, 0x10, 0x76, 0xf9,
     0xef, 0x57, 0xaa, 0xbb, 0x92, 0x00, 0x4f, 0xaf, 0xeb, 0xc6, 0x8b, 0x9a, 0x54, 0xbc, 0x9d,
     0x35, 0x84, 0xec, 0x8f, 0x94, 0x3e, 0x94, 0x9b, 0xc4, 0xc3, 0x72, 0xa5, 0xf3, 0xb4, 0xe6,
     0x1d]"

definition original_expected :: "u8 list" where
  "original_expected =
     [0x04, 0x3f, 0x95, 0xd6, 0xe6, 0x12, 0xd7, 0xc9, 0x68, 0x79, 0xdd, 0x25, 0xab, 0x78, 0x45,
     0x64, 0x81, 0xcf, 0xbb, 0x63, 0x01, 0x43, 0xa5, 0x20, 0x1c, 0x38, 0x92, 0x00, 0x00, 0x00,
     0x00, 0x00]"

definition key_f :: "u8 list" where
  "key_f =
     [0x77, 0x97, 0x37, 0x3e, 0xa4, 0x63, 0x31, 0x94, 0x64, 0x0b, 0xf8, 0xd8, 0xc3, 0xb6, 0x67,
     0x24, 0xd6, 0xaa, 0x7b, 0xd2, 0xdc, 0x20, 0xe0, 0x09, 0xdf, 0x2f, 0x8f, 0x17, 0x10, 0xab,
     0xe8]"

definition all_rounding_modes_hash_matches_official_randomx ::
    "(nat \<Rightarrow> u8 list \<Rightarrow> u8 list) \<Rightarrow> FpEnv \<Rightarrow> unit option" where
  "all_rounding_modes_hash_matches_official_randomx hash env =
     block_hash_test hash env block_seed rounding_blob rounding_expected"

definition original_block_hash_matches_reference_and_official_randomx ::
    "(nat \<Rightarrow> u8 list \<Rightarrow> u8 list) \<Rightarrow> FpEnv \<Rightarrow> unit option" where
  "original_block_hash_matches_reference_and_official_randomx hash env =
     block_hash_test hash env block_seed original_blob original_expected"

text \<open>The decoder of the test module; \<open>None\<close> is its panic.\<close>

definition test_digit :: "u8 \<Rightarrow> u8 option" where
  "test_digit byte =
     (if 0x30 \<le> byte \<and> byte \<le> 0x39 then Some (byte - 0x30)
      else if 0x61 \<le> byte \<and> byte \<le> 0x66 then Some (byte - 0x61 + 10)
      else if 0x41 \<le> byte \<and> byte \<le> 0x46 then Some (byte - 0x41 + 10)
      else None)"

definition test_decode_hex :: "str \<Rightarrow> u8 list option" where
  "test_decode_hex v =
     do { must (length v mod 2 = 0);
          map_option_list (\<lambda>pair.
            do { h \<leftarrow> test_digit (pair ! 0);
                 l \<leftarrow> test_digit (pair ! 1);
                 Some (push_bit 4 h OR l) }) (chunks_exact 2 v) }"

text \<open>The mode in the control register of the thread, as the number the machine uses.\<close>

definition host_rounding_mode :: "FpEnv \<Rightarrow> u32 option" where
  "host_rounding_mode env =
     (case env of
        No_env \<Rightarrow> None
      | Mxcsr r \<Rightarrow> Some (drop_bit 13 r AND 3)
      | Fpcr r \<Rightarrow> Some (case unat (drop_bit 22 r AND 3) of 0 \<Rightarrow> 0 | Suc 0 \<Rightarrow> 2 | Suc (Suc 0) \<Rightarrow> 1 | _ \<Rightarrow> 3))"

definition mode_preserved :: "FpEnv \<Rightarrow> unit option" where
  "mode_preserved env = (case host_rounding_mode env of None \<Rightarrow> Some () | Some mode \<Rightarrow> must (mode = 0))"

definition canonical_case ::
    "(nat \<Rightarrow> u8 list \<Rightarrow> u8 list) \<Rightarrow> u8 list \<times> str \<Rightarrow> Vm \<times> Vm \<Rightarrow> (Vm \<times> Vm) option" where
  "canonical_case hash = (\<lambda>(input, expected) (reference, compact).
     do { let reference = reset_rounding_mode reference;
          (reference_hash, reference) \<leftarrow> calculate_hash hash input reference;
          decoded \<leftarrow> test_decode_hex expected;
          must (reference_hash = decoded);
          mode_preserved (fp_env reference);
          let compact = reset_rounding_mode (compact\<lparr> fp_env := fp_env reference \<rparr>);
          (compact_hash, compact) \<leftarrow> calculate_hash_impl hash input compact;
          must (compact_hash = decoded);
          mode_preserved (fp_env compact);
          assert_complete_vm_state reference compact;
          Some (reference\<lparr> fp_env := fp_env compact \<rparr>, compact) })"

definition assert_canonical_hashes ::
    "(nat \<Rightarrow> u8 list \<Rightarrow> u8 list) \<Rightarrow> u8 list \<Rightarrow> (u8 list \<times> str) list \<Rightarrow> FpEnv \<Rightarrow> FpEnv option" where
  "assert_canonical_hashes hash key cases env =
     do { memory \<leftarrow> light hash key;
          let reference = new_vm memory env;
          let compact = new_vm memory env;
          (_, compact) \<leftarrow> foldl_option (canonical_case hash) cases (reference, compact);
          Some (fp_env compact) }"

definition key_000_cases :: "(u8 list \<times> str) list" where
  "key_000_cases =
     [(lit ''This is a test'', lit ''639183aae1bf4c9a35884cb46b09cad9175f04efd7684e7262a0ac1c2f0b4e3f''),
      (lit ''Lorem ipsum dolor sit amet'',
       lit ''300a0adb47603dedb42228ccb2b211104f4da45af709cd7547cd049e9489c969''),
      (lit ''sed do eiusmod tempor incididunt ut labore et dolore magna aliqua'',
       lit ''c36d4ed4191e617309867ed66a443be4075014e2b061bcdaf9ce7b721d2b77a8'')]"

definition key_001_cases :: "u8 list \<Rightarrow> (u8 list \<times> str) list" where
  "key_001_cases input_e =
     [(lit ''sed do eiusmod tempor incididunt ut labore et dolore magna aliqua'',
       lit ''e9ff4503201c0c2cca26d285c93ae883f9b1d30c9eb240b820756f2d5a7905fc''),
      (input_e, lit ''c56414121acda1713c2f2a819d8ae38aed7c80c35c2a769298d34f03833cd5f1'')]"

definition key_f_cases :: "u8 list \<Rightarrow> (u8 list \<times> str) list" where
  "key_f_cases input_f = [(input_f, lit ''78af2a1864c42abce36d2e8983e13df99b2af0ce1362999af09fab004d4435a8'')]"

definition input_e_hex :: str where
  "input_e_hex = lit (''0b0b98bea7e805e0010a2126d287a2a0cc833d312cb786385a7c2f9de69d2553'' @
     ''7f584a9bc9977b00000000666fd8753bf61a8631f12984e3fd44f4014eca6292'' @ ''76817b56f32e9b68bd82f416'')"

definition input_f_hex :: str where
  "input_f_hex = lit (''1010e1eaf8cf067b37b5f0ee031ab23ed1755e090a3af4415830145853e2be3e'' @
     ''1f6821fed84dae58d00e00da5214d6c1f2d0622e0abd51f9373d04e0b0f8e6d6'' @ ''514d90689721c4aac5a9bb0d'')"

definition canonical_v1_interpreter_hash_and_rounding_vectors ::
    "(nat \<Rightarrow> u8 list \<Rightarrow> u8 list) \<Rightarrow> FpEnv \<Rightarrow> unit option" where
  "canonical_v1_interpreter_hash_and_rounding_vectors hash env =
     do { env \<leftarrow> assert_canonical_hashes hash (lit ''test key 000'') key_000_cases env;
          input_e \<leftarrow> test_decode_hex input_e_hex;
          env \<leftarrow> assert_canonical_hashes hash (lit ''test key 001'') (key_001_cases input_e) env;
          input_f \<leftarrow> test_decode_hex input_f_hex;
          _ \<leftarrow> assert_canonical_hashes hash key_f (key_f_cases input_f) env;
          Some () }"

definition stable_hash_api_matches_canonical_vector ::
    "(nat \<Rightarrow> u8 list \<Rightarrow> u8 list) \<Rightarrow> FpEnv \<Rightarrow> unit option" where
  "stable_hash_api_matches_canonical_vector hash env =
     do { digest \<leftarrow> sp1_hash hash env (lit ''test key 000'') (lit ''This is a test'');
          expected \<leftarrow> test_decode_hex (lit ''639183aae1bf4c9a35884cb46b09cad9175f04efd7684e7262a0ac1c2f0b4e3f'');
          must (digest = expected) }"

section \<open>The layout and the expected panics\<close>

lemma layout_tests_pass:
  "compact_layout_checks = Some ()" "compact_instruction_is_32_bytes = Some ()"
  "predecoded_register_offsets_are_aligned_and_bounded = Some ()"
proof -
  have upts: "[0..<8] = [0, 1, 2, 3, 4, 5, 6, 7]" "[0..<4] = [0, 1, 2, 3]" by (simp_all add: upt_rec)
  show "compact_layout_checks = Some ()" "compact_instruction_is_32_bytes = Some ()"
    by (simp_all add: compact_layout_checks_def compact_instruction_is_32_bytes_def CompactInstr_size_def
        MAX_REG_def MAX_FLOAT_REG_def SCRATCHPAD_L3_MASK_def SCRATCHPAD_L3_MASK_U32_def SCRATCHPAD_SIZE_def must_def)
  show "predecoded_register_offsets_are_aligned_and_bounded = Some ()"
    unfolding predecoded_register_offsets_are_aligned_and_bounded_def MAX_REG_def MAX_FLOAT_REG_def upts
    by (simp add: bind_eq_Some_conv register_byte_offset_def NO_REG_def)
qed

lemma expected_panics:
  "vm_rejects_invalid_rounding_mode env = None"
  "compact_hash_rejects_malformed_scratchpad hash env = None"
  by (simp_all add: vm_rejects_invalid_rounding_mode_def set_rounding_mode_def
      compact_hash_rejects_malformed_scratchpad_def calculate_hash_impl_def new_vm_def SCRATCHPAD_SIZE_def)

section \<open>Every opcode passes\<close>

lemma decode_memory_mask:
  assumes "sp1_decode_instruction raw i usage = Some (c, usage')"
  shows "if is_memory_opcode (raw_op raw) then memory_mask (c_mode c) = Some (c_memory_mask c)
    else c_memory_mask c = 0"
proof -
  have mem: "compact_new_memory eff d s imm mode = Some c \<Longrightarrow> memory_mask (c_mode c) = Some (c_memory_mask c)"
    for eff d s imm mode c
    by (auto simp: compact_new_memory_def compact_new_def bind_eq_Some_conv)
  have dm: "decode_memory eff d a imm m same = Some c \<Longrightarrow> memory_mask (c_mode c) = Some (c_memory_mask c)"
    for eff d a imm m same c
    by (auto simp: decode_memory_def Let_def split: if_split_asm intro: mem)
  have df: "decode_float_memory eff d a imm m same = Some c \<Longrightarrow> memory_mask (c_mode c) = Some (c_memory_mask c)"
    for eff d a imm m same c
    using dm by (fastforce simp: decode_float_memory_def bind_eq_Some_conv)
  have z: "c_memory_mask (compact_new e d s im mo) = 0" "c_memory_mask (compact_new_float e d s im mo) = 0"
    "c_memory_mask (decode_reg_or_imm e e' d s im32) = 0" for e e' d s im mo im32
    by (simp_all add: compact_new_def compact_new_float_def decode_reg_or_imm_def)
  show ?thesis
    using assms
    unfolding sp1_decode_instruction_def sp1_decode_float_control_def is_memory_opcode_def Let_def
    by (auto simp: z bind_eq_Some_conv split: if_split_asm dest: mem dm df)
qed

lemma raw_op_case: "opc < 256 \<Longrightarrow> raw_op (encode_case opc t) = opc"
proof -
  assume opc: "opc < 256"
  obtain dst src modifier imm where t: "t = (dst, src, modifier, imm)" by (metis surj_pair)
  have o: "take_bit 8 (of_nat opc :: u64) = of_nat opc"
    using opc by (simp add: word_unat_eq_iff unsigned_take_bit_eq take_bit_nat_eq_self unat_of_nat)
  have "encode_case opc t AND mask 8 = take_bit 8 (of_nat opc)"
    by (rule bit_word_eqI) (auto simp: encode_case_def t bit_simps)
  then show ?thesis using opc by (simp add: raw_op_def mask_eq_decr_exp o unat_of_nat)
qed

text \<open>The state an instruction starts from is in the domains of the equivalence of the instructions.\<close>

lemma test_mask_a_num:
  assumes "m \<in> {0x3ff0000000123456, 0x4000000000654321}"
  shows "a_num ((w AND DYNAMIC_MANTISSA_MASK) OR m)"
proof (rule a_num_range)
  let ?x = "w AND DYNAMIC_MANTISSA_MASK"
  have x: "unat ?x < 2 ^ 56"
  proof -
    have "DYNAMIC_MANTISSA_MASK = mask 56"
      by (simp add: DYNAMIC_MANTISSA_MASK_def MANTISSA_SIZE_def DYNAMIC_EXPONENT_BITS_def mask_eq_decr_exp)
    then have "?x = take_bit 56 w" by (simp only: take_bit_eq_mask)
    then show ?thesis by (metis take_bit_nat_less_exp unsigned_take_bit_eq)
  qed
  have m: "0 < unat m" "unat m \<le> 0x4000000000654321" using assms by auto
  have "uint (?x AND m) + uint (?x OR m) = uint ?x + uint m"
    by (simp only: unsigned_and_eq unsigned_or_eq plus_and_or)
  then have "unat (?x AND m) + unat (?x OR m) = unat ?x + unat m" by (simp only: uint_nat flip: of_nat_add)
  then have le: "unat (?x OR m) \<le> unat ?x + unat m" by simp
  have "bit m 54 \<or> bit m 62" using assms by (auto simp: bit_numeral_word_iff)
  then have "bit (?x OR m) 54 \<or> bit (?x OR m) 62" by (auto simp: bit_or_iff)
  then have "?x OR m \<noteq> 0" by (metis bit_0_eq bot_apply bot_bool_def)
  then show "0 < unat (?x OR m)" by (simp add: unat_gt_0)
  show "unat (?x OR m) < inf_index" using le x m(2) by (simp add: inf_index_def)
qed

lemma test_register_domains:
  "w \<in> {0x3fc2492492492492, 0x3fb3b13b13b13b14, 0x3fe4b4b4b4b4b4b5, 0x3fea6f4de9bd37a7, 0x3fedef7bdef7bdef,
     0x3fece0c7ce0c7ce1, 0x3fed46cefa8d9df5, 0x3fecbeea4e1a08ae} \<Longrightarrow> a_num w"
  "w \<in> {0x3ff8000000000000, 0x4002000000000000, 0x400e000000000000, 0x4012000000000000, 0x4014800000000000,
     0x401b800000000000, 0x401d000000000000, 0x4021400000000000} \<Longrightarrow> e_num w"
  "w \<in> {0xc031400000000000, 0x400c000000000000, 0x3fc0000000000000, 0xc056f00000000000, 0x40f0001800000000,
     0xbfe8000000000000, 0xbfd5555555555555, 0x3fe45d1745d1745d} \<Longrightarrow> f_num w"
  by (auto simp: a_num_def e_num_def f_num_def f64_idx_def f64_neg_def inf_index_def)

lemma reset_instruction_state_ok:
  assumes "vm_ok vm" "fp_env vm \<noteq> No_env" "mode < 4"
  shows "\<exists>vm'. reset_instruction_state salt mode vm = Some vm' \<and> host_ok vm' \<and> config_ok vm' \<and> e_ok vm' \<and> f_ok vm' \<and>
    reset_instruction_state salt mode (vm\<lparr> fp_env := fp_env vm' \<rparr>) = Some vm'"
proof -
  define st where "st = (\<lambda>vm :: Vm. vm\<lparr> reg := (reg vm)\<lparr>
      reg_r := map (\<lambda>index. salt + (of_nat index + 1) * 0x9e3779b97f4a7c15) [0..<MAX_REG],
      reg_f := [m128d_from_u64 0xc031400000000000 0x400c000000000000,
        m128d_from_u64 0x3fc0000000000000 0xc056f00000000000,
        m128d_from_u64 0x40f0001800000000 0xbfe8000000000000,
        m128d_from_u64 0xbfd5555555555555 0x3fe45d1745d1745d],
      reg_e := [m128d_from_u64 0x3ff8000000000000 0x4002000000000000,
        m128d_from_u64 0x400e000000000000 0x4012000000000000,
        m128d_from_u64 0x4014800000000000 0x401b800000000000,
        m128d_from_u64 0x401d000000000000 0x4021400000000000],
      reg_a := [m128d_from_u64 0x3fc2492492492492 0x3fb3b13b13b13b14,
        m128d_from_u64 0x3fe4b4b4b4b4b4b5 0x3fea6f4de9bd37a7,
        m128d_from_u64 0x3fedef7bdef7bdef 0x3fece0c7ce0c7ce1,
        m128d_from_u64 0x3fed46cefa8d9df5 0x3fecbeea4e1a08ae] \<rparr>,
      config := (config vm)\<lparr> e_mask := [0x3ff0000000123456, 0x4000000000654321] \<rparr>, vm_pc := 0 \<rparr>)"
  have reset: "reset_instruction_state salt mode vm = set_rounding_mode mode (st vm)" for vm :: Vm
    by (simp add: reset_instruction_state_def st_def)
  have ok: "vm_ok (st vm)" "fp_env (st vm) \<noteq> No_env"
    using assms(1,2) by (simp_all add: vm_ok_def st_def MAX_REG_def)
  have st_domains: "config_ok (st vm)" "e_ok (st vm)" "f_ok (st vm)"
    by (simp_all add: config_ok_def e_ok_def f_ok_def st_def both_def m128d_from_u64_def test_mask_a_num test_register_domains)
  obtain vm' where vm': "set_rounding_mode mode (st vm) = Some vm'" "vm_ok vm'" "env_sync vm'" "vm_frame (st vm) vm'"
    "reg vm' = reg (st vm)"
    using set_rounding_mode_ok [OF ok(1) assms(3)] by blast
  have "host_ok vm'" using vm' ok(2) by (simp add: host_ok_def vm_frame_def)
  moreover have "config_ok vm'" "e_ok vm'" "f_ok vm'"
    using st_domains vm'(4,5) by (simp_all add: config_ok_def e_ok_def f_ok_def vm_frame_def)
  moreover have "set_rounding_mode mode (st (vm\<lparr> fp_env := fp_env vm' \<rparr>)) = Some vm'"
    using vm'(1) by (auto simp: set_rounding_mode_def st_def split: if_split_asm)
  ultimately show ?thesis using vm'(1) by (auto simp: reset)
qed

lemma instruction_runs:
  assumes "vm_ok vm" "instr_ok ins"
  shows "\<exists>vm'. instr_execute ins vm = Some vm' \<and> vm_ok vm'"
proof (cases "i_effect ins = Vm_exec_cbranch")
  case True
  then show ?thesis using cbranch_ok [OF assms True] assms(1) by (auto simp: vm_ok_def)
next
  case False
  then show ?thesis using exec_ok [OF assms False] by (auto simp: step_ok_def)
qed

lemma opcode_case_passes:
  assumes "opc < 256" "cs < 4" "vm_ok vm" "fp_env vm \<noteq> No_env"
  shows "\<exists>vm'. opcode_case opc cs (vm, vm) = Some (vm', vm') \<and> vm_ok vm' \<and> fp_env vm' \<noteq> No_env"
proof -
  let ?raw = "encode_case opc (operand_cases ! cs)" and ?u = "[- 1, 3, 7, 11, 19, 23, 29, 31] :: int list"
  let ?salt = "?raw XOR 0xa0761d6478bd642f"
  obtain ins usage' where d: "decode_instruction ?raw 37 ?u = Some (ins, usage')" using decode_total by blast
  then obtain c where c: "sp1_decode_instruction ?raw 37 ?u = Some (c, usage')" "instr_rel ins c"
    using decode_lockstep [of ?raw 37 ?u] by (auto simp: decode_match_def)
  have mask: "if is_memory_opcode opc then memory_mask (c_mode c) = Some (c_memory_mask c) else c_memory_mask c = 0"
    using decode_memory_mask [OF c(1)] raw_op_case [OF assms(1)] by simp
  have "(of_nat cs :: u32) < 4"
    using assms(2) by (simp add: word_less_nat_alt unat_of_nat)
  from reset_instruction_state_ok [OF assms(3,4) this, of ?salt] obtain vm1 where
    vm1: "reset_instruction_state ?salt (of_nat cs) vm = Some vm1" "host_ok vm1" "config_ok vm1" "e_ok vm1" "f_ok vm1"
      "reset_instruction_state ?salt (of_nat cs) (vm\<lparr> fp_env := fp_env vm1 \<rparr>) = Some vm1" by blast
  have ok: "vm_ok vm1" "instr_ok ins" using vm1(2) decode_instr_ok [OF d] by (simp_all add: host_ok_def)
  obtain vm2 where vm2: "instr_execute ins vm1 = Some vm2" "vm_ok vm2" using instruction_runs [OF ok] by blast
  have "c_execute c (vm1\<lparr> fp_env := fp_env vm2 \<rparr>) = Some vm2"
    by (rule instruction_pair [OF vm1(2-5) ok(2) c(2) vm2(1)])
  moreover have "fp_env vm2 \<noteq> No_env"
    using exec_env [OF vm2(1)] vm1(2) by (cases "i_effect ins = Vm_exec_cfround") (auto simp: host_ok_def)
  ultimately show ?thesis
    using d c(1) mask vm1 vm2 by (simp add: opcode_case_def Let_def must_def)
qed

text \<open>On a host, every opcode byte in every rounding mode and with every boundary operand passes the
  instruction test: the two decoders keep the same usage table, the compact instruction has the memory
  mask of its mode exactly when it addresses the scratchpad, and running the two instructions leaves the
  same registers, program counter, rounding mode and scratchpad. The control register is reset.\<close>

theorem opcode_test_passes:
  assumes "env \<noteq> No_env"
  shows "\<exists>env'. every_opcode_byte_matches_reference_decoder_at_boundaries env = Some env' \<and> env_mode env' = Nearest"
proof -
  have cases: "\<exists>vm'. foldl_option (opcode_case opc) css (vm, vm) = Some (vm', vm') \<and> vm_ok vm' \<and> fp_env vm' \<noteq> No_env"
    if opc: "opc < 256" and start: "\<forall>cs \<in> set css. cs < 4" "vm_ok vm" "fp_env vm \<noteq> No_env" for opc css vm
    using start
  proof (induction css arbitrary: vm)
    case (Cons cs css)
    then obtain vm1 where "opcode_case opc cs (vm, vm) = Some (vm1, vm1)" "vm_ok vm1" "fp_env vm1 \<noteq> No_env"
      using opcode_case_passes [OF opc, of cs vm] by auto
    then show ?case using Cons.IH [of vm1] Cons.prems(1) by simp
  qed simp
  have opcodes: "\<exists>vm'. foldl_option (\<lambda>opc. foldl_option (opcode_case opc) [0..<4]) opcs (vm, vm) = Some (vm', vm') \<and>
      fp_env vm' \<noteq> No_env"
    if "\<forall>opc \<in> set opcs. opc < 256" "vm_ok vm" "fp_env vm \<noteq> No_env" for opcs vm
    using that
  proof (induction opcs arbitrary: vm)
    case (Cons opc opcs)
    have "opc < 256" "\<forall>cs \<in> set [0..<4]. cs < 4" using Cons.prems(1) by simp_all
    then obtain vm1 where "foldl_option (opcode_case opc) [0..<4] (vm, vm) = Some (vm1, vm1)" "vm_ok vm1"
      "fp_env vm1 \<noteq> No_env"
      using cases Cons.prems(2,3) by blast
    then show ?case using Cons.IH [of vm1] Cons.prems(1) by (simp del: upt_rec_numeral)
  qed simp
  let ?vm = "(new_vm VmMemory_no_memory env)\<lparr> scratchpad := test_scratchpad (length (scratchpad (new_vm VmMemory_no_memory env))) \<rparr>"
  have "vm_ok ?vm" "fp_env ?vm \<noteq> No_env"
    using new_vm_ok [of VmMemory_no_memory env] assms by (simp_all add: vm_ok_def test_scratchpad_def) (simp add: new_vm_def)
  then obtain vm' where "foldl_option (\<lambda>opc. foldl_option (opcode_case opc) [0..<4]) [0..<256] (?vm, ?vm) = Some (vm', vm')"
    "fp_env vm' \<noteq> No_env"
    using opcodes [of "[0..<256]" ?vm] by (auto simp del: upt_rec_numeral)
  moreover have "env_mode (fp_env (reset_rounding_mode vm')) = Nearest"
    using env_mode_set [OF _ calculation(2), of 0] by (simp add: reset_rounding_mode_def from_fprc_def)
  ultimately show ?thesis
    by (simp only: every_opcode_byte_matches_reference_decoder_at_boundaries_def Let_def bind.simps prod.case) blast
qed

theorem opcode_test_passes_witness:
  "\<exists>env'. every_opcode_byte_matches_reference_decoder_at_boundaries (Mxcsr 0x1f80) = Some env' \<and> env_mode env' = Nearest"
  using opcode_test_passes [of "Mxcsr 0x1f80"] by simp

section \<open>What the hash tests require\<close>

text \<open>A recorded digest is right when a fresh reference machine over the memory of the key computes it.\<close>

definition digest_of ::
    "(nat \<Rightarrow> u8 list \<Rightarrow> u8 list) \<Rightarrow> FpEnv \<Rightarrow> u8 list \<Rightarrow> u8 list \<Rightarrow> u8 list option" where
  "digest_of hash env key input =
     do { memory \<leftarrow> light hash key;
          map_option fst (calculate_hash hash input (new_vm memory env)) }"

lemma fresh_digest:
  assumes "digest_length hash" "rejection_ends (hash 64)" "env \<noteq> No_env"
  obtains memory where "light hash key = Some memory" "vm_memory_ok memory"
    "pair_inv memory env (new_vm memory env, new_vm memory env)"
    "\<And>input. \<exists>digest vm. calculate_hash hash input (new_vm memory env) = Some (digest, vm) \<and>
       digest_of hash env key input = Some digest"
proof -
  obtain memory where memory: "light hash key = Some memory" "vm_memory_ok memory"
    using light_returns [OF assms(1,2)] by blast
  have fresh: "vm_ok (new_vm memory env)" "mem (new_vm memory env) = memory" "fp_env (new_vm memory env) = env"
    using new_vm_ok by (simp_all add: new_vm_def)
  have "\<exists>digest vm. calculate_hash hash input (new_vm memory env) = Some (digest, vm) \<and>
      digest_of hash env key input = Some digest" for input
    using calculate_hash_ok [OF assms(1) fresh(1), of input] memory fresh(2) by (auto simp: digest_of_def)
  then show thesis using that memory fresh assms(3) by (simp add: pair_inv_def)
qed

lemma digest_of_last: "digest_of hash env key input = Some digest \<Longrightarrow> \<exists>x. digest = hash 32 x"
  by (auto simp: digest_of_def calculate_hash_def bind_eq_Some_conv Let_def RANDOMX_HASH_SIZE_def)

lemma digest_of_total:
  assumes "digest_length hash" "rejection_ends (hash 64)" "env \<noteq> No_env"
  shows "\<exists>digest. digest_of hash env key input = Some digest"
  using fresh_digest [OF assms, of key] by metis

lemma same_state_passes: "assert_complete_vm_state vm vm = Some ()"
  by (simp add: assert_complete_vm_state_def must_def)

lemma block_hash_test_exact:
  assumes "digest_length hash" "rejection_ends (hash 64)" "env \<noteq> No_env"
  shows "block_hash_test hash env sd blob expected = must (digest_of hash env sd blob = Some expected)"
proof -
  obtain memory where m: "light hash sd = Some memory" "vm_memory_ok memory"
    "pair_inv memory env (new_vm memory env, new_vm memory env)"
    "\<exists>digest vm. calculate_hash hash blob (new_vm memory env) = Some (digest, vm) \<and>
       digest_of hash env sd blob = Some digest"
    using fresh_digest [OF assms] by metis
  then obtain digest vm where d: "calculate_hash hash blob (new_vm memory env) = Some (digest, vm)"
    "digest_of hash env sd blob = Some digest" by blast
  note p = pair_hashes [OF assms(1) m(2) assms(3) m(3) d(1)]
  have e: "fp_env (new_vm memory env) = env" by (simp add: new_vm_def)
  then have "vm\<lparr> fp_env := env \<rparr> = vm" using p(1) d(1) by simp
  then have "fp_env vm = env" by (metis Vm.select_convs(9) Vm.surjective Vm.update_convs(9))
  moreover have "(new_vm memory env)\<lparr> fp_env := env \<rparr> = new_vm memory env" by (simp add: new_vm_def)
  ultimately have "calculate_hash_impl hash blob ((new_vm memory env)\<lparr> fp_env := fp_env vm \<rparr>) = Some (digest, vm)"
    using p(1,2) d(1) e by simp
  then show ?thesis using m(1) d same_state_passes by (simp add: block_hash_test_def must_def)
qed

lemma reset_env_mode: "env \<noteq> No_env \<Longrightarrow> host_rounding_mode (set_rounding_mode_env 0 env) = Some 0"
proof (cases env)
  case (Mxcsr c)
  have "drop_bit 13 ((c AND NOT (push_bit 13 3)) OR push_bit 13 0) AND 3 = (0 :: u32)"
    by (rule bit_word_eqI) (auto simp: bit_simps three_mask)
  then show ?thesis by (simp add: Mxcsr host_rounding_mode_def)
next
  case (Fpcr c)
  have "drop_bit 22 ((c AND NOT (push_bit 22 3)) OR push_bit 22 0) AND 3 = (0 :: u64)"
    by (rule bit_word_eqI) (auto simp: bit_simps three_mask)
  then show ?thesis by (simp add: Fpcr host_rounding_mode_def Let_def)
qed simp

lemma canonical_case_exact:
  assumes "digest_length hash" "vm_memory_ok memory" "env \<noteq> No_env" "pair_inv memory env vms"
    and "calculate_hash hash input (new_vm memory env) = Some (digest, vm)"
  shows "if test_decode_hex expected = Some digest
    then \<exists>vms'. canonical_case hash (input, expected) vms = Some vms' \<and> pair_inv memory env vms' \<and>
      fp_env (snd vms') = fp_env (fst vms')
    else canonical_case hash (input, expected) vms = None"
proof -
  obtain r c where vms: "vms = (r, c)" by (cases vms)
  let ?r = "reset_rounding_mode r" and ?c = "\<lambda>e. reset_rounding_mode (c\<lparr> fp_env := e \<rparr>)"
  let ?e = "set_rounding_mode_env 0 (fp_env r)"
  have env: "fp_env r \<noteq> No_env" using assms(4) by (simp add: vms pair_inv_def)
  have inv: "pair_inv memory env (?r, ?c ?e)"
    using assms(4) by (auto simp: vms pair_inv_def vm_ok_def reset_rounding_mode_def)
  note p = pair_hashes [OF assms(1-3) inv assms(5)]
  have "fp_env ?r = ?e" "(?c ?e)\<lparr> fp_env := ?e \<rparr> = ?c ?e" by (simp_all add: reset_rounding_mode_def)
  then have hashes: "calculate_hash hash input ?r = Some (digest, vm\<lparr> fp_env := ?e \<rparr>)"
    "calculate_hash_impl hash input (?c ?e) = Some (digest, vm\<lparr> fp_env := ?e \<rparr>)"
    using p by simp_all
  have "mode_preserved ?e = Some ()" using reset_env_mode [OF env] by (simp add: mode_preserved_def must_def)
  moreover have "pair_inv memory env (vm\<lparr> fp_env := ?e \<rparr>, vm\<lparr> fp_env := ?e \<rparr>)"
    using p(3) assms(3,4) env by (simp add: vms pair_inv_def vm_ok_def)
  ultimately show ?thesis
    using hashes same_state_passes
    by (cases "test_decode_hex expected") (auto simp: vms canonical_case_def must_def)
qed

text \<open>A test with one key passes exactly when every recorded digest is right; the control register it leaves
  selects the mode of the one it found once the mode is reset.\<close>

definition vectors_right ::
    "(nat \<Rightarrow> u8 list \<Rightarrow> u8 list) \<Rightarrow> FpEnv \<Rightarrow> u8 list \<Rightarrow> (u8 list \<times> str) list \<Rightarrow> bool" where
  "vectors_right hash env key cases \<longleftrightarrow>
     (\<forall>(input, expected) \<in> set cases. digest_of hash env key input = test_decode_hex expected)"

lemma canonical_hashes_exact:
  assumes "digest_length hash" "rejection_ends (hash 64)" "env \<noteq> No_env"
    and "env' \<noteq> No_env" "set_rounding_mode_env 0 env' = set_rounding_mode_env 0 env"
  shows "if vectors_right hash env key cases
    then \<exists>env''. assert_canonical_hashes hash key cases env' = Some env'' \<and> env'' \<noteq> No_env \<and>
           set_rounding_mode_env 0 env'' = set_rounding_mode_env 0 env
    else assert_canonical_hashes hash key cases env' = None"
proof -
  obtain memory where m: "light hash key = Some memory" "vm_memory_ok memory"
    "\<And>input. \<exists>digest vm. calculate_hash hash input (new_vm memory env) = Some (digest, vm) \<and>
       digest_of hash env key input = Some digest"
    using fresh_digest [OF assms(1-3)] by metis
  let ?inv = "\<lambda>vms. pair_inv memory env vms \<and> fp_env (snd vms) = fp_env (fst vms)"
  let ?good = "\<lambda>(input, expected). digest_of hash env key input = test_decode_hex expected"
  have step: "if ?good x then \<exists>vms'. canonical_case hash x vms = Some vms' \<and> ?inv vms' else canonical_case hash x vms = None"
    if "?inv vms" for x vms
  proof -
    obtain input expected where x: "x = (input, expected)" by (cases x)
    obtain digest vm where d: "calculate_hash hash input (new_vm memory env) = Some (digest, vm)"
      "digest_of hash env key input = Some digest" using m(3) by blast
    show ?thesis
      using canonical_case_exact [OF assms(1) m(2) assms(3) _ d(1), of vms expected] that d(2)
      by (auto simp: x split: if_splits)
  qed
  let ?vms = "(new_vm memory env', new_vm memory env')"
  have "vm_ok (new_vm memory env')" "mem (new_vm memory env') = memory" "fp_env (new_vm memory env') = env'"
    using new_vm_ok by (simp_all add: new_vm_def)
  then have "?inv ?vms" using assms(4,5) by (simp add: pair_inv_def)
  from foldl_option_exact [where f = "canonical_case hash" and P = ?inv and good = ?good and xs = cases, OF step this]
  show ?thesis
    using m(1) by (auto simp: assert_canonical_hashes_def vectors_right_def pair_inv_def split: if_splits)
qed

lemma chunks_of_pairs: "chunks_exact 2 (x # y # xs) = [x, y] # chunks_exact 2 xs" "chunks_exact 2 [] = []"
  by (subst chunks_exact.simps; simp)+

lemma stable_test_exact:
  assumes "digest_length hash" "rejection_ends (hash 64)" "env \<noteq> No_env"
  shows "stable_hash_api_matches_canonical_vector hash env =
    must (digest_of hash env (lit ''test key 000'') (lit ''This is a test'') =
      test_decode_hex (lit ''639183aae1bf4c9a35884cb46b09cad9175f04efd7684e7262a0ac1c2f0b4e3f''))"
proof -
  let ?expected = "lit ''639183aae1bf4c9a35884cb46b09cad9175f04efd7684e7262a0ac1c2f0b4e3f''"
  obtain memory where m: "light hash (lit ''test key 000'') = Some memory" "vm_memory_ok memory"
    "\<exists>digest vm. calculate_hash hash (lit ''This is a test'') (new_vm memory env) = Some (digest, vm) \<and>
       digest_of hash env (lit ''test key 000'') (lit ''This is a test'') = Some digest"
    using fresh_digest [OF assms] by metis
  have "vm_ok (new_vm memory env)" "mem (new_vm memory env) = memory" "fp_env (new_vm memory env) = env"
    using new_vm_ok by (simp_all add: new_vm_def)
  then have "sp1_hash hash env (lit ''test key 000'') (lit ''This is a test'') =
      digest_of hash env (lit ''test key 000'') (lit ''This is a test'')"
    using m host_hashes_agree [OF assms(1), of "new_vm memory env" "lit ''This is a test''"] assms(3)
    by (auto simp: sp1_hash_def RANDOMX_HASH_SIZE_def)
  moreover obtain v where "test_decode_hex ?expected = Some v"
    by (simp add: test_decode_hex_def lit_def test_digit_def must_def chunks_of_pairs)
  ultimately show ?thesis
    using m(3) by (auto simp: stable_hash_api_matches_canonical_vector_def must_def)
qed

lemma canonical_test_exact:
  assumes "digest_length hash" "rejection_ends (hash 64)" "env \<noteq> No_env"
  shows "canonical_v1_interpreter_hash_and_rounding_vectors hash env =
    must (vectors_right hash env (lit ''test key 000'') key_000_cases \<and>
      (\<exists>e. test_decode_hex input_e_hex = Some e \<and> vectors_right hash env (lit ''test key 001'') (key_001_cases e)) \<and>
      (\<exists>f. test_decode_hex input_f_hex = Some f \<and> vectors_right hash env key_f (key_f_cases f)))"
proof -
  have run: "if vectors_right hash env key cases
    then \<exists>env''. assert_canonical_hashes hash key cases env' = Some env'' \<and> env'' \<noteq> No_env \<and>
           set_rounding_mode_env 0 env'' = set_rounding_mode_env 0 env
    else assert_canonical_hashes hash key cases env' = None"
    if "env' \<noteq> No_env" "set_rounding_mode_env 0 env' = set_rounding_mode_env 0 env" for env' key cases
    using canonical_hashes_exact [OF assms that] .
  show ?thesis
  proof (cases "vectors_right hash env (lit ''test key 000'') key_000_cases")
    case True
    then obtain env1 where env1: "assert_canonical_hashes hash (lit ''test key 000'') key_000_cases env = Some env1"
      "env1 \<noteq> No_env" "set_rounding_mode_env 0 env1 = set_rounding_mode_env 0 env"
      using run [OF assms(3) refl, of "lit ''test key 000''" key_000_cases] by auto
    show ?thesis
    proof (cases "\<exists>e. test_decode_hex input_e_hex = Some e \<and> vectors_right hash env (lit ''test key 001'') (key_001_cases e)")
      case e: True
      then obtain e env2 where e: "test_decode_hex input_e_hex = Some e"
        "vectors_right hash env (lit ''test key 001'') (key_001_cases e)"
        "assert_canonical_hashes hash (lit ''test key 001'') (key_001_cases e) env1 = Some env2"
        "env2 \<noteq> No_env" "set_rounding_mode_env 0 env2 = set_rounding_mode_env 0 env"
        using run [OF env1(2,3), of "lit ''test key 001''"] by metis
      show ?thesis
        using True env1(1) e(1-3) run [OF e(4,5), of key_f "key_f_cases (the (test_decode_hex input_f_hex))"]
        by (cases "test_decode_hex input_f_hex")
          (auto simp: canonical_v1_interpreter_hash_and_rounding_vectors_def must_def split: if_splits)
    next
      case False
      then show ?thesis
        using True env1(1) run [OF env1(2,3), of "lit ''test key 001''"]
        by (cases "test_decode_hex input_e_hex")
          (auto simp: canonical_v1_interpreter_hash_and_rounding_vectors_def must_def)
    qed
  next
    case False
    then show ?thesis
      using run [OF assms(3) refl, of "lit ''test key 000''" key_000_cases]
      by (simp add: canonical_v1_interpreter_hash_and_rounding_vectors_def must_def)
  qed
qed

text \<open>C39: on a host each hash test passes exactly when a fresh reference machine over the memory of its key
  computes the recorded digests: the compact machine, the state comparison, the reuse of the machines for
  several inputs and the check of the rounding mode never make a test fail. In particular the test of the
  public interface passes whenever the canonical vectors do.\<close>

theorem hash_tests_exact:
  assumes "digest_length hash" "rejection_ends (hash 64)" "env \<noteq> No_env"
  shows "all_rounding_modes_hash_matches_official_randomx hash env =
      must (digest_of hash env block_seed rounding_blob = Some rounding_expected) \<and>
    original_block_hash_matches_reference_and_official_randomx hash env =
      must (digest_of hash env block_seed original_blob = Some original_expected) \<and>
    canonical_v1_interpreter_hash_and_rounding_vectors hash env =
      must (vectors_right hash env (lit ''test key 000'') key_000_cases \<and>
        (\<exists>e. test_decode_hex input_e_hex = Some e \<and> vectors_right hash env (lit ''test key 001'') (key_001_cases e)) \<and>
        (\<exists>f. test_decode_hex input_f_hex = Some f \<and> vectors_right hash env key_f (key_f_cases f))) \<and>
    (canonical_v1_interpreter_hash_and_rounding_vectors hash env = Some () \<longrightarrow>
      stable_hash_api_matches_canonical_vector hash env = Some ())"
  using canonical_test_exact [OF assms] stable_test_exact [OF assms] block_hash_test_exact [OF assms]
  by (simp add: all_rounding_modes_hash_matches_official_randomx_def must_def vectors_right_def key_000_cases_def
      original_block_hash_matches_reference_and_official_randomx_def)

lemma recorded_hash_function:
  defines "h \<equiv> \<lambda>n (x :: u8 list). if n = (32 :: nat) then rounding_expected else replicate n 7"
  shows "digest_length h" "rejection_ends (h 64)"
proof -
  have "h 64 = (\<lambda>n x. replicate n 7) 64" by (simp add: h_def)
  then show "rejection_ends (h 64)" using const_digest(2) by simp
  have "length rounding_expected = 32" by (simp add: rounding_expected_def)
  then show "digest_length h" by (simp add: h_def digest_length_def)
qed

theorem hash_tests_exact_witness:
  "all_rounding_modes_hash_matches_official_randomx
     (\<lambda>n x. if n = 32 then rounding_expected else replicate n 7) (Mxcsr 0x1f80) = Some ()"
proof -
  let ?hash = "\<lambda>n (x :: u8 list). if n = 32 then rounding_expected else replicate n 7"
  have env: "Mxcsr 0x1f80 \<noteq> No_env" by simp
  obtain digest where digest: "digest_of ?hash (Mxcsr 0x1f80) block_seed rounding_blob = Some digest"
    using digest_of_total [OF recorded_hash_function env] by blast
  then have "digest = rounding_expected" using digest_of_last [OF digest] by simp
  then show ?thesis
    using hash_tests_exact [OF recorded_hash_function env, THEN conjunct1] digest by (simp only: must_def refl if_True)
qed

end
