(* ===== verification/Spec2Isabelle.thy ===== *)
theory Spec2Isabelle
  imports Common Softfp M128 AesHash Superscalar SuperscalarExec Argon2 Memory Program Vm VmSafety Compact Lockstep FloatDomain FloatLevel CompactSafety FloatBound Equivalence RustStd Monero MoneroTree NetworkProver NetworkRun Executor AuditTools SoftfpGuest ProgramText AesHardware Differential GuestPrograms MachineReuse SoftfpTests SoftfpHost TextOutput CoreTests ToolTests MachineTests
begin

text \<open>
  A verification library of a RandomX implementation for the SP1 zkVM.

  \<^bold>\<open>The program.\<close> The repository computes the RandomX proof-of-work hash inside a zero-knowledge
  virtual machine. \<open>program/\<close> is the guest program: it reads a key and a blob and commits
  \<open>hash(key, blob)\<close>. \<open>randomx-sp1/\<close> is the optimised interpreter behind \<open>hash\<close>;
  \<open>randomx-core/\<close> holds the reference interpreter and what both share: the AES generators, the
  superscalar generator, the cache and the program decoder. \<open>argon2/\<close> fills the cache and
  \<open>softfp/\<close> is the directed-rounding arithmetic that the guest needs because it has no rounding
  mode. \<open>audit/\<close> compares the two interpreters with each other, with the official library and with
  recorded Monero blocks; \<open>executor/\<close> runs the guest and estimates its cost; \<open>network-prover/\<close>
  requests a proof of one block from the proving network and stores it.

  \<^bold>\<open>Conventions.\<close> The model is the release build for the guest (riscv64, 64-bit \<open>usize\<close>) with
  the features \<open>unchecked-superscalar\<close>, \<open>compact-superscalar\<close> and
  \<open>precompute-reciprocal\<close>; where the code also runs on a host, the control register of the host is
  part of the state. Machine integers are words, arithmetic wraps, debug assertions are absent.
  A panic and an access that would be undefined behaviour are both \<open>None\<close> (in the tools,
  \<open>Panic\<close>), so that a theorem that a function returns \<open>Some\<close> excludes them. Function pointers
  are values of a datatype with an interpreter. Loops that might not end are
  \<open>partial_function (option)\<close>, and that they end is proved. Code outside the repository is a
  parameter: Blake2b is \<open>hash n x\<close> with the hypothesis \<open>digest_length\<close> (the digest has
  the requested length) and, for the superscalar generator, \<open>rejection_ends\<close> (each rejection loop
  meets an acceptable value); Keccak, the SP1 SDK (record \<open>sdk\<close>), the SP1 executor (record
  \<open>runner\<close>), the official C++ library and the zkVM input stream are function parameters.

  \<^bold>\<open>Theories and sources.\<close>
  \<^item> \<open>Prelude\<close>: words, byte conversions, option loops, rotations and the lemma collections.
    \<open>RustStd\<close>: results, strings, UTF-8, number parsing and formatting of the standard library.
    \<open>Registers\<close> (locale \<open>offset_registers\<close>): register files addressed by byte offsets,
    interpreted for the superscalar executor and the compact machine. \<open>BranchLoop\<close> (locale
    \<open>branch_machine\<close>): the termination argument for a loop over 256 instructions with backward
    branches, interpreted for the reference and for the compact machine.
  \<^item> \<open>Common\<close>: \<open>randomx-core/src/common.rs\<close>.
  \<^item> \<open>Float64\<close>: binary64 values and IEEE 754 rounding, the reference for floating point.
    \<open>Softfp\<close>: \<open>softfp/src/lib.rs\<close>. \<open>SoftfpGuest\<close>: \<open>softfp/src/guest.rs\<close>.
    \<open>SoftfpHost\<close>: the build of the same library for other targets. \<open>SoftfpTests\<close>: its test module.
  \<^item> \<open>M128\<close>, \<open>AesHardware\<close>: \<open>randomx-core/src/m128.rs\<close>, the portable rounds and
    the dispatch to vector instructions. \<open>AesHash\<close>: \<open>hash.rs\<close>.
  \<^item> \<open>Superscalar\<close>, \<open>SuperscalarExec\<close>: generation and execution in \<open>superscalar.rs\<close>.
  \<^item> \<open>Argon2\<close>: the crate \<open>argon2\<close>. \<open>Memory\<close>: \<open>memory.rs\<close>, with the locale
    \<open>dataset\<close> that the machines use.
  \<^item> \<open>Program\<close>, \<open>ProgramOk\<close>, \<open>ProgramText\<close>: \<open>program.rs\<close>, the decoder, what
    it guarantees, and the text form.
  \<^item> \<open>Vm\<close>, \<open>VmSafety\<close>: \<open>vm.rs\<close>, the reference machine, and its totality.
  \<^item> \<open>Compact\<close>, \<open>CompactSafety\<close>: \<open>randomx-sp1/src/lib.rs\<close>, the production machine,
    and the bounds of its unchecked accesses. \<open>Lockstep\<close>, \<open>FloatDomain\<close>,
    \<open>FloatLevel\<close>, \<open>FloatBound\<close>, \<open>Equivalence\<close>: its agreement with the reference machine,
    down to the finiteness of the additive registers.
    \<open>Differential\<close>: the differential audit of the same file. \<open>MachineReuse\<close>: a machine that is
    used for many inputs, and with it the validation of the recorded blocks.
  \<^item> \<open>GuestPrograms\<close>: the programs under \<open>program/src\<close>.
  \<^item> \<open>Monero\<close>, \<open>MoneroTree\<close>: \<open>audit/src/monero.rs\<close>. \<open>AuditTools\<close>:
    \<open>network_fixtures.rs\<close>, \<open>official.rs\<close>, the commitment and the three binaries.
  \<^item> \<open>NetworkProver\<close>, \<open>NetworkRun\<close>: \<open>network-prover/src/main.rs\<close>, the pure part and
    the part with files, requests and services. \<open>Executor\<close>: \<open>executor/src/main.rs\<close>.
    \<open>TextOutput\<close>: the printed form of vectors, superscalar programs and quotes.
  \<^item> \<open>CoreTests\<close>, \<open>ToolTests\<close>, \<open>MachineTests\<close>: the test modules inside the source files, one
    definition per test, with \<open>audit/build.rs\<close> and the offline check of the released proof,
    \<open>verify-proof.rs\<close> under \<open>evidence\<close>.

  \<^bold>\<open>What is shown.\<close> The five operations of softfp return the IEEE 754 result of each rounding mode
  for all operands that are not NaN (and non-zero divisors), on the guest and, with a softfloat package that
  follows IEEE 754, on every other target. The AES rounds are those of the standard
  on every processor. The Argon2 fill never reads memory it has not written, and computes the
  Argon2d recurrence; dataset items are the specified ones; the superscalar generator returns
  and its four executors agree. Every decoded instruction runs without a panic. The instruction loop of
  both machines ends after at most 768 instructions, three times the length of a program: by the laws
  of \<open>branch_machine\<close> a branch is taken at most twice before the loop moves past it.
  Both hash functions return 32 bytes for every input, with every unchecked access in bounds, and
  restore the control register of the host. The compact machine computes what the reference machine
  computes, instruction by instruction, for every program, key and input: the code fixes no NaN
  payload, so this rests on the fact that no additive register ever becomes infinite or a NaN
  (\<open>FloatLevel\<close> and \<open>FloatBound\<close> bound how far additions and \<open>FSCAL_R\<close> raise its exponent within
  the 768 instructions of an iteration). The guest program commits that digest, and the differential
  audit passes all its assertions and returns it. For the tools: which texts are decoded, that encodings round-trip, that the
  tree hash has the CryptoNote shape and the hashing blob binds the block, that a proof request is
  sent at most once and only after every check, that a stored proof was verified, that the
  result of the parallel gas estimation does not depend on the schedule, and what a successful run
  of each tool guarantees. A machine that has computed hashes before computes the same digest and the
  same final state as a fresh one, so the validation of the recorded blocks accepts exactly the
  fixtures whose checks hold and whose digests are right. The tests inside the source files pass: those
  that compare two computations do so for every hash function that meets the hypotheses, softfp and
  its host build against every package that follows IEEE 754, and a test with recorded digests passes
  exactly when the reference machine computes them, since no other assertion of it can fail.

  \<^bold>\<open>Not modelled.\<close> The integration tests in the directories \<open>tests\<close>; the recorded digests themselves,
  which fix the hash function, a parameter here; the timing loop of \<open>m128.rs\<close> and the selector test of
  the prover, which only exercise the clock and generated code; the foreign declarations of
  \<open>audit/src/official.rs\<close>, since the official library is not in the repository; progress messages;
  the layout of records in memory beyond their size; timing and memory limits of the zkVM; the
  statistics of the superscalar generator that are compiled only for tests.
\<close>

end
